(* ===== verification/Session_Jwt.thy ===== *)
theory Session_Jwt
  imports Rust_Prelude
begin

text \<open>
  In-process session verification: the claims and their headers (\<open>auth-core/src/jwt.rs\<close>), the JWKS
  cache and the chain of verifiers (\<open>auth-core/src/jwks.rs\<close>), the session cookie
  (\<open>auth-core/src/session.rs\<close> and \<open>SessionMultiVerifier\<close> of \<open>gateway/src/auth.rs\<close>). Signature checks
  and the JWT format are the \<open>jsonwebtoken\<close> crate's: \<open>jwt_ops\<close> has the calls made of it, \<open>decode\<close> with
  the key, the algorithm and the issuer and audience it is asked to enforce. A fetch of the key set
  is an argument (the outcome the network gives). Headers are an association list in insertion
  order, with distinct names.
\<close>

section \<open>Claims\<close>

datatype audience = One string | Many "string list"

record volta_claims =
  cl_sub :: string
  cl_email :: "string option"
  cl_tenant_id :: "string option"
  cl_tenant_slug :: "string option"
  cl_roles :: "string option"
  cl_name :: "string option"
  cl_app_id :: "string option"
  cl_iat :: "u64 option"
  cl_exp :: "u64 option"
  cl_jti :: "string option"
  cl_aud :: "audience option"
  cl_scope :: "string option"

datatype jwt_error = JwtExpired | InvalidSignature | InvalidToken string | MissingClaims string

fun show_jwt_error :: "jwt_error \<Rightarrow> string" where
  "show_jwt_error JwtExpired = ''token expired''"
| "show_jwt_error InvalidSignature = ''invalid signature''"
| "show_jwt_error (InvalidToken e) = ''invalid token: '' @ e"
| "show_jwt_error (MissingClaims c) = ''missing claims: '' @ c"

fun aud_contains :: "audience \<Rightarrow> string \<Rightarrow> bool" where
  "aud_contains (One a) v = (a = v)"
| "aud_contains (Many as) v = list_ex (\<lambda>a. a = v) as"

definition allows_audience :: "volta_claims \<Rightarrow> string \<Rightarrow> bool" where
  "allows_audience c host = (case cl_aud c of None \<Rightarrow> True | Some a \<Rightarrow> aud_contains a host)"

definition opt_header :: "string \<Rightarrow> string option \<Rightarrow> (string \<times> string) list" where
  "opt_header name v = (case v of None \<Rightarrow> [] | Some x \<Rightarrow> [(name, x)])"

definition to_volta_headers :: "volta_claims \<Rightarrow> (string \<times> string) list" where
  "to_volta_headers c =
     (''x-volta-user-id'', cl_sub c) # opt_header ''x-volta-email'' (cl_email c)
     @ opt_header ''x-volta-tenant-id'' (cl_tenant_id c)
     @ opt_header ''x-volta-tenant-slug'' (cl_tenant_slug c)
     @ opt_header ''x-volta-roles'' (cl_roles c)
     @ opt_header ''x-volta-display-name'' (cl_name c)"

section \<open>The crate's calls\<close>

datatype algorithm = RS256 | HS256 | OtherAlg

record jwt_checks =
  jc_alg :: algorithm
  jc_issuer :: "string option"
  jc_audience :: "string option"

record jwt_header =
  jh_alg :: algorithm
  jh_kid :: "string option"

record jwt_ops =
  decode_header :: "string \<Rightarrow> jwt_header option"
  jwt_decode :: "string \<Rightarrow> string \<Rightarrow> jwt_checks \<Rightarrow> (string, volta_claims) result"

definition map_jwt_err :: "string \<Rightarrow> jwt_error" where
  "map_jwt_err msg =
     (if contains_sub msg ''ExpiredSignature'' then JwtExpired
      else if contains_sub msg ''InvalidSignature'' then InvalidSignature
      else InvalidToken msg)"

text \<open>Signing is the crate's \<open>encode\<close> under the issuer's key and header.\<close>

record jwt_issuer =
  ji_encode :: "volta_claims \<Rightarrow> (string, string) result"
  ji_ttl_secs :: u64

definition jwt_issue :: "jwt_issuer \<Rightarrow> u64 \<Rightarrow> volta_claims \<Rightarrow> (jwt_error, string) result" where
  "jwt_issue i now c =
     (case ji_encode i (c \<lparr> cl_iat := Some now, cl_exp := Some (now + ji_ttl_secs i) \<rparr>) of
        Inl e \<Rightarrow> Inl (InvalidToken (''encoding failed: '' @ e))
      | Inr t \<Rightarrow> Inr t)"

section \<open>JWKS cache\<close>

record cached_keys =
  ck_keys :: "string \<rightharpoonup> string"
  ck_fetched :: instant
  ck_last_forced :: "instant option"

record jwks_cache =
  jw_ttl :: nat
  jw_inner :: "cached_keys option"

definition FORCE_REFRESH_MIN_INTERVAL :: nat where
  "FORCE_REFRESH_MIN_INTERVAL = from_secs 10"

definition new_jwks :: jwks_cache where
  "new_jwks = \<lparr> jw_ttl = from_secs 300, jw_inner = None \<rparr>"

definition jwks_lookup :: "jwks_cache \<Rightarrow> string \<Rightarrow> string option" where
  "jwks_lookup c kid = Option.bind (jw_inner c) (\<lambda>k. ck_keys k kid)"

text \<open>\<open>fetched\<close> is the outcome of the request: the usable RSA keys of the set, by \<open>kid\<close>, or an error.\<close>

definition jwks_refresh :: "jwks_cache \<Rightarrow> instant \<Rightarrow> (string, string \<rightharpoonup> string) result \<Rightarrow> (string, jwks_cache) result" where
  "jwks_refresh c now fetched =
     (case fetched of
        Inl e \<Rightarrow> Inl e
      | Inr keys \<Rightarrow>
          Inr (c \<lparr> jw_inner := Some \<lparr> ck_keys = keys, ck_fetched = now,
                     ck_last_forced = Option.bind (jw_inner c) ck_last_forced \<rparr> \<rparr>))"

definition should_refresh :: "jwks_cache \<Rightarrow> instant \<Rightarrow> bool" where
  "should_refresh c now =
     (case jw_inner c of
        None \<Rightarrow> True
      | Some k \<Rightarrow>
          jw_ttl c \<le> elapsed now (ck_fetched k) \<or>
          (case ck_last_forced k of
             None \<Rightarrow> True | Some t \<Rightarrow> FORCE_REFRESH_MIN_INTERVAL \<le> elapsed now t))"

definition mark_forced :: "jwks_cache \<Rightarrow> instant \<Rightarrow> jwks_cache" where
  "mark_forced c now = c \<lparr> jw_inner := map_option (\<lambda>k. k \<lparr> ck_last_forced := Some now \<rparr>) (jw_inner c) \<rparr>"

text \<open>The result, the cache afterwards, and whether the endpoint was asked.\<close>

definition key_for_kid ::
    "jwks_cache \<Rightarrow> instant \<Rightarrow> (string, string \<rightharpoonup> string) result \<Rightarrow> string \<Rightarrow> string option \<times> jwks_cache \<times> bool" where
  "key_for_kid c now fetched kid =
     (case jwks_lookup c kid of
        Some k \<Rightarrow> (Some k, c, False)
      | None \<Rightarrow>
          (if should_refresh c now
           then (let c' = mark_forced c now
                 in case jwks_refresh c' now fetched of
                      Inl e \<Rightarrow> (None, c', True)
                    | Inr c'' \<Rightarrow> (jwks_lookup c'' kid, c'', True))
           else (jwks_lookup c kid, c, False)))"

section \<open>The chain of verifiers\<close>

record multi_verifier =
  mv_jwks :: "jwks_cache option"
  mv_rsa_pem :: "string option"
  mv_hs256 :: "string option"
  mv_issuer :: "string option"
  mv_audience :: "string option"

definition finalize :: "volta_claims \<Rightarrow> (jwt_error, volta_claims) result" where
  "finalize c = (if cl_sub c = [] then Inl (MissingClaims ''sub'') else Inr c)"

definition verify_key ::
    "jwt_ops \<Rightarrow> string \<Rightarrow> string \<Rightarrow> jwt_checks \<Rightarrow> (jwt_error, volta_claims) result" where
  "verify_key ops token key checks =
     (case jwt_decode ops token key checks of Inl m \<Rightarrow> Inl (map_jwt_err m) | Inr c \<Rightarrow> finalize c)"

definition verify_rs256 :: "jwt_ops \<Rightarrow> multi_verifier \<Rightarrow> string \<Rightarrow> string \<Rightarrow> (jwt_error, volta_claims) result" where
  "verify_rs256 ops v token key =
     verify_key ops token key
       \<lparr> jc_alg = RS256, jc_issuer = mv_issuer v, jc_audience = mv_audience v \<rparr>"

definition verify_hs256 :: "jwt_ops \<Rightarrow> string \<Rightarrow> string \<Rightarrow> (jwt_error, volta_claims) result" where
  "verify_hs256 ops token key =
     verify_key ops token key \<lparr> jc_alg = HS256, jc_issuer = None, jc_audience = None \<rparr>"

text \<open>One source of the chain: a success ends it, an error is remembered.\<close>

definition try_source ::
    "(jwt_error, volta_claims) result option \<Rightarrow> (jwt_error, volta_claims) result \<Rightarrow> (jwt_error, volta_claims) result" where
  "try_source attempt so_far =
     (case so_far of
        Inr c \<Rightarrow> Inr c
      | Inl e \<Rightarrow> (case attempt of None \<Rightarrow> Inl e | Some r \<Rightarrow> r))"

definition static_sources ::
    "jwt_ops \<Rightarrow> multi_verifier \<Rightarrow> string \<Rightarrow> (jwt_error, volta_claims) result \<Rightarrow> (jwt_error, volta_claims) result" where
  "static_sources ops v token so_far =
     try_source (map_option (verify_hs256 ops token) (mv_hs256 v))
       (try_source (map_option (verify_rs256 ops v token) (mv_rsa_pem v)) so_far)"

definition no_verifier :: "(jwt_error, volta_claims) result" where
  "no_verifier = Inl (InvalidToken ''no verifier configured'')"

definition verify_async ::
    "jwt_ops \<Rightarrow> instant \<Rightarrow> (string, string \<rightharpoonup> string) result \<Rightarrow> multi_verifier \<Rightarrow> string \<Rightarrow>
     (jwt_error, volta_claims) result \<times> multi_verifier" where
  "verify_async ops now fetched v token =
     (case mv_jwks v of
        None \<Rightarrow> (static_sources ops v token no_verifier, v)
      | Some jwks \<Rightarrow>
          (case decode_header ops token of
             None \<Rightarrow> (static_sources ops v token no_verifier, v)
           | Some header \<Rightarrow>
               (if jh_alg header \<noteq> RS256 then (static_sources ops v token no_verifier, v)
                else (case jh_kid header of
                        None \<Rightarrow>
                          (static_sources ops v token (Inl (InvalidToken ''RS256 token missing kid'')), v)
                      | Some kid \<Rightarrow>
                          (case key_for_kid jwks now fetched kid of
                             (None, jwks', _) \<Rightarrow>
                               (static_sources ops v token (Inl (InvalidToken (''unknown kid '' @ kid))),
                                v \<lparr> mv_jwks := Some jwks' \<rparr>)
                           | (Some key, jwks', _) \<Rightarrow>
                               (static_sources ops v token (verify_rs256 ops v token key),
                                v \<lparr> mv_jwks := Some jwks' \<rparr>))))))"

definition verify_sync :: "jwt_ops \<Rightarrow> multi_verifier \<Rightarrow> string \<Rightarrow> (jwt_error, volta_claims) result" where
  "verify_sync ops v token =
     static_sources ops v token
       (case mv_jwks v of
          None \<Rightarrow> no_verifier
        | Some jwks \<Rightarrow>
            (case decode_header ops token of
               None \<Rightarrow> no_verifier
             | Some header \<Rightarrow>
                 (if jh_alg header \<noteq> RS256 then no_verifier
                  else (case jh_kid header of
                          None \<Rightarrow> no_verifier
                        | Some kid \<Rightarrow>
                            (case jwks_lookup jwks kid of
                               Some key \<Rightarrow> verify_rs256 ops v token key
                             | None \<Rightarrow> Inl (InvalidToken (''unknown kid '' @ kid)))))))"

section \<open>The session cookie\<close>

datatype session_result = SessionValid "(string \<times> string) list" | SessionExpired | SessionInvalid string | NoSession

fun extract_pairs :: "string \<Rightarrow> string list \<Rightarrow> string option" where
  "extract_pairs name [] = None"
| "extract_pairs name (pair # rest) =
     (case Option.bind (strip_prefix (trim pair) name) (\<lambda>r. strip_prefix r ''='') of
        Some v \<Rightarrow> Some v | None \<Rightarrow> extract_pairs name rest)"

definition extract_cookie_value :: "string \<Rightarrow> string \<Rightarrow> string option" where
  "extract_cookie_value cookie_header name = extract_pairs name (split_on CHR '';'' cookie_header)"

definition map_session :: "(jwt_error, volta_claims) result \<Rightarrow> session_result" where
  "map_session r =
     (case r of
        Inr c \<Rightarrow> SessionValid (to_volta_headers c)
      | Inl JwtExpired \<Rightarrow> SessionExpired
      | Inl e \<Rightarrow> SessionInvalid (show_jwt_error e))"

record session_verifier =
  sv_verifier :: multi_verifier
  sv_cookie_name :: string

definition verify_cookie_async ::
    "jwt_ops \<Rightarrow> instant \<Rightarrow> (string, string \<rightharpoonup> string) result \<Rightarrow> session_verifier \<Rightarrow> string option \<Rightarrow>
     session_result \<times> session_verifier" where
  "verify_cookie_async ops now fetched sv cookie_header =
     (case Option.bind cookie_header (\<lambda>c. extract_cookie_value c (sv_cookie_name sv)) of
        None \<Rightarrow> (NoSession, sv)
      | Some token \<Rightarrow>
          (case verify_async ops now fetched (sv_verifier sv) token of
             (r, v') \<Rightarrow> (map_session r, sv \<lparr> sv_verifier := v' \<rparr>)))"

definition verify_cookie :: "jwt_ops \<Rightarrow> session_verifier \<Rightarrow> string option \<Rightarrow> session_result" where
  "verify_cookie ops sv cookie_header =
     (case Option.bind cookie_header (\<lambda>c. extract_cookie_value c (sv_cookie_name sv)) of
        None \<Rightarrow> NoSession
      | Some token \<Rightarrow> map_session (verify_sync ops (sv_verifier sv) token))"

section \<open>Properties\<close>

text \<open>
  A token is vouched for by a configured source: decoded under a key of the key set or under the
  configured public key with the configured issuer and audience enforced, or under the shared
  secret, and in each case with a subject.
\<close>

definition vouched :: "jwt_ops \<Rightarrow> multi_verifier \<Rightarrow> string set \<Rightarrow> string \<Rightarrow> volta_claims \<Rightarrow> bool" where
  "vouched ops v jwks_keys token c \<longleftrightarrow> cl_sub c \<noteq> [] \<and>
     ((\<exists>key. (key \<in> jwks_keys \<or> mv_rsa_pem v = Some key) \<and>
         jwt_decode ops token key
           \<lparr> jc_alg = RS256, jc_issuer = mv_issuer v, jc_audience = mv_audience v \<rparr> = Inr c) \<or>
      (\<exists>key. mv_hs256 v = Some key \<and>
         jwt_decode ops token key \<lparr> jc_alg = HS256, jc_issuer = None, jc_audience = None \<rparr> = Inr c))"

lemma verify_key_ok: "verify_key ops token key ch = Inr c \<Longrightarrow> jwt_decode ops token key ch = Inr c \<and> cl_sub c \<noteq> []"
  by (auto simp: verify_key_def finalize_def split: sum.splits if_splits)

lemma static_sources_ok:
  assumes "static_sources ops v token so_far = Inr c"
  shows "so_far = Inr c \<or> vouched ops v {} token c"
  using assms
  by (auto simp: static_sources_def try_source_def vouched_def verify_rs256_def verify_hs256_def
      dest: verify_key_ok split: sum.splits option.splits)

lemma vouched_mono: "vouched ops v A token c \<Longrightarrow> A \<subseteq> B \<Longrightarrow> vouched ops v B token c"
  unfolding vouched_def by blast

lemma rs256_vouched: "verify_rs256 ops v token key = Inr c \<Longrightarrow> key \<in> A \<Longrightarrow> vouched ops v A token c"
  unfolding verify_rs256_def vouched_def by (drule verify_key_ok) blast

lemma key_for_kid_keys:
  assumes "key_for_kid c now fetched kid = (Some key, c', asked)"
  shows "jwks_lookup c kid = Some key \<or> (\<exists>keys. fetched = Inr keys \<and> keys kid = Some key)"
  using assms
  by (auto simp: key_for_kid_def jwks_refresh_def jwks_lookup_def Let_def split: option.splits if_splits sum.splits)

definition known_keys :: "multi_verifier \<Rightarrow> (string, string \<rightharpoonup> string) result \<Rightarrow> string set" where
  "known_keys v fetched =
     {key. \<exists>jwks kid. mv_jwks v = Some jwks \<and>
        (jwks_lookup jwks kid = Some key \<or> (\<exists>keys. fetched = Inr keys \<and> keys kid = Some key))}"

lemma verify_sound:
  assumes "verify_async ops now fetched v token = (Inr c, v')"
  shows "vouched ops v (known_keys v fetched) token c"
proof -
  have st: "vouched ops v (known_keys v fetched) token c"
    if "static_sources ops v token so_far = Inr c" "so_far \<noteq> Inr c" for so_far
    using static_sources_ok [OF that(1)] that(2) vouched_mono [of ops v "{}"] by auto
  show ?thesis
  proof (cases "\<exists>jwks h kid key jwks' a. mv_jwks v = Some jwks \<and> decode_header ops token = Some h \<and>
      jh_alg h = RS256 \<and> jh_kid h = Some kid \<and> key_for_kid jwks now fetched kid = (Some key, jwks', a)")
    case True
    then obtain jwks h kid key jwks' a where k: "mv_jwks v = Some jwks" "decode_header ops token = Some h"
      "jh_alg h = RS256" "jh_kid h = Some kid" "key_for_kid jwks now fetched kid = (Some key, jwks', a)" by blast
    have "key \<in> known_keys v fetched" using key_for_kid_keys [OF k(5)] k(1) by (auto simp: known_keys_def)
    with assms k st rs256_vouched [of ops v token key c] show ?thesis by (auto simp: verify_async_def)
  next
    case False
    with assms st show ?thesis
      by (auto simp: verify_async_def no_verifier_def split: option.splits if_splits prod.splits)
  qed
qed

text \<open>
  C39: in-process verification accepts only tokens that a configured source vouches for. If the
  chain of verifiers accepts, the token decodes under a key of the JWKS endpoint (cached or just
  fetched) or the configured public key, with the configured issuer and audience enforced, or
  under the shared secret, and it names a subject; with no source configured every token is
  refused.
\<close>

theorem verify_async_sound:
  assumes "verify_async ops now fetched v token = (Inr c, v')"
  shows "vouched ops v (known_keys v fetched) token c"
  using assms by (rule verify_sound)

definition demo_claims :: volta_claims where
  "demo_claims =
     \<lparr> cl_sub = ''u1'', cl_email = None, cl_tenant_id = Some ''t1'', cl_tenant_slug = None,
       cl_roles = Some ''ADMIN'', cl_name = None, cl_app_id = None, cl_iat = None, cl_exp = None,
       cl_jti = None, cl_aud = None, cl_scope = None \<rparr>"

definition demo_jwt :: jwt_ops where
  "demo_jwt =
     \<lparr> decode_header = (\<lambda>t. Some \<lparr> jh_alg = RS256, jh_kid = Some ''k'' \<rparr>),
       jwt_decode = (\<lambda>t key ch. if t = ''good'' \<and> key = ''K'' then Inr demo_claims else Inl ''InvalidSignature'') \<rparr>"

definition demo_multi :: multi_verifier where
  "demo_multi =
     \<lparr> mv_jwks = Some new_jwks, mv_rsa_pem = None, mv_hs256 = Some ''S'',
       mv_issuer = Some ''volta-auth'', mv_audience = None \<rparr>"

lemma demo_verify: "fst (verify_async demo_jwt now (Inr [''k'' \<mapsto> ''K'']) demo_multi ''good'') = Inr demo_claims"
  by (simp add: verify_async_def demo_multi_def demo_jwt_def key_for_kid_def jwks_lookup_def new_jwks_def
        should_refresh_def mark_forced_def jwks_refresh_def static_sources_def try_source_def verify_rs256_def
        verify_key_def finalize_def demo_claims_def)

theorem verify_async_sound_witness:
  "vouched demo_jwt demo_multi (known_keys demo_multi (Inr [''k'' \<mapsto> ''K''])) ''good'' demo_claims"
proof -
  obtain v' where "verify_async demo_jwt 5 (Inr [''k'' \<mapsto> ''K'']) demo_multi ''good'' = (Inr demo_claims, v')"
    using demo_verify [of 5]
    by (cases "verify_async demo_jwt 5 (Inr [''k'' \<mapsto> ''K'']) demo_multi ''good''") auto
  then show ?thesis by (rule verify_async_sound)
qed

text \<open>
  Unknown key identifiers cannot be used to hammer the JWKS endpoint of a warm cache: after a
  lookup that asked the endpoint, no further lookup asks it for ten seconds, as long as the cached
  set is within its time to live.
\<close>

theorem jwks_forced_refresh_spaced:
  assumes "jw_inner c \<noteq> None" and "key_for_kid c now fetched kid = (r, c', True)"
    and "now \<le> now'" and "now' < now + from_secs 10"
    and "jw_inner c' = Some k" and "elapsed now' (ck_fetched k) < jw_ttl c'"
  shows "snd (snd (key_for_kid c' now' fetched' kid')) = False"
proof -
  have "\<exists>k. jw_inner c' = Some k \<and> ck_last_forced k = Some now"
    using assms(1,2)
    by (auto simp: key_for_kid_def mark_forced_def jwks_refresh_def Let_def split: option.splits if_splits sum.splits)
  with assms(3-6) show ?thesis
    by (auto simp: key_for_kid_def should_refresh_def FORCE_REFRESH_MIN_INTERVAL_def elapsed_def split: option.splits)
qed

theorem jwks_forced_refresh_spaced_witness:
  "snd (snd (key_for_kid \<lparr> jw_ttl = from_secs 300, jw_inner = Some \<lparr> ck_keys = Map.empty, ck_fetched = 4,
      ck_last_forced = Some 4 \<rparr> \<rparr> 9 (Inr Map.empty) ''y'')) = False"
proof (rule jwks_forced_refresh_spaced)
  let ?c = "\<lparr> jw_ttl = from_secs 300, jw_inner = Some \<lparr> ck_keys = Map.empty, ck_fetched = 0, ck_last_forced = None \<rparr> \<rparr>"
  show "jw_inner ?c \<noteq> None" by simp
  show "key_for_kid ?c 4 (Inr Map.empty) ''x'' = (None, \<lparr> jw_ttl = from_secs 300, jw_inner = Some \<lparr> ck_keys = Map.empty,
      ck_fetched = 4, ck_last_forced = Some 4 \<rparr> \<rparr>, True)"
    by (simp add: key_for_kid_def jwks_lookup_def should_refresh_def mark_forced_def jwks_refresh_def)
qed (simp_all add: from_secs_def elapsed_def)

text \<open>
  The spacing does not hold while the endpoint is failing. On a cold cache every lookup of
  every key identifier asks the endpoint again, however close together, because a failed fetch
  leaves nothing to remember the attempt in.
\<close>

theorem jwks_cold_cache_always_asks:
  "foldl (\<lambda>(c, n) (now, kid). case key_for_kid c now (Inl e) kid of (_, c', asked) \<Rightarrow> (c', n + of_bool asked))
     (new_jwks, 0 :: nat) reqs = (new_jwks, length reqs)"
proof -
  have step: "key_for_kid new_jwks now (Inl e) kid = (None, new_jwks, True)" for now kid
    by (simp add: key_for_kid_def jwks_lookup_def new_jwks_def should_refresh_def mark_forced_def jwks_refresh_def)
  have "foldl (\<lambda>(c, n) (now, kid). case key_for_kid c now (Inl e) kid of (_, c', asked) \<Rightarrow> (c', n + of_bool asked))
     (new_jwks, m) reqs = (new_jwks, m + length reqs)" for m :: nat
    by (induction reqs arbitrary: m) (auto simp: step)
  then show ?thesis by simp
qed

lemma volta_headers_volta: "(n, v) \<in> set (to_volta_headers c) \<Longrightarrow> starts_with n ''x-volta-''"
  by (auto simp: to_volta_headers_def opt_header_def starts_with_def split: option.splits)

lemma verify_cookie_async_valid:
  assumes "verify_cookie_async ops now fetched sv cookie = (SessionValid h, sv')"
  shows "\<exists>token c. Option.bind cookie (\<lambda>c. extract_cookie_value c (sv_cookie_name sv)) = Some token \<and>
    h = to_volta_headers c \<and> vouched ops (sv_verifier sv) (known_keys (sv_verifier sv) fetched) token c"
proof -
  from assms obtain token r v' where t: "Option.bind cookie (\<lambda>c. extract_cookie_value c (sv_cookie_name sv)) = Some token"
      "verify_async ops now fetched (sv_verifier sv) token = (r, v')" "map_session r = SessionValid h"
    by (auto simp: verify_cookie_async_def split: option.splits prod.splits)
  then obtain c where "r = Inr c" "h = to_volta_headers c"
    by (auto simp: map_session_def split: sum.splits jwt_error.splits)
  with t verify_sound show ?thesis by blast
qed

end
