(* ===== verification/Headers.thy ===== *)
theory Headers
  imports Rust_Prelude
begin

text \<open>
  HTTP header maps (\<open>http::HeaderMap\<close>) as the gateway uses them: an association list of lower-case
  names and values, in insertion order, where a name may occur several times. A value is \<open>HText s\<close>
  when \<open>HeaderValue::to_str\<close> succeeds (visible ASCII, space and tab) and \<open>HOpaque s\<close> otherwise.
  \<open>get\<close> reads the first value of a name, \<open>insert\<close> replaces all of them, \<open>append\<close> is the \<open>header\<close> call
  of the request and response builders. Looking up by a literal name is case-insensitive in the
  crate; the names of the map are lower case, so the lookups below lower-case their argument.
\<close>

datatype hvalue = HText string | HOpaque string

type_synonym header_map = "(string \<times> hvalue) list"

fun hv_bytes :: "hvalue \<Rightarrow> string" where
  "hv_bytes (HText s) = s"
| "hv_bytes (HOpaque s) = s"

fun hv_str :: "hvalue \<Rightarrow> string option" where
  "hv_str (HText s) = Some s"
| "hv_str (HOpaque s) = None"

definition h_get :: "header_map \<Rightarrow> string \<Rightarrow> hvalue option" where
  "h_get h name = map_of h (to_lower name)"

text \<open>\<open>headers.get(name).and_then(|v| v.to_str().ok())\<close>\<close>

definition h_str :: "header_map \<Rightarrow> string \<Rightarrow> string option" where
  "h_str h name = Option.bind (h_get h name) hv_str"

definition h_contains :: "header_map \<Rightarrow> string \<Rightarrow> bool" where
  "h_contains h name \<longleftrightarrow> h_get h name \<noteq> None"

definition h_remove :: "header_map \<Rightarrow> string \<Rightarrow> header_map" where
  "h_remove h name = filter (\<lambda>e. fst e \<noteq> to_lower name) h"

definition h_insert :: "header_map \<Rightarrow> string \<Rightarrow> hvalue \<Rightarrow> header_map" where
  "h_insert h name v = h_remove h name @ [(to_lower name, v)]"

definition h_append :: "header_map \<Rightarrow> string \<Rightarrow> hvalue \<Rightarrow> header_map" where
  "h_append h name v = h @ [(to_lower name, v)]"

lemma h_get_insert: "h_get (h_insert h n v) m = (if to_lower m = to_lower n then Some v else h_get h m)"
proof -
  have "map_of (filter (\<lambda>e. fst e \<noteq> a) h @ [(a, v)]) b = (if b = a then Some v else map_of h b)" for a b
    by (induction h) auto
  then show ?thesis by (simp add: h_get_def h_insert_def h_remove_def)
qed

lemma h_get_remove: "h_get (h_remove h n) m = (if to_lower m = to_lower n then None else h_get h m)"
proof -
  have "map_of (filter (\<lambda>e. fst e \<noteq> a) h) b = (if b = a then None else map_of h b)" for a b
    by (induction h) auto
  then show ?thesis by (simp add: h_get_def h_remove_def)
qed

lemma h_get_append: "h_get (h_append h n v) m = or_else (h_get h m) (if to_lower m = to_lower n then Some v else None)"
  by (auto simp: h_get_def h_append_def map_add_def or_else_def split: option.splits)

lemma set_h_insert: "set (h_insert h n v) = {e \<in> set h. fst e \<noteq> to_lower n} \<union> {(to_lower n, v)}"
  by (auto simp: h_insert_def h_remove_def)

lemma set_h_remove: "set (h_remove h n) = {e \<in> set h. fst e \<noteq> to_lower n}"
  by (auto simp: h_remove_def)

lemma set_h_append [simp]: "set (h_append h n v) = set h \<union> {(to_lower n, v)}"
  by (simp add: h_append_def)

text \<open>Names reserved for the gateway's own identity headers.\<close>

definition is_volta :: "string \<Rightarrow> bool" where
  "is_volta name = starts_with name ''x-volta-''"

end
