(* ===== verification/Policy.thy ===== *)
theory Policy
  imports Rust_Prelude
begin

text \<open>
  The role-based policy engine of \<open>auth-core/src/policy.rs\<close>. The engine's state is a record of the
  role hierarchy (highest role first) and the effective permissions; the operations keep the names
  of the source. The locale \<open>role_ranking\<close> is the contract the gateway's minimum-role check relies
  on: a rank for every role, with the unknown ones strictly below all known ones.
\<close>

section \<open>Model\<close>

datatype policy_result = Allow | Deny string | RequireMfa | RequireReauth

record policy_engine =
  hierarchy :: "string list"
  effective_permissions :: "string \<rightharpoonup> string set"

definition usize_max :: nat where
  "usize_max = 18446744073709551615"

definition viewer_permissions :: "string set" where
  "viewer_permissions = set [''read_only'']"

definition member_permissions :: "string set" where
  "member_permissions = viewer_permissions \<union> set
     [''use_apps'', ''view_own_profile'', ''update_own_profile'', ''manage_own_sessions'',
      ''view_tenant_members'', ''switch_tenant'', ''accept_invitation'']"

definition operator_permissions :: "string set" where
  "operator_permissions = member_permissions \<union> set
     [''operate_services'', ''view_service_logs'', ''restart_services'', ''access_terminal'']"

definition admin_permissions :: "string set" where
  "admin_permissions = operator_permissions \<union> set
     [''invite_members'', ''remove_members'', ''change_member_role'', ''view_invitations'',
      ''create_invitations'', ''cancel_invitations'', ''change_tenant_name'', ''view_audit_logs'']"

definition owner_permissions :: "string set" where
  "owner_permissions = admin_permissions \<union> set
     [''delete_tenant'', ''transfer_ownership'', ''manage_signing_keys'', ''change_tenant_slug'']"

definition default_policy :: policy_engine where
  "default_policy =
     \<lparr> hierarchy = [''OWNER'', ''ADMIN'', ''OPERATOR'', ''MEMBER'', ''VIEWER''],
       effective_permissions =
         [''VIEWER'' \<mapsto> viewer_permissions,
          ''MEMBER'' \<mapsto> member_permissions,
          ''OPERATOR'' \<mapsto> operator_permissions,
          ''ADMIN'' \<mapsto> admin_permissions,
          ''OWNER'' \<mapsto> owner_permissions] \<rparr>"

definition can :: "policy_engine \<Rightarrow> string \<Rightarrow> string \<Rightarrow> bool" where
  "can p role permission =
     (case effective_permissions p role of None \<Rightarrow> False | Some perms \<Rightarrow> permission \<in> perms)"

definition can_any :: "policy_engine \<Rightarrow> string list \<Rightarrow> string \<Rightarrow> bool" where
  "can_any p roles permission = list_ex (\<lambda>r. can p r permission) roles"

fun position :: "('a \<Rightarrow> bool) \<Rightarrow> 'a list \<Rightarrow> nat option" where
  "position P [] = None"
| "position P (x # xs) = (if P x then Some 0 else map_option Suc (position P xs))"

definition rank :: "policy_engine \<Rightarrow> string \<Rightarrow> nat" where
  "rank p role = (case position (\<lambda>r. r = role) (hierarchy p) of Some i \<Rightarrow> i | None \<Rightarrow> usize_max)"

definition is_at_least :: "policy_engine \<Rightarrow> string \<Rightarrow> string \<Rightarrow> bool" where
  "is_at_least p role_a role_b \<longleftrightarrow> rank p role_a \<le> rank p role_b"

definition is_known_role :: "policy_engine \<Rightarrow> string \<Rightarrow> bool" where
  "is_known_role p role = list_ex (\<lambda>r. r = role) (hierarchy p)"

fun join :: "string \<Rightarrow> string list \<Rightarrow> string" where
  "join sep [] = []"
| "join sep [x] = x"
| "join sep (x # xs) = x @ sep @ join sep xs"

definition enforce_min_role :: "policy_engine \<Rightarrow> string list \<Rightarrow> string \<Rightarrow> policy_result" where
  "enforce_min_role p roles min_role =
     (if \<not> is_known_role p min_role
      then Deny (''unknown role '' @ quoted min_role @ '' required (known: '' @ join '' > '' (hierarchy p) @ '')'')
      else if list_ex (\<lambda>r. is_at_least p r min_role) roles then Allow
      else Deny (''minimum role '' @ quoted min_role @ '' required''))"

definition enforce_permission :: "policy_engine \<Rightarrow> string list \<Rightarrow> string \<Rightarrow> policy_result" where
  "enforce_permission p roles permission =
     (if can_any p roles permission then Allow
      else Deny (''permission '' @ quoted permission @ '' denied''))"

definition permissions :: "policy_engine \<Rightarrow> string \<Rightarrow> string set" where
  "permissions p role = (case effective_permissions p role of Some s \<Rightarrow> s | None \<Rightarrow> {})"

section \<open>The ranking contract\<close>

text \<open>
  What a client of the engine relies on: a rank for every role and a predicate for the known
  ones, such that an unknown role ranks strictly below every known one. From that alone, a role
  list satisfies a known minimum role exactly if it contains a known role of at least that rank.
\<close>

locale role_ranking =
  fixes rk :: "'r \<Rightarrow> nat"
    and known :: "'r \<Rightarrow> bool"
  assumes unknown_below: "known a \<Longrightarrow> \<not> known b \<Longrightarrow> rk a < rk b"
begin

lemma at_least_known: "known m \<Longrightarrow> rk r \<le> rk m \<Longrightarrow> known r"
  by (rule ccontr) (use unknown_below [of m r] in linarith)

lemma satisfies_iff:
  "known m \<Longrightarrow> (\<exists>r \<in> set rs. rk r \<le> rk m) \<longleftrightarrow> (\<exists>r \<in> set rs. known r \<and> rk r \<le> rk m)"
  using at_least_known by blast

lemma satisfies_mono:
  "rk m \<le> rk m' \<Longrightarrow> \<exists>r \<in> set rs. rk r \<le> rk m \<Longrightarrow> \<exists>r \<in> set rs. rk r \<le> rk m'"
  by (meson order_trans)

end

lemma position_Some_less: "position P xs = Some i \<Longrightarrow> i < length xs \<and> P (xs ! i)"
  by (induction xs arbitrary: i) (auto split: if_splits)

lemma position_None_iff: "position P xs = None \<longleftrightarrow> (\<forall>x \<in> set xs. \<not> P x)"
  by (induction xs) auto

lemma is_known_role_iff: "is_known_role p role \<longleftrightarrow> role \<in> set (hierarchy p)"
  by (auto simp: is_known_role_def list_ex_iff)

lemma rank_known: "is_known_role p role \<Longrightarrow> rank p role < length (hierarchy p)"
  by (auto simp: rank_def is_known_role_iff position_None_iff
      dest: position_Some_less split: option.splits)

lemma rank_unknown: "\<not> is_known_role p role \<Longrightarrow> rank p role = usize_max"
proof -
  assume "\<not> is_known_role p role"
  then have "position (\<lambda>r. r = role) (hierarchy p) = None"
    by (auto simp: is_known_role_iff position_None_iff)
  then show ?thesis by (simp add: rank_def)
qed

lemma role_ranking_short:
  "length (hierarchy p) \<le> usize_max \<Longrightarrow> role_ranking (rank p) (is_known_role p)"
  by unfold_locales (use rank_known rank_unknown in fastforce)

lemma hierarchy_default [simp]:
  "hierarchy default_policy = [''OWNER'', ''ADMIN'', ''OPERATOR'', ''MEMBER'', ''VIEWER'']"
  by (simp add: default_policy_def)

interpretation volta_roles: role_ranking "rank default_policy" "is_known_role default_policy"
  by (rule role_ranking_short) (simp add: usize_max_def)

section \<open>Properties\<close>

lemma enforce_min_role_Allow:
  "enforce_min_role p roles m = Allow \<longleftrightarrow>
     is_known_role p m \<and> (\<exists>r \<in> set roles. is_at_least p r m)"
  by (auto simp: enforce_min_role_def list_ex_iff)

lemma effective_permissions_default:
  "effective_permissions default_policy role =
     (if role = ''OWNER'' then Some owner_permissions
      else if role = ''ADMIN'' then Some admin_permissions
      else if role = ''OPERATOR'' then Some operator_permissions
      else if role = ''MEMBER'' then Some member_permissions
      else if role = ''VIEWER'' then Some viewer_permissions else None)"
  by (simp add: default_policy_def)

lemmas permission_chain =
  member_permissions_def operator_permissions_def admin_permissions_def owner_permissions_def

abbreviation permission_levels :: "string set list" where
  "permission_levels \<equiv> [owner_permissions, admin_permissions, operator_permissions,
     member_permissions, viewer_permissions]"

lemma permissions_by_rank:
  "is_known_role default_policy a \<Longrightarrow>
   permissions default_policy a = permission_levels ! rank default_policy a"
  by (auto simp: is_known_role_iff permissions_def effective_permissions_default rank_def)

lemma permission_steps:
  "viewer_permissions \<subseteq> member_permissions" "member_permissions \<subseteq> operator_permissions"
  "operator_permissions \<subseteq> admin_permissions" "admin_permissions \<subseteq> owner_permissions"
  unfolding permission_chain by (rule Un_upper1)+

lemma permission_levels_sorted: "sorted_wrt (\<lambda>a b. b \<subseteq> a) permission_levels"
  by (simp add: permission_steps) (meson permission_steps order_trans)

lemma permission_tower:
  "i \<le> j \<Longrightarrow> j < 5 \<Longrightarrow> permission_levels ! j \<subseteq> permission_levels ! i"
  using sorted_wrt_nth_less [OF permission_levels_sorted, of i j] by (cases "i = j") auto

text \<open>
  A minimum-role check of the default policy allows exactly the role lists that contain a
  role of the hierarchy at or above the required one, and only when the required role is itself
  in the hierarchy: a misspelt required role is denied to everybody, and unknown role names in the
  caller's list never help.
\<close>

theorem enforce_min_role_default:
  "enforce_min_role default_policy roles m = Allow \<longleftrightarrow>
     m \<in> set (hierarchy default_policy) \<and>
     (\<exists>r \<in> set roles. r \<in> set (hierarchy default_policy) \<and> is_at_least default_policy r m)"
  unfolding enforce_min_role_Allow is_at_least_def
  using volta_roles.satisfies_iff by (auto simp: is_known_role_iff)

text \<open>
  The permission sets of the default policy follow the hierarchy. If one role is at least
  another one of the hierarchy, whatever the lower one can do, the higher one can do too.
\<close>

theorem permissions_monotone:
  assumes "is_at_least default_policy a b" and "is_known_role default_policy b"
    and "can default_policy b perm"
  shows "can default_policy a perm"
proof -
  have le: "rank default_policy a \<le> rank default_policy b"
    using assms(1) by (simp add: is_at_least_def)
  then have a: "is_known_role default_policy a"
    by (rule volta_roles.at_least_known [OF assms(2)])
  have "rank default_policy b < 5" using rank_known [OF assms(2)] by simp
  from permission_tower [OF le this]
  have "permissions default_policy b \<subseteq> permissions default_policy a"
    by (simp only: permissions_by_rank [OF a] permissions_by_rank [OF assms(2)])
  with assms(3) show ?thesis
    by (auto simp: can_def permissions_def split: option.splits)
qed

theorem permissions_monotone_witness:
  "is_at_least default_policy ''ADMIN'' ''MEMBER'' \<and> can default_policy ''ADMIN'' ''use_apps''"
proof -
  have h: "is_at_least default_policy ''ADMIN'' ''MEMBER''"
    "is_known_role default_policy ''MEMBER''" "can default_policy ''MEMBER'' ''use_apps''"
    by code_simp+
  from permissions_monotone [OF h] h(1) show ?thesis by simp
qed

end
