(* ===== verification/Config_Types.thy ===== *)
theory Config_Types
  imports Policy Complex_Main
begin

text \<open>
  The configuration data of the gateway: the YAML structures of \<open>gateway/src/config.rs\<close>,
  \<open>cache.rs\<close>, \<open>mtls.rs\<close> and \<open>plugin.rs\<close>, and the in-memory route of \<open>gateway/src/proxy.rs\<close>, as
  records with the fields of the source. Ports, versions and limits are natural numbers of the
  type's range (no arithmetic is done on them); backend weights are summed and stay \<open>u32\<close> words.
  A parsed \<open>ipnet::IpNet\<close> is represented by the set of addresses it contains, as a predicate.
\<close>

datatype ip_addr = V4 "32 word" | V6 "128 word"

type_synonym ip_net = "ip_addr \<Rightarrow> bool"

record weighted_backend =
  wb_url :: string
  wb_weight :: u32

record header_manipulation =
  hm_add :: "(string \<times> string) list"
  hm_remove :: "string list"

record mirror_config =
  mc_backend :: string
  mc_sample_rate :: rat

record bypass_path =
  bp_prefix :: string
  bp_backend :: "string option"

datatype auth_rule_auth = PublicAuth string | RoleAuth (auth_min_role: string)

record auth_rule =
  ar_prefix :: string
  ar_match_mode :: string
  ar_auth :: auth_rule_auth

datatype resolved_auth = Public | Require string

record cache_config =
  cc_enabled :: bool
  cc_ttl_secs :: nat
  cc_methods :: "string list"
  cc_max_body_size :: nat
  cc_ignore_query :: bool

record backend_tls_config =
  bt_ca_cert :: string
  bt_client_cert :: string
  bt_client_key :: string

record route_entry =
  re_host :: string
  re_backend :: "string option"
  re_backends :: "weighted_backend list"
  re_app_id :: "string option"
  re_min_role :: "string option"
  re_ip_allowlist :: "string list"
  re_cors_origins :: "string list"
  re_path_prefix :: "string option"
  re_strip_prefix :: "string option"
  re_add_prefix :: "string option"
  re_request_headers :: "header_manipulation option"
  re_response_headers :: "header_manipulation option"
  re_geo_allowlist :: "string list"
  re_geo_denylist :: "string list"
  re_public :: bool
  re_soft_auth :: bool
  re_auth_bypass_paths :: "bypass_path list"
  re_auth_rules :: "auth_rule list"
  re_mirror :: "mirror_config option"
  re_timeout_secs :: "nat option"
  re_cache :: "cache_config option"
  re_backend_tls :: "backend_tls_config option"

record route_info =
  ri_backends :: "string list"
  ri_weights :: "u32 list"
  ri_app_id :: "string option"
  ri_min_role :: "string option"
  ri_public :: bool
  ri_soft_auth :: bool
  ri_bypass_paths :: "bypass_path list"
  ri_auth_rules :: "auth_rule list"
  ri_mirror :: "mirror_config option"
  ri_path_prefix :: "string option"
  ri_strip_prefix :: "string option"
  ri_add_prefix :: "string option"
  ri_request_headers :: "header_manipulation option"
  ri_response_headers :: "header_manipulation option"
  ri_geo_allowlist :: "string list"
  ri_geo_denylist :: "string list"
  ri_timeout_secs :: "nat option"
  ri_cache :: "cache_config option"
  ri_backend_tls :: "backend_tls_config option"

type_synonym routing_table = "string \<rightharpoonup> route_info"
type_synonym cors_table = "string \<rightharpoonup> string list"
type_synonym allowlist_table = "string \<rightharpoonup> ip_net list"

record l4_proxy_entry =
  l4_listen_port :: nat
  l4_protocol :: string
  l4_backend :: string
  l4_ip_allowlist :: "string list"

record tls_config =
  tls_domains :: "string list"
  tls_contact_email :: string
  tls_port :: nat
  tls_cache_dir :: string
  tls_staging :: bool
  tls_challenge :: string
  tls_dns_provider :: "string option"
  tls_dns_api_token :: "string option"
  tls_dns_zone_id :: "string option"

record server_config =
  sv_port :: nat
  sv_read_timeout_secs :: nat
  sv_request_timeout_secs :: nat
  sv_force_https :: bool
  sv_trusted_proxies :: "string list"
  sv_drain_timeout_secs :: nat
  sv_reuse_port :: bool

record auth_config =
  ac_volta_url :: string
  ac_verify_path :: string
  ac_timeout_ms :: nat
  ac_pool_max_idle :: nat
  ac_jwt_secret :: "string option"
  ac_cookie_name :: "string option"
  ac_auth_public_url :: "string option"
  ac_degraded_mode :: bool
  ac_jwt_public_key_pem :: "string option"
  ac_jwks_url :: "string option"
  ac_jwt_issuer :: "string option"
  ac_jwt_audience :: "string option"
  ac_gateway_assertion_secret :: "string option"
  ac_gateway_assertion_key_id :: "string option"
  ac_gateway_assertion_previous_key_id :: "string option"
  ac_gateway_assertion_previous_secret :: "string option"

record rate_limit_config =
  rl_requests_per_second :: nat
  rl_per_ip_rps :: nat

record plugin_config =
  pc_name :: string
  pc_plugin_type :: string
  pc_path :: "string option"
  pc_config :: "(string \<times> string) list"
  pc_phase :: string

record admin_config =
  ad_token :: "string option"

record gateway_config =
  gc_config_version :: nat
  gc_server :: server_config
  gc_auth :: auth_config
  gc_routing :: "route_entry list"
  gc_rate_limit :: rate_limit_config
  gc_error_pages_dir :: "string option"
  gc_tls :: "tls_config option"
  gc_l4_proxy :: "l4_proxy_entry list"
  gc_plugins :: "plugin_config list"
  gc_admin :: admin_config

text \<open>
  What the configuration code asks of its surroundings: the process environment, and the parsers
  of the \<open>ipnet\<close> and \<open>hyper\<close> crates.
\<close>

record surroundings =
  env_var :: "string \<rightharpoonup> string"
  parse_cidr :: "string \<Rightarrow> ip_net option"
  uri_parses :: "string \<Rightarrow> bool"

end
