(* ===== verification/Assertion.thy ===== *)
theory Assertion
  imports Rust_Prelude
begin

text \<open>
  The signed gateway-to-backend identity assertion of \<open>gateway/src/assertion.rs\<close>. HMAC-SHA256 and
  the hexadecimal codec are crates of their own and appear as the record \<open>mac_ops\<close> that signing
  and verification take as an argument; \<open>Mac::verify_slice\<close> accepts exactly the tag \<open>hmac\<close> computes.
\<close>

section \<open>Model\<close>

record mac_ops =
  hmac :: "string \<Rightarrow> string \<Rightarrow> string"
  hex_encode :: "string \<Rightarrow> string"
  hex_decode :: "string \<Rightarrow> string option"

definition MIN_SECRET_LEN :: nat where
  "MIN_SECRET_LEN = 32"

definition LEGACY_KEY_ID :: string where
  "LEGACY_KEY_ID = ''legacy''"

definition TIMESTAMP_HEADER :: string where
  "TIMESTAMP_HEADER = ''x-volta-assertion-timestamp''"

definition SIGNATURE_HEADER :: string where
  "SIGNATURE_HEADER = ''x-volta-assertion-signature''"

definition KEY_ID_HEADER :: string where
  "KEY_ID_HEADER = ''x-volta-assertion-key-id''"

record assertion_signer =
  as_key_id :: string
  as_secret :: string

record gateway_assertion =
  ga_key_id :: string
  ga_timestamp :: string
  ga_signature :: string

record assertion_verifier =
  av_current :: assertion_signer
  av_previous :: "assertion_signer option"

definition is_key_id_char :: "char \<Rightarrow> bool" where
  "is_key_id_char c =
     (let n = (of_char c :: nat)
      in (48 \<le> n \<and> n \<le> 57) \<or> (65 \<le> n \<and> n \<le> 90) \<or> (97 \<le> n \<and> n \<le> 122) \<or>
         c = CHR ''-'' \<or> c = CHR ''_'' \<or> c = CHR ''.'')"

definition key_id_error :: string where
  "key_id_error = ''assertion key ID must be 1-64 ASCII letters, digits, '' @ quoted ''.'' @ '', '' @
     quoted ''_'' @ '' or '' @ quoted ''-''"

definition validate_key_id :: "string \<Rightarrow> (string, unit) result" where
  "validate_key_id key_id =
     (if key_id = [] \<or> 64 < length key_id \<or> \<not> list_all is_key_id_char key_id
      then Inl key_id_error else Inr ())"

definition new_with_key_id :: "string \<Rightarrow> string \<Rightarrow> (string, assertion_signer) result" where
  "new_with_key_id key_id secret =
     (case validate_key_id key_id of
        Inl e \<Rightarrow> Inl e
      | Inr _ \<Rightarrow>
          (if length secret < MIN_SECRET_LEN
           then Inl (''gateway assertion secret must be at least '' @ show_nat MIN_SECRET_LEN @ '' bytes'')
           else Inr \<lparr> as_key_id = key_id, as_secret = secret \<rparr>))"

definition new_signer :: "string \<Rightarrow> (string, assertion_signer) result" where
  "new_signer secret = new_with_key_id LEGACY_KEY_ID secret"

abbreviation newline :: char where
  "newline \<equiv> CHR 0x0A"

definition canonical ::
    "string \<Rightarrow> string \<Rightarrow> string \<Rightarrow> string \<Rightarrow> string \<Rightarrow> string \<Rightarrow> string" where
  "canonical timestamp method path_with_query user_id tenant_id roles =
     ''v1'' @ newline # timestamp @ newline # to_upper method @ newline # path_with_query @
     newline # user_id @ newline # tenant_id @ newline # roles"

definition sign_at ::
    "mac_ops \<Rightarrow> assertion_signer \<Rightarrow> nat \<Rightarrow> string \<Rightarrow> string \<Rightarrow> string \<Rightarrow> string \<Rightarrow> string \<Rightarrow>
     gateway_assertion" where
  "sign_at ops s timestamp method path_with_query user_id tenant_id roles =
     (let ts = show_nat timestamp
      in \<lparr> ga_key_id = as_key_id s, ga_timestamp = ts,
           ga_signature = ''v1='' @ hex_encode ops
             (hmac ops (as_secret s) (canonical ts method path_with_query user_id tenant_id roles)) \<rparr>)"

text \<open>\<open>unix_now\<close> is the seconds part of \<open>SystemTime::now()\<close>.\<close>

definition sign_now ::
    "mac_ops \<Rightarrow> nat \<Rightarrow> assertion_signer \<Rightarrow> string \<Rightarrow> string \<Rightarrow> string \<Rightarrow> string \<Rightarrow> string \<Rightarrow>
     gateway_assertion" where
  "sign_now ops unix_now s method path_with_query user_id tenant_id roles =
     sign_at ops s unix_now method path_with_query user_id tenant_id roles"

definition new_verifier ::
    "assertion_signer \<Rightarrow> assertion_signer option \<Rightarrow> (string, assertion_verifier) result" where
  "new_verifier current previous =
     (if (case previous of Some p \<Rightarrow> as_key_id p = as_key_id current | None \<Rightarrow> False)
      then Inl ''current and previous assertion key IDs must differ''
      else Inr \<lparr> av_current = current, av_previous = previous \<rparr>)"

definition select_signer ::
    "assertion_verifier \<Rightarrow> string option \<Rightarrow> (string, assertion_signer) result" where
  "select_signer v key_id =
     (case key_id of
        Some k \<Rightarrow>
          (if k = as_key_id (av_current v) then Inr (av_current v)
           else (case opt_filter (\<lambda>p. as_key_id p = k) (av_previous v) of
                   Some p \<Rightarrow> Inr p | None \<Rightarrow> Inl ''unknown assertion key ID''))
      | None \<Rightarrow>
          (if av_previous v = None then Inr (av_current v)
           else Inl ''assertion key ID required while rotating keys''))"

definition abs_diff :: "nat \<Rightarrow> nat \<Rightarrow> nat" where
  "abs_diff a b = (if a < b then b - a else a - b)"

definition verify_at ::
    "mac_ops \<Rightarrow> assertion_verifier \<Rightarrow> string option \<Rightarrow> string \<Rightarrow> string \<Rightarrow> nat \<Rightarrow> nat \<Rightarrow>
     string \<Rightarrow> string \<Rightarrow> string \<Rightarrow> string \<Rightarrow> string \<Rightarrow> (string, unit) result" where
  "verify_at ops v key_id timestamp signature now max_clock_skew_secs
       method path_with_query user_id tenant_id roles =
     (case parse_uint 64 timestamp of
        None \<Rightarrow> Inl ''invalid assertion timestamp''
      | Some t \<Rightarrow>
          (if max_clock_skew_secs < abs_diff now t then Inl ''assertion timestamp outside replay window''
           else (case select_signer v key_id of
                   Inl e \<Rightarrow> Inl e
                 | Inr signer \<Rightarrow>
                     (case strip_prefix signature ''v1='' of
                        None \<Rightarrow> Inl ''unsupported assertion signature version''
                      | Some provided \<Rightarrow>
                          (case hex_decode ops provided of
                             None \<Rightarrow> Inl ''invalid assertion signature encoding''
                           | Some tag \<Rightarrow>
                               (if tag = hmac ops (as_secret signer)
                                     (canonical timestamp method path_with_query user_id tenant_id roles)
                                then Inr () else Inl ''invalid assertion signature''))))))"

section \<open>Properties\<close>

definition hex_codec :: "mac_ops \<Rightarrow> bool" where
  "hex_codec ops \<longleftrightarrow> (\<forall>bs. hex_decode ops (hex_encode ops bs) = Some bs)"

lemma new_verifier_Inr:
  assumes "new_verifier c pr = Inr v"
  shows "av_current v = c \<and> av_previous v = pr \<and> (\<forall>p. pr = Some p \<longrightarrow> as_key_id p \<noteq> as_key_id c)"
  using assms by (cases pr) (auto simp: new_verifier_def split: if_splits)

lemma verify_signed:
  assumes "hex_codec ops" and "t < 2 ^ 64" and "abs_diff now t \<le> skew"
    and "select_signer v (Some (as_key_id s)) = Inr s"
  shows "verify_at ops v (Some (ga_key_id (sign_at ops s t m p u ten r)))
           (ga_timestamp (sign_at ops s t m p u ten r)) (ga_signature (sign_at ops s t m p u ten r))
           now skew m p u ten r = Inr ()"
  using assms
  by (simp add: verify_at_def sign_at_def hex_codec_def strip_prefix_def starts_with_def
      parse_uint_show_nat Let_def)

text \<open>
  Whatever a signer signs, a verifier that knows the signer as its current or, during a key
  rotation, as its previous key accepts for the same request, as long as the clocks differ by at
  most the allowed skew. The only assumption on the crates is that \<open>hex::decode\<close> inverts
  \<open>hex::encode\<close>.
\<close>

theorem sign_verify_roundtrip:
  assumes "hex_codec ops" and "t < 2 ^ 64" and "abs_diff now t \<le> skew"
    and "new_verifier current previous = Inr v"
    and "s = current \<or> previous = Some s"
  shows "verify_at ops v (Some (ga_key_id (sign_at ops s t m p u ten r)))
           (ga_timestamp (sign_at ops s t m p u ten r)) (ga_signature (sign_at ops s t m p u ten r))
           now skew m p u ten r = Inr ()"
proof (rule verify_signed [OF assms(1-3)])
  show "select_signer v (Some (as_key_id s)) = Inr s"
  proof (cases "s = current")
    case True
    then show ?thesis using new_verifier_Inr [OF assms(4)] by (simp add: select_signer_def)
  next
    case False
    with assms(5) have pr: "previous = Some s" by simp
    with new_verifier_Inr [OF assms(4)] show ?thesis by (simp add: select_signer_def)
  qed
qed

definition demo_ops :: mac_ops where
  "demo_ops = \<lparr> hmac = (\<lambda>k m. k @ m), hex_encode = id, hex_decode = Some \<rparr>"

definition demo_signer :: "string \<Rightarrow> assertion_signer" where
  "demo_signer k = \<lparr> as_key_id = k, as_secret = ''0123456789abcdef0123456789abcdef'' \<rparr>"

lemma show_nat_1000: "show_nat 1000 = ''1000''"
  by code_simp

lemma sign_demo [simp]:
  "ga_key_id (sign_at ops s t m p u ten r) = as_key_id s"
  "ga_timestamp (sign_at ops s t m p u ten r) = show_nat t"
  "as_key_id (demo_signer k) = k"
  by (simp_all add: sign_at_def demo_signer_def Let_def)

theorem sign_verify_roundtrip_witness:
  "\<exists>v. new_verifier (demo_signer ''k2'') (Some (demo_signer ''k1'')) = Inr v \<and>
     verify_at demo_ops v (Some ''k1'') ''1000''
       (ga_signature (sign_at demo_ops (demo_signer ''k1'') 1000 ''get'' ''/a?b=c'' ''u'' ''t'' ''ADMIN''))
       1030 60 ''get'' ''/a?b=c'' ''u'' ''t'' ''ADMIN'' = Inr ()"
proof -
  let ?v = "\<lparr> av_current = demo_signer ''k2'', av_previous = Some (demo_signer ''k1'') \<rparr>"
  have v: "new_verifier (demo_signer ''k2'') (Some (demo_signer ''k1'')) = Inr ?v"
    by (simp add: new_verifier_def demo_signer_def)
  have h: "hex_codec demo_ops" by (simp add: hex_codec_def demo_ops_def)
  have "verify_at demo_ops ?v
      (Some (ga_key_id (sign_at demo_ops (demo_signer ''k1'') 1000 ''get'' ''/a?b=c'' ''u'' ''t'' ''ADMIN'')))
      (ga_timestamp (sign_at demo_ops (demo_signer ''k1'') 1000 ''get'' ''/a?b=c'' ''u'' ''t'' ''ADMIN''))
      (ga_signature (sign_at demo_ops (demo_signer ''k1'') 1000 ''get'' ''/a?b=c'' ''u'' ''t'' ''ADMIN''))
      1030 60 ''get'' ''/a?b=c'' ''u'' ''t'' ''ADMIN'' = Inr ()"
    by (rule sign_verify_roundtrip [OF h _ _ v]) (simp_all add: abs_diff_def)
  then show ?thesis using v by (auto simp: show_nat_1000)
qed

text \<open>
  The canonical string binds the whole request. Two requests whose timestamp, method, path,
  user and tenant contain no newline (HTTP header values and request targets cannot) have the same
  canonical string only if they agree on every field, the method up to ASCII case; a signature
  can therefore not be moved to another user, tenant, path or role list.
\<close>

theorem canonical_binds_request:
  assumes "canonical t m p u ten r = canonical t' m' p' u' ten' r'"
    and "list_all (\<lambda>x. newline \<notin> set x) [t, to_upper m, p, u, ten, t', to_upper m', p', u', ten']"
  shows "t = t' \<and> to_upper m = to_upper m' \<and> p = p' \<and> u = u' \<and> ten = ten' \<and> r = r'"
  using assms by (auto simp: canonical_def dest!: sep_unique)

theorem canonical_binds_request_witness:
  "canonical ''5'' ''get'' ''/a'' ''u'' ''t'' ''R'' = canonical ''5'' ''GET'' ''/a'' ''u'' ''t'' ''R''
   \<and> to_upper ''get'' = to_upper ''GET''"
proof -
  have e: "canonical ''5'' ''get'' ''/a'' ''u'' ''t'' ''R'' = canonical ''5'' ''GET'' ''/a'' ''u'' ''t'' ''R''"
    by code_simp
  have n: "list_all (\<lambda>x. newline \<notin> set x)
      [''5'', to_upper ''get'', ''/a'', ''u'', ''t'', ''5'', to_upper ''GET'', ''/a'', ''u'', ''t'']"
    by code_simp
  from canonical_binds_request [OF e n] e show ?thesis by blast
qed

text \<open>
  A verifier accepts nothing else. If verification succeeds then the timestamp is a number
  within the allowed skew of the verifier's clock, and the signature is the tag, under the secret
  of the current key or of the previous key named by the key identifier, of exactly the request
  being checked; while a previous key is configured an assertion without key identifier is refused.
\<close>

theorem verify_at_sound:
  assumes "verify_at ops v key_id ts sig now skew m p u ten r = Inr ()"
  shows "\<exists>s t tag hex.
      parse_uint 64 ts = Some t \<and> now \<le> t + skew \<and> t \<le> now + skew \<and>
      (s = av_current v \<and> (key_id = Some (as_key_id s) \<or> key_id = None \<and> av_previous v = None) \<or>
       av_previous v = Some s \<and> key_id = Some (as_key_id s)) \<and>
      sig = ''v1='' @ hex \<and> hex_decode ops hex = Some tag \<and>
      tag = hmac ops (as_secret s) (canonical ts m p u ten r)"
proof -
  from assms obtain t s hex tag where
      t: "parse_uint 64 ts = Some t" and skew: "\<not> skew < abs_diff now t"
      and s: "select_signer v key_id = Inr s"
      and hex: "strip_prefix sig ''v1='' = Some hex" and tag: "hex_decode ops hex = Some tag"
      and mac: "tag = hmac ops (as_secret s) (canonical ts m p u ten r)"
    by (auto simp: verify_at_def split: option.splits sum.splits if_splits)
  have "s = av_current v \<and> (key_id = Some (as_key_id s) \<or> key_id = None \<and> av_previous v = None) \<or>
      av_previous v = Some s \<and> key_id = Some (as_key_id s)"
    using s by (auto simp: select_signer_def opt_filter_Some_iff split: option.splits if_splits)
  moreover have "now \<le> t + skew \<and> t \<le> now + skew"
    using skew by (auto simp: abs_diff_def split: if_splits)
  ultimately show ?thesis
    using t hex tag mac unfolding strip_prefix_Some_iff by blast
qed

definition demo_verifier :: assertion_verifier where
  "demo_verifier = \<lparr> av_current = demo_signer ''k2'', av_previous = Some (demo_signer ''k1'') \<rparr>"

theorem verify_at_sound_witness:
  "\<exists>s t tag hex. parse_uint 64 ''1000'' = Some t \<and> av_previous demo_verifier = Some s \<and>
      ga_signature (sign_at demo_ops (demo_signer ''k1'') 1000 ''get'' ''/a'' ''u'' ''t'' ''ADMIN'')
        = ''v1='' @ hex \<and>
      tag = hmac demo_ops (as_secret s) (canonical ''1000'' ''get'' ''/a'' ''u'' ''t'' ''ADMIN'')"
proof -
  have "verify_at demo_ops demo_verifier (Some ''k1'') ''1000''
      (ga_signature (sign_at demo_ops (demo_signer ''k1'') 1000 ''get'' ''/a'' ''u'' ''t'' ''ADMIN''))
      1030 60 ''get'' ''/a'' ''u'' ''t'' ''ADMIN'' = Inr ()"
    using verify_signed [of demo_ops 1000 1030 60 demo_verifier "demo_signer ''k1''" "''get''" "''/a''"
        "''u''" "''t''" "''ADMIN''"]
    by (simp add: show_nat_1000 hex_codec_def demo_ops_def abs_diff_def select_signer_def
        demo_verifier_def)
  from verify_at_sound [OF this] obtain s t tag hex where
      *: "parse_uint 64 ''1000'' = Some t"
        "s = av_current demo_verifier \<and> (Some ''k1'' = Some (as_key_id s) \<or> Some ''k1'' = None \<and> av_previous demo_verifier = None) \<or>
         av_previous demo_verifier = Some s \<and> Some ''k1'' = Some (as_key_id s)"
        "ga_signature (sign_at demo_ops (demo_signer ''k1'') 1000 ''get'' ''/a'' ''u'' ''t'' ''ADMIN'')
           = ''v1='' @ hex"
        "tag = hmac demo_ops (as_secret s) (canonical ''1000'' ''get'' ''/a'' ''u'' ''t'' ''ADMIN'')"
    by blast
  have "as_key_id (av_current demo_verifier) = ''k2''" by code_simp
  with *(2) have "av_previous demo_verifier = Some s" by auto
  with * show ?thesis by blast
qed

text \<open>
  Signers only exist with a key of at least 32 bytes and a well-formed identifier, and a
  verifier never holds two keys under one identifier.
\<close>

lemma new_with_key_id_wf:
  "new_with_key_id k sec = Inr s \<Longrightarrow>
     as_key_id s = k \<and> as_secret s = sec \<and> 32 \<le> length sec \<and>
     k \<noteq> [] \<and> length k \<le> 64 \<and> list_all is_key_id_char k"
  by (auto simp: new_with_key_id_def validate_key_id_def MIN_SECRET_LEN_def split: if_splits)

lemma new_with_key_id_ok:
  "validate_key_id k = Inr () \<Longrightarrow> MIN_SECRET_LEN \<le> length sec \<Longrightarrow>
     new_with_key_id k sec = Inr \<lparr> as_key_id = k, as_secret = sec \<rparr>"
  by (simp add: new_with_key_id_def)

end
