(* ===== verification/Gateway_Config.thy ===== *)
theory Gateway_Config
  imports Config_Types Assertion
begin

text \<open>
  \<open>gateway/src/config.rs\<close>: the per-path authorization rules, the backends of a route, the effective
  values that the environment overrides, the start-up validation with its exit codes, and the
  tables the proxy works on (\<open>routing_table\<close>, \<open>cors_table\<close>, \<open>ip_allowlist_table\<close>).
\<close>

section \<open>Per-path authorization rules\<close>

definition auth_is_public :: "auth_rule_auth \<Rightarrow> bool" where
  "auth_is_public a = (case a of PublicAuth s \<Rightarrow> s = ''public'' | RoleAuth r \<Rightarrow> False)"

definition auth_rule_min_role :: "auth_rule_auth \<Rightarrow> string option" where
  "auth_rule_min_role a = (case a of RoleAuth r \<Rightarrow> Some r | PublicAuth s \<Rightarrow> None)"

definition auth_rule_matches :: "auth_rule \<Rightarrow> string \<Rightarrow> bool" where
  "auth_rule_matches rule path =
     (if ar_match_mode rule = ''exact'' then path = ar_prefix rule
      else if path = ar_prefix rule then True
      else if ends_with (ar_prefix rule) ''/'' then starts_with path (ar_prefix rule)
      else (case strip_prefix path (ar_prefix rule) of
              Some rest \<Rightarrow> starts_with rest ''/'' | None \<Rightarrow> False))"

definition auth_rule_decision :: "auth_rule \<Rightarrow> resolved_auth" where
  "auth_rule_decision rule =
     (if auth_is_public (ar_auth rule) then Public
      else (case auth_rule_min_role (ar_auth rule) of
              Some role \<Rightarrow> Require role | None \<Rightarrow> Require ''OWNER''))"

text \<open>\<open>sort_by_key\<close> is stable, as \<open>sort_key\<close> is; \<open>Reverse\<close> puts the longest prefix first.\<close>

definition resolve_auth_rule :: "auth_rule list \<Rightarrow> string \<Rightarrow> resolved_auth option" where
  "resolve_auth_rule rules path =
     map_option auth_rule_decision
       (find (\<lambda>rule. auth_rule_matches rule path)
          (sort_key (\<lambda>a. - int (length (ar_prefix a))) rules))"

section \<open>Backends of a route\<close>

definition all_backends :: "route_entry \<Rightarrow> string list" where
  "all_backends r =
     (let result = map wb_url (re_backends r)
      in case re_backend r of
           Some b \<Rightarrow> (if b \<in> set result then result else b # result)
         | None \<Rightarrow> result)"

definition all_weights :: "route_entry \<Rightarrow> u32 list" where
  "all_weights r =
     (let weights = map wb_weight (re_backends r)
      in case re_backend r of
           Some b \<Rightarrow> (if list_ex (\<lambda>wb. wb_url wb = b) (re_backends r) then weights else 1 # weights)
         | None \<Rightarrow> weights)"

section \<open>Values the environment overrides\<close>

definition nonempty_var :: "surroundings \<Rightarrow> string \<Rightarrow> string option" where
  "nonempty_var e name = opt_filter (\<lambda>v. v \<noteq> []) (env_var e name)"

definition degraded_mode_enabled :: "surroundings \<Rightarrow> auth_config \<Rightarrow> bool" where
  "degraded_mode_enabled e c =
     (case env_var e ''VOLTA_AUTH_DEGRADED_MODE'' of
        Some raw \<Rightarrow>
          (let v = to_lower (trim raw)
           in if v \<noteq> [] then v \<in> set [''1'', ''true'', ''yes'', ''on''] else ac_degraded_mode c)
      | None \<Rightarrow> ac_degraded_mode c)"

definition effective_gateway_assertion_secret :: "surroundings \<Rightarrow> auth_config \<Rightarrow> string option" where
  "effective_gateway_assertion_secret e c =
     (case nonempty_var e ''VOLTA_GATEWAY_ASSERTION_SECRET'' of
        Some secret \<Rightarrow> Some secret
      | None \<Rightarrow> opt_filter (\<lambda>s. s \<noteq> []) (ac_gateway_assertion_secret c))"

definition effective_gateway_assertion_key_id :: "surroundings \<Rightarrow> auth_config \<Rightarrow> string" where
  "effective_gateway_assertion_key_id e c =
     unwrap_or LEGACY_KEY_ID
       (or_else (nonempty_var e ''VOLTA_GATEWAY_ASSERTION_KEY_ID'')
          (opt_filter (\<lambda>v. v \<noteq> []) (ac_gateway_assertion_key_id c)))"

definition effective_gateway_assertion_previous ::
    "surroundings \<Rightarrow> auth_config \<Rightarrow> string option \<times> string option" where
  "effective_gateway_assertion_previous e c =
     (or_else (nonempty_var e ''VOLTA_GATEWAY_ASSERTION_PREVIOUS_KEY_ID'')
        (ac_gateway_assertion_previous_key_id c),
      or_else (nonempty_var e ''VOLTA_GATEWAY_ASSERTION_PREVIOUS_SECRET'')
        (ac_gateway_assertion_previous_secret c))"

definition effective_token :: "surroundings \<Rightarrow> admin_config \<Rightarrow> string option" where
  "effective_token e c =
     (case nonempty_var e ''VOLTA_ADMIN_TOKEN'' of
        Some t \<Rightarrow> Some t | None \<Rightarrow> opt_filter (\<lambda>t. t \<noteq> []) (ad_token c))"

definition ip_allowlist_nets :: "surroundings \<Rightarrow> l4_proxy_entry \<Rightarrow> ip_net list option" where
  "ip_allowlist_nets e en =
     (if l4_ip_allowlist en = [] then None
      else Some (List.map_filter (parse_cidr e) (l4_ip_allowlist en)))"

section \<open>Start-up validation\<close>

definition GATEWAY_CONFIG_VERSION :: nat where
  "GATEWAY_CONFIG_VERSION = 3"

definition GATEWAY_CONFIG_CONTRACT_ID :: string where
  "GATEWAY_CONFIG_CONTRACT_ID = ''volta-gateway:gateway-config''"

definition EXIT_SCHEMA :: nat where "EXIT_SCHEMA = 1"
definition EXIT_BACKEND_URL :: nat where "EXIT_BACKEND_URL = 3"
definition EXIT_UNKNOWN_PLUGIN :: nat where "EXIT_UNKNOWN_PLUGIN = 4"
definition EXIT_TLS_CREDENTIALS :: nat where "EXIT_TLS_CREDENTIALS = 5"

definition BUILTIN_PLUGINS :: "string list" where
  "BUILTIN_PLUGINS = [''api-key-auth'', ''rate-limit-by-user'', ''monetizer'', ''header-injector'']"

type_synonym config_errors = "(nat \<times> string) list"

text \<open>An error pushed under a condition; the dash of two messages is the UTF-8 em dash.\<close>

definition err :: "bool \<Rightarrow> nat \<Rightarrow> string \<Rightarrow> config_errors" where
  "err b code msg = (if b then [(code, msg)] else [])"

definition em_dash :: string where
  "em_dash = [CHR 0xE2, CHR 0x80, CHR 0x94]"

definition role_names :: "string list" where
  "role_names = [''OWNER'', ''ADMIN'', ''OPERATOR'', ''MEMBER'', ''VIEWER'']"

definition valid_role :: "string \<Rightarrow> bool" where
  "valid_role r \<longleftrightarrow> to_upper (trim r) \<in> set role_names"

definition for_host :: "route_entry \<Rightarrow> string \<Rightarrow> string" where
  "for_host r msg = ''routing host '' @ quoted (re_host r) @ msg"

fun check_duplicate_hosts :: "string set \<Rightarrow> route_entry list \<Rightarrow> config_errors" where
  "check_duplicate_hosts seen [] = []"
| "check_duplicate_hosts seen (r # rs) =
     err (re_host r \<in> seen) EXIT_SCHEMA
       (''duplicate routing host: '' @ re_host r @ '' '' @ em_dash @
        '' path_prefix based routing on same host is not yet supported. Use separate hosts or a single route with auth_bypass_paths.'')
     @ check_duplicate_hosts (insert (re_host r) seen) rs"

definition check_top :: "gateway_config \<Rightarrow> config_errors" where
  "check_top g =
     err (gc_config_version g \<noteq> GATEWAY_CONFIG_VERSION) EXIT_SCHEMA
       (''unsupported gateway config version: '' @ show_nat (gc_config_version g) @ '' (supported: '' @
        show_nat GATEWAY_CONFIG_VERSION @ ''; contract: '' @ GATEWAY_CONFIG_CONTRACT_ID @ '')'')
     @ err (gc_routing g = []) EXIT_SCHEMA
         (''routing is empty '' @ em_dash @ '' no requests will be served'')
     @ err (sv_port (gc_server g) = 0) EXIT_SCHEMA ''server.port must be > 0''"

definition check_allowlists :: "surroundings \<Rightarrow> gateway_config \<Rightarrow> config_errors" where
  "check_allowlists e g =
     concat (map (\<lambda>r. concat (map (\<lambda>cidr.
        err (parse_cidr e cidr = None) EXIT_SCHEMA
          (''invalid CIDR in ip_allowlist for '' @ re_host r @ '': '' @ cidr))
        (re_ip_allowlist r))) (gc_routing g))"

definition check_tls :: "gateway_config \<Rightarrow> config_errors" where
  "check_tls g =
     (case gc_tls g of
        None \<Rightarrow> []
      | Some tls \<Rightarrow>
          err (tls_domains tls = []) EXIT_SCHEMA
            (''tls.domains is empty '' @ em_dash @ '' no certificates will be issued'')
          @ err (tls_contact_email tls = []) EXIT_SCHEMA ''tls.contact_email is required for ACME''
          @ err (tls_port tls = 0) EXIT_SCHEMA ''tls.port must be > 0'')
     @ err (sv_force_https (gc_server g) \<and> gc_tls g = None) EXIT_SCHEMA
         ''server.force_https requires tls config''"

definition check_l4_entry :: "surroundings \<Rightarrow> nat \<times> l4_proxy_entry \<Rightarrow> config_errors" where
  "check_l4_entry e ie =
     (let entry = snd ie; l4 = ''l4_proxy['' @ show_nat (fst ie) @ '']''
      in err (l4_listen_port entry = 0) EXIT_SCHEMA (l4 @ ''.listen_port must be > 0'')
         @ err (l4_backend entry = []) EXIT_SCHEMA (l4 @ ''.backend is empty'')
         @ err (l4_protocol entry \<noteq> ''tcp'' \<and> l4_protocol entry \<noteq> ''udp'') EXIT_SCHEMA
             (l4 @ ''.protocol must be '' @ quoted ''tcp'' @ '' or '' @ quoted ''udp'' @ '', got '' @
              quoted (l4_protocol entry))
         @ concat (map (\<lambda>cidr. err (parse_cidr e cidr = None) EXIT_SCHEMA
             (''invalid CIDR in '' @ l4 @ ''.ip_allowlist: '' @ cidr)) (l4_ip_allowlist entry)))"

definition check_auth_rule :: "route_entry \<Rightarrow> auth_rule \<Rightarrow> config_errors" where
  "check_auth_rule r rule =
     err (ar_prefix rule = [] \<or> \<not> starts_with (ar_prefix rule) ''/'') EXIT_SCHEMA
       (for_host r ('' has invalid auth_rules prefix '' @ quoted (ar_prefix rule) @
          ''; it must start with '' @ quoted ''/''))
     @ err (\<not> (auth_is_public (ar_auth rule) \<or> auth_rule_min_role (ar_auth rule) \<noteq> None)) EXIT_SCHEMA
         (for_host r ('' has invalid auth_rules.auth for prefix '' @ quoted (ar_prefix rule) @
            '': expected \"public\" or { min_role: <ROLE> }''))
     @ (case auth_rule_min_role (ar_auth rule) of
          None \<Rightarrow> []
        | Some role \<Rightarrow> err (\<not> valid_role role) EXIT_SCHEMA
            (for_host r ('' has invalid auth_rules min_role '' @ quoted (to_upper (trim role)) @
               ''; expected OWNER, ADMIN, OPERATOR, MEMBER, or VIEWER'')))"

definition check_min_role :: "route_entry \<Rightarrow> config_errors" where
  "check_min_role r =
     (case re_min_role r of
        None \<Rightarrow> []
      | Some min_role \<Rightarrow>
          err (\<not> valid_role min_role) EXIT_SCHEMA
            (for_host r ('' has invalid min_role '' @ quoted min_role @
               ''; expected OWNER, ADMIN, OPERATOR, MEMBER, or VIEWER''))
          @ err (re_public r) EXIT_SCHEMA (for_host r '' cannot combine public: true with min_role''))"

definition check_bypass :: "route_entry \<Rightarrow> bypass_path \<Rightarrow> config_errors" where
  "check_bypass r b =
     err (bp_prefix b = [] \<or> \<not> starts_with (bp_prefix b) ''/'') EXIT_SCHEMA
       (for_host r ('' has invalid auth_bypass_paths prefix '' @ quoted (bp_prefix b) @
          ''; it must start with '' @ quoted ''/''))"

definition check_route :: "route_entry \<Rightarrow> config_errors" where
  "check_route r =
     err (all_backends r = []) EXIT_SCHEMA (for_host r '' has no backends'')
     @ err (\<not> re_public r \<and> (case re_cache r of Some c \<Rightarrow> cc_enabled c | None \<Rightarrow> False)) EXIT_SCHEMA
         (for_host r '' enables response cache on an authenticated route; cache is allowed only with public: true'')
     @ check_min_role r
     @ err (re_public r \<and> re_soft_auth r) EXIT_SCHEMA
         (for_host r '' cannot combine public: true with soft_auth: true (public skips auth entirely)'')
     @ err (re_soft_auth r \<and> re_min_role r \<noteq> None) EXIT_SCHEMA
         (for_host r '' cannot combine soft_auth: true with min_role (soft-auth is anonymous-tolerant, min_role is not)'')
     @ concat (map (check_bypass r) (re_auth_bypass_paths r))
     @ concat (map (check_auth_rule r) (re_auth_rules r))"

definition check_assertion_current :: "surroundings \<Rightarrow> auth_config \<Rightarrow> config_errors" where
  "check_assertion_current e a =
     (case effective_gateway_assertion_secret e a of
        Some secret \<Rightarrow>
          err (length secret < MIN_SECRET_LEN) EXIT_SCHEMA
            (''auth.gateway_assertion_secret / VOLTA_GATEWAY_ASSERTION_SECRET must be at least '' @
             show_nat MIN_SECRET_LEN @ '' bytes'')
          @ (case validate_key_id (effective_gateway_assertion_key_id e a) of
               Inl error \<Rightarrow> [(EXIT_SCHEMA, ''invalid gateway assertion current key ID: '' @ error)]
             | Inr _ \<Rightarrow> [])
      | None \<Rightarrow>
          err (ac_gateway_assertion_key_id a \<noteq> None \<or> env_var e ''VOLTA_GATEWAY_ASSERTION_KEY_ID'' \<noteq> None)
            EXIT_SCHEMA ''gateway assertion key ID requires a current assertion secret'')"

definition check_assertion_previous :: "surroundings \<Rightarrow> auth_config \<Rightarrow> config_errors" where
  "check_assertion_previous e a =
     (case effective_gateway_assertion_previous e a of
        (Some key_id, Some secret) \<Rightarrow>
          err (effective_gateway_assertion_secret e a = None) EXIT_SCHEMA
            ''previous gateway assertion key requires a current key''
          @ err (length secret < MIN_SECRET_LEN) EXIT_SCHEMA
              (''previous gateway assertion secret must be at least '' @ show_nat MIN_SECRET_LEN @ '' bytes'')
          @ (case validate_key_id key_id of
               Inl error \<Rightarrow> [(EXIT_SCHEMA, ''invalid gateway assertion previous key ID: '' @ error)]
             | Inr _ \<Rightarrow> [])
          @ err (key_id = effective_gateway_assertion_key_id e a) EXIT_SCHEMA
              ''current and previous gateway assertion key IDs must differ''
      | (None, None) \<Rightarrow> []
      | _ \<Rightarrow> [(EXIT_SCHEMA, ''previous gateway assertion key ID and secret must be configured together'')])"

definition check_monetizer :: "surroundings \<Rightarrow> gateway_config \<Rightarrow> config_errors" where
  "check_monetizer e g =
     err (list_ex (\<lambda>p. pc_name p = ''monetizer'') (gc_plugins g) \<and>
          effective_gateway_assertion_secret e (gc_auth g) = None) EXIT_SCHEMA
       ''monetizer plugin requires auth.gateway_assertion_secret or VOLTA_GATEWAY_ASSERTION_SECRET''"

definition is_http_url :: "string \<Rightarrow> bool" where
  "is_http_url b \<longleftrightarrow> starts_with b ''http://'' \<or> starts_with b ''https://''"

definition check_backend_url :: "surroundings \<Rightarrow> route_entry \<Rightarrow> string \<Rightarrow> config_errors" where
  "check_backend_url e r b =
     (if \<not> uri_parses e b
      then [(EXIT_BACKEND_URL, for_host r ('': backend URL is unparsable: '' @ b))]
      else err (\<not> is_http_url b) EXIT_BACKEND_URL
             (for_host r ('': backend must start with http:// or https://: '' @ b)))"

definition check_plugin :: "plugin_config \<Rightarrow> config_errors" where
  "check_plugin pl =
     err (pc_plugin_type pl = ''native'' \<and> pc_name pl \<notin> set BUILTIN_PLUGINS) EXIT_UNKNOWN_PLUGIN
       (''unknown plugin '' @ quoted (pc_name pl) @ '' (built-in: '' @ join '', '' BUILTIN_PLUGINS @ '')'')"

definition check_tls_credentials :: "surroundings \<Rightarrow> gateway_config \<Rightarrow> config_errors" where
  "check_tls_credentials e g =
     (case gc_tls g of
        None \<Rightarrow> []
      | Some tls \<Rightarrow>
          (if tls_challenge tls = ''dns-01''
           then err (tls_dns_provider tls = None) EXIT_TLS_CREDENTIALS
                  ''tls.challenge is dns-01 but tls.dns_provider is not set''
                @ err (tls_dns_api_token tls = None \<and> env_var e ''CF_DNS_API_TOKEN'' = None)
                    EXIT_TLS_CREDENTIALS
                    ''tls.challenge is dns-01 but neither tls.dns_api_token nor CF_DNS_API_TOKEN is set''
           else []))"

definition validate_errors :: "surroundings \<Rightarrow> gateway_config \<Rightarrow> config_errors" where
  "validate_errors e g =
     check_top g
     @ check_duplicate_hosts {} (gc_routing g)
     @ check_allowlists e g
     @ check_tls g
     @ concat (map (check_l4_entry e) (List.enumerate 0 (gc_l4_proxy g)))
     @ concat (map check_route (gc_routing g))
     @ check_assertion_current e (gc_auth g)
     @ check_assertion_previous e (gc_auth g)
     @ check_monetizer e g
     @ concat (map (\<lambda>r. concat (map (check_backend_url e r) (all_backends r))) (gc_routing g))
     @ concat (map check_plugin (gc_plugins g))
     @ check_tls_credentials e g"

definition validate_detailed :: "surroundings \<Rightarrow> gateway_config \<Rightarrow> (config_errors, unit) result" where
  "validate_detailed e g =
     (let errors = validate_errors e g in if errors = [] then Inr () else Inl errors)"

definition validate :: "surroundings \<Rightarrow> gateway_config \<Rightarrow> (string list, unit) result" where
  "validate e g =
     (case validate_detailed e g of Inl errs \<Rightarrow> Inl (map snd errs) | Inr u \<Rightarrow> Inr u)"

section \<open>The tables of the proxy\<close>

definition route_info_of :: "route_entry \<Rightarrow> route_info" where
  "route_info_of r =
     \<lparr> ri_backends = all_backends r,
       ri_weights = all_weights r,
       ri_app_id = re_app_id r,
       ri_min_role = re_min_role r,
       ri_public = re_public r,
       ri_soft_auth = re_soft_auth r,
       ri_bypass_paths = re_auth_bypass_paths r,
       ri_auth_rules = re_auth_rules r,
       ri_mirror = re_mirror r,
       ri_path_prefix = re_path_prefix r,
       ri_strip_prefix = re_strip_prefix r,
       ri_add_prefix = re_add_prefix r,
       ri_request_headers = re_request_headers r,
       ri_response_headers = re_response_headers r,
       ri_geo_allowlist = re_geo_allowlist r,
       ri_geo_denylist = re_geo_denylist r,
       ri_timeout_secs = re_timeout_secs r,
       ri_cache = re_cache r,
       ri_backend_tls = re_backend_tls r \<rparr>"

text \<open>Collecting pairs into a \<open>HashMap\<close>: the last pair of a key wins.\<close>

definition collect_map :: "('k \<times> 'v) list \<Rightarrow> ('k \<rightharpoonup> 'v)" where
  "collect_map kvs = map_of (rev kvs)"

definition routing_table :: "gateway_config \<Rightarrow> routing_table" where
  "routing_table g =
     collect_map (map (\<lambda>r. (to_lower (re_host r), route_info_of r)) (gc_routing g))"

definition cors_table :: "gateway_config \<Rightarrow> cors_table" where
  "cors_table g =
     collect_map (map (\<lambda>r. (to_lower (re_host r), re_cors_origins r))
       (filter (\<lambda>r. re_cors_origins r \<noteq> []) (gc_routing g)))"

definition ip_allowlist_table :: "surroundings \<Rightarrow> gateway_config \<Rightarrow> allowlist_table" where
  "ip_allowlist_table e g =
     collect_map (map (\<lambda>r. (to_lower (re_host r), List.map_filter (parse_cidr e) (re_ip_allowlist r)))
       (filter (\<lambda>r. re_ip_allowlist r \<noteq> []) (gc_routing g)))"

section \<open>Properties\<close>

lemma find_sorted_key:
  assumes "find P (sort_key f xs) = Some x"
  shows "x \<in> set xs \<and> P x \<and> (\<forall>y \<in> set xs. P y \<longrightarrow> f x \<le> f y)"
proof -
  from assms obtain i where i: "i < length (sort_key f xs)" "P (sort_key f xs ! i)"
      "x = sort_key f xs ! i" "\<forall>j<i. \<not> P (sort_key f xs ! j)"
    by (auto simp: find_Some_iff)
  have "f x \<le> f y" if "y \<in> set xs" "P y" for y
  proof -
    from that(1) obtain j where j: "j < length (sort_key f xs)" "y = sort_key f xs ! j"
      by (metis in_set_conv_nth set_sort)
    with that(2) i(4) have "i \<le> j" by (meson not_le)
    with j i(3) have "map f (sort_key f xs) ! i \<le> map f (sort_key f xs) ! j"
      using sorted_sort_key [of f xs] by (intro sorted_nth_mono) auto
    with i j show ?thesis by simp
  qed
  moreover have "x \<in> set xs" using i by (metis nth_mem set_sort)
  ultimately show ?thesis using i by blast
qed

lemma find_None_sort: "find P (sort_key f xs) = None \<longleftrightarrow> (\<forall>x \<in> set xs. \<not> P x)"
  by (auto simp: find_None_iff)

text \<open>
  Per-path authorization takes the most specific rule. The decision for a path is that of a
  matching rule with the longest prefix, independently of the order in which the rules are
  configured, and there is no decision exactly if no rule matches.
\<close>

theorem resolve_auth_rule_longest:
  "case resolve_auth_rule rules path of
     None \<Rightarrow> \<forall>rule \<in> set rules. \<not> auth_rule_matches rule path
   | Some d \<Rightarrow> \<exists>rule \<in> set rules. auth_rule_matches rule path \<and> d = auth_rule_decision rule \<and>
       (\<forall>other \<in> set rules. auth_rule_matches other path \<longrightarrow>
          length (ar_prefix other) \<le> length (ar_prefix rule))"
proof (cases "find (\<lambda>rule. auth_rule_matches rule path)
    (sort_key (\<lambda>a. - int (length (ar_prefix a))) rules)")
  case None
  then have "\<forall>rule \<in> set rules. \<not> auth_rule_matches rule path" by (simp only: find_None_sort)
  with None show ?thesis by (simp add: resolve_auth_rule_def)
next
  case (Some rule)
  from find_sorted_key [OF this] Some show ?thesis by (auto simp: resolve_auth_rule_def)
qed

lemma auth_rule_decision_Public: "auth_rule_decision rule = Public \<longleftrightarrow> ar_auth rule = PublicAuth ''public''"
  by (cases "ar_auth rule") (auto simp: auth_rule_decision_def auth_is_public_def auth_rule_min_role_def)

lemma length_all_weights: "length (all_weights r) = length (all_backends r)"
  by (auto simp: all_weights_def all_backends_def list_ex_iff Let_def split: option.splits)

lemma err_Nil [simp]: "err b c m = [] \<longleftrightarrow> \<not> b"
  by (simp add: err_def)

lemma concat_map_Nil [simp]: "concat (map f xs) = [] \<longleftrightarrow> (\<forall>x \<in> set xs. f x = [])"
  by (induction xs) auto

lemma check_duplicate_hosts_Nil:
  "check_duplicate_hosts seen rs = [] \<longleftrightarrow> distinct (map re_host rs) \<and> re_host ` set rs \<inter> seen = {}"
  by (induction rs arbitrary: seen) auto

lemma valid_role_known: "valid_role r \<longleftrightarrow> is_known_role default_policy (to_upper (trim r))"
  by (simp add: valid_role_def role_names_def is_known_role_iff)

lemma validate_detailed_ok: "validate_detailed e g = Inr () \<longleftrightarrow> validate_errors e g = []"
  by (simp add: validate_detailed_def Let_def)

definition rule_ok :: "auth_rule \<Rightarrow> bool" where
  "rule_ok rule \<longleftrightarrow> starts_with (ar_prefix rule) ''/'' \<and>
     (ar_auth rule = PublicAuth ''public'' \<or> (\<exists>role. ar_auth rule = RoleAuth role \<and> valid_role role))"

lemma check_auth_rule_Nil: "check_auth_rule r rule = [] \<longleftrightarrow> rule_ok rule"
  by (cases "ar_auth rule")
    (auto simp: check_auth_rule_def rule_ok_def auth_is_public_def auth_rule_min_role_def starts_with_def)

definition route_ok :: "route_info \<Rightarrow> bool" where
  "route_ok ri \<longleftrightarrow>
     ri_backends ri \<noteq> [] \<and> length (ri_weights ri) = length (ri_backends ri) \<and>
     (\<forall>c. ri_cache ri = Some c \<and> cc_enabled c \<longrightarrow> ri_public ri) \<and>
     (\<forall>m. ri_min_role ri = Some m \<longrightarrow> valid_role m \<and> \<not> ri_public ri \<and> \<not> ri_soft_auth ri) \<and>
     \<not> (ri_public ri \<and> ri_soft_auth ri) \<and>
     (\<forall>b \<in> set (ri_bypass_paths ri). starts_with (bp_prefix b) ''/'') \<and>
     (\<forall>rule \<in> set (ri_auth_rules ri). rule_ok rule)"

lemma check_route_Nil: "check_route r = [] \<longleftrightarrow> route_ok (route_info_of r)"
  by (auto simp: check_route_def route_ok_def route_info_of_def check_min_role_def check_bypass_def
      check_auth_rule_Nil length_all_weights starts_with_def split: option.splits)


lemma collect_map_SomeD: "collect_map kvs k = Some v \<Longrightarrow> (k, v) \<in> set kvs"
  unfolding collect_map_def by (drule map_of_SomeD) simp

lemma collect_map_distinct: "distinct (map fst kvs) \<Longrightarrow> (k, v) \<in> set kvs \<Longrightarrow> collect_map kvs k = Some v"
  unfolding collect_map_def by (rule map_of_is_SomeI) (simp_all add: rev_map [symmetric])

lemma validate_errors_NilD:
  assumes "validate_errors e g = []"
  shows "check_allowlists e g = []" "\<And>r. r \<in> set (gc_routing g) \<Longrightarrow> check_route r = []"
    "check_assertion_current e (gc_auth g) = []" "check_assertion_previous e (gc_auth g) = []"
    "\<And>r b. r \<in> set (gc_routing g) \<Longrightarrow> b \<in> set (all_backends r) \<Longrightarrow> check_backend_url e r b = []"
  using assms by (simp_all add: validate_errors_def)

lemma validated_route:
  assumes "validate_detailed e g = Inr ()" and "routing_table g h = Some ri"
  shows "route_ok ri \<and> (\<forall>b \<in> set (ri_backends ri). uri_parses e b \<and> is_http_url b)"
proof -
  have v: "validate_errors e g = []" using assms(1) by (simp add: validate_detailed_ok)
  from collect_map_SomeD [OF assms(2) [unfolded routing_table_def]]
  obtain r where r: "r \<in> set (gc_routing g)" "ri = route_info_of r" by auto
  from validate_errors_NilD(2) [OF v r(1)] have "route_ok ri" by (simp add: r(2) check_route_Nil)
  moreover have "uri_parses e b \<and> is_http_url b" if "b \<in> set (ri_backends ri)" for b
  proof -
    from that have "b \<in> set (all_backends r)" by (simp add: r(2) route_info_of_def)
    from validate_errors_NilD(5) [OF v r(1) this] show ?thesis
      by (simp add: check_backend_url_def split: if_splits)
  qed
  ultimately show ?thesis by blast
qed

text \<open>
  A configuration that passes validation gives a routing table in which every route is
  servable and consistent: at least one backend, as many weights as backends, every backend an
  http(s) URL that parses, response caching only on public routes, no minimum role on a public or
  soft-auth route, every minimum role one the policy engine knows, and every authorization rule
  either literally public or naming a known role (\<open>route_ok\<close>).
\<close>

theorem validated_routing_table:
  assumes "validate_detailed e g = Inr ()" and "routing_table g h = Some ri"
  shows "route_ok ri \<and> (\<forall>b \<in> set (ri_backends ri). uri_parses e b \<and> is_http_url b)"
  by (rule validated_route [OF assms])

lemma resolve_auth_rule_in:
  assumes "resolve_auth_rule rules path = Some d"
  shows "\<exists>rule \<in> set rules. d = auth_rule_decision rule"
  using assms find_sorted_key unfolding resolve_auth_rule_def by fastforce

lemma validated_rules_known:
  assumes "validate_detailed e g = Inr ()" and "routing_table g h = Some ri"
    and "resolve_auth_rule (ri_auth_rules ri) path = Some (Require m)"
  shows "is_known_role default_policy (to_upper (trim m))"
proof -
  from resolve_auth_rule_in [OF assms(3)] obtain rule where
    rule: "rule \<in> set (ri_auth_rules ri)" "Require m = auth_rule_decision rule" by blast
  have v: "validate_errors e g = []" using assms(1) by (simp add: validate_detailed_ok)
  from collect_map_SomeD [OF assms(2) [unfolded routing_table_def]]
  obtain r where r: "r \<in> set (gc_routing g)" "ri = route_info_of r" by auto
  from validate_errors_NilD(2) [OF v r(1)] rule(1) have "rule_ok rule"
    by (simp add: r(2) check_route_Nil route_ok_def)
  with rule(2) show ?thesis
    by (auto simp: rule_ok_def auth_rule_decision_def auth_is_public_def auth_rule_min_role_def
        valid_role_known split: if_splits)
qed

lemma routing_table_complete:
  assumes "distinct (map (\<lambda>r. to_lower (re_host r)) (gc_routing g))" and "r \<in> set (gc_routing g)"
  shows "routing_table g (to_lower (re_host r)) = Some (route_info_of r)"
  unfolding routing_table_def using assms
  by (intro collect_map_distinct) (auto simp: comp_def)

lemma map_filter_all: "(\<forall>x \<in> set xs. f x \<noteq> None) \<Longrightarrow> map Some (List.map_filter f xs) = map f xs"
  by (induction xs) (auto simp: map_filter_simps)

text \<open>
  No IP allowlist entry of a validated configuration is dropped on the way to the table the
  request validator consults: the networks of a host are exactly its configured entries, parsed,
  in order (for hosts that are distinct up to letter case).
\<close>

theorem validated_allowlists_complete:
  assumes "validate_detailed e g = Inr ()"
    and "distinct (map (\<lambda>r. to_lower (re_host r)) (gc_routing g))"
    and "r \<in> set (gc_routing g)" and "re_ip_allowlist r \<noteq> []"
  shows "\<exists>nets. ip_allowlist_table e g (to_lower (re_host r)) = Some nets \<and>
           map Some nets = map (parse_cidr e) (re_ip_allowlist r)"
proof -
  have v: "validate_errors e g = []" using assms(1) by (simp add: validate_detailed_ok)
  from validate_errors_NilD(1) [OF v] assms(3)
  have "\<forall>c \<in> set (re_ip_allowlist r). parse_cidr e c \<noteq> None" by (simp add: check_allowlists_def)
  from map_filter_all [OF this]
  have m: "map Some (List.map_filter (parse_cidr e) (re_ip_allowlist r)) = map (parse_cidr e) (re_ip_allowlist r)" .
  have "distinct (map (\<lambda>r. to_lower (re_host r)) (filter (\<lambda>r. re_ip_allowlist r \<noteq> []) (gc_routing g)))"
    using assms(2) by (rule distinct_map_filter)
  then have "ip_allowlist_table e g (to_lower (re_host r)) =
      Some (List.map_filter (parse_cidr e) (re_ip_allowlist r))"
    unfolding ip_allowlist_table_def using assms(3,4)
    by (intro collect_map_distinct) (auto simp: comp_def)
  with m show ?thesis by blast
qed

text \<open>
  When validation passes and an assertion secret is configured, the signer is built without
  error, and a configured previous key gives a verifier that accepts both, so signing and key
  rotation never fail at run time because of the configuration.
\<close>

theorem validated_assertion_keys:
  assumes "validate_detailed e g = Inr ()"
    and "effective_gateway_assertion_secret e (gc_auth g) = Some secret"
  shows "\<exists>signer. new_with_key_id (effective_gateway_assertion_key_id e (gc_auth g)) secret = Inr signer \<and>
     (effective_gateway_assertion_previous e (gc_auth g) = (None, None) \<or>
      (\<exists>k s p v. effective_gateway_assertion_previous e (gc_auth g) = (Some k, Some s) \<and>
         new_with_key_id k s = Inr p \<and> new_verifier signer (Some p) = Inr v))"
proof -
  have v: "validate_errors e g = []" using assms(1) by (simp add: validate_detailed_ok)
  let ?kid = "effective_gateway_assertion_key_id e (gc_auth g)"
  from validate_errors_NilD(3) [OF v] assms(2)
  have "MIN_SECRET_LEN \<le> length secret" "validate_key_id ?kid = Inr ()"
    by (auto simp: check_assertion_current_def split: sum.splits)
  from new_with_key_id_ok [OF this(2,1)]
  have sg: "new_with_key_id ?kid secret = Inr \<lparr> as_key_id = ?kid, as_secret = secret \<rparr>" .
  obtain pk ps where prev: "effective_gateway_assertion_previous e (gc_auth g) = (pk, ps)" by fastforce
  show ?thesis
  proof (cases "(pk, ps) = (None, None)")
    case True
    with sg prev show ?thesis by simp
  next
    case False
    with validate_errors_NilD(4) [OF v] prev obtain k s where
      ks: "pk = Some k" "ps = Some s" "MIN_SECRET_LEN \<le> length s" "validate_key_id k = Inr ()" "k \<noteq> ?kid"
      by (auto simp: check_assertion_previous_def split: sum.splits option.splits)
    from new_with_key_id_ok [OF ks(4,3)] ks sg prev show ?thesis
      by (auto simp: new_verifier_def)
  qed
qed

section \<open>A sample configuration\<close>

definition sample_route :: "string \<Rightarrow> route_entry" where
  "sample_route h =
     \<lparr> re_host = h, re_backend = Some ''http://b1'',
       re_backends = [\<lparr> wb_url = ''http://b2'', wb_weight = 3 \<rparr>],
       re_app_id = None, re_min_role = Some '' member'', re_ip_allowlist = [''10.0.0.0/8''],
       re_cors_origins = [''https://app''], re_path_prefix = None, re_strip_prefix = None,
       re_add_prefix = None, re_request_headers = None, re_response_headers = None,
       re_geo_allowlist = [], re_geo_denylist = [], re_public = False, re_soft_auth = False,
       re_auth_bypass_paths = [\<lparr> bp_prefix = ''/health'', bp_backend = None \<rparr>],
       re_auth_rules =
         [\<lparr> ar_prefix = ''/'', ar_match_mode = ''segment'', ar_auth = PublicAuth ''public'' \<rparr>,
          \<lparr> ar_prefix = ''/adm'', ar_match_mode = ''segment'', ar_auth = RoleAuth ''ADMIN'' \<rparr>],
       re_mirror = None, re_timeout_secs = None, re_cache = None, re_backend_tls = None \<rparr>"

definition sample_auth :: auth_config where
  "sample_auth =
     \<lparr> ac_volta_url = ''http://auth'', ac_verify_path = ''/auth/verify'', ac_timeout_ms = 500,
       ac_pool_max_idle = 32, ac_jwt_secret = None, ac_cookie_name = None, ac_auth_public_url = None,
       ac_degraded_mode = False, ac_jwt_public_key_pem = None, ac_jwks_url = None,
       ac_jwt_issuer = None, ac_jwt_audience = None,
       ac_gateway_assertion_secret = Some ''0123456789abcdef0123456789abcdef'',
       ac_gateway_assertion_key_id = Some ''k2'',
       ac_gateway_assertion_previous_key_id = Some ''k1'',
       ac_gateway_assertion_previous_secret = Some ''fedcba9876543210fedcba9876543210'' \<rparr>"

definition sample_config :: "route_entry list \<Rightarrow> gateway_config" where
  "sample_config rs =
     \<lparr> gc_config_version = 3,
       gc_server = \<lparr> sv_port = 80, sv_read_timeout_secs = 30, sv_request_timeout_secs = 30,
         sv_force_https = False, sv_trusted_proxies = [], sv_drain_timeout_secs = 30,
         sv_reuse_port = False \<rparr>,
       gc_auth = sample_auth, gc_routing = rs,
       gc_rate_limit = \<lparr> rl_requests_per_second = 10, rl_per_ip_rps = 5 \<rparr>,
       gc_error_pages_dir = None, gc_tls = None, gc_l4_proxy = [], gc_plugins = [],
       gc_admin = \<lparr> ad_token = None \<rparr> \<rparr>"

definition sample_net :: ip_net where
  "sample_net a = (case a of V4 w \<Rightarrow> drop_bit 24 w = 10 | V6 _ \<Rightarrow> False)"

definition sample_env :: surroundings where
  "sample_env =
     \<lparr> env_var = Map.empty,
       parse_cidr = (\<lambda>s. if s = ''10.0.0.0/8'' then Some sample_net else None),
       uri_parses = (\<lambda>_. True) \<rparr>"

lemma sample_valid: "validate_detailed sample_env (sample_config [sample_route ''A.io'']) = Inr ()"
  by code_simp

theorem resolve_auth_rule_longest_witness:
  "resolve_auth_rule (re_auth_rules (sample_route ''A.io'')) ''/adm/x'' = Some (Require ''ADMIN'') \<and>
   (\<exists>rule \<in> set (re_auth_rules (sample_route ''A.io'')). auth_rule_decision rule = Require ''ADMIN'')"
proof -
  have r: "resolve_auth_rule (re_auth_rules (sample_route ''A.io'')) ''/adm/x'' = Some (Require ''ADMIN'')"
    by code_simp
  from resolve_auth_rule_longest [of "re_auth_rules (sample_route ''A.io'')" "''/adm/x''"] r show ?thesis
    by (auto simp del: bex_simps)
qed

theorem validated_routing_table_witness:
  "\<exists>ri. routing_table (sample_config [sample_route ''A.io'']) ''a.io'' = Some ri \<and> route_ok ri \<and>
     ri_backends ri = [''http://b1'', ''http://b2''] \<and> is_http_url ''http://b2''"
proof -
  have t: "routing_table (sample_config [sample_route ''A.io'']) ''a.io'' = Some (route_info_of (sample_route ''A.io''))"
    by code_simp
  have b: "ri_backends (route_info_of (sample_route ''A.io'')) = [''http://b1'', ''http://b2'']"
    by code_simp
  from validated_routing_table [OF sample_valid t] t b show ?thesis by auto
qed

theorem validated_allowlists_complete_witness:
  "\<exists>nets. ip_allowlist_table sample_env (sample_config [sample_route ''A.io'']) ''a.io'' = Some nets \<and>
     map Some nets = [Some sample_net]"
proof -
  have l: "to_lower (re_host (sample_route ''A.io'')) = ''a.io''" by code_simp
  have "\<exists>nets. ip_allowlist_table sample_env (sample_config [sample_route ''A.io''])
        (to_lower (re_host (sample_route ''A.io''))) = Some nets \<and>
      map Some nets = map (parse_cidr sample_env) (re_ip_allowlist (sample_route ''A.io''))"
    by (rule validated_allowlists_complete [OF sample_valid])
      (simp_all add: sample_config_def sample_route_def)
  then show ?thesis unfolding l by (simp add: sample_route_def sample_env_def)
qed

theorem validated_assertion_keys_witness:
  "\<exists>signer. new_with_key_id ''k2'' ''0123456789abcdef0123456789abcdef'' = Inr signer \<and>
     (\<exists>p v. new_verifier signer (Some p) = Inr v)"
proof -
  let ?g = "sample_config [sample_route ''A.io'']"
  have s: "effective_gateway_assertion_secret sample_env (gc_auth ?g) = Some ''0123456789abcdef0123456789abcdef''"
    and k: "effective_gateway_assertion_key_id sample_env (gc_auth ?g) = ''k2''"
    and p: "effective_gateway_assertion_previous sample_env (gc_auth ?g) \<noteq> (None, None)"
    by code_simp+
  from validated_assertion_keys [OF sample_valid s] p show ?thesis unfolding k by blast
qed

text \<open>
  Two hosts that differ only in letter case pass the duplicate-host check, yet the routing
  table keeps one entry for both, the later one: the first route's settings, here its minimum
  role, no longer apply to the host.
\<close>

theorem validated_config_can_shadow_host:
  "\<exists>e g r r'. validate_detailed e g = Inr () \<and> gc_routing g = [r, r'] \<and>
     to_lower (re_host r) = to_lower (re_host r') \<and> re_min_role r \<noteq> None \<and>
     map_option ri_min_role (routing_table g (to_lower (re_host r))) = Some None"
proof -
  let ?r = "sample_route ''A.io''" and ?r' = "sample_route ''a.io'' \<lparr> re_min_role := None \<rparr>"
  have "validate_detailed sample_env (sample_config [?r, ?r']) = Inr ()" by code_simp
  moreover have "gc_routing (sample_config [?r, ?r']) = [?r, ?r']" by (simp add: sample_config_def)
  moreover have "to_lower (re_host ?r) = to_lower (re_host ?r')" by code_simp
  moreover have "re_min_role ?r \<noteq> None" by (simp add: sample_route_def)
  moreover have "map_option ri_min_role (routing_table (sample_config [?r, ?r']) (to_lower (re_host ?r))) = Some None"
    by code_simp
  ultimately show ?thesis by blast
qed

end
