(* ===== verification/Routing.thy ===== *)
theory Routing
  imports Gateway_Config
begin

text \<open>
  Host and path routing of \<open>gateway/src/proxy.rs\<close>: host normalization, the exact and wildcard
  route lookup that the proxy, the request flow and the WebSocket handler share, segment matching
  of bypass prefixes, path rewriting, and \<open>BackendSelector\<close>. The \<open>f64\<close> product
  \<open>rand_sample() * total\<close>, truncated to \<open>u32\<close>, is the argument \<open>r\<close> of the selection, so that every
  statement about it holds for each value the sample can give; the round-robin counters are
  64-bit words that wrap.
\<close>

section \<open>Hosts and paths\<close>

definition normalize_host :: "string \<Rightarrow> string" where
  "normalize_host raw =
     to_lower (if starts_with raw ''['' then hd (split_on CHR '']'' raw) @ '']''
               else hd (split_on CHR '':'' raw))"

text \<open>\<open>routing.get(host)\<close>, or else the wildcard entry for everything after the first dot.\<close>

definition lookup_route :: "(string \<rightharpoonup> 'r) \<Rightarrow> string \<Rightarrow> 'r option" where
  "lookup_route routing host =
     or_else (routing host)
       (case split_once CHR ''.'' host of
          None \<Rightarrow> None | Some (_, d) \<Rightarrow> routing (''*.'' @ d))"

definition host_is_routed_raw :: "string option \<Rightarrow> (string \<rightharpoonup> 'r) \<Rightarrow> bool" where
  "host_is_routed_raw raw_host routing =
     (case raw_host of
        None \<Rightarrow> False
      | Some raw \<Rightarrow>
          (let host = normalize_host raw in if host = [] then False else routing host \<noteq> None))"

definition bypass_path_matches :: "string \<Rightarrow> string \<Rightarrow> bool" where
  "bypass_path_matches path prefix =
     (if path = prefix then True
      else if ends_with prefix ''/'' then starts_with path prefix
      else (case strip_prefix path prefix of
              Some remainder \<Rightarrow> starts_with remainder ''/'' | None \<Rightarrow> False))"

definition find_bypass :: "bypass_path list \<Rightarrow> string \<Rightarrow> bypass_path option" where
  "find_bypass bps path = find (\<lambda>bp. bypass_path_matches path (bp_prefix bp)) bps"

definition rewrite_path :: "route_info option \<Rightarrow> string \<Rightarrow> string" where
  "rewrite_path route_info path_and_query =
     (case route_info of
        None \<Rightarrow> path_and_query
      | Some ri \<Rightarrow>
          (let p = (case ri_strip_prefix ri of
                      None \<Rightarrow> path_and_query
                    | Some strip \<Rightarrow>
                        (if starts_with path_and_query strip
                         then (let q = drop (length strip) path_and_query
                               in if starts_with q ''/'' then q else ''/'' @ q)
                         else path_and_query))
           in (case ri_add_prefix ri of
                 None \<Rightarrow> p | Some add \<Rightarrow> trim_end_matches add CHR ''/'' @ p)))"

section \<open>Backend selection\<close>

record backend_selector =
  bs_counters :: "string \<rightharpoonup> u64"
  bs_health :: "string \<rightharpoonup> bool"

definition new_selector :: backend_selector where
  "new_selector = \<lparr> bs_counters = Map.empty, bs_health = Map.empty \<rparr>"

definition alive :: "backend_selector \<Rightarrow> string \<Rightarrow> bool" where
  "alive sel b = unwrap_or True (bs_health sel b)"

definition total_weight :: "(string \<Rightarrow> bool) \<Rightarrow> (string \<times> u32) list \<Rightarrow> u32" where
  "total_weight ok bws = sum_list (map snd (filter (\<lambda>(b, _). ok b) bws))"

fun pick_weighted :: "(string \<Rightarrow> bool) \<Rightarrow> u32 \<Rightarrow> u32 \<Rightarrow> (string \<times> u32) list \<Rightarrow> string option" where
  "pick_weighted ok r acc [] = None"
| "pick_weighted ok r acc ((b, w) # rest) =
     (if \<not> ok b then pick_weighted ok r acc rest
      else if r < acc + w then Some b
      else pick_weighted ok r (acc + w) rest)"

fun round_robin :: "(string \<Rightarrow> bool) \<Rightarrow> string list \<Rightarrow> nat \<Rightarrow> u64 \<Rightarrow> string option \<times> u64" where
  "round_robin ok backends 0 counter = (None, counter)"
| "round_robin ok backends (Suc n) counter =
     (let b = backends ! (unat counter mod length backends)
      in if ok b then (Some b, counter + 1) else round_robin ok backends n (counter + 1))"

definition select_round_robin ::
    "backend_selector \<Rightarrow> string \<Rightarrow> string list \<Rightarrow> string \<times> backend_selector" where
  "select_round_robin sel host backends =
     (case round_robin (alive sel) backends (length backends) (unwrap_or 0 (bs_counters sel host)) of
        (found, counter) \<Rightarrow>
          (unwrap_or (backends ! (unat counter mod length backends)) found,
           sel \<lparr> bs_counters := (bs_counters sel)(host \<mapsto> counter) \<rparr>))"

text \<open>\<open>None\<close> is the index panic of \<open>&backends[0]\<close> on an empty backend list.\<close>

definition select ::
    "backend_selector \<Rightarrow> string \<Rightarrow> string list \<Rightarrow> u32 list \<Rightarrow> u32 \<Rightarrow> (string \<times> backend_selector) option" where
  "select sel host backends weights r =
     (case backends of
        [] \<Rightarrow> None
      | [b] \<Rightarrow> Some (b, sel)
      | _ \<Rightarrow>
          (let bws = zip backends weights;
               weighted = (if weights \<noteq> [] \<and> length weights = length backends \<and>
                              0 < total_weight (alive sel) bws
                           then pick_weighted (alive sel) r 0 bws else None)
           in (case weighted of
                 Some b \<Rightarrow> Some (b, sel)
               | None \<Rightarrow> Some (select_round_robin sel host backends))))"

definition set_health :: "backend_selector \<Rightarrow> string \<Rightarrow> bool \<Rightarrow> backend_selector" where
  "set_health sel backend ok = sel \<lparr> bs_health := (bs_health sel)(backend \<mapsto> ok) \<rparr>"

text \<open>
  One cycle of the health checker over the current routing table: every backend of every route,
  once, in order of first appearance, probed and marked. \<open>probe\<close> is whether the request to
  \<open>backend + path\<close> came back within five seconds with a success status.
\<close>

fun unique_backends :: "string list \<Rightarrow> string list \<Rightarrow> string list" where
  "unique_backends acc [] = acc"
| "unique_backends acc (u # us) = unique_backends (if u \<in> set acc then acc else acc @ [u]) us"

definition health_cycle ::
    "(string \<Rightarrow> bool) \<Rightarrow> string \<Rightarrow> route_info list \<Rightarrow> backend_selector \<Rightarrow> backend_selector" where
  "health_cycle probe path routes sel =
     foldl (\<lambda>s b. set_health s b (probe (b @ path))) sel
       (unique_backends [] (concat (map ri_backends routes)))"

definition rand_mix :: "u64 \<Rightarrow> u64" where
  "rand_mix c = c * 6364136223846793005 + 1442695040888963407"

text \<open>The sample, in ten-thousandths.\<close>

definition rand_sample :: "u64 \<Rightarrow> nat" where
  "rand_sample c = unat (rand_mix c) mod 10000"

section \<open>Path-prefix matchers\<close>

text \<open>
  The contract of a segment-wise prefix match, which the bypass paths and the authorization rules
  both promise: a prefix matches the path itself, a path that continues with a slash, or, when it
  ends in a slash, every path it is a prefix of. Nothing else, in particular not a longer segment.
\<close>

locale segment_matcher =
  fixes m :: "string \<Rightarrow> string \<Rightarrow> bool"
  assumes match_iff: "m path prefix \<longleftrightarrow>
    path = prefix \<or> (\<exists>rest. path = prefix @ CHR ''/'' # rest) \<or>
    (ends_with prefix ''/'' \<and> starts_with path prefix)"
begin

lemma match_prefix: "m path prefix \<Longrightarrow> starts_with path prefix"
  using match_iff by auto

lemma match_segment:
  assumes "m path prefix" and "\<not> ends_with prefix ''/''"
  shows "path = prefix \<or> (\<exists>rest. path = prefix @ CHR ''/'' # rest)"
  using assms match_iff by blast

lemma no_match_inside_segment:
  assumes "c \<noteq> CHR ''/''" and "\<not> ends_with prefix ''/''"
  shows "\<not> m (prefix @ c # rest) prefix"
  using assms match_segment by fastforce

lemma match_trans:
  assumes "m path p" and "m p q"
  shows "m path q"
proof -
  have s: "starts_with path q" using assms match_prefix starts_with_trans by blast
  show ?thesis
  proof (cases "ends_with q ''/''")
    case True
    with s match_iff show ?thesis by blast
  next
    case False
    from match_segment [OF assms(2) False] show ?thesis
    proof
      assume "p = q"
      with assms(1) show ?thesis by simp
    next
      assume "\<exists>rest. p = q @ CHR ''/'' # rest"
      moreover obtain t where "path = p @ t"
        using match_prefix [OF assms(1)] by (auto simp: starts_with_iff)
      ultimately show ?thesis using match_iff by auto
    qed
  qed
qed

end

lemma starts_with_Cons1: "starts_with s [c] \<longleftrightarrow> (\<exists>r. s = c # r)"
  by (auto simp: starts_with_iff)

lemma bypass_path_matches_iff:
  "bypass_path_matches path prefix \<longleftrightarrow>
     path = prefix \<or> (\<exists>rest. path = prefix @ CHR ''/'' # rest) \<or>
     (ends_with prefix ''/'' \<and> starts_with path prefix)"
  by (auto simp: bypass_path_matches_def strip_prefix_def starts_with_iff starts_with_Cons1
      split: option.splits if_splits)

interpretation bypass: segment_matcher bypass_path_matches
  by unfold_locales (rule bypass_path_matches_iff)

lemma auth_rule_matches_bypass:
  "ar_match_mode rule \<noteq> ''exact'' \<Longrightarrow>
     auth_rule_matches rule path = bypass_path_matches path (ar_prefix rule)"
  by (simp add: auth_rule_matches_def bypass_path_matches_def)

interpretation rule_match: segment_matcher
    "\<lambda>path prefix. auth_rule_matches \<lparr> ar_prefix = prefix, ar_match_mode = ''segment'', ar_auth = a \<rparr> path"
  for a
  by unfold_locales (simp add: auth_rule_matches_bypass bypass_path_matches_iff)

section \<open>Selection\<close>

lemma pick_weighted_ok: "pick_weighted ok r acc bws = Some b \<Longrightarrow> ok b \<and> b \<in> fst ` set bws"
  by (induction ok r acc bws rule: pick_weighted.induct) (auto split: if_splits)

lemma round_robin_Some: "backends \<noteq> [] \<Longrightarrow> round_robin ok backends n c = (Some b, c') \<Longrightarrow> ok b \<and> b \<in> set backends"
  by (induction n arbitrary: c) (auto simp: Let_def split: if_splits)

lemma round_robin_None:
  assumes "round_robin ok backends n c = (None, c')" and "unat c + n \<le> 2 ^ 64" and "i < n"
  shows "\<not> ok (backends ! ((unat c + i) mod length backends))"
  using assms
proof (induction n arbitrary: c i)
  case (Suc n)
  from Suc.prems(1) have no: "\<not> ok (backends ! (unat c mod length backends))"
    and rec: "round_robin ok backends n (c + 1) = (None, c')"
    by (auto simp: Let_def split: if_splits)
  show ?case
  proof (cases i)
    case 0
    with no show ?thesis by simp
  next
    case (Suc j)
    with Suc.prems(2,3) have "unat c + 1 < 2 ^ 64" by simp
    then have u: "unat (c + 1) = unat c + 1" by (simp add: unat_word_ariths)
    from Suc.IH [OF rec, of j] Suc.prems(2,3) Suc u show ?thesis by simp
  qed
qed simp

lemma residues_covered:
  fixes a n k :: nat
  assumes "k < n"
  shows "\<exists>i<n. (a + i) mod n = k"
proof -
  let ?i = "(n + k - a mod n) mod n"
  have lt: "a mod n < n" using assms by simp
  have "(a + ?i) mod n = (a mod n + (n + k - a mod n)) mod n" by (simp add: mod_add_eq mod_add_right_eq mod_add_left_eq)
  also have "\<dots> = (n + k) mod n" using lt by simp
  also have "\<dots> = k" using assms by simp
  finally show ?thesis using assms by (intro exI [of _ ?i]) simp
qed

lemma round_robin_finds:
  assumes "b \<in> set backends" and "ok b" and "unat c + length backends \<le> 2 ^ 64"
  shows "\<exists>b' c'. round_robin ok backends (length backends) c = (Some b', c') \<and> ok b'"
proof -
  have ne: "backends \<noteq> []" using assms(1) by auto
  obtain r c' where rc: "round_robin ok backends (length backends) c = (r, c')" by fastforce
  show ?thesis
  proof (cases r)
    case (Some b')
    with rc round_robin_Some [OF ne] show ?thesis by blast
  next
    case None
    obtain k where k: "k < length backends" "backends ! k = b" using assms(1) by (auto simp: in_set_conv_nth)
    obtain i where "i < length backends" "(unat c + i) mod length backends = k"
      using residues_covered [OF k(1)] by blast
    with round_robin_None [OF rc [unfolded None] assms(3)] k assms(2) show ?thesis by metis
  qed
qed

lemma select_round_robin_member:
  assumes "backends \<noteq> []"
  shows "fst (select_round_robin sel host backends) \<in> set backends"
proof -
  obtain r c where rc: "round_robin (alive sel) backends (length backends) (unwrap_or 0 (bs_counters sel host)) = (r, c)"
    by fastforce
  show ?thesis
    using assms rc round_robin_Some [OF assms, of "alive sel" "length backends"]
    by (cases r) (auto simp: select_round_robin_def)
qed

text \<open>
  Selection routes around dead backends. With two or more backends of which at least one is
  alive, the backend returned is a configured one and alive, whatever the weights and the random
  sample, and selection never changes the recorded health. The proviso is that the round-robin
  counter of the host does not wrap around \<open>2 ^ 64\<close> during the scan.
\<close>

theorem select_healthy:
  assumes "2 \<le> length backends"
    and "b \<in> set backends" and "alive sel b"
    and "unat (unwrap_or 0 (bs_counters sel host)) + length backends \<le> 2 ^ 64"
  shows "\<exists>b' sel'. select sel host backends weights r = Some (b', sel') \<and>
           b' \<in> set backends \<and> alive sel b' \<and> bs_health sel' = bs_health sel"
proof -
  obtain x y zs where bs: "backends = x # y # zs"
    using assms(1) by (cases backends; cases "tl backends") auto
  have ne: "backends \<noteq> []" using bs by simp
  obtain b' c' where rr: "round_robin (alive sel) backends (length backends) (unwrap_or 0 (bs_counters sel host)) = (Some b', c')"
      "alive sel b'"
    using round_robin_finds [where ok = "alive sel", OF assms(2,3,4)] by blast
  have m: "b' \<in> set backends" using round_robin_Some [OF ne rr(1)] by blast
  let ?bws = "zip backends weights"
  show ?thesis
  proof (cases "pick_weighted (alive sel) r 0 ?bws")
    case None
    with bs rr m show ?thesis by (auto simp: select_def select_round_robin_def Let_def)
  next
    case (Some w)
    from pick_weighted_ok [OF this] have "alive sel w" "w \<in> set backends"
      by (auto dest: set_zip_leftD)
    with Some bs rr m show ?thesis
      by (auto simp: select_def select_round_robin_def Let_def)
  qed
qed

lemma select_member:
  assumes "backends \<noteq> []"
  shows "\<exists>b sel'. select sel host backends weights r = Some (b, sel') \<and> b \<in> set backends"
proof (cases "2 \<le> length backends")
  case False
  with assms show ?thesis by (cases backends; cases "tl backends") (auto simp: select_def)
next
  case True
  then obtain x y zs where bs: "backends = x # y # zs"
    by (cases backends; cases "tl backends") auto
  have rr: "fst (select_round_robin sel host backends) \<in> set backends"
    using assms by (rule select_round_robin_member)
  show ?thesis
  proof (cases "pick_weighted (alive sel) r 0 (zip backends weights)")
    case None
    with bs rr show ?thesis
      by (cases "select_round_robin sel host backends") (auto simp: select_def Let_def)
  next
    case (Some w)
    from pick_weighted_ok [OF this] have "w \<in> set backends" by (auto dest: set_zip_leftD)
    with Some bs rr show ?thesis
      by (cases "select_round_robin sel host backends") (auto simp: select_def Let_def)
  qed
qed


definition live_sum :: "(string \<Rightarrow> bool) \<Rightarrow> (string \<times> u32) list \<Rightarrow> nat" where
  "live_sum ok bws = sum_list (map (\<lambda>(b, w). unat w) (filter (\<lambda>(b, _). ok b) bws))"

lemma live_sum_simps [simp]:
  "live_sum ok [] = 0"
  "live_sum ok ((b, w) # bws) = (if ok b then unat w else 0) + live_sum ok bws"
  "live_sum ok (xs @ ys) = live_sum ok xs + live_sum ok ys"
  by (auto simp: live_sum_def)

lemma unat_add_lt: "unat (a :: u32) + unat b < 2 ^ 32 \<Longrightarrow> unat (a + b) = unat a + unat b"
  by (simp add: unat_word_ariths)

lemma pick_weighted_interval:
  assumes "unat acc + live_sum ok (pre @ (b, w) # post) < 2 ^ 32" and "ok b"
    and "unat acc + live_sum ok pre \<le> unat r" and "unat r < unat acc + live_sum ok pre + unat w"
  shows "pick_weighted ok r acc (pre @ (b, w) # post) = Some b"
  using assms
proof (induction pre arbitrary: acc)
  case Nil
  then show ?case by (simp add: word_less_nat_alt unat_add_lt)
next
  case (Cons p pre)
  obtain b' w' where p: "p = (b', w')" by fastforce
  show ?case
  proof (cases "ok b'")
    case False
    with Cons p show ?thesis by simp
  next
    case True
    with Cons.prems(1) p have u: "unat (acc + w') = unat acc + unat w'" by (intro unat_add_lt) simp
    with Cons.prems True p have "\<not> r < acc + w'" by (simp add: word_less_nat_alt)
    with Cons.IH [of "acc + w'"] Cons.prems True p u show ?thesis by simp
  qed
qed

lemma total_weight_live: "live_sum ok bws < 2 ^ 32 \<Longrightarrow> unat (total_weight ok bws) = live_sum ok bws"
proof (induction bws)
  case Nil
  then show ?case by (simp add: total_weight_def)
next
  case (Cons p bws)
  obtain b w where p: "p = (b, w)" by fastforce
  have t: "total_weight ok (p # bws) = (if ok b then w else 0) + total_weight ok bws"
    by (simp add: total_weight_def p)
  show ?case
  proof (cases "ok b")
    case True
    with Cons p have "unat w + unat (total_weight ok bws) < 2 ^ 32" by simp
    from unat_add_lt [OF this] Cons p True show ?thesis unfolding t by simp
  next
    case False
    with Cons p t show ?thesis by simp
  qed
qed

text \<open>
  Weighted selection gives every live backend a share of exactly its weight: backend \<open>b\<close> is
  chosen whenever the sample falls in the interval of length \<open>w\<close> that starts at the sum of the
  weights of the live backends before it, dead backends taking no share, as long as the live
  weights sum to less than \<open>2 ^ 32\<close>.
\<close>

theorem select_weighted_share:
  assumes "zip backends weights = pre @ (b, w) # post" and "length weights = length backends"
    and "2 \<le> length backends" and "alive sel b"
    and "live_sum (alive sel) (zip backends weights) < 2 ^ 32"
    and "live_sum (alive sel) pre \<le> unat r" and "unat r < live_sum (alive sel) pre + unat w"
  shows "select sel host backends weights r = Some (b, sel)"
proof -
  obtain x y zs where bs: "backends = x # y # zs"
    using assms(3) by (cases backends; cases "tl backends") auto
  have "pick_weighted (alive sel) r 0 (zip backends weights) = Some b"
    unfolding assms(1) by (rule pick_weighted_interval) (use assms in simp_all)
  moreover have "0 < total_weight (alive sel) (zip backends weights)"
    using total_weight_live [OF assms(5)] assms(1,4,6,7)
    by (simp add: word_less_nat_alt)
  ultimately show ?thesis using bs assms(2) by (auto simp: select_def Let_def)
qed

lemma set_unique_backends: "set (unique_backends acc us) = set acc \<union> set us"
  by (induction us arbitrary: acc) auto

lemma distinct_unique_backends: "distinct acc \<Longrightarrow> distinct (unique_backends acc us)"
  by (induction us arbitrary: acc) auto

lemma health_fold:
  "bs_health (foldl (\<lambda>s b. set_health s b (f b)) sel bs) b =
     (if b \<in> set bs then Some (f b) else bs_health sel b)"
  by (induction bs arbitrary: sel) (auto simp: set_health_def)

text \<open>
  One cycle of the health checker leaves every backend of the routing table marked with the
  result of its own probe, and every other backend as it was.
\<close>

theorem health_cycle_marks:
  "alive (health_cycle probe path routes sel) b =
     (if \<exists>ri \<in> set routes. b \<in> set (ri_backends ri) then probe (b @ path) else alive sel b)"
  by (auto simp: health_cycle_def alive_def health_fold set_unique_backends)

text \<open>
  Route lookup is exact match first, then the wildcard entry of the parent domain: a wildcard
  covers exactly one label, and never overrides an exact entry.
\<close>

theorem lookup_route_spec:
  "lookup_route routing host = Some ri \<longleftrightarrow>
     routing host = Some ri \<or>
     routing host = None \<and> (\<exists>label d. host = label @ CHR ''.'' # d \<and> CHR ''.'' \<notin> set label \<and>
        routing (''*.'' @ d) = Some ri)"
proof (cases "split_once CHR ''.'' host")
  case None
  then have "CHR ''.'' \<notin> set host" by (simp add: split_once_None)
  with None show ?thesis by (auto simp: lookup_route_def or_else_def split: option.splits)
next
  case (Some p)
  obtain l d where p: "p = (l, d)" by fastforce
  with Some have "host = l @ CHR ''.'' # d" "CHR ''.'' \<notin> set l" by (simp_all add: split_once_Some)
  then have "(host = label @ CHR ''.'' # d' \<and> CHR ''.'' \<notin> set label) \<longleftrightarrow> label = l \<and> d' = d" for label d'
    using sep_unique by blast
  then have "(\<exists>label d'. host = label @ CHR ''.'' # d' \<and> CHR ''.'' \<notin> set label \<and> routing (''*.'' @ d') = Some ri)
      \<longleftrightarrow> routing (''*.'' @ d) = Some ri" by metis
  with Some p show ?thesis by (cases "routing host") (simp_all add: lookup_route_def)
qed

theorem select_healthy_witness:
  "\<exists>b' sel'. select (set_health new_selector ''a'' False) ''h'' [''a'', ''b''] [5, 0] 3 = Some (b', sel') \<and>
     b' \<in> set [''a'', ''b''] \<and> alive (set_health new_selector ''a'' False) b'"
proof -
  have "alive (set_health new_selector ''a'' False) ''b''" by code_simp
  moreover have "unat (unwrap_or 0 (bs_counters (set_health new_selector ''a'' False) ''h'')) + length [''a'', ''b''] \<le> 2 ^ 64"
    by (simp add: set_health_def new_selector_def)
  ultimately show ?thesis
    using select_healthy [of "[''a'', ''b'']" "''b''" "set_health new_selector ''a'' False" "''h''" "[5, 0]" 3] by auto
qed

theorem select_weighted_share_witness:
  "select new_selector ''h'' [''a'', ''b''] [5, 2] 6 = Some (''b'', new_selector)"
proof (rule select_weighted_share [where pre = "[(''a'', 5)]" and w = 2 and post = "[]"])
  have a: "alive new_selector = (\<lambda>_. True)" by (simp add: alive_def new_selector_def fun_eq_iff)
  show "alive new_selector ''b''" by (simp add: a)
  show "live_sum (alive new_selector) (zip [''a'', ''b''] [5, 2]) < 2 ^ 32" by (simp add: a)
  show "live_sum (alive new_selector) [(''a'', 5)] \<le> unat (6 :: u32)" by (simp add: a)
  show "unat (6 :: u32) < live_sum (alive new_selector) [(''a'', 5)] + unat (2 :: u32)" by (simp add: a)
qed simp_all

text \<open>
  The reserved path \<open>/healthz\<close> is answered by the gateway itself for a host that is served
  only through a wildcard entry: such a host is routed, yet \<open>host_is_routed_raw\<close> says it is not, so
  the probe never reaches the service behind it.
\<close>

theorem wildcard_host_not_seen_as_routed:
  "\<exists>(routing :: routing_table) host. lookup_route routing (normalize_host host) \<noteq> None \<and>
     \<not> host_is_routed_raw (Some host) routing"
proof -
  let ?r = "[''*.x.io'' \<mapsto> route_info_of (sample_route ''*.x.io'')]"
  have "lookup_route ?r (normalize_host ''a.x.io'') \<noteq> None" "\<not> host_is_routed_raw (Some ''a.x.io'') ?r"
    by code_simp+
  then show ?thesis by blast
qed

end
