(* ===== verification/Proxy_Flow.thy ===== *)
theory Proxy_Flow
  imports Routing
begin

text \<open>
  The request lifecycle of \<open>gateway/src/state.rs\<close> and \<open>gateway/src/flow.rs\<close>: the states, the
  processors and guards, percent-decoding of paths, and the flow definition. The tramli engine that
  runs a definition is a package of its own; \<open>flow_engine\<close> names the two calls the gateway makes of
  it, and \<open>runs_auto_chain\<close> the behaviour its documentation and the comments of the source give:
  automatic transitions are taken until an external one or a terminal state is reached, the
  matching \<open>on_step_error\<close> is consulted before \<open>on_any_error\<close>.

  \<open>urlencoding_decode\<close> recurses on its own output and does not always return, so it is a partial
  function: \<open>None\<close> is a call that never returns, and the validator that makes the call inherits it.
\<close>

section \<open>States\<close>

datatype proxy_state =
    Received | Validated | Routed | AuthChecked | Forwarded | Completed
  | BadRequest | Redirect | Denied | BadGateway | GatewayTimeout

definition is_terminal :: "proxy_state \<Rightarrow> bool" where
  "is_terminal s \<longleftrightarrow> s \<in> set [Completed, BadRequest, Redirect, Denied, BadGateway, GatewayTimeout]"

definition is_initial :: "proxy_state \<Rightarrow> bool" where
  "is_initial s \<longleftrightarrow> s = Received"

fun as_status_code :: "proxy_state \<Rightarrow> nat" where
  "as_status_code Completed = 200"
| "as_status_code BadRequest = 400"
| "as_status_code Redirect = 302"
| "as_status_code Denied = 403"
| "as_status_code BadGateway = 502"
| "as_status_code GatewayTimeout = 504"
| "as_status_code _ = 500"

section \<open>Flow data\<close>

record request_data =
  rd_host :: string
  rd_path :: string
  rd_method :: string
  rd_header_size :: nat
  rd_content_length :: "nat option"
  rd_client_ip :: "ip_addr option"

record route_target =
  rt_backend_url :: string
  rt_backends :: "string list"
  rt_app_id :: "string option"

type_synonym volta_headers = "(string \<times> string) list"

record flow_ctx =
  cx_request :: "request_data option"
  cx_route :: "route_target option"
  cx_auth :: "volta_headers option"
  cx_response :: "nat option"

record flow_error =
  fe_code :: string
  fe_message :: string

abbreviation flow_err :: "string \<Rightarrow> string \<Rightarrow> (flow_error, 'a) result" where
  "flow_err c m \<equiv> Inl \<lparr> fe_code = c, fe_message = m \<rparr>"

section \<open>Percent-decoding\<close>

definition hex_val :: "char \<Rightarrow> nat option" where
  "hex_val c =
     (let b = (of_char c :: nat)
      in if 48 \<le> b \<and> b \<le> 57 then Some (b - 48)
         else if 97 \<le> b \<and> b \<le> 102 then Some (b - 97 + 10)
         else if 65 \<le> b \<and> b \<le> 70 then Some (b - 65 + 10)
         else None)"

text \<open>\<open>String::push(b as char)\<close>: a byte of 128 or more becomes the two-byte UTF-8 form of U+00bb.\<close>

definition push_latin1 :: "nat \<Rightarrow> string" where
  "push_latin1 b = (if b < 128 then [char_of b] else [char_of (192 + b div 64), char_of (128 + b mod 64)])"

definition escape_at :: "string \<Rightarrow> nat option" where
  "escape_at s =
     (case s of
        p # h # l # _ \<Rightarrow>
          (if p = CHR ''%''
           then (case (hex_val h, hex_val l) of (Some hi, Some lo) \<Rightarrow> Some (hi * 16 + lo) | _ \<Rightarrow> None)
           else None)
      | _ \<Rightarrow> None)"

fun decode_pass :: "string \<Rightarrow> string" where
  "decode_pass [] = []"
| "decode_pass (c # rest) =
     (case escape_at (c # rest) of
        Some b \<Rightarrow> push_latin1 b @ decode_pass (drop 2 rest)
      | None \<Rightarrow> push_latin1 (of_char c) @ decode_pass rest)"

partial_function (option) urlencoding_decode :: "string \<Rightarrow> string option" where
  "urlencoding_decode input =
     (let result = decode_pass input
      in if CHR ''%'' \<in> set result \<and> result \<noteq> input
         then Option.bind (urlencoding_decode result)
                (\<lambda>second. if second \<noteq> result then Some second else Some result)
         else Some result)"

declare urlencoding_decode.simps [code]

section \<open>Processors and guards\<close>

type_synonym processor = "flow_ctx \<Rightarrow> (flow_error, flow_ctx) result option"
type_synonym guard = "flow_ctx \<Rightarrow> (string, flow_ctx) result"

definition missing :: "string \<Rightarrow> (flow_error, 'a) result" where
  "missing t = flow_err ''MISSING_CONTEXT'' t"

definition ip_allowed_at :: "allowlist_table \<Rightarrow> request_data \<Rightarrow> bool" where
  "ip_allowed_at ip_allowlists req =
     (case ip_allowlists (rd_host req) of
        None \<Rightarrow> True
      | Some allowlist \<Rightarrow>
          (case rd_client_ip req of
             None \<Rightarrow> True
           | Some ip \<Rightarrow> list_ex (\<lambda>net. net ip) allowlist))"

definition host_known :: "(string \<rightharpoonup> 'r) \<Rightarrow> string \<Rightarrow> bool" where
  "host_known routing host \<longleftrightarrow>
     routing host \<noteq> None \<or>
     (case split_once CHR ''.'' host of None \<Rightarrow> False | Some (_, domain) \<Rightarrow> routing (''*.'' @ domain) \<noteq> None)"

definition validate_request ::
    "routing_table \<Rightarrow> allowlist_table \<Rightarrow> request_data \<Rightarrow> (flow_error, unit) result option" where
  "validate_request routing ip_allowlists req =
     (if 8192 < rd_header_size req then Some (flow_err ''BAD_REQUEST'' ''Headers too large'')
      else if (case rd_content_length req of Some cl \<Rightarrow> 10485760 < cl | None \<Rightarrow> False)
        then Some (flow_err ''BAD_REQUEST'' ''Body too large'')
      else if rd_host req = [] then Some (flow_err ''BAD_REQUEST'' ''Missing Host header'')
      else if contains_sub (rd_path req) ''..'' then Some (flow_err ''BAD_REQUEST'' ''Invalid path'')
      else (case urlencoding_decode (rd_path req) of
              None \<Rightarrow> None
            | Some decoded \<Rightarrow>
                Some (if contains_sub decoded ''..''
                        then flow_err ''BAD_REQUEST'' ''Invalid path (encoded traversal)''
                      else if \<not> host_known routing (rd_host req)
                        then flow_err ''BAD_REQUEST'' ''Unknown host''
                      else if \<not> ip_allowed_at ip_allowlists req
                        then flow_err ''DENIED'' ''IP not in allowlist''
                      else Inr ())))"

definition RequestValidator :: "routing_table \<Rightarrow> allowlist_table \<Rightarrow> processor" where
  "RequestValidator routing ip_allowlists ctx =
     (case cx_request ctx of
        None \<Rightarrow> Some (missing ''RequestData'')
      | Some req \<Rightarrow>
          (case validate_request routing ip_allowlists req of
             None \<Rightarrow> None
           | Some (Inl e) \<Rightarrow> Some (Inl e)
           | Some (Inr _) \<Rightarrow> Some (Inr ctx)))"

definition resolve_route :: "routing_table \<Rightarrow> string \<Rightarrow> (flow_error, route_target) result" where
  "resolve_route routing host =
     (case lookup_route routing host of
        None \<Rightarrow> flow_err ''BAD_REQUEST'' ''No route''
      | Some ri \<Rightarrow>
          (case ri_backends ri of
             [] \<Rightarrow> flow_err ''BAD_REQUEST'' ''No backends configured''
           | b # _ \<Rightarrow>
               Inr \<lparr> rt_backend_url = b, rt_backends = ri_backends ri, rt_app_id = ri_app_id ri \<rparr>))"

definition RoutingResolver :: "routing_table \<Rightarrow> processor" where
  "RoutingResolver routing ctx =
     (case cx_request ctx of
        None \<Rightarrow> Some (missing ''RequestData'')
      | Some req \<Rightarrow>
          (case resolve_route routing (rd_host req) of
             Inl e \<Rightarrow> Some (Inl e)
           | Inr rt \<Rightarrow> Some (Inr (ctx \<lparr> cx_route := Some rt \<rparr>))))"

definition CompletionProcessor :: processor where
  "CompletionProcessor ctx = Some (Inr ctx)"

definition AuthGuard :: guard where
  "AuthGuard ctx =
     (case cx_auth ctx of
        Some data \<Rightarrow> Inr (ctx \<lparr> cx_auth := Some data \<rparr>)
      | None \<Rightarrow> Inl ''Auth data not provided'')"

definition ForwardGuard :: guard where
  "ForwardGuard ctx =
     (case cx_response ctx of
        Some data \<Rightarrow> Inr (ctx \<lparr> cx_response := Some data \<rparr>)
      | None \<Rightarrow> Inl ''Backend response not provided'')"

section \<open>The flow definition\<close>

datatype transition =
    Auto proxy_state proxy_state processor
  | External proxy_state proxy_state guard

record flow_definition =
  fd_name :: string
  fd_ttl_secs :: nat
  fd_transitions :: "transition list"
  fd_step_errors :: "(proxy_state \<times> (flow_error \<Rightarrow> bool) \<times> proxy_state) list"
  fd_any_error :: proxy_state

definition build_proxy_flow_with_allowlist :: "routing_table \<Rightarrow> allowlist_table \<Rightarrow> flow_definition" where
  "build_proxy_flow_with_allowlist routing ip_allowlists =
     \<lparr> fd_name = ''proxy'',
       fd_ttl_secs = 30,
       fd_transitions =
         [Auto Received Validated (RequestValidator routing ip_allowlists),
          Auto Validated Routed (RoutingResolver routing),
          External Routed AuthChecked AuthGuard,
          External AuthChecked Forwarded ForwardGuard,
          Auto Forwarded Completed CompletionProcessor],
       fd_step_errors = [(Received, \<lambda>e. fe_code e = ''DENIED'', Denied)],
       fd_any_error = BadGateway \<rparr>"

definition build_proxy_flow :: "routing_table \<Rightarrow> flow_definition" where
  "build_proxy_flow routing = build_proxy_flow_with_allowlist routing Map.empty"

section \<open>What is assumed of the engine\<close>

type_synonym flow_run = "proxy_state \<times> flow_ctx"

record flow_engine =
  en_start :: "flow_definition \<Rightarrow> flow_ctx \<Rightarrow> (string, flow_run) result option"
  en_resume :: "flow_definition \<Rightarrow> flow_run \<Rightarrow> flow_ctx \<Rightarrow> (string, flow_run) result"

fun auto_from :: "proxy_state \<Rightarrow> transition list \<Rightarrow> (proxy_state \<times> processor) option" where
  "auto_from s [] = None"
| "auto_from s (Auto a b p # ts) = (if a = s then Some (b, p) else auto_from s ts)"
| "auto_from s (External a b g # ts) = auto_from s ts"

definition error_state :: "flow_definition \<Rightarrow> proxy_state \<Rightarrow> flow_error \<Rightarrow> proxy_state" where
  "error_state def s e =
     (case find (\<lambda>(a, P, t). a = s \<and> P e) (fd_step_errors def) of
        Some (_, _, t) \<Rightarrow> t | None \<Rightarrow> fd_any_error def)"

text \<open>The automatic chain, with as many steps as the definition has transitions at most.\<close>

fun auto_chain :: "flow_definition \<Rightarrow> nat \<Rightarrow> flow_run \<Rightarrow> flow_run option" where
  "auto_chain def 0 run = Some run"
| "auto_chain def (Suc n) (s, ctx) =
     (case auto_from s (fd_transitions def) of
        None \<Rightarrow> Some (s, ctx)
      | Some (t, p) \<Rightarrow>
          (case p ctx of
             None \<Rightarrow> None
           | Some (Inr ctx') \<Rightarrow> auto_chain def n (t, ctx')
           | Some (Inl e) \<Rightarrow> Some (error_state def s e, ctx)))"

definition runs_auto_chain :: "flow_engine \<Rightarrow> bool" where
  "runs_auto_chain en \<longleftrightarrow>
     (\<forall>def ctx. case en_start en def ctx of
        None \<Rightarrow> auto_chain def (length (fd_transitions def)) (Received, ctx) = None
      | Some (Inl _) \<Rightarrow> True
      | Some (Inr run) \<Rightarrow> auto_chain def (length (fd_transitions def)) (Received, ctx) = Some run)"

definition sample_request :: "string \<Rightarrow> request_data" where
  "sample_request path =
     \<lparr> rd_host = ''a.io'', rd_path = path, rd_method = ''GET'', rd_header_size = 100,
       rd_content_length = None, rd_client_ip = Some (V4 0x0A000001) \<rparr>"

section \<open>Percent-decoding: what survives a pass\<close>

abbreviation dot :: char where "dot \<equiv> CHR ''.''"

lemma contains_dd_Cons:
  "contains_sub (c # s) ''..'' \<longleftrightarrow> (c = dot \<and> (\<exists>t. s = dot # t)) \<or> contains_sub s ''..''"
  by (cases s) (auto simp: starts_with_def)

declare contains_sub.simps(2) [simp del]
declare decode_pass.simps(2) [simp del]

lemma decode_pass_esc:
  "escape_at (c # rest) = Some b \<Longrightarrow> decode_pass (c # rest) = push_latin1 b @ decode_pass (drop 2 rest)"
  "escape_at (c # rest) = None \<Longrightarrow> decode_pass (c # rest) = push_latin1 (of_char c) @ decode_pass rest"
  by (simp_all add: decode_pass.simps(2))

lemma contains_dd_append: "contains_sub s ''..'' \<Longrightarrow> contains_sub (t @ s) ''..''"
  by (simp add: contains_sub_iff) (metis append.assoc)

lemma hex_val_dot: "hex_val dot = None"
  by code_simp

lemma push_latin1_ascii [simp]: "(of_char c :: nat) < 128 \<Longrightarrow> push_latin1 (of_char c) = [c]"
  by (simp add: push_latin1_def)

lemma escape_at_plain: "c \<noteq> CHR ''%'' \<Longrightarrow> escape_at (c # s) = None"
  by (simp add: escape_at_def split: list.splits)

lemma decode_pass_plain:
  "c \<noteq> CHR ''%'' \<Longrightarrow> decode_pass (c # s) = push_latin1 (of_char c) @ decode_pass s"
  by (simp add: decode_pass_esc escape_at_plain)

lemma decode_pass_dot [simp]: "decode_pass (dot # s) = dot # decode_pass s"
  using push_latin1_ascii [of dot] by (simp add: decode_pass_plain)

lemma escape_at_SomeD:
  "escape_at s = Some b \<Longrightarrow> \<exists>h l t. s = CHR ''%'' # h # l # t \<and> h \<noteq> dot \<and> l \<noteq> dot \<and> b < 256"
  by (auto simp: escape_at_def hex_val_dot hex_val_def Let_def split: list.splits if_splits option.splits)

lemma decode_pass_keeps_dots: "contains_sub s ''..'' \<Longrightarrow> contains_sub (decode_pass s) ''..''"
proof (induction s rule: decode_pass.induct)
  case (2 c rest)
  note IH = 2(1,2) and dd = 2(3)
  show ?case
  proof (cases "escape_at (c # rest)")
    case None
    from dd consider "c = dot" "\<exists>t. rest = dot # t" | "contains_sub rest ''..''"
      by (auto simp: contains_dd_Cons)
    then show ?thesis
    proof cases
      case 1
      then show ?thesis by (auto simp: contains_dd_Cons)
    next
      case 2
      from IH(1) [OF None 2] show ?thesis by (simp add: decode_pass_esc(2) [OF None] contains_dd_append)
    qed
  next
    case (Some b)
    from escape_at_SomeD [OF Some] obtain h l t where
      e: "c = CHR ''%''" "rest = h # l # t" "h \<noteq> dot" "l \<noteq> dot" by auto
    with dd have "contains_sub t ''..''" by (auto simp: contains_dd_Cons)
    with e IH(2) [OF Some] Some show ?thesis by (auto simp: decode_pass_esc intro: contains_dd_append)
  qed
qed simp

lemma decode_pass_no_percent:
  "CHR ''%'' \<notin> set s \<Longrightarrow> decode_pass s = concat (map (\<lambda>c. push_latin1 (of_char c)) s)"
proof (induction s)
  case (Cons c s)
  then show ?case by (auto simp: decode_pass_plain)
qed simp


lemma push_latin1_high:
  assumes "128 \<le> b" and "b < 256"
  shows "\<exists>x y. push_latin1 b = [x, y] \<and> 128 \<le> (of_char x :: nat) \<and> 128 \<le> (of_char y :: nat)"
proof -
  have "b div 64 < 4" using assms by simp
  then have "(of_char (char_of (192 + b div 64) :: char) :: nat) = 192 + b div 64"
    "(of_char (char_of (128 + b mod 64) :: char) :: nat) = 128 + b mod 64" by (simp_all add: mod_less)
  with assms show ?thesis by (auto simp: push_latin1_def)
qed

lemma expand_dots:
  "contains_sub (concat (map (\<lambda>c. push_latin1 (of_char c)) s)) ''..'' \<Longrightarrow> contains_sub s ''..''"
proof (induction s)
  case (Cons c s)
  let ?e = "concat (map (\<lambda>c. push_latin1 (of_char c)) s)"
  show ?case
  proof (cases "(of_char c :: nat) < 128")
    case True
    with Cons.prems have "c = dot \<and> (\<exists>t. ?e = dot # t) \<or> contains_sub ?e ''..''"
      by (simp add: contains_dd_Cons)
    moreover have "\<exists>t. s = dot # t" if e: "?e = dot # t" for t
    proof (cases s)
      case (Cons d u)
      show ?thesis
      proof (cases "(of_char d :: nat) < 128")
        case True
        with e Cons show ?thesis by simp
      next
        case False
        with push_latin1_high [of "of_char d"] e Cons show ?thesis by auto
      qed
    qed (use e in simp)
    ultimately show ?thesis using Cons.IH by (auto simp: contains_dd_Cons)
  next
    case False
    with push_latin1_high [of "of_char c"] obtain x y where
      xy: "push_latin1 (of_char c) = [x, y]" "128 \<le> (of_char x :: nat)" "128 \<le> (of_char y :: nat)" by auto
    then have "x \<noteq> dot" "y \<noteq> dot" by auto
    with xy Cons.prems have "contains_sub ?e ''..''" by (simp add: contains_dd_Cons)
    with Cons.IH show ?thesis by (simp add: contains_dd_Cons)
  qed
qed simp


lemma decode_pass_dots_iff_no_percent:
  "CHR ''%'' \<notin> set s \<Longrightarrow> contains_sub (decode_pass s) ''..'' \<Longrightarrow> contains_sub s ''..''"
  by (simp add: decode_pass_no_percent expand_dots)

lemma push_latin1_no_percent:
  assumes "CHR ''%'' \<in> set (push_latin1 (of_char c))"
  shows "c = CHR ''%''"
proof (cases "(of_char c :: nat) < 128")
  case False
  with push_latin1_high [of "of_char c"] assms show ?thesis by fastforce
qed (use assms in simp)

lemma no_percent_decode: "CHR ''%'' \<notin> set s \<Longrightarrow> CHR ''%'' \<notin> set (decode_pass s)"
proof (induction s)
  case (Cons c s)
  then have c: "c \<noteq> CHR ''%''" by auto
  have "CHR ''%'' \<notin> set (push_latin1 (of_char c))"
    using push_latin1_no_percent c by blast
  with Cons c show ?case by (auto simp: decode_pass_plain)
qed simp

text \<open>Once a pass changes nothing or leaves no percent sign, no later pass brings up dots.\<close>

lemma settled_no_dots:
  assumes "decode_pass r = r \<or> CHR ''%'' \<notin> set r" and "\<not> contains_sub r ''..''"
  shows "\<not> contains_sub ((decode_pass ^^ k) r) ''..''"
proof -
  have "((decode_pass ^^ k) r = r \<and> decode_pass r = r \<or> CHR ''%'' \<notin> set ((decode_pass ^^ k) r)) \<and>
      \<not> contains_sub ((decode_pass ^^ k) r) ''..''"
  proof (induction k)
    case (Suc k)
    then show ?case
      using no_percent_decode decode_pass_dots_iff_no_percent by auto
  qed (use assms in auto)
  then show ?thesis by blast
qed

lemma keeps_dots_pow: "contains_sub s ''..'' \<Longrightarrow> contains_sub ((decode_pass ^^ k) s) ''..''"
  by (induction k) (auto intro: decode_pass_keeps_dots)

definition settles :: "string \<Rightarrow> string \<Rightarrow> bool" where
  "settles s r \<longleftrightarrow> (\<exists>k. r = (decode_pass ^^ k) s \<and> (decode_pass r = r \<or> CHR ''%'' \<notin> set r))"

lemma settles_step: "settles (decode_pass s) r \<Longrightarrow> settles s r"
  unfolding settles_def by (metis comp_apply funpow_Suc_right)

lemma settles_now: "decode_pass s = s \<or> CHR ''%'' \<notin> set (decode_pass s) \<Longrightarrow> settles s (decode_pass s)"
  unfolding settles_def by (intro exI [of _ 1]) auto

lemma urlencoding_decode_settles:
  assumes "urlencoding_decode s = Some r"
  shows "settles s r"
proof (rule urlencoding_decode.raw_induct [where P = settles, OF _ assms])
  fix f s r
  assume IH: "\<And>x y. f x = Some y \<Longrightarrow> settles x y"
    and body: "(let result = decode_pass s
      in if CHR ''%'' \<in> set result \<and> result \<noteq> s
         then Option.bind (f result) (\<lambda>second. if second \<noteq> result then Some second else Some result)
         else Some result) = Some r"
  show "settles s r"
  proof (cases "CHR ''%'' \<in> set (decode_pass s) \<and> decode_pass s \<noteq> s")
    case True
    with body have "f (decode_pass s) = Some r" by (auto simp: Let_def bind_eq_Some_conv split: if_splits)
    from settles_step [OF IH [OF this]] show ?thesis .
  next
    case False
    with body have "r = decode_pass s" by (auto simp: Let_def split: if_splits)
    with False settles_now show ?thesis by blast
  qed
qed

definition traversal_free :: "string \<Rightarrow> bool" where
  "traversal_free s \<longleftrightarrow> (\<forall>k. \<not> contains_sub ((decode_pass ^^ k) s) ''..'')"

lemma settles_traversal_free:
  assumes "settles s r" and "\<not> contains_sub r ''..''"
  shows "traversal_free s"
proof -
  from assms(1) obtain k where k: "r = (decode_pass ^^ k) s" "decode_pass r = r \<or> CHR ''%'' \<notin> set r"
    by (auto simp: settles_def)
  have "\<not> contains_sub ((decode_pass ^^ j) s) ''..''" for j
  proof (cases "j \<le> k")
    case True
    then have "r = (decode_pass ^^ (k - j)) ((decode_pass ^^ j) s)"
      by (metis k(1) comp_apply funpow_add le_add_diff_inverse2)
    with keeps_dots_pow assms(2) show ?thesis by metis
  next
    case False
    then have "(decode_pass ^^ j) s = (decode_pass ^^ (j - k)) r"
      by (metis k(1) comp_apply funpow_add le_add_diff_inverse2 nle_le)
    with settled_no_dots [OF k(2) assms(2)] show ?thesis by simp
  qed
  then show ?thesis by (simp add: traversal_free_def)
qed

lemma accepted_traversal_free:
  assumes "validate_request routing allow req = Some (Inr ())"
  shows "traversal_free (rd_path req)"
proof -
  from assms obtain r where "urlencoding_decode (rd_path req) = Some r" "\<not> contains_sub r ''..''"
    by (auto simp: validate_request_def split: if_splits option.splits)
  with urlencoding_decode_settles settles_traversal_free show ?thesis by blast
qed

text \<open>
  C36: a request that the validator accepts has no path traversal at any depth of encoding: no
  number of percent-decodings of its path contains two consecutive dots, so neither a literal
  \<open>..\<close> nor \<open>%2e%2e\<close> nor any repeatedly encoded form of it reaches a backend.
\<close>

theorem validate_request_traversal:
  assumes "validate_request routing allow req = Some (Inr ())"
  shows "traversal_free (rd_path req)"
  using assms by (rule accepted_traversal_free)

section \<open>When decoding returns\<close>

lemma urlencoding_decode_unfold:
  "urlencoding_decode s =
     (if CHR ''%'' \<in> set (decode_pass s) \<and> decode_pass s \<noteq> s then urlencoding_decode (decode_pass s)
      else Some (decode_pass s))"
  by (subst urlencoding_decode.simps)
    (cases "urlencoding_decode (decode_pass s)"; simp add: Let_def)

definition ascii :: "string \<Rightarrow> bool" where
  "ascii s \<longleftrightarrow> list_all (\<lambda>c. (of_char c :: nat) < 128) s"

lemma decode_pass_ascii_shrinks:
  assumes "ascii s" and "ascii (decode_pass s)"
  shows "decode_pass s = s \<or> length (decode_pass s) < length s"
  using assms
proof (induction s rule: decode_pass.induct)
  case (2 c rest)
  show ?case
  proof (cases "escape_at (c # rest)")
    case None
    with 2(1) [OF None] 2(3,4) show ?thesis by (auto simp: decode_pass_esc ascii_def)
  next
    case (Some b)
    from escape_at_SomeD [OF Some] obtain h l t where e: "rest = h # l # t" "b < 256" by auto
    have d: "decode_pass (c # rest) = push_latin1 b @ decode_pass t"
      using decode_pass_esc(1) [OF Some] e by simp
    have b: "b < 128"
      using 2(4) d push_latin1_high [of b] e by (force simp: ascii_def)
    with 2(4) d have "ascii (decode_pass t)" by (simp add: ascii_def)
    moreover have "ascii t" using 2(3) e by (simp add: ascii_def)
    ultimately have "length (decode_pass t) \<le> length t" using 2(2) [OF Some] e by fastforce
    with d b e show ?thesis by (simp add: push_latin1_def)
  qed
qed simp

text \<open>
  Percent-decoding returns for every path whose iterated decodings stay ASCII, which covers
  all paths that encode ASCII characters, at any depth.
\<close>

theorem urlencoding_decode_returns:
  assumes "\<forall>k. ascii ((decode_pass ^^ k) s)"
  shows "\<exists>r. urlencoding_decode s = Some r"
  using assms
proof (induction "length s" arbitrary: s rule: less_induct)
  case less
  show ?case
  proof (cases "CHR ''%'' \<in> set (decode_pass s) \<and> decode_pass s \<noteq> s")
    case True
    have a: "ascii ((decode_pass ^^ k) (decode_pass s))" for k
      using less(2) [rule_format, of "Suc k"] by (simp add: funpow_swap1)
    from less(2) [rule_format, of 0] a [of 0] decode_pass_ascii_shrinks True
    have "length (decode_pass s) < length s" by auto
    with less(1) a True show ?thesis by (simp add: urlencoding_decode_unfold [of s])
  next
    case False
    then show ?thesis by (auto simp: urlencoding_decode_unfold [of s])
  qed
qed


text \<open>Bytes of 128 and more double with every pass, and a final percent sign stays.\<close>

definition high_bytes :: "string \<Rightarrow> nat" where
  "high_bytes s = length (filter (\<lambda>c. 128 \<le> (of_char c :: nat)) s)"

lemma high_bytes_simps [simp]:
  "high_bytes [] = 0"
  "high_bytes (c # s) = (if 128 \<le> (of_char c :: nat) then 1 else 0) + high_bytes s"
  "high_bytes (s @ t) = high_bytes s + high_bytes t"
  by (simp_all add: high_bytes_def)

lemma hex_val_ascii: "hex_val c = Some v \<Longrightarrow> (of_char c :: nat) < 128"
  by (auto simp: hex_val_def Let_def split: if_splits)

lemma escape_at_ascii:
  "escape_at s = Some b \<Longrightarrow> \<exists>h l t. s = CHR ''%'' # h # l # t \<and> (of_char h :: nat) < 128 \<and> (of_char l :: nat) < 128 \<and>
     h \<noteq> CHR ''%'' \<and> l \<noteq> CHR ''%''"
  by (auto simp: escape_at_def hex_val_def Let_def split: list.splits if_splits option.splits)

lemma high_bytes_double: "2 * high_bytes s \<le> high_bytes (decode_pass s)"
proof (induction s rule: decode_pass.induct)
  case (2 c rest)
  show ?case
  proof (cases "escape_at (c # rest)")
    case None
    have "high_bytes (push_latin1 (of_char c)) = (if 128 \<le> (of_char c :: nat) then 2 else 0)"
      using push_latin1_high [of "of_char c"] by (cases "(of_char c :: nat) < 128") auto
    with 2(1) [OF None] None show ?thesis by (simp add: decode_pass_esc)
  next
    case (Some b)
    with escape_at_ascii [OF Some] 2(2) [OF Some] show ?thesis by (auto simp: decode_pass_esc)
  qed
qed simp

lemma final_percent: "\<exists>u. decode_pass (t @ ''%'') = u @ ''%''"
proof (induction "length t" arbitrary: t rule: less_induct)
  case less
  show ?case
  proof (cases t)
    case Nil
    have "decode_pass ''%'' = ''%''" by code_simp
    with Nil show ?thesis by simp
  next
    case (Cons c t')
    show ?thesis
    proof (cases "escape_at (c # t' @ ''%'')")
      case None
      from less [of t'] Cons obtain u where "decode_pass (t' @ ''%'') = u @ ''%''" by auto
      with Cons decode_pass_esc(2) [OF None] show ?thesis
        by (intro exI [of _ "push_latin1 (of_char c) @ u"]) simp
    next
      case (Some b)
      from escape_at_ascii [OF Some] obtain h l v where
        v: "t' @ ''%'' = h # l # v" "h \<noteq> CHR ''%''" "l \<noteq> CHR ''%''" by auto
      then obtain w where w: "t' = h # l # w"
        by (cases t'; cases "tl t'") auto
      from less [of w] Cons w obtain u where "decode_pass (w @ ''%'') = u @ ''%''" by auto
      with Cons w decode_pass_esc(1) [OF Some] show ?thesis
        by (intro exI [of _ "push_latin1 b @ u"]) simp
    qed
  qed
qed

definition runaway :: "string \<Rightarrow> bool" where
  "runaway s \<longleftrightarrow> 0 < high_bytes s \<and> ends_with s ''%''"

lemma runaway_step: "runaway s \<Longrightarrow> runaway (decode_pass s) \<and> decode_pass s \<noteq> s \<and> CHR ''%'' \<in> set (decode_pass s)"
proof -
  assume r: "runaway s"
  then obtain t where t: "s = t @ ''%''" by (auto simp: runaway_def ends_with_iff)
  obtain u where u: "decode_pass s = u @ ''%''" using final_percent t by blast
  have "high_bytes s < high_bytes (decode_pass s)"
    using high_bytes_double [of s] r by (simp add: runaway_def)
  then show ?thesis by (auto simp: runaway_def ends_with_iff u)
qed

lemma runaway_diverges:
  assumes "runaway s"
  shows "urlencoding_decode s = None"
proof -
  have "\<not> runaway x" if "urlencoding_decode x = Some y" for x y
  proof (rule urlencoding_decode.raw_induct [where P = "\<lambda>x y. \<not> runaway x", OF _ that])
    fix f x y
    assume IH: "\<And>x y. f x = Some y \<Longrightarrow> \<not> runaway x"
      and body: "(let result = decode_pass x
        in if CHR ''%'' \<in> set result \<and> result \<noteq> x
           then Option.bind (f result) (\<lambda>second. if second \<noteq> result then Some second else Some result)
           else Some result) = Some y"
    show "\<not> runaway x"
    proof
      assume r: "runaway x"
      with body runaway_step have "\<exists>z. f (decode_pass x) = Some z"
        by (auto simp: Let_def bind_eq_Some_conv)
      with IH runaway_step [OF r] show False by blast
    qed
  qed
  with assms show ?thesis by (cases "urlencoding_decode s") auto
qed

lemma runaway_decode_diverges:
  assumes "runaway (decode_pass s)"
  shows "urlencoding_decode s = None"
proof -
  have "decode_pass s \<noteq> s" using runaway_step [OF assms] assms by auto
  moreover have "CHR ''%'' \<in> set (decode_pass s)" using assms by (auto simp: runaway_def ends_with_iff)
  ultimately show ?thesis
    using runaway_diverges [OF assms] by (subst urlencoding_decode_unfold) simp
qed

text \<open>
  C37: the validator never returns on some request paths. A path whose first decoding contains a
  byte of 128 or more and ends with a percent sign, such as a non-ASCII file name followed by
  \<open>%25\<close>, makes \<open>urlencoding_decode\<close> call itself forever on strings that grow with every call: the
  request is neither accepted nor rejected, and memory is exhausted instead.
\<close>

theorem validator_diverges:
  assumes "runaway (decode_pass (rd_path req))"
    and "rd_header_size req \<le> 8192" and "rd_content_length req = None"
    and "rd_host req \<noteq> []" and "\<not> contains_sub (rd_path req) ''..''"
  shows "validate_request routing allow req = None"
  using runaway_decode_diverges [OF assms(1)] assms(2-5) by (simp add: validate_request_def)

theorem validator_diverges_witness:
  "validate_request (routing_table (sample_config [sample_route ''A.io''])) Map.empty
     (sample_request ''/%E3%81%82%25'') = None"
proof (rule validator_diverges)
  show "runaway (decode_pass (rd_path (sample_request ''/%E3%81%82%25'')))"
    "\<not> contains_sub (rd_path (sample_request ''/%E3%81%82%25'')) ''..''" by code_simp+
qed (simp_all add: sample_request_def)

theorem validate_request_traversal_witness:
  "traversal_free ''/a%20b%2e''"
proof -
  let ?r = "routing_table (sample_config [sample_route ''A.io''])"
  have d: "urlencoding_decode ''/a%20b%2e'' = Some ''/a b.''" by code_simp
  have h: "host_known ?r ''a.io''" and c: "\<not> contains_sub ''/a%20b%2e'' ''..''" "\<not> contains_sub ''/a b.'' ''..''"
    by code_simp+
  have "validate_request ?r Map.empty (sample_request ''/a%20b%2e'') = Some (Inr ())"
    using d h c by (simp add: validate_request_def sample_request_def ip_allowed_at_def)
  from validate_request_traversal [OF this] show ?thesis by (simp add: sample_request_def)
qed

theorem urlencoding_decode_returns_witness:
  "\<exists>r. urlencoding_decode ''/a%2525'' = Some r"
proof (rule urlencoding_decode_returns, rule allI)
  fix k
  have s: "decode_pass ''/a%2525'' = ''/a%25''" "decode_pass ''/a%25'' = ''/a%''" "decode_pass ''/a%'' = ''/a%''"
    and a: "ascii ''/a%2525''" "ascii ''/a%25''" "ascii ''/a%''" by code_simp+
  have "(decode_pass ^^ k) ''/a%2525'' \<in> {''/a%2525'', ''/a%25'', ''/a%''}"
    by (induction k) (auto simp: s)
  with a show "ascii ((decode_pass ^^ k) ''/a%2525'')" by auto
qed

section \<open>The flow on a request\<close>

definition initial_ctx :: "request_data \<Rightarrow> flow_ctx" where
  "initial_ctx req = \<lparr> cx_request = Some req, cx_route = None, cx_auth = None, cx_response = None \<rparr>"

abbreviation proxy_flow :: "routing_table \<Rightarrow> allowlist_table \<Rightarrow> flow_definition" where
  "proxy_flow \<equiv> build_proxy_flow_with_allowlist"

lemma proxy_flow_chain:
  "auto_chain (proxy_flow routing allow) (length (fd_transitions (proxy_flow routing allow)))
      (Received, initial_ctx req) =
     (case validate_request routing allow req of
        None \<Rightarrow> None
      | Some (Inl e) \<Rightarrow> Some (if fe_code e = ''DENIED'' then Denied else BadGateway, initial_ctx req)
      | Some (Inr _) \<Rightarrow>
          (case resolve_route routing (rd_host req) of
             Inl e \<Rightarrow> Some (BadGateway, initial_ctx req)
           | Inr rt \<Rightarrow> Some (Routed, initial_ctx req \<lparr> cx_route := Some rt \<rparr>)))"
  by (auto simp: build_proxy_flow_with_allowlist_def initial_ctx_def RequestValidator_def
      RoutingResolver_def error_state_def numeral_eq_Suc split: option.splits sum.splits)

lemma start_Inr:
  assumes "runs_auto_chain en" and "en_start en (proxy_flow routing allow) (initial_ctx req) = Some (Inr (st, ctx))"
  shows "(validate_request routing allow req = Some (Inr ()) \<and>
            (\<exists>rt. resolve_route routing (rd_host req) = Inr rt \<and> cx_route ctx = Some rt) \<and> st = Routed) \<or>
         (cx_route ctx = None \<and> st = Denied \<and>
            (\<exists>e. validate_request routing allow req = Some (Inl e) \<and> fe_code e = ''DENIED'')) \<or>
         (cx_route ctx = None \<and> st = BadGateway)"
proof -
  have "auto_chain (proxy_flow routing allow) (length (fd_transitions (proxy_flow routing allow)))
      (Received, initial_ctx req) = Some (st, ctx)"
    using assms by (auto simp: runs_auto_chain_def split: option.splits sum.splits)
  then show ?thesis unfolding proxy_flow_chain
    by (auto simp: initial_ctx_def split: option.splits sum.splits if_splits)
qed

lemma validate_denied_iff:
  "(\<exists>e. validate_request routing allow req = Some (Inl e) \<and> fe_code e = ''DENIED'') \<Longrightarrow>
     \<not> ip_allowed_at allow req"
  by (auto simp: validate_request_def split: if_splits option.splits)

lemma validate_ok:
  "validate_request routing allow req = Some (Inr ()) \<Longrightarrow>
     host_known routing (rd_host req) \<and> ip_allowed_at allow req \<and> rd_header_size req \<le> 8192 \<and> rd_host req \<noteq> []"
  by (auto simp: validate_request_def split: if_splits option.splits)

lemma host_known_lookup: "host_known routing host \<longleftrightarrow> lookup_route routing host \<noteq> None"
  by (auto simp: host_known_def lookup_route_def or_else_def split: option.splits)

text \<open>
  The address allowlist is looked up under the exact host only. A validated configuration can
  restrict \<open>*.x.io\<close> to one network and still accept a request for \<open>a.x.io\<close>, which the wildcard route
  serves, from an address outside of it.
\<close>

theorem wildcard_allowlist_not_enforced:
  "\<exists>e g r req nets ip.
     validate_detailed e g = Inr () \<and> gc_routing g = [r] \<and>
     ip_allowlist_table e g (re_host r) = Some nets \<and>
     rd_client_ip req = Some ip \<and> \<not> list_ex (\<lambda>net. net ip) nets \<and>
     lookup_route (routing_table g) (rd_host req) = Some (route_info_of r) \<and>
     validate_request (routing_table g) (ip_allowlist_table e g) req = Some (Inr ())"
proof -
  let ?r = "sample_route ''*.io''" and ?ip = "V4 0x01010101"
  let ?g = "sample_config [?r]"
  let ?req = "sample_request ''/'' \<lparr> rd_client_ip := Some ?ip \<rparr>"
  have v: "validate_detailed sample_env ?g = Inr ()"
    and a: "ip_allowlist_table sample_env ?g ''a.io'' = None"
    and h: "host_known (routing_table ?g) ''a.io''"
    and d: "urlencoding_decode ''/'' = Some ''/''" and c: "\<not> contains_sub ''/'' ''..''"
    by code_simp+
  have t: "ip_allowlist_table sample_env ?g (re_host ?r) = Some [sample_net]"
  proof -
    have l: "to_lower ''*.io'' = ''*.io''" by code_simp
    show ?thesis
      by (simp add: ip_allowlist_table_def sample_config_def sample_route_def sample_env_def
          collect_map_def l map_filter_simps)
  qed
  have l: "lookup_route (routing_table ?g) ''a.io'' = Some (route_info_of ?r)"
  proof -
    have r: "routing_table ?g = [''*.io'' \<mapsto> route_info_of ?r]"
    proof -
      have "to_lower (re_host ?r) = ''*.io''" by code_simp
      then show ?thesis by (simp add: routing_table_def collect_map_def sample_config_def)
    qed
    have "split_once CHR ''.'' ''a.io'' = Some (''a'', ''io'')" by code_simp
    then show ?thesis by (simp add: lookup_route_def r)
  qed
  have "validate_request (routing_table ?g) (ip_allowlist_table sample_env ?g) ?req = Some (Inr ())"
    using a h d c by (simp add: validate_request_def sample_request_def ip_allowed_at_def)
  moreover have "\<not> list_ex (\<lambda>net. net ?ip) [sample_net]" by code_simp
  moreover have "gc_routing ?g = [?r]" by (simp add: sample_config_def)
  moreover have "rd_client_ip ?req = Some ?ip" "rd_host ?req = ''a.io''" by (simp_all add: sample_request_def)
  ultimately show ?thesis using v t l by metis
qed

end
