(* ===== verification/Auth_Client.thy ===== *)
theory Auth_Client
  imports Session_Jwt Headers Proxy_Flow
begin

text \<open>
  The client of the auth server in \<open>gateway/src/auth.rs\<close>: the request it sends to \<open>/auth/verify\<close>, what
  each answer means, the opt-in degraded fallback to in-process session verification, and the
  redirect sanitizer. The network is the function \<open>send\<close>: what comes back for a request, or a
  transport error, or nothing within the timeout. A header value is accepted by the builder when
  \<open>value_ok\<close> says so, as \<open>http::HeaderValue\<close> does.
\<close>

section \<open>HTTP exchange\<close>

record http_request =
  hq_method :: string
  hq_uri :: string
  hq_headers :: header_map

record http_response =
  hr_status :: nat
  hr_headers :: header_map
  hr_body :: string

datatype exchange = Answer http_response | SendError string | TimedOut

record web =
  uri_ok :: "string \<Rightarrow> bool"
  value_ok :: "string \<Rightarrow> bool"
  name_ok :: "string \<Rightarrow> bool"

text \<open>\<open>url.parse::<Uri>().unwrap_or_default()\<close>\<close>

definition parse_uri :: "web \<Rightarrow> string \<Rightarrow> string" where
  "parse_uri w url = (if uri_ok w url then url else ''/'')"

text \<open>
  The request and response builders: the first name or value that is not acceptable makes the
  final \<open>body\<close> call fail.
\<close>

definition build_headers :: "web \<Rightarrow> (string \<times> string) list \<Rightarrow> header_map option" where
  "build_headers w hs =
     (if list_all (\<lambda>(n, v). name_ok w n \<and> value_ok w v) hs
      then Some (map (\<lambda>(n, v). (to_lower n, HText v)) hs) else None)"

section \<open>Redirects\<close>

definition sanitize_redirect :: "string \<Rightarrow> string option \<Rightarrow> string" where
  "sanitize_redirect url auth_public_url =
     (if starts_with url ''/'' \<and> \<not> starts_with url ''//'' then url
      else (case auth_public_url of
              None \<Rightarrow> ''/login''
            | Some base0 \<Rightarrow>
                (let base = trim_end_matches base0 CHR ''/''
                 in if base \<noteq> [] \<and> starts_with url base then url else ''/login'')))"

section \<open>The client\<close>

datatype auth_result = Authenticated volta_headers | AuthRedirect string | AuthDenied | AuthError string

record auth_client =
  vc_base_url :: string
  vc_verify_path :: string
  vc_session_verifier :: "session_verifier option"
  vc_auth_public_url :: "string option"
  vc_degraded_mode :: bool
  vc_degraded_total :: u64

text \<open>
  What the client needs of the outside for one check: the answer of the auth server, the JWT
  crate, the clock and the outcome of a JWKS fetch, should one be made.
\<close>

record auth_world =
  aw_web :: web
  aw_send :: "http_request \<Rightarrow> exchange"
  aw_jwt :: jwt_ops
  aw_now :: instant
  aw_jwks_fetch :: "(string, string \<rightharpoonup> string) result"

record auth_query =
  aq_host :: string
  aq_uri :: string
  aq_proto :: string
  aq_cookie :: "string option"
  aq_app_id :: "string option"
  aq_min_role :: "string option"
  aq_client_ip :: "string option"
  aq_bearer :: "string option"

definition degraded_fallback ::
    "auth_world \<Rightarrow> auth_client \<Rightarrow> string option \<Rightarrow> string \<Rightarrow> auth_result \<times> auth_client" where
  "degraded_fallback w vc cookie err_msg =
     (if \<not> vc_degraded_mode vc then (AuthError err_msg, vc)
      else (case vc_session_verifier vc of
              None \<Rightarrow> (AuthError err_msg, vc)
            | Some sv \<Rightarrow>
                (case verify_cookie_async (aw_jwt w) (aw_now w) (aw_jwks_fetch w) sv cookie of
                   (SessionValid headers, sv') \<Rightarrow>
                     (Authenticated headers,
                      vc \<lparr> vc_session_verifier := Some sv', vc_degraded_total := vc_degraded_total vc + 1 \<rparr>)
                 | (_, sv') \<Rightarrow> (AuthError err_msg, vc \<lparr> vc_session_verifier := Some sv' \<rparr>))))"

definition verify_headers :: "auth_query \<Rightarrow> (string \<times> string) list" where
  "verify_headers q =
     [(''X-Forwarded-Host'', aq_host q), (''X-Forwarded-Uri'', aq_uri q), (''X-Forwarded-Proto'', aq_proto q)]
     @ opt_header ''Cookie'' (aq_cookie q)
     @ opt_header ''Authorization'' (map_option (\<lambda>b. ''Bearer '' @ b) (aq_bearer q))
     @ opt_header ''X-Volta-App-Id'' (aq_app_id q)
     @ opt_header ''X-Volta-Required-Role'' (aq_min_role q)
     @ opt_header ''X-Real-IP'' (aq_client_ip q)"

text \<open>Collecting the \<open>x-volta-*\<close> headers of the answer into a \<open>HashMap\<close>: a repeated name keeps the last value.\<close>

definition collect_volta :: "volta_headers \<Rightarrow> string \<times> hvalue \<Rightarrow> volta_headers" where
  "collect_volta m e =
     (if is_volta (fst e)
      then (case hv_str (snd e) of Some s \<Rightarrow> al_insert (fst e) s m | None \<Rightarrow> m) else m)"

definition volta_headers_of :: "header_map \<Rightarrow> volta_headers" where
  "volta_headers_of h = foldl collect_volta [] h"

definition location_of :: "header_map \<Rightarrow> string" where
  "location_of h = unwrap_or ''/login'' (h_str h ''location'')"

definition interpret_answer :: "auth_client \<Rightarrow> http_response \<Rightarrow> auth_result" where
  "interpret_answer vc resp =
     (if hr_status resp = 200 then Authenticated (volta_headers_of (hr_headers resp))
      else if hr_status resp = 401 \<or> hr_status resp = 302
        then AuthRedirect (sanitize_redirect (location_of (hr_headers resp)) (vc_auth_public_url vc))
      else if hr_status resp = 403 then AuthDenied
      else AuthError (''volta returned '' @ show_nat (hr_status resp)))"

definition check_with_degraded_policy ::
    "auth_world \<Rightarrow> auth_client \<Rightarrow> auth_query \<Rightarrow> bool \<Rightarrow> auth_result \<times> auth_client" where
  "check_with_degraded_policy w vc q allow_degraded_fallback =
     (case build_headers (aw_web w) (verify_headers q) of
        None \<Rightarrow> (AuthError ''build request: invalid header'', vc)
      | Some hs \<Rightarrow>
          (let auth_result =
                 (case aw_send w \<lparr> hq_method = ''GET'',
                          hq_uri = parse_uri (aw_web w) (vc_base_url vc @ vc_verify_path vc), hq_headers = hs \<rparr> of
                    Answer resp \<Rightarrow> interpret_answer vc resp
                  | SendError e \<Rightarrow> AuthError (''volta request failed: '' @ e)
                  | TimedOut \<Rightarrow> AuthError ''volta auth timeout'')
           in (case auth_result of
                 AuthError msg \<Rightarrow>
                   (if allow_degraded_fallback then degraded_fallback w vc (aq_cookie q) msg
                    else (AuthError msg, vc))
               | other \<Rightarrow> (other, vc))))"

definition check :: "auth_world \<Rightarrow> auth_client \<Rightarrow> auth_query \<Rightarrow> auth_result \<times> auth_client" where
  "check w vc q = check_with_degraded_policy w vc q True"

section \<open>Properties\<close>

text \<open>The gateway's identity headers all carry the reserved prefix.\<close>

definition all_volta :: "volta_headers \<Rightarrow> bool" where
  "all_volta h \<longleftrightarrow> (\<forall>(n, v) \<in> set h. is_volta n)"

lemma all_volta_collect: "all_volta m \<Longrightarrow> all_volta (collect_volta m e)"
  by (auto simp: all_volta_def collect_volta_def al_insert_def al_remove_def split: option.splits)

lemma all_volta_answer: "all_volta (volta_headers_of h)"
proof -
  have "all_volta (foldl collect_volta m h)" if "all_volta m" for m
    using that by (induction h arbitrary: m) (simp_all add: all_volta_collect)
  moreover have "all_volta []" by (simp add: all_volta_def)
  ultimately show ?thesis by (simp add: volta_headers_of_def)
qed

lemma all_volta_claims: "all_volta (to_volta_headers c)"
  using volta_headers_volta by (auto simp: all_volta_def is_volta_def)

definition online_ok :: "auth_world \<Rightarrow> auth_client \<Rightarrow> auth_query \<Rightarrow> volta_headers \<Rightarrow> bool" where
  "online_ok w vc q h \<longleftrightarrow>
     (\<exists>hs resp. build_headers (aw_web w) (verify_headers q) = Some hs \<and>
        aw_send w \<lparr> hq_method = ''GET'', hq_uri = parse_uri (aw_web w) (vc_base_url vc @ vc_verify_path vc),
                   hq_headers = hs \<rparr> = Answer resp \<and>
        hr_status resp = 200 \<and> h = volta_headers_of (hr_headers resp))"

definition degraded_ok :: "auth_world \<Rightarrow> auth_client \<Rightarrow> auth_query \<Rightarrow> volta_headers \<Rightarrow> bool" where
  "degraded_ok w vc q h \<longleftrightarrow>
     vc_degraded_mode vc \<and>
     (\<exists>sv token c. vc_session_verifier vc = Some sv \<and>
        Option.bind (aq_cookie q) (\<lambda>c. extract_cookie_value c (sv_cookie_name sv)) = Some token \<and>
        vouched (aw_jwt w) (sv_verifier sv) (known_keys (sv_verifier sv) (aw_jwks_fetch w)) token c \<and>
        h = to_volta_headers c)"

lemma degraded_fallback_cases:
  assumes "degraded_fallback w vc cookie m = (r, vc')"
  shows "r = AuthError m \<or>
    (\<exists>sv h sv'. r = Authenticated h \<and> vc_degraded_mode vc \<and> vc_session_verifier vc = Some sv \<and>
       verify_cookie_async (aw_jwt w) (aw_now w) (aw_jwks_fetch w) sv cookie = (SessionValid h, sv'))"
  using assms
  by (auto simp: degraded_fallback_def split: if_splits option.splits prod.splits session_result.splits)

lemma check_authenticated:
  assumes "check_with_degraded_policy w vc q allow = (Authenticated h, vc')"
  shows "online_ok w vc q h \<or> (allow \<and> degraded_ok w vc q h)"
proof -
  from assms obtain hs where hs: "build_headers (aw_web w) (verify_headers q) = Some hs"
    by (auto simp: check_with_degraded_policy_def split: option.splits)
  let ?req = "\<lparr> hq_method = ''GET'', hq_uri = parse_uri (aw_web w) (vc_base_url vc @ vc_verify_path vc),
      hq_headers = hs \<rparr>"
  show ?thesis
  proof (cases "\<exists>resp. aw_send w ?req = Answer resp \<and> hr_status resp = 200")
    case True
    with assms hs show ?thesis
      by (auto simp: check_with_degraded_policy_def interpret_answer_def online_ok_def)
  next
    case False
    with assms hs obtain m where "allow" "degraded_fallback w vc (aq_cookie q) m = (Authenticated h, vc')"
      by (auto simp: check_with_degraded_policy_def interpret_answer_def Let_def
          split: exchange.splits auth_result.splits if_splits)
    with degraded_fallback_cases verify_cookie_async_valid show ?thesis
      unfolding degraded_ok_def by blast
  qed
qed


lemma check_all_volta:
  "check_with_degraded_policy w vc q allow = (Authenticated h, vc') \<Longrightarrow> all_volta h"
  by (auto dest!: check_authenticated simp: online_ok_def degraded_ok_def all_volta_answer all_volta_claims)

text \<open>
  A request is authenticated only on evidence. Either the auth server answered 200 to the
  verification request built from exactly this request's host, path, cookie, token and required
  role, and the identity headers are its \<open>x-volta-*\<close> headers; or the caller allowed the fallback,
  degraded mode is on, and the session cookie holds a token a configured source vouches for, whose
  claims are the identity. In either case only \<open>x-volta-*\<close> headers come out.
\<close>

theorem auth_check_sound:
  assumes "check_with_degraded_policy w vc q allow = (Authenticated h, vc')"
  shows "(online_ok w vc q h \<or> allow \<and> degraded_ok w vc q h) \<and> all_volta h"
  using check_authenticated [OF assms] check_all_volta [OF assms] by blast

definition demo_web :: web where
  "demo_web = \<lparr> uri_ok = (\<lambda>_. True), value_ok = (\<lambda>_. True), name_ok = (\<lambda>_. True) \<rparr>"

definition demo_world :: "exchange \<Rightarrow> auth_world" where
  "demo_world answer =
     \<lparr> aw_web = demo_web, aw_send = (\<lambda>_. answer), aw_jwt = demo_jwt, aw_now = 0,
       aw_jwks_fetch = Inr [''k'' \<mapsto> ''K''] \<rparr>"

definition demo_client :: "bool \<Rightarrow> auth_client" where
  "demo_client degraded =
     \<lparr> vc_base_url = ''http://auth'', vc_verify_path = ''/auth/verify'',
       vc_session_verifier = Some \<lparr> sv_verifier = demo_multi, sv_cookie_name = ''__volta_session'' \<rparr>,
       vc_auth_public_url = Some ''https://auth.x.io'', vc_degraded_mode = degraded,
       vc_degraded_total = 0 \<rparr>"

definition demo_query :: auth_query where
  "demo_query =
     \<lparr> aq_host = ''a.io'', aq_uri = ''/'', aq_proto = ''https'', aq_cookie = Some ''__volta_session=good'',
       aq_app_id = None, aq_min_role = None, aq_client_ip = None, aq_bearer = None \<rparr>"

lemma demo_degraded_allows:
  assumes "case ans of Answer r \<Rightarrow> hr_status r \<notin> {200, 302, 401, 403} | _ \<Rightarrow> True"
  shows "fst (check_with_degraded_policy (demo_world ans) (demo_client True) demo_query True)
    = Authenticated (to_volta_headers demo_claims)"
proof -
  have "extract_cookie_value ''__volta_session=good'' ''__volta_session'' = Some ''good''" by code_simp
  with demo_verify [of 0] assms show ?thesis
    by (auto simp: check_with_degraded_policy_def build_headers_def demo_world_def demo_web_def demo_client_def
        demo_query_def degraded_fallback_def verify_cookie_async_def map_session_def interpret_answer_def Let_def
        list_all_iff split: exchange.splits prod.splits)
qed

theorem auth_check_sound_witness:
  "(online_ok (demo_world TimedOut) (demo_client True) demo_query (to_volta_headers demo_claims) \<or>
    degraded_ok (demo_world TimedOut) (demo_client True) demo_query (to_volta_headers demo_claims)) \<and>
   all_volta (to_volta_headers demo_claims)"
proof -
  obtain vc' where "check_with_degraded_policy (demo_world TimedOut) (demo_client True) demo_query True
      = (Authenticated (to_volta_headers demo_claims), vc')"
    using demo_degraded_allows [of TimedOut] by (cases "check_with_degraded_policy (demo_world TimedOut) (demo_client True) demo_query True") auto
  from auth_check_sound [OF this] show ?thesis by blast
qed

text \<open>
  Without degraded mode, or when the caller rules the fallback out, a failing auth server
  never lets anyone in: a transport error, a timeout and every status other than 200, 302, 401 and
  403 end in an error, and the client's state, its fallback counter included, is unchanged.
\<close>

theorem auth_fails_closed:
  assumes "\<not> allow \<or> \<not> vc_degraded_mode vc"
    and "\<And>req resp. aw_send w req = Answer resp \<Longrightarrow> hr_status resp \<notin> {200, 302, 401, 403}"
  shows "\<exists>m. check_with_degraded_policy w vc q allow = (AuthError m, vc)"
  using assms
  by (auto simp: check_with_degraded_policy_def interpret_answer_def degraded_fallback_def Let_def
      split: option.splits exchange.splits)

theorem auth_fails_closed_witness:
  "\<exists>m. check_with_degraded_policy (demo_world TimedOut) (demo_client True) demo_query False
     = (AuthError m, demo_client True)"
  by (rule auth_fails_closed) (simp_all add: demo_world_def)

text \<open>
  A redirect that leaves the gateway goes to a path of the same site, to a URL that starts with
  the configured public URL of the auth server, or to \<open>/login\<close>; never to another scheme or, as \<open>//\<close>,
  to another authority.
\<close>

theorem sanitize_redirect_targets:
  "sanitize_redirect url base0 = ''/login'' \<or>
   (\<exists>rest. sanitize_redirect url base0 = CHR ''/'' # rest \<and> \<not> starts_with rest ''/'') \<or>
   (\<exists>b. base0 = Some b \<and> trim_end_matches b CHR ''/'' \<noteq> [] \<and>
      starts_with (sanitize_redirect url base0) (trim_end_matches b CHR ''/''))"
proof (cases "starts_with url ''/'' \<and> \<not> starts_with url ''//''")
  case True
  then obtain r where "url = CHR ''/'' # r" by (auto simp: starts_with_iff)
  with True show ?thesis by (auto simp: sanitize_redirect_def starts_with_def)
next
  case False
  then show ?thesis by (auto simp: sanitize_redirect_def Let_def split: option.splits)
qed

text \<open>
  The prefix test on the public URL is not a test of the origin: with the public URL
  \<open>https://auth.x.io\<close>, a redirect to the foreign host \<open>auth.x.io.evil.net\<close> passes the sanitizer.
\<close>

theorem sanitize_redirect_foreign_host:
  "sanitize_redirect ''https://auth.x.io.evil.net/'' (Some ''https://auth.x.io/'') = ''https://auth.x.io.evil.net/''"
  by code_simp

text \<open>
  The degraded fallback is not limited to an unreachable or failing auth server. An auth server
  that is up and answers 429 (or any other status it is not expected to use) also makes the
  gateway accept the session on its in-process verification alone.
\<close>

theorem degraded_on_non_5xx:
  "fst (check_with_degraded_policy (demo_world (Answer \<lparr> hr_status = 429, hr_headers = [], hr_body = [] \<rparr>))
      (demo_client True) demo_query True) = Authenticated (to_volta_headers demo_claims)"
  by (rule demo_degraded_allows) simp

end
