(* ===== verification/Resilience.thy ===== *)
theory Resilience
  imports Config_Types "HOL-Library.Sublist"
begin

text \<open>
  The rate limiter and the circuit breaker of \<open>gateway/src/proxy.rs\<close>. Every operation locks its
  mutex for its whole body, so an execution is a sequence of operations; \<open>now\<close> is the clock reading
  of the operation. Request counters are \<open>u64\<close> and failure counters \<open>u32\<close> words.

  The locale \<open>fixed_window\<close> states what a fixed-window counter promises; it is interpreted here on the
  gateway's window (used for the global and the per-address limit) and in \<open>Plugins\<close> on the per-user
  limit. The circuit breaker is related to an abstract machine with two states, \<open>Closed n\<close> and
  \<open>Opened t\<close>.
\<close>

section \<open>Rate limiter\<close>

type_synonym window = "u64 \<times> instant"

definition window_hit :: "u64 \<Rightarrow> nat \<Rightarrow> instant \<Rightarrow> window \<Rightarrow> bool \<times> window" where
  "window_hit limit win now g =
     (if win \<le> elapsed now (snd g) then (True, (1, now))
      else (let c = fst g + 1 in (\<not> limit < c, (c, snd g))))"

record rate_limiter =
  rlm_global :: window
  rlm_global_limit :: u64
  rlm_per_ip :: "ip_addr \<rightharpoonup> window"
  rlm_per_ip_limit :: u64

definition new_rate_limiter :: "instant \<Rightarrow> u64 \<Rightarrow> u64 \<Rightarrow> rate_limiter" where
  "new_rate_limiter now global_rps per_ip_rps =
     \<lparr> rlm_global = (0, now), rlm_global_limit = global_rps,
       rlm_per_ip = Map.empty, rlm_per_ip_limit = per_ip_rps \<rparr>"

definition allow :: "rate_limiter \<Rightarrow> instant \<Rightarrow> ip_addr \<Rightarrow> bool \<times> rate_limiter" where
  "allow l now ip =
     (case window_hit (rlm_global_limit l) (from_secs 1) now (rlm_global l) of
        (ok, g) \<Rightarrow>
          (if \<not> ok then (False, l \<lparr> rlm_global := g \<rparr>)
           else (case window_hit (rlm_per_ip_limit l) (from_secs 1) now
                        (unwrap_or (0, now) (rlm_per_ip l ip)) of
                   (ok', e) \<Rightarrow>
                     (ok', l \<lparr> rlm_global := g, rlm_per_ip := (rlm_per_ip l)(ip \<mapsto> e) \<rparr>))))"

definition gc :: "rate_limiter \<Rightarrow> instant \<Rightarrow> nat \<Rightarrow> rate_limiter" where
  "gc l now ttl =
     l \<lparr> rlm_per_ip := (\<lambda>ip. opt_filter (\<lambda>e. elapsed now (snd e) < ttl) (rlm_per_ip l ip)) \<rparr>"

text \<open>\<open>as u64\<close> of the configured \<open>u32\<close> values; zero switches a limit off.\<close>

definition with_rate_limit :: "instant \<Rightarrow> rate_limit_config \<Rightarrow> rate_limiter" where
  "with_rate_limit now cfg =
     new_rate_limiter now
       (if rl_requests_per_second cfg = 0 then - 1 else of_nat (rl_requests_per_second cfg))
       (if rl_per_ip_rps cfg = 0 then - 1 else of_nat (rl_per_ip_rps cfg))"

section \<open>The fixed-window contract\<close>

text \<open>
  Hits at a sequence of times; the first component counts the accepted ones.
\<close>

fun run_hits :: "(instant \<Rightarrow> 's \<Rightarrow> bool \<times> 's) \<Rightarrow> instant list \<Rightarrow> 's \<Rightarrow> nat \<times> 's" where
  "run_hits hit [] s = (0, s)"
| "run_hits hit (t # ts) s =
     (case hit t s of (ok, s') \<Rightarrow> (case run_hits hit ts s' of (n, s'') \<Rightarrow> (of_bool ok + n, s'')))"

text \<open>
  \<open>acc\<close> is the number of hits accepted in the current window, \<open>start\<close> its beginning, and \<open>cap\<close> the
  number of further hits the counter can take before it overflows.
\<close>

locale fixed_window =
  fixes hit :: "instant \<Rightarrow> 's \<Rightarrow> bool \<times> 's"
    and acc :: "'s \<Rightarrow> nat"
    and start :: "'s \<Rightarrow> instant"
    and cap :: "'s \<Rightarrow> nat"
    and limit :: nat
    and win :: nat
  assumes limit_pos: "0 < limit"
    and roll: "start s + win \<le> t \<Longrightarrow> hit t s = (ok, s') \<Longrightarrow> ok \<and> acc s' = 1 \<and> start s' = t"
    and stay: "t < start s + win \<Longrightarrow> 0 < cap s \<Longrightarrow> acc s \<le> limit \<Longrightarrow> hit t s = (ok, s') \<Longrightarrow>
      ok = (acc s < limit) \<and> acc s' = acc s + of_bool ok \<and> start s' = start s"
    and cap_step: "0 < cap s \<Longrightarrow> hit t s = (ok, s') \<Longrightarrow> cap s \<le> Suc (cap s')"
begin

lemma hit_step:
  assumes "0 < cap s" and "acc s \<le> limit" and "start s \<le> t" and "hit t s = (ok, s')"
  shows "acc s' \<le> limit \<and> start s \<le> start s' \<and> start s' \<le> t \<and>
    (acc s + of_bool ok) * win \<le> limit * (start s' - start s) + acc s' * win"
proof (cases "start s + win \<le> t")
  case True
  from roll [OF this assms(4)] have r: ok "acc s' = 1" "start s' = t" by auto
  have "acc s * win \<le> limit * (t - start s)"
    using True assms(2) by (intro mult_le_mono) auto
  with r limit_pos assms(3)
  show ?thesis by (simp add: add_mult_distrib)
next
  case False
  then have "t < start s + win" by simp
  from stay [OF this assms(1,2,4)] assms(2,3) show ?thesis by auto
qed

lemma run_bound:
  assumes "length ts \<le> cap s" and "acc s \<le> limit" and "sorted (start s # ts)"
    and "run_hits hit ts s = (n, s')"
  shows "acc s' \<le> limit \<and> start s \<le> start s' \<and> start s' \<le> last (start s # ts) \<and>
    (acc s + n) * win \<le> limit * (start s' - start s) + acc s' * win"
  using assms
proof (induction ts arbitrary: s n)
  case (Cons t ts)
  obtain ok s1 where h: "hit t s = (ok, s1)" by fastforce
  obtain m where m: "run_hits hit ts s1 = (m, s')" "n = of_bool ok + m"
    using Cons.prems(4) h by (auto split: prod.splits)
  have c: "0 < cap s" and st: "start s \<le> t" using Cons.prems by auto
  have step: "acc s1 \<le> limit" "start s \<le> start s1" "start s1 \<le> t"
      "(acc s + of_bool ok) * win \<le> limit * (start s1 - start s) + acc s1 * win"
    using hit_step [OF c Cons.prems(2) st h] by auto
  have "length ts \<le> cap s1" using cap_step [OF c h] Cons.prems(1) by simp
  moreover have "sorted (start s1 # ts)" using Cons.prems(3) step(3) by auto
  ultimately have IH: "acc s' \<le> limit \<and> start s1 \<le> start s' \<and> start s' \<le> last (start s1 # ts) \<and>
      (acc s1 + m) * win \<le> limit * (start s' - start s1) + acc s' * win"
    using Cons.IH step(1) m(1) by blast
  have "limit * (start s1 - start s) + limit * (start s' - start s1) = limit * (start s' - start s)"
    using IH step(2) by (simp add: add_mult_distrib2 [symmetric])
  moreover have "(acc s + n) * win + (acc s1 * win) = (acc s + of_bool ok) * win + (acc s1 + m) * win"
    using m(2) by (simp add: add_mult_distrib)
  ultimately have "(acc s + n) * win \<le> limit * (start s' - start s) + acc s' * win"
    using IH step(4) by linarith
  moreover have "last (start s1 # ts) \<le> last (start s # t # ts)" using step(3) by simp
  ultimately show ?case using IH step(2) by linarith
qed auto

text \<open>Over any period, at most \<open>limit\<close> hits per window length plus one window's worth.\<close>

lemma accepted_bound:
  assumes "length ts \<le> cap s" and "acc s = 0" and "sorted (start s # ts)"
  shows "fst (run_hits hit ts s) * win \<le> limit * (last (start s # ts) - start s + win)"
proof -
  obtain n s' where r: "run_hits hit ts s = (n, s')" by fastforce
  have "acc s' \<le> limit \<and> start s \<le> start s' \<and> start s' \<le> last (start s # ts) \<and>
      (acc s + n) * win \<le> limit * (start s' - start s) + acc s' * win"
    by (rule run_bound [OF assms(1) _ assms(3) r]) (simp add: assms(2))
  then have "n * win \<le> limit * (start s' - start s) + limit * win"
    using assms(2) by (auto intro: order_trans mult_le_mono1)
  moreover have "limit * (start s' - start s) \<le> limit * (last (start s # ts) - start s)"
    using run_bound [OF assms(1) _ assms(3) r] assms(2) by (intro mult_le_mono2 diff_le_mono) auto
  ultimately show ?thesis unfolding r fst_conv add_mult_distrib2 by linarith
qed

lemma within_window:
  assumes "length ts \<le> cap s" and "acc s \<le> limit" and "\<forall>t \<in> set ts. t < start s + win"
  shows "fst (run_hits hit ts s) = min (length ts) (limit - acc s)"
  using assms
proof (induction ts arbitrary: s)
  case (Cons t ts)
  obtain ok s1 where h: "hit t s = (ok, s1)" by fastforce
  have c: "0 < cap s" and t: "t < start s + win" using Cons.prems by auto
  have s: "ok = (acc s < limit)" "acc s1 = acc s + of_bool ok" "start s1 = start s"
    using stay [OF t c Cons.prems(2) h] by auto
  have "length ts \<le> cap s1" using cap_step [OF c h] Cons.prems(1) by simp
  then have "fst (run_hits hit ts s1) = min (length ts) (limit - acc s1)"
    using Cons.IH [of s1] Cons.prems s by auto
  then show ?case using h s Cons.prems(2) by (auto split: prod.splits)
qed simp

end


text \<open>The gateway's window: it counts every request, and accepts while the count is within the limit.\<close>

lemma unat_Suc: "unat c + 1 < 2 ^ 64 \<Longrightarrow> unat (c + 1 :: u64) = unat c + 1"
  by (simp add: unat_word_ariths)

abbreviation window_acc :: "u64 \<Rightarrow> window \<Rightarrow> nat" where
  "window_acc limit g \<equiv> min (unat (fst g)) (unat limit)"

abbreviation window_cap :: "window \<Rightarrow> nat" where
  "window_cap g \<equiv> 2 ^ 64 - 1 - unat (fst g)"

lemma gateway_window:
  assumes "limit \<noteq> 0" and "0 < win"
  shows "fixed_window (window_hit limit win) (window_acc limit) snd window_cap (unat limit) win"
proof
  show pos: "0 < unat limit" using assms(1) by (simp add: unat_gt_0)
  fix t ok and s s' :: window
  have u1: "unat (1 :: u64) = 1" by simp
  {
    assume "snd s + win \<le> t" and "window_hit limit win t s = (ok, s')"
    then show "ok \<and> window_acc limit s' = 1 \<and> snd s' = t"
      using pos by (auto simp: window_hit_def elapsed_def u1 split: if_splits)
  }
  {
    assume t: "t < snd s + win" and cap: "0 < window_cap s" and "window_acc limit s \<le> unat limit"
      and h: "window_hit limit win t s = (ok, s')"
    have "\<not> win \<le> elapsed t (snd s)" using t assms(2) by (auto simp: elapsed_def)
    with h have "ok = (\<not> limit < fst s + 1)" "s' = (fst s + 1, snd s)"
      by (auto simp: window_hit_def Let_def)
    moreover have "unat (fst s + 1) = unat (fst s) + 1" using cap by (intro unat_Suc) simp
    ultimately show "ok = (window_acc limit s < unat limit) \<and>
        window_acc limit s' = window_acc limit s + of_bool ok \<and> snd s' = snd s"
      by (auto simp: word_less_nat_alt)
  }
  {
    assume cap: "0 < window_cap s" and h: "window_hit limit win t s = (ok, s')"
    have "unat (fst s + 1) = unat (fst s) + 1" using cap by (intro unat_Suc) simp
    with h cap show "window_cap s \<le> Suc (window_cap s')"
      by (auto simp: window_hit_def Let_def split: if_splits)
  }
qed

interpretation default_global: fixed_window "window_hit 1000 (from_secs 1)" "window_acc 1000" snd
    window_cap "unat (1000 :: u64)" "from_secs 1"
  by (rule gateway_window) auto

interpretation default_per_ip: fixed_window "window_hit 100 (from_secs 1)" "window_acc 100" snd
    window_cap "unat (100 :: u64)" "from_secs 1"
  by (rule gateway_window) auto

fun run_allow :: "(instant \<times> ip_addr) list \<Rightarrow> rate_limiter \<Rightarrow> bool list \<times> rate_limiter" where
  "run_allow [] l = ([], l)"
| "run_allow ((t, ip) # rs) l =
     (case allow l t ip of
        (ok, l') \<Rightarrow> (case run_allow rs l' of (oks, l'') \<Rightarrow> (ok # oks, l'')))"

definition accepted :: "(instant \<times> ip_addr) list \<Rightarrow> bool list \<Rightarrow> (ip_addr \<Rightarrow> bool) \<Rightarrow> nat" where
  "accepted rs oks P = length (filter (\<lambda>((t, ip), ok). ok \<and> P ip) (zip rs oks))"

lemma accepted_simps [simp]:
  "accepted [] oks P = 0"
  "accepted ((t, ip) # rs) (ok # oks) P = of_bool (ok \<and> P ip) + accepted rs oks P"
  by (simp_all add: accepted_def)

lemma allow_limits:
  "allow l t ip = (ok, l') \<Longrightarrow> rlm_global_limit l' = rlm_global_limit l \<and> rlm_per_ip_limit l' = rlm_per_ip_limit l"
  by (auto simp: allow_def split: prod.splits if_splits)

lemma allow_global:
  "allow l t ip = (ok, l') \<Longrightarrow>
     \<exists>okg. window_hit (rlm_global_limit l) (from_secs 1) t (rlm_global l) = (okg, rlm_global l') \<and> (ok \<longrightarrow> okg)"
  by (auto simp: allow_def split: prod.splits if_splits)

lemma allow_other: "allow l t ip = (ok, l') \<Longrightarrow> ip' \<noteq> ip \<Longrightarrow> rlm_per_ip l' ip' = rlm_per_ip l ip'"
  by (auto simp: allow_def split: prod.splits if_splits)

lemma allow_this:
  assumes "allow l t ip = (ok, l')"
  shows "(\<not> ok \<and> rlm_per_ip l' ip = rlm_per_ip l ip) \<or>
    (\<exists>e. window_hit (rlm_per_ip_limit l) (from_secs 1) t (unwrap_or (0, t) (rlm_per_ip l ip)) = (ok, e) \<and>
       rlm_per_ip l' ip = Some e)"
  using assms by (auto simp: allow_def split: prod.splits if_splits)

lemma run_global_le:
  "run_allow rs l = (oks, l') \<Longrightarrow>
     accepted rs oks P \<le> fst (run_hits (window_hit (rlm_global_limit l) (from_secs 1)) (map fst rs) (rlm_global l))"
proof (induction rs arbitrary: l oks)
  case (Cons r rs)
  obtain t ip where r: "r = (t, ip)" by fastforce
  obtain ok l1 where a: "allow l t ip = (ok, l1)" by fastforce
  obtain oks1 where b: "run_allow rs l1 = (oks1, l')" "oks = ok # oks1"
    using Cons.prems r a by (auto split: prod.splits)
  from allow_global [OF a] obtain okg where
    g: "window_hit (rlm_global_limit l) (from_secs 1) t (rlm_global l) = (okg, rlm_global l1)" "ok \<longrightarrow> okg" by blast
  from Cons.IH [OF b(1)] allow_limits [OF a] g b r show ?case by (auto split: prod.splits)
qed simp

lemma run_ip_subseq:
  assumes "run_allow rs l = (oks, l')"
  shows "\<exists>ts. subseq ts (map fst rs) \<and>
     accepted rs oks (\<lambda>i. i = ip) =
       fst (run_hits (window_hit (rlm_per_ip_limit l) (from_secs 1)) ts (unwrap_or (0, hd ts) (rlm_per_ip l ip)))"
  using assms
proof (induction rs arbitrary: l oks)
  case Nil
  then show ?case by (intro exI [of _ "[]"]) simp
next
  case (Cons r rs)
  obtain t i where r: "r = (t, i)" by fastforce
  obtain ok l1 where a: "allow l t i = (ok, l1)" by fastforce
  obtain oks1 where b: "run_allow rs l1 = (oks1, l')" "oks = ok # oks1"
    using Cons.prems r a by (auto split: prod.splits)
  from Cons.IH [OF b(1)] obtain ts where ts: "subseq ts (map fst rs)"
    "accepted rs oks1 (\<lambda>i. i = ip) = fst (run_hits (window_hit (rlm_per_ip_limit l) (from_secs 1)) ts (unwrap_or (0, hd ts) (rlm_per_ip l1 ip)))"
    using allow_limits [OF a] by auto
  show ?case
  proof (cases "i = ip")
    case False
    with ts b r allow_other [OF a, of ip] show ?thesis by (intro exI [of _ ts]) auto
  next
    case i: True
    from allow_this [OF a] show ?thesis
    proof
      assume "\<not> ok \<and> rlm_per_ip l1 i = rlm_per_ip l i"
      with ts b r i show ?thesis by (intro exI [of _ ts]) auto
    next
      assume "\<exists>e. window_hit (rlm_per_ip_limit l) (from_secs 1) t (unwrap_or (0, t) (rlm_per_ip l i)) = (ok, e) \<and>
        rlm_per_ip l1 i = Some e"
      with ts b r i show ?thesis by (intro exI [of _ "t # ts"]) (auto split: prod.splits)
    qed
  qed
qed


lemma sorted_le_last: "sorted us \<Longrightarrow> x \<in> set us \<Longrightarrow> x \<le> last us"
  by (induction us) auto

lemma subseq_set: "subseq xs ys \<Longrightarrow> set xs \<subseteq> set ys"
  by (induction rule: list_emb.induct) auto

lemma subseq_sorted: "subseq xs ys \<Longrightarrow> sorted ys \<Longrightarrow> sorted xs"
  by (induction rule: list_emb.induct) (auto dest: subseq_set)

lemma subseq_facts:
  fixes ts :: "nat list"
  assumes "subseq ts us" and "sorted (t0 # us)" and "ts \<noteq> []"
  shows "sorted (hd ts # ts)" and "last ts - hd ts \<le> last (t0 # us) - t0"
proof -
  have set: "set ts \<subseteq> set us" using assms(1) by (rule subseq_set)
  have "sorted ts" using assms(1,2) by (auto intro: subseq_sorted)
  then show "sorted (hd ts # ts)" using assms(3) by (cases ts) auto
  have ne: "us \<noteq> []" using assms(1,3) by auto
  have "last ts \<in> set us" "hd ts \<in> set us" using set assms(3) by auto
  then have "last ts \<le> last us" "t0 \<le> hd ts" using assms(2) sorted_le_last by auto
  then show "last ts - hd ts \<le> last (t0 # us) - t0" using ne by simp
qed

lemma hit_bound:
  assumes "limit \<noteq> 0" and "length ts < 2 ^ 64" and "sorted (t0 # ts)"
  shows "fst (run_hits (window_hit limit (from_secs 1)) ts (0, t0)) * from_secs 1
    \<le> unat limit * (last (t0 # ts) - t0 + from_secs 1)"
  using fixed_window.accepted_bound [OF gateway_window [OF assms(1), of "from_secs 1"], of ts "(0, t0)"] assms
  by simp

lemma with_rate_limit_limits:
  assumes "0 < rl_requests_per_second cfg" "rl_requests_per_second cfg < 2 ^ 32"
    and "0 < rl_per_ip_rps cfg" "rl_per_ip_rps cfg < 2 ^ 32"
  shows "unat (rlm_global_limit (with_rate_limit t0 cfg)) = rl_requests_per_second cfg"
    and "unat (rlm_per_ip_limit (with_rate_limit t0 cfg)) = rl_per_ip_rps cfg"
  using assms by (simp_all add: with_rate_limit_def new_rate_limiter_def unat_of_nat)

lemma with_rate_limit_init [simp]:
  "rlm_global (with_rate_limit t0 cfg) = (0, t0)" "rlm_per_ip (with_rate_limit t0 cfg) = Map.empty"
  by (simp_all add: with_rate_limit_def new_rate_limiter_def)

text \<open>
  Over any period, the limiter lets through at most the configured number of requests per
  second plus one second's worth: for every sequence of requests in order of time, the accepted
  ones are at most \<open>requests_per_second\<close> times the elapsed time plus one second, and the accepted
  ones of any single client address at most \<open>per_ip_rps\<close> times the same, whatever the other
  clients do.
\<close>

theorem rate_limiter_bounds:
  assumes "0 < rl_requests_per_second cfg" "rl_requests_per_second cfg < 2 ^ 32"
    and "0 < rl_per_ip_rps cfg" "rl_per_ip_rps cfg < 2 ^ 32"
    and "sorted (t0 # map fst rs)" and "length rs < 2 ^ 64"
    and "run_allow rs (with_rate_limit t0 cfg) = (oks, l')"
  shows "accepted rs oks (\<lambda>_. True) * from_secs 1
           \<le> rl_requests_per_second cfg * (last (t0 # map fst rs) - t0 + from_secs 1) \<and>
         accepted rs oks (\<lambda>i. i = ip) * from_secs 1
           \<le> rl_per_ip_rps cfg * (last (t0 # map fst rs) - t0 + from_secs 1)"
proof -
  note lim = with_rate_limit_limits [OF assms(1-4), of t0]
  let ?l = "with_rate_limit t0 cfg"
  have nz: "rlm_global_limit ?l \<noteq> 0" "rlm_per_ip_limit ?l \<noteq> 0" using lim assms(1,3) by fastforce+
  have "accepted rs oks (\<lambda>_. True) \<le> fst (run_hits (window_hit (rlm_global_limit ?l) (from_secs 1)) (map fst rs) (0, t0))"
    using run_global_le [OF assms(7)] by simp
  then have "accepted rs oks (\<lambda>_. True) * from_secs 1 \<le>
      fst (run_hits (window_hit (rlm_global_limit ?l) (from_secs 1)) (map fst rs) (0, t0)) * from_secs 1"
    by (rule mult_le_mono1)
  also have "\<dots> \<le> rl_requests_per_second cfg * (last (t0 # map fst rs) - t0 + from_secs 1)"
    using hit_bound [OF nz(1) _ assms(5)] assms(6) unfolding lim(1) by simp
  finally have glob: "accepted rs oks (\<lambda>_. True) * from_secs 1
      \<le> rl_requests_per_second cfg * (last (t0 # map fst rs) - t0 + from_secs 1)" .
  from run_ip_subseq [OF assms(7), of ip] obtain ts where ts: "subseq ts (map fst rs)"
    "accepted rs oks (\<lambda>i. i = ip) = fst (run_hits (window_hit (rlm_per_ip_limit ?l) (from_secs 1)) ts (0, hd ts))"
    by auto
  have "accepted rs oks (\<lambda>i. i = ip) * from_secs 1
      \<le> rl_per_ip_rps cfg * (last (t0 # map fst rs) - t0 + from_secs 1)"
  proof (cases "ts = []")
    case True
    with ts show ?thesis by simp
  next
    case False
    have len: "length ts < 2 ^ 64" using list_emb_length [OF ts(1)] assms(6) by simp
    note f = subseq_facts [OF ts(1) assms(5) False]
    have "fst (run_hits (window_hit (rlm_per_ip_limit ?l) (from_secs 1)) ts (0, hd ts)) * from_secs 1
        \<le> rl_per_ip_rps cfg * (last ts - hd ts + from_secs 1)"
      using hit_bound [OF nz(2) len f(1)] False unfolding lim(2) by simp
    also have "\<dots> \<le> rl_per_ip_rps cfg * (last (t0 # map fst rs) - t0 + from_secs 1)"
      using f(2) by (intro mult_le_mono2) simp
    finally show ?thesis unfolding ts(2) .
  qed
  with glob show ?thesis ..
qed


theorem rate_limiter_bounds_witness:
  "accepted [(0, V4 1), (1, V4 1), (2, V4 1)] [True, True, False] (\<lambda>i. i = V4 1) * from_secs 1
     \<le> 2 * (2 - 0 + from_secs 1)"
proof -
  let ?cfg = "\<lparr> rl_requests_per_second = 5, rl_per_ip_rps = 2 \<rparr>"
  let ?rs = "[(0, V4 1), (1, V4 1), (2, V4 1)]"
  have r: "\<exists>l. run_allow ?rs (with_rate_limit 0 ?cfg) = ([True, True, False], l)"
    by (simp add: with_rate_limit_def new_rate_limiter_def allow_def window_hit_def elapsed_def from_secs_def)
  then obtain l where l: "run_allow ?rs (with_rate_limit 0 ?cfg) = ([True, True, False], l)" by blast
  from rate_limiter_bounds [OF _ _ _ _ _ _ l, of "V4 1"] show ?thesis by simp
qed

text \<open>
  A configured limit of zero switches the limiter off: with both limits zero no request is
  ever rejected, in any order and at any rate.
\<close>

theorem rate_limit_zero_is_off:
  "fst (run_allow rs (with_rate_limit t0 \<lparr> rl_requests_per_second = 0, rl_per_ip_rps = 0 \<rparr>))
     = replicate (length rs) True"
proof -
  have off: "fst (run_allow rs l) = replicate (length rs) True"
    if "rlm_global_limit l = - 1" "rlm_per_ip_limit l = - 1" for l
    using that
  proof (induction rs arbitrary: l)
    case (Cons r rs)
    have m: "\<not> (- 1 :: u64) < c" for c by (simp add: not_less word_order.extremum)
    obtain t ip where r: "r = (t, ip)" by fastforce
    obtain ok l1 where a: "allow l t ip = (ok, l1)" by fastforce
    have ok using a Cons.prems
      by (auto simp: allow_def window_hit_def Let_def m split: prod.splits if_splits)
    with Cons.IH [of l1] Cons.prems allow_limits [OF a] a r show ?case by (auto split: prod.splits)
  qed simp
  show ?thesis by (rule off) (simp_all add: with_rate_limit_def new_rate_limiter_def)
qed

text \<open>
  Collecting idle address entries never changes a decision. With a retention of at least one
  second and a non-zero limit, every later request gets the same answer, and leaves the same
  global window and the same entry for its address, as without the collection.
\<close>

theorem gc_transparent:
  assumes "from_secs 1 \<le> ttl" and "now \<le> t" and "rlm_per_ip_limit l \<noteq> 0"
  shows "fst (allow (gc l now ttl) t ip) = fst (allow l t ip) \<and>
     rlm_global (snd (allow (gc l now ttl) t ip)) = rlm_global (snd (allow l t ip)) \<and>
     (fst (allow l t ip) \<longrightarrow>
        rlm_per_ip (snd (allow (gc l now ttl) t ip)) ip = rlm_per_ip (snd (allow l t ip)) ip)"
proof (cases "rlm_per_ip (gc l now ttl) ip = rlm_per_ip l ip")
  case True
  then show ?thesis by (auto simp: allow_def gc_def split: prod.splits)
next
  case False
  then obtain e where e: "rlm_per_ip l ip = Some e" "rlm_per_ip (gc l now ttl) ip = None"
      "ttl \<le> elapsed now (snd e)"
    by (cases "rlm_per_ip l ip") (auto simp: gc_def split: if_splits)
  have "from_secs 1 \<le> elapsed t (snd e)" using e(3) assms(1,2) by (simp add: elapsed_def)
  then have a: "window_hit (rlm_per_ip_limit l) (from_secs 1) t e = (True, (1, t))"
    by (simp add: window_hit_def)
  have "\<not> rlm_per_ip_limit l < 1" using assms(3) by (simp add: word_less_nat_alt unat_gt_0)
  then have "window_hit (rlm_per_ip_limit l) (from_secs 1) t (0, t) = (True, (1, t))"
    by (simp add: window_hit_def)
  with a e show ?thesis by (auto simp: allow_def gc_def split: prod.splits)
qed

theorem gc_transparent_witness:
  "fst (allow (gc (new_rate_limiter 0 10 5) 0 (from_secs 60)) 7 (V4 1)) = fst (allow (new_rate_limiter 0 10 5) 7 (V4 1))"
  using gc_transparent [of "from_secs 60" 0 7 "new_rate_limiter 0 10 5" "V4 1"]
  by (simp add: from_secs_def new_rate_limiter_def)


section \<open>Circuit breaker\<close>

record circuit_state =
  ci_failures :: u32
  ci_last_failure :: instant
  ci_open :: bool

record circuit_breaker =
  cb_backends :: "(string \<times> circuit_state) list"
  cb_threshold :: u32
  cb_recovery_secs :: nat

record circuit_status =
  cs_backend :: string
  cs_state :: string
  cs_failures :: u32

definition new_circuit_breaker :: "u32 \<Rightarrow> nat \<Rightarrow> circuit_breaker" where
  "new_circuit_breaker threshold recovery_secs =
     \<lparr> cb_backends = [], cb_threshold = threshold, cb_recovery_secs = recovery_secs \<rparr>"

definition is_available :: "circuit_breaker \<Rightarrow> instant \<Rightarrow> string \<Rightarrow> bool" where
  "is_available cb now backend =
     (case map_of (cb_backends cb) backend of
        None \<Rightarrow> True
      | Some state \<Rightarrow>
          (if \<not> ci_open state then True
           else from_secs (cb_recovery_secs cb) \<le> elapsed now (ci_last_failure state)))"

definition record_success :: "circuit_breaker \<Rightarrow> string \<Rightarrow> circuit_breaker" where
  "record_success cb backend = cb \<lparr> cb_backends := al_remove backend (cb_backends cb) \<rparr>"

definition record_failure :: "circuit_breaker \<Rightarrow> instant \<Rightarrow> string \<Rightarrow> circuit_breaker" where
  "record_failure cb now backend =
     (let state = unwrap_or \<lparr> ci_failures = 0, ci_last_failure = now, ci_open = False \<rparr>
                    (map_of (cb_backends cb) backend);
          failures = ci_failures state + 1
      in cb \<lparr> cb_backends := al_insert backend
                \<lparr> ci_failures = failures, ci_last_failure = now,
                  ci_open = (cb_threshold cb \<le> failures \<or> ci_open state) \<rparr> (cb_backends cb) \<rparr>)"

definition reset_circuit :: "circuit_breaker \<Rightarrow> string \<Rightarrow> bool \<times> circuit_breaker" where
  "reset_circuit cb backend =
     (map_of (cb_backends cb) backend \<noteq> None, cb \<lparr> cb_backends := al_remove backend (cb_backends cb) \<rparr>)"

definition circuit_word :: "circuit_breaker \<Rightarrow> instant \<Rightarrow> circuit_state \<Rightarrow> string" where
  "circuit_word cb now state =
     (if \<not> ci_open state then ''closed''
      else if from_secs (cb_recovery_secs cb) \<le> elapsed now (ci_last_failure state) then ''half-open''
      else ''open'')"

definition circuit_status_list :: "circuit_breaker \<Rightarrow> instant \<Rightarrow> circuit_status list" where
  "circuit_status_list cb now =
     map (\<lambda>(backend, state). \<lparr> cs_backend = backend, cs_state = circuit_word cb now state,
             cs_failures = ci_failures state \<rparr>) (cb_backends cb)"

definition state_of :: "circuit_breaker \<Rightarrow> instant \<Rightarrow> string \<Rightarrow> string" where
  "state_of cb now backend =
     (case map_of (cb_backends cb) backend of None \<Rightarrow> ''closed'' | Some state \<Rightarrow> circuit_word cb now state)"

section \<open>The breaker as a two-state machine\<close>

text \<open>\<open>Closed n\<close> after \<open>n\<close> consecutive failures, \<open>Opened t\<close> with the last failure at \<open>t\<close>.\<close>

datatype circuit = Closed nat | Opened instant

fun circuit_fail :: "nat \<Rightarrow> instant \<Rightarrow> circuit \<Rightarrow> circuit" where
  "circuit_fail threshold now (Closed n) = (if threshold \<le> n + 1 then Opened now else Closed (n + 1))"
| "circuit_fail threshold now (Opened t) = Opened now"

fun circuit_lets_through :: "nat \<Rightarrow> instant \<Rightarrow> circuit \<Rightarrow> bool" where
  "circuit_lets_through recovery now (Closed n) = True"
| "circuit_lets_through recovery now (Opened t) = (recovery \<le> now - t)"

definition circuit_of :: "circuit_breaker \<Rightarrow> string \<Rightarrow> circuit" where
  "circuit_of cb backend =
     (case map_of (cb_backends cb) backend of
        None \<Rightarrow> Closed 0
      | Some state \<Rightarrow>
          (if ci_open state then Opened (ci_last_failure state) else Closed (unat (ci_failures state))))"

text \<open>An entry that is not open has failed fewer times than the threshold.\<close>

definition circuit_inv :: "circuit_breaker \<Rightarrow> bool" where
  "circuit_inv cb \<longleftrightarrow>
     (\<forall>backend state. map_of (cb_backends cb) backend = Some state \<longrightarrow>
        \<not> ci_open state \<longrightarrow> ci_failures state < cb_threshold cb)"

lemma circuit_inv_new: "circuit_inv (new_circuit_breaker th r)"
  by (simp add: circuit_inv_def new_circuit_breaker_def)

lemma circuit_inv_success: "circuit_inv cb \<Longrightarrow> circuit_inv (record_success cb b)"
  by (auto simp: circuit_inv_def record_success_def split: if_splits)

lemma circuit_inv_failure: "circuit_inv cb \<Longrightarrow> circuit_inv (record_failure cb now b)"
  by (auto simp: circuit_inv_def record_failure_def Let_def not_le split: if_splits)

lemma circuit_of_success: "circuit_of (record_success cb b) b' = (if b' = b then Closed 0 else circuit_of cb b')"
  by (simp add: circuit_of_def record_success_def)

lemma unat_lt_Suc: "(c :: u32) < th \<Longrightarrow> unat (c + 1) = unat c + 1"
proof -
  assume "c < th"
  then have "unat c + 1 < 2 ^ 32"
    using unsigned_less [of th, where ?'a = nat] by (simp add: word_less_nat_alt)
  then show ?thesis by (simp add: unat_word_ariths)
qed

lemma circuit_of_failure:
  assumes "circuit_inv cb"
  shows "circuit_of (record_failure cb now b) b' =
    (if b' = b then circuit_fail (unat (cb_threshold cb)) now (circuit_of cb b) else circuit_of cb b')"
proof (cases "b' = b")
  case True
  show ?thesis
  proof (cases "map_of (cb_backends cb) b")
    case None
    with True show ?thesis
      by (simp add: circuit_of_def record_failure_def word_le_nat_alt)
  next
    case (Some st)
    have "unat (ci_failures st + 1) = unat (ci_failures st) + 1" if "\<not> ci_open st"
      using assms Some that unat_lt_Suc by (auto simp: circuit_inv_def)
    with Some True show ?thesis
      by (cases "ci_open st") (simp_all add: circuit_of_def record_failure_def word_le_nat_alt)
  qed
qed (simp add: circuit_of_def record_failure_def Let_def)

lemma is_available_refines:
  "is_available cb now b = circuit_lets_through (from_secs (cb_recovery_secs cb)) now (circuit_of cb b)"
  by (simp add: is_available_def circuit_of_def elapsed_def split: option.splits)

section \<open>Executions of the breaker\<close>

datatype circuit_event = Success string | Failure instant string | Reset string

fun circuit_step :: "circuit_event \<Rightarrow> circuit_breaker \<Rightarrow> circuit_breaker" where
  "circuit_step (Success b) cb = record_success cb b"
| "circuit_step (Failure now b) cb = record_failure cb now b"
| "circuit_step (Reset b) cb = snd (reset_circuit cb b)"

definition circuit_run :: "circuit_event list \<Rightarrow> circuit_breaker \<Rightarrow> circuit_breaker" where
  "circuit_run es cb = fold circuit_step es cb"

fun event_on :: "nat \<Rightarrow> string \<Rightarrow> circuit_event \<Rightarrow> circuit \<Rightarrow> circuit" where
  "event_on th b (Success b') c = (if b' = b then Closed 0 else c)"
| "event_on th b (Failure now b') c = (if b' = b then circuit_fail th now c else c)"
| "event_on th b (Reset b') c = (if b' = b then Closed 0 else c)"

lemma circuit_step_inv: "circuit_inv cb \<Longrightarrow> circuit_inv (circuit_step e cb)"
  using circuit_inv_success circuit_inv_failure
  by (cases e) (auto simp: reset_circuit_def record_success_def)

lemma circuit_step_threshold [simp]:
  "cb_threshold (circuit_step e cb) = cb_threshold cb"
  "cb_recovery_secs (circuit_step e cb) = cb_recovery_secs cb"
  by (cases e; simp add: reset_circuit_def record_success_def record_failure_def Let_def)+

lemma circuit_step_refines:
  "circuit_inv cb \<Longrightarrow> circuit_of (circuit_step e cb) b = event_on (unat (cb_threshold cb)) b e (circuit_of cb b)"
  using circuit_of_success circuit_of_failure
  by (cases e) (auto simp: reset_circuit_def record_success_def)

lemma circuit_run_refines:
  "circuit_inv cb \<Longrightarrow>
     circuit_of (circuit_run es cb) b = fold (event_on (unat (cb_threshold cb)) b) es (circuit_of cb b) \<and>
     circuit_inv (circuit_run es cb) \<and> cb_recovery_secs (circuit_run es cb) = cb_recovery_secs cb"
  by (induction es arbitrary: cb) (simp_all add: circuit_run_def circuit_step_inv circuit_step_refines)

lemma circuit_run_available:
  "is_available (circuit_run es (new_circuit_breaker th recovery)) now b =
     circuit_lets_through (from_secs recovery) now (fold (event_on (unat th) b) es (Closed 0))"
  using circuit_run_refines [OF circuit_inv_new, of es th recovery b]
  by (simp add: is_available_refines) (simp add: new_circuit_breaker_def circuit_of_def)


lemma circuit_failures:
  "fold (event_on th b) (map (\<lambda>t. Failure t b) ts) (Closed n) =
     (if ts = [] then Closed n else if th \<le> n + length ts then Opened (last ts) else Closed (n + length ts))"
proof (induction ts arbitrary: n)
  case (Cons t ts)
  have o: "fold (event_on th b) (map (\<lambda>t. Failure t b) us) (Opened u) = Opened (last (u # us))" for us u
    by (induction us arbitrary: u) auto
  from Cons [of "Suc n"] show ?case by (auto simp: o)
qed simp


fun event_backend :: "circuit_event \<Rightarrow> string" where
  "event_backend (Success b) = b"
| "event_backend (Failure now b) = b"
| "event_backend (Reset b) = b"

lemma fold_event_filter:
  "fold (event_on th b) es c = fold (event_on th b) (filter (\<lambda>e. event_backend e = b) es) c"
proof (induction es arbitrary: c)
  case (Cons e es)
  have "event_on th b e c = c" if "event_backend e \<noteq> b" using that by (cases e) auto
  with Cons show ?case by auto
qed simp

text \<open>
  A backend is cut off after exactly the threshold of consecutive failures, whatever the other
  backends do in between, and becomes available again once the recovery time has passed since its
  last failure.
\<close>

theorem circuit_opens_at_threshold:
  assumes "0 < unat th" and "filter (\<lambda>e. event_backend e = b) es = map (\<lambda>t. Failure t b) ts"
  shows "is_available (circuit_run es (new_circuit_breaker th recovery)) now b \<longleftrightarrow>
    length ts < unat th \<or> from_secs recovery \<le> now - last ts"
proof -
  have "is_available (circuit_run es (new_circuit_breaker th recovery)) now b =
      circuit_lets_through (from_secs recovery) now (fold (event_on (unat th) b) es (Closed 0))"
    by (rule circuit_run_available)
  also have "fold (event_on (unat th) b) es (Closed 0) =
      fold (event_on (unat th) b) (map (\<lambda>t. Failure t b) ts) (Closed 0)"
    by (subst fold_event_filter) (simp add: assms(2))
  finally show ?thesis using assms(1) by (auto simp: circuit_failures not_le)
qed

theorem circuit_opens_at_threshold_witness:
  "is_available (circuit_run [Failure 0 ''b'', Success ''c'', Failure 5 ''b''] (new_circuit_breaker 2 30)) 9 ''b''
     \<longleftrightarrow> False"
  using circuit_opens_at_threshold [of 2 "''b''" "[Failure 0 ''b'', Success ''c'', Failure 5 ''b'']" "[0, 5]" 30 9]
  by (simp add: from_secs_def)

end
