(* ===== verification/Response_Cache.thy ===== *)
theory Response_Cache
  imports Headers
begin

text \<open>
  The response cache of \<open>gateway/src/cache.rs\<close>: entries with a creation time, a last use and a time
  to live, removal of stale entries and of the least recently used one at capacity, and the
  shared-cache policy. The \<open>HashMap\<close> is iterated (stale scan, least recently used), so it is an
  association list in its iteration order; \<open>min_by_key\<close> returns the first minimum of that order.
\<close>

section \<open>Model\<close>

datatype entry_state = Fresh | Stale

record cached_entry =
  cd_status :: nat
  cd_headers :: "(string \<times> string) list"
  cd_body :: string

record cache_entry =
  ce_status :: nat
  ce_headers :: "(string \<times> string) list"
  ce_body :: string
  ce_created :: instant
  ce_last_used :: instant
  ce_ttl :: nat
  ce_state :: entry_state

definition is_fresh :: "instant \<Rightarrow> cache_entry \<Rightarrow> bool" where
  "is_fresh now e \<longleftrightarrow> ce_state e = Fresh \<and> elapsed now (ce_created e) < ce_ttl e"

definition transition_if_stale :: "instant \<Rightarrow> cache_entry \<Rightarrow> cache_entry" where
  "transition_if_stale now e =
     (if ce_state e = Fresh \<and> ce_ttl e \<le> elapsed now (ce_created e) then e \<lparr> ce_state := Stale \<rparr> else e)"

record response_cache =
  rc_entries :: "(string \<times> cache_entry) list"
  rc_max_entries :: nat

definition new_cache :: "nat \<Rightarrow> response_cache" where
  "new_cache max_entries = \<lparr> rc_entries = [], rc_max_entries = max_entries \<rparr>"

definition cache_key :: "string \<Rightarrow> string \<Rightarrow> string \<Rightarrow> string option \<Rightarrow> bool \<Rightarrow> string" where
  "cache_key method host path query ignore_query =
     (if ignore_query then method @ '':'' @ host @ '':'' @ path
      else method @ '':'' @ host @ '':'' @ path @ '':'' @ unwrap_or [] query)"

definition snapshot :: "cache_entry \<Rightarrow> cached_entry" where
  "snapshot e = \<lparr> cd_status = ce_status e, cd_headers = ce_headers e, cd_body = ce_body e \<rparr>"

definition cache_get :: "response_cache \<Rightarrow> instant \<Rightarrow> string \<Rightarrow> cached_entry option \<times> response_cache" where
  "cache_get c now k =
     (case map_of (rc_entries c) k of
        None \<Rightarrow> (None, c)
      | Some e0 \<Rightarrow>
          (let e = transition_if_stale now e0
           in if is_fresh now e
              then (Some (snapshot e),
                    c \<lparr> rc_entries := al_insert k (e \<lparr> ce_last_used := now \<rparr>) (rc_entries c) \<rparr>)
              else (None, c \<lparr> rc_entries := al_remove k (rc_entries c) \<rparr>)))"

fun oldest :: "(string \<times> cache_entry) list \<Rightarrow> (string \<times> cache_entry) option" where
  "oldest [] = None"
| "oldest ((k, e) # es) =
     (case oldest es of
        None \<Rightarrow> Some (k, e)
      | Some (k', e') \<Rightarrow> (if ce_last_used e' < ce_last_used e then Some (k', e') else Some (k, e)))"

definition evict_oldest :: "(string \<times> cache_entry) list \<Rightarrow> (string \<times> cache_entry) list" where
  "evict_oldest es = (case oldest es of None \<Rightarrow> es | Some (k, _) \<Rightarrow> al_remove k es)"

definition live_entries :: "instant \<Rightarrow> (string \<times> cache_entry) list \<Rightarrow> (string \<times> cache_entry) list" where
  "live_entries now es =
     filter (\<lambda>(k, e). ce_state e \<noteq> Stale) (map (\<lambda>(k, e). (k, transition_if_stale now e)) es)"

definition make_room :: "response_cache \<Rightarrow> instant \<Rightarrow> string \<Rightarrow> (string \<times> cache_entry) list" where
  "make_room c now k =
     (if rc_max_entries c \<le> length (rc_entries c) \<and> k \<notin> fst ` set (rc_entries c)
      then (let live = live_entries now (rc_entries c)
            in if rc_max_entries c \<le> length live then evict_oldest live else live)
      else rc_entries c)"

definition cache_put ::
    "response_cache \<Rightarrow> instant \<Rightarrow> string \<Rightarrow> nat \<Rightarrow> (string \<times> string) list \<Rightarrow> string \<Rightarrow> nat \<Rightarrow> response_cache" where
  "cache_put c now k status headers body ttl =
     (if rc_max_entries c = 0 then c
      else c \<lparr> rc_entries := al_insert k
               \<lparr> ce_status = status, ce_headers = headers, ce_body = body,
                 ce_created = now, ce_last_used = now, ce_ttl = ttl, ce_state = Fresh \<rparr>
               (make_room c now k) \<rparr>)"

definition cache_stats :: "response_cache \<Rightarrow> instant \<Rightarrow> nat \<times> nat" where
  "cache_stats c now =
     (length (rc_entries c), length (filter (\<lambda>(k, e). is_fresh now e) (rc_entries c)))"

definition is_cacheable :: "string option \<Rightarrow> bool" where
  "is_cacheable cache_control =
     (case cache_control of
        None \<Rightarrow> True
      | Some cc \<Rightarrow> (let cc = to_lower cc
                    in \<not> contains_sub cc ''no-store'' \<and> \<not> contains_sub cc ''private''))"

definition is_response_cacheable :: "header_map \<Rightarrow> bool" where
  "is_response_cacheable h \<longleftrightarrow>
     is_cacheable (h_str h ''cache-control'') \<and> \<not> h_contains h ''set-cookie'' \<and>
     \<not> h_contains h ''www-authenticate'' \<and> \<not> h_contains h ''proxy-authenticate'' \<and>
     \<not> h_contains h ''vary''"

definition is_shared_cache_request :: "header_map \<Rightarrow> bool" where
  "is_shared_cache_request h \<longleftrightarrow> \<not> h_contains h ''cookie'' \<and> \<not> h_contains h ''authorization''"

section \<open>Invariant\<close>

text \<open>No more entries than the capacity, no key twice.\<close>

definition cache_inv :: "response_cache \<Rightarrow> bool" where
  "cache_inv c \<longleftrightarrow> distinct (map fst (rc_entries c)) \<and> length (rc_entries c) \<le> rc_max_entries c"

lemma oldest_Some:
  "es \<noteq> [] \<Longrightarrow> \<exists>p. oldest es = Some p \<and> p \<in> set es \<and> (\<forall>q \<in> set es. ce_last_used (snd p) \<le> ce_last_used (snd q))"
proof (induction es rule: oldest.induct)
  case (2 k e es)
  show ?case
  proof (cases es)
    case (Cons x xs)
    with 2 obtain p where "oldest es = Some p" "p \<in> set es"
      "\<forall>q \<in> set es. ce_last_used (snd p) \<le> ce_last_used (snd q)" by blast
    then show ?thesis by (cases p) (force split: if_splits)
  qed simp
qed simp

lemma evict_oldest_shrinks: "es \<noteq> [] \<Longrightarrow> length (evict_oldest es) < length es"
  using oldest_Some [of es] by (force simp: evict_oldest_def intro: length_al_remove_in)

lemma distinct_evict: "distinct (map fst es) \<Longrightarrow> distinct (map fst (evict_oldest es))"
  by (simp add: evict_oldest_def split: option.splits)

lemma map_fst_scan [simp]: "map fst (map (\<lambda>(k, e). (k, f e)) es) = map fst es"
  by (induction es) auto

lemma live_entries_inv:
  assumes "cache_inv c"
  shows "distinct (map fst (live_entries now (rc_entries c)))"
    and "length (live_entries now (rc_entries c)) \<le> rc_max_entries c"
proof -
  show "distinct (map fst (live_entries now (rc_entries c)))"
    unfolding live_entries_def
    using assms by (intro distinct_map_filter) (simp add: cache_inv_def del: map_map)
  show "length (live_entries now (rc_entries c)) \<le> rc_max_entries c"
    unfolding live_entries_def
    by (rule order_trans [OF length_filter_le]) (use assms in \<open>simp add: cache_inv_def\<close>)
qed

lemma make_room_inv:
  assumes "cache_inv c"
  shows "distinct (map fst (make_room c now k))"
    and "0 < rc_max_entries c \<Longrightarrow> k \<notin> fst ` set (rc_entries c) \<Longrightarrow> length (make_room c now k) < rc_max_entries c"
    and "length (make_room c now k) \<le> rc_max_entries c"
proof -
  let ?live = "live_entries now (rc_entries c)"
  note d = live_entries_inv(1) [OF assms, of now] and l = live_entries_inv(2) [OF assms, of now]
  show "distinct (map fst (make_room c now k))"
    using assms d distinct_evict [OF d] by (simp add: make_room_def cache_inv_def Let_def)
  have e: "length (evict_oldest ?live) < length ?live" if "?live \<noteq> []"
    using that by (rule evict_oldest_shrinks)
  show "length (make_room c now k) < rc_max_entries c"
    if p: "0 < rc_max_entries c" and "k \<notin> fst ` set (rc_entries c)"
    using that e l by (cases "?live = []") (auto simp: make_room_def Let_def)
  show "length (make_room c now k) \<le> rc_max_entries c"
    using e l assms by (cases "?live = []") (auto simp: make_room_def Let_def cache_inv_def evict_oldest_def)
qed

lemma cache_inv_new: "cache_inv (new_cache n)"
  by (simp add: cache_inv_def new_cache_def)

lemma cache_inv_get:
  assumes "cache_inv c"
  shows "cache_inv (snd (cache_get c now k))"
proof (cases "map_of (rc_entries c) k")
  case (Some e)
  then have "k \<in> fst ` set (rc_entries c)" by (metis domI dom_map_of_conv_image_fst)
  then have "length (al_insert k v (rc_entries c)) \<le> rc_max_entries c" for v
    using length_al_insert_in [of k "rc_entries c" v] assms by (simp add: cache_inv_def)
  moreover have "length (al_remove k (rc_entries c)) \<le> rc_max_entries c"
    using length_al_remove_le [of k "rc_entries c"] assms by (simp add: cache_inv_def)
  ultimately show ?thesis using assms Some by (simp add: cache_get_def cache_inv_def Let_def)
qed (use assms in \<open>simp add: cache_get_def\<close>)

lemma length_al_insert_le: "length (al_insert k v m) \<le> Suc (length m)"
  using length_al_remove_le [of k m] by (simp add: al_insert_def)

lemma make_room_present: "k \<in> fst ` set (rc_entries c) \<Longrightarrow> make_room c now k = rc_entries c"
  by (simp add: make_room_def)

lemma cache_inv_put: "cache_inv c \<Longrightarrow> cache_inv (cache_put c now k st h b ttl)"
proof (cases "rc_max_entries c = 0")
  case False
  assume i: "cache_inv c"
  let ?m = "make_room c now k"
  have "length (al_insert k v ?m) \<le> rc_max_entries c" for v
  proof (cases "k \<in> fst ` set (rc_entries c)")
    case True
    with length_al_insert_in [of k "rc_entries c" v] i show ?thesis
      by (simp add: make_room_present cache_inv_def)
  next
    case nk: False
    from make_room_inv(2) [OF i _ nk, of now] False length_al_insert_le [of k v ?m] show ?thesis by simp
  qed
  with make_room_inv(1) [OF i] False show ?thesis
    by (simp add: cache_put_def cache_inv_def)
qed (simp add: cache_put_def)

section \<open>What a cache may answer\<close>

datatype ('k, 'v) cache_op = CGet instant 'k | CPut instant 'k 'v

fun run_cache :: "('c \<Rightarrow> instant \<Rightarrow> 'k \<Rightarrow> 'r option \<times> 'c) \<Rightarrow> ('c \<Rightarrow> instant \<Rightarrow> 'k \<Rightarrow> 'v \<Rightarrow> 'c) \<Rightarrow>
    ('k, 'v) cache_op list \<Rightarrow> 'c \<Rightarrow> 'c" where
  "run_cache get put [] c = c"
| "run_cache get put (CGet now k # es) c = run_cache get put es (snd (get c now k))"
| "run_cache get put (CPut now k v # es) c = run_cache get put es (put c now k v)"

fun puts_on :: "'k \<Rightarrow> ('k, 'v) cache_op \<Rightarrow> bool" where
  "puts_on k (CGet t k') = False"
| "puts_on k (CPut t k' v) = (k' = k)"

text \<open>
  A cache with expiry: \<open>stored\<close> is what it holds for a key and when it was put, \<open>life\<close> how long a value
  lives, \<open>view\<close> the part of it a lookup returns. Whatever the operations drop, a hit is always the
  value of the last \<open>put\<close> for the key, and still alive.
\<close>

locale ttl_cache =
  fixes get :: "'c \<Rightarrow> instant \<Rightarrow> 'k \<Rightarrow> 'r option \<times> 'c"
    and put :: "'c \<Rightarrow> instant \<Rightarrow> 'k \<Rightarrow> 'v \<Rightarrow> 'c"
    and stored :: "'c \<Rightarrow> 'k \<Rightarrow> ('v \<times> instant) option"
    and view :: "'v \<Rightarrow> 'r"
    and life :: "'v \<Rightarrow> nat"
    and inv :: "'c \<Rightarrow> bool"
  assumes get_stored: "inv c \<Longrightarrow> get c now k = (Some r, c') \<Longrightarrow>
      \<exists>v t. stored c k = Some (v, t) \<and> r = view v \<and> now - t < life v"
    and get_keeps: "inv c \<Longrightarrow> stored (snd (get c now k)) k' = Some x \<Longrightarrow> stored c k' = Some x"
    and put_keeps: "inv c \<Longrightarrow> stored (put c now k v) k' = Some x \<Longrightarrow>
      (if k' = k then x = (v, now) else stored c k' = Some x)"
    and get_inv: "inv c \<Longrightarrow> inv (snd (get c now k))"
    and put_inv: "inv c \<Longrightarrow> inv (put c now k v)"
begin

lemma run_inv: "inv c \<Longrightarrow> inv (run_cache get put es c)"
proof (induction es arbitrary: c)
  case (Cons e es)
  then show ?case by (cases e) (auto intro: get_inv put_inv)
qed simp

lemma stored_run:
  assumes "inv c" and "stored (run_cache get put es c) k = Some (v, t)"
  shows "stored c k = Some (v, t) \<and> \<not> list_ex (puts_on k) es \<or>
    (\<exists>es1 es2. es = es1 @ CPut t k v # es2 \<and> \<not> list_ex (puts_on k) es2)"
  using assms
proof (induction es arbitrary: c)
  case (Cons e es)
  show ?case
  proof (cases e)
    case (CGet now k')
    with Cons.IH [OF get_inv [OF Cons.prems(1), of now k']] Cons.prems get_keeps [OF Cons.prems(1)]
    show ?thesis by (auto 4 4 intro: exI [of _ "CGet now k' # _"])
  next
    case (CPut now k' w)
    from Cons.IH [OF put_inv [OF Cons.prems(1), of now k' w]] Cons.prems(2) CPut
    consider "stored (put c now k' w) k = Some (v, t)" "\<not> list_ex (puts_on k) es"
      | es1 es2 where "es = es1 @ CPut t k v # es2" "\<not> list_ex (puts_on k) es2" by auto
    then show ?thesis
    proof cases
      case 1
      then show ?thesis
      proof (cases "k = k'")
        case True
        with put_keeps [OF Cons.prems(1) 1(1)] 1(2) CPut show ?thesis
          by (intro disjI2 exI [of _ "[]"] exI [of _ es]) auto
      next
        case False
        with put_keeps [OF Cons.prems(1) 1(1)] 1(2) CPut show ?thesis by auto
      qed
    next
      case (2 es1 es2)
      then show ?thesis by (intro disjI2 exI [of _ "e # es1"] exI [of _ es2]) simp
    qed
  qed
qed simp

lemma hit_is_last_put:
  assumes "inv c" and "\<And>k. stored c k = None"
    and "get (run_cache get put es c) now k = (Some r, c')"
  shows "\<exists>es1 t v es2. es = es1 @ CPut t k v # es2 \<and> \<not> list_ex (puts_on k) es2 \<and> r = view v \<and> now - t < life v"
proof -
  from get_stored [OF run_inv [OF assms(1)] assms(3)] obtain v t where
    "stored (run_cache get put es c) k = Some (v, t)" "r = view v" "now - t < life v" by blast
  with stored_run [OF assms(1)] assms(2) show ?thesis by fastforce
qed

end

section \<open>The response cache meets the contract\<close>

type_synonym response = "nat \<times> (string \<times> string) list \<times> string"

definition rc_get :: "response_cache \<Rightarrow> instant \<Rightarrow> string \<Rightarrow> response option \<times> response_cache" where
  "rc_get c now k =
     (case cache_get c now k of
        (r, c') \<Rightarrow> (map_option (\<lambda>e. (cd_status e, cd_headers e, cd_body e)) r, c'))"

definition rc_put :: "response_cache \<Rightarrow> instant \<Rightarrow> string \<Rightarrow> response \<times> nat \<Rightarrow> response_cache" where
  "rc_put c now k v = (case v of ((st, h, b), ttl) \<Rightarrow> cache_put c now k st h b ttl)"

definition rc_stored :: "response_cache \<Rightarrow> string \<Rightarrow> ((response \<times> nat) \<times> instant) option" where
  "rc_stored c k =
     map_option (\<lambda>e. (((ce_status e, ce_headers e, ce_body e), ce_ttl e), ce_created e)) (map_of (rc_entries c) k)"

lemma transition_same [simp]:
  "ce_status (transition_if_stale now e) = ce_status e" "ce_headers (transition_if_stale now e) = ce_headers e"
  "ce_body (transition_if_stale now e) = ce_body e" "ce_created (transition_if_stale now e) = ce_created e"
  "ce_ttl (transition_if_stale now e) = ce_ttl e" "ce_last_used (transition_if_stale now e) = ce_last_used e"
  by (simp_all add: transition_if_stale_def)

lemma map_of_live: "distinct (map fst es) \<Longrightarrow> map_of (live_entries now es) k = Some e \<Longrightarrow>
   \<exists>e0. map_of es k = Some e0 \<and> e = transition_if_stale now e0"
  unfolding live_entries_def
  by (induction es) (auto split: if_splits simp: image_iff dest!: map_of_SomeD)

lemma stored_make_room:
  assumes "cache_inv c" and "map_of (make_room c now k) k' = Some e"
  shows "\<exists>e0. map_of (rc_entries c) k' = Some e0 \<and> (e = e0 \<or> e = transition_if_stale now e0)"
proof (cases "make_room c now k = rc_entries c")
  case True
  with assms(2) show ?thesis by auto
next
  case False
  then have "map_of (live_entries now (rc_entries c)) k' = Some e"
    using assms(2)
    by (auto simp: make_room_def evict_oldest_def Let_def split: if_splits option.splits)
  from map_of_live [OF _ this] assms(1) obtain e0 where
    "map_of (rc_entries c) k' = Some e0" "e = transition_if_stale now e0" by (auto simp: cache_inv_def)
  then show ?thesis by blast
qed

interpretation response: ttl_cache rc_get rc_put rc_stored fst snd cache_inv
proof
  fix c :: response_cache and now k r c'
  assume "rc_get c now k = (Some r, c')"
  then show "\<exists>v t. rc_stored c k = Some (v, t) \<and> r = fst v \<and> now - t < snd v"
    by (auto simp: rc_get_def cache_get_def rc_stored_def snapshot_def is_fresh_def elapsed_def Let_def
        split: option.splits if_splits)
next
  fix c :: response_cache and now k k' x
  assume "rc_stored (snd (rc_get c now k)) k' = Some x"
  then show "rc_stored c k' = Some x"
    by (auto simp: rc_get_def cache_get_def rc_stored_def Let_def split: option.splits if_splits)
next
  fix c :: response_cache and now k k' x and v :: "response \<times> nat"
  assume i: "cache_inv c" and s: "rc_stored (rc_put c now k v) k' = Some x"
  obtain st h b ttl where v: "v = ((st, h, b), ttl)" by (cases v) auto
  show "if k' = k then x = (v, now) else rc_stored c k' = Some x"
  proof (cases "rc_max_entries c = 0")
    case True
    with i have "rc_entries c = []" by (simp add: cache_inv_def)
    with s v True show ?thesis by (simp add: rc_put_def cache_put_def rc_stored_def)
  next
    case False
    with s v stored_make_room [OF i, of now k k'] show ?thesis
      by (auto simp: rc_put_def cache_put_def rc_stored_def split: if_splits)
  qed
next
  fix c now k assume "cache_inv c"
  then show "cache_inv (snd (rc_get c now k))"
    using cache_inv_get [of c now k] by (auto simp: rc_get_def split: prod.splits)
next
  fix c now k and v :: "response \<times> nat" assume "cache_inv c"
  then show "cache_inv (rc_put c now k v)" by (simp add: rc_put_def cache_inv_put split: prod.splits)
qed

text \<open>
  The response cache never serves anything but the latest response stored under the key, and
  only within its time to live: after any sequence of lookups and stores, a hit for \<open>k\<close> at time
  \<open>now\<close> returns the status, headers and body of the last store for \<open>k\<close>, made less than its time to
  live before \<open>now\<close>.
\<close>

theorem cache_hit_is_last_put:
  assumes "rc_get (run_cache rc_get rc_put es (new_cache n)) now k = (Some r, c')"
  shows "\<exists>es1 t ttl es2. es = es1 @ CPut t k (r, ttl) # es2 \<and> \<not> list_ex (puts_on k) es2 \<and> now - t < ttl"
proof -
  have "rc_stored (new_cache n) k = None" for k by (simp add: rc_stored_def new_cache_def)
  from response.hit_is_last_put [OF cache_inv_new this assms] show ?thesis by fastforce
qed

text \<open>
  The cache never holds more entries than its capacity, and never two for one key, after any
  sequence of lookups and stores.
\<close>

theorem cache_bounded:
  "length (rc_entries (run_cache rc_get rc_put es (new_cache n))) \<le> n \<and>
   distinct (map fst (rc_entries (run_cache rc_get rc_put es (new_cache n))))"
proof -
  have m: "rc_max_entries (run_cache rc_get rc_put es c) = rc_max_entries c" for c
  proof (induction es arbitrary: c)
    case (Cons e es)
    then show ?case
      by (cases e)
        (auto simp: rc_get_def rc_put_def cache_get_def cache_put_def Let_def split: prod.splits option.splits)
  qed simp
  from response.run_inv [OF cache_inv_new, of es n] m [of "new_cache n"] show ?thesis
    by (simp add: cache_inv_def new_cache_def)
qed


theorem cache_hit_is_last_put_witness:
  "\<exists>es1 t ttl es2. [CPut 0 ''k'' ((200, [], ''old'') :: response, 50), CGet 1 ''k'', CPut 2 ''k'' ((200, [], ''new''), 50)]
       = es1 @ CPut t ''k'' ((200, [], ''new''), ttl) # es2 \<and> \<not> list_ex (puts_on ''k'') es2 \<and> 9 - t < ttl"
proof -
  let ?es = "[CPut 0 ''k'' ((200, [], ''old'') :: response, 50), CGet 1 ''k'', CPut 2 ''k'' ((200, [], ''new''), 50)]"
  have "fst (rc_get (run_cache rc_get rc_put ?es (new_cache 4)) 9 ''k'') = Some (200, [], ''new'')"
    by (simp add: rc_get_def rc_put_def cache_get_def cache_put_def new_cache_def make_room_def al_insert_def
        al_remove_def is_fresh_def elapsed_def transition_if_stale_def snapshot_def)
  then obtain c' where "rc_get (run_cache rc_get rc_put ?es (new_cache 4)) 9 ''k'' = (Some (200, [], ''new''), c')"
    by (metis prod.collapse)
  from cache_hit_is_last_put [OF this] show ?thesis .
qed

text \<open>
  A stored response is served until it expires: a lookup right after a store, at any time
  before the time to live has passed, is a hit with that response, and a lookup at or after it
  is a miss that also drops the entry.
\<close>

theorem cache_get_after_put:
  assumes "0 < rc_max_entries c" and "t \<le> now"
  shows "fst (rc_get (rc_put c t k (r, ttl)) now k) = (if now - t < ttl then Some r else None) \<and>
     (ttl \<le> now - t \<longrightarrow> map_of (rc_entries (snd (rc_get (rc_put c t k (r, ttl)) now k))) k = None)"
  using assms
  by (cases r) (auto simp: rc_get_def rc_put_def cache_get_def cache_put_def is_fresh_def
      transition_if_stale_def elapsed_def snapshot_def Let_def)

theorem cache_get_after_put_witness:
  "fst (rc_get (rc_put (new_cache 3) 5 ''k'' ((200, [], ''b''), 10)) 9 ''k'') = Some (200, [], ''b'')"
  using cache_get_after_put [of "new_cache 3" 5 9 "''k''" "(200, [], ''b'')" 10] by (simp add: new_cache_def)

text \<open>
  At capacity, a new key displaces the least recently used response: when no entry is stale,
  exactly one other entry goes, one whose last use is not after that of any other.
\<close>

theorem cache_evicts_lru:
  assumes "cache_inv c" and "length (rc_entries c) = rc_max_entries c" and "rc_entries c \<noteq> []"
    and "k \<notin> fst ` set (rc_entries c)" and "\<forall>(k, e) \<in> set (rc_entries c). is_fresh now e"
  shows "\<exists>k0 e0. (k0, e0) \<in> set (rc_entries c) \<and>
     (\<forall>(k', e') \<in> set (rc_entries c). ce_last_used e0 \<le> ce_last_used e') \<and>
     fst ` set (rc_entries (cache_put c now k st h b ttl)) = insert k (fst ` set (rc_entries c) - {k0})"
proof -
  have "transition_if_stale now e = e \<and> ce_state e \<noteq> Stale" if "(k, e) \<in> set (rc_entries c)" for k e
    using that assms(5) by (auto simp: is_fresh_def transition_if_stale_def)
  then have live: "live_entries now (rc_entries c) = rc_entries c"
    unfolding live_entries_def by (subst map_idI) (auto simp: filter_id_conv)
  from oldest_Some [OF assms(3)] obtain k0 e0 where
    o: "oldest (rc_entries c) = Some (k0, e0)" "(k0, e0) \<in> set (rc_entries c)"
      "\<forall>q \<in> set (rc_entries c). ce_last_used e0 \<le> ce_last_used (snd q)" by auto
  have "make_room c now k = al_remove k0 (rc_entries c)"
    using assms(2,4) o(1) by (simp add: make_room_def live evict_oldest_def)
  moreover have "0 < rc_max_entries c" using assms(2,3) by (metis length_greater_0_conv)
  moreover have "k \<noteq> k0" using o(2) assms(4) by force
  ultimately have "fst ` set (rc_entries (cache_put c now k st h b ttl)) = insert k (fst ` set (rc_entries c) - {k0})"
    by (auto simp: cache_put_def al_insert_def al_remove_def)
  with o(2,3) show ?thesis by (intro exI [of _ k0] exI [of _ e0]) auto
qed

definition demo_entry :: "instant \<Rightarrow> cache_entry" where
  "demo_entry used =
     \<lparr> ce_status = 200, ce_headers = [], ce_body = [], ce_created = 0, ce_last_used = used, ce_ttl = 50,
       ce_state = Fresh \<rparr>"

definition demo_cache :: response_cache where
  "demo_cache = \<lparr> rc_entries = [(''a'', demo_entry 5), (''b'', demo_entry 3)], rc_max_entries = 2 \<rparr>"

theorem cache_evicts_lru_witness:
  "\<exists>k0 e0. (k0, e0) \<in> set (rc_entries demo_cache) \<and>
     fst ` set (rc_entries (cache_put demo_cache 9 ''c'' 200 [] [] 50)) =
       insert ''c'' (fst ` set (rc_entries demo_cache) - {k0})"
proof -
  have 1: "cache_inv demo_cache" "length (rc_entries demo_cache) = rc_max_entries demo_cache"
    "rc_entries demo_cache \<noteq> []" "''c'' \<notin> fst ` set (rc_entries demo_cache)"
    by (simp_all add: demo_cache_def cache_inv_def)
  have 2: "\<forall>(k, e) \<in> set (rc_entries demo_cache). is_fresh 9 e"
    by (simp add: demo_cache_def demo_entry_def is_fresh_def elapsed_def)
  from cache_evicts_lru [OF 1 2, of 200 "[]" "[]" 50] obtain k0 e0 where
    "(k0, e0) \<in> set (rc_entries demo_cache)"
    "fst ` set (rc_entries (cache_put demo_cache 9 ''c'' 200 [] [] 50)) =
       insert ''c'' (fst ` set (rc_entries demo_cache) - {k0})" by (elim exE conjE)
  then show ?thesis by (intro exI conjI)
qed

text \<open>
  Cache keys do not separate path and query: two requests for different resources of the same
  host, \<open>/a:b\<close> and \<open>/a?b:\<close>, have the same key, so the cached response of one is served for the other.
\<close>

theorem cache_key_collision:
  "\<exists>m h p q p' q'. (p, q) \<noteq> (p', q') \<and> CHR ''?'' \<notin> set p \<and> CHR ''?'' \<notin> set p' \<and>
     cache_key m h p q False = cache_key m h p' q' False"
  by (intro exI [of _ "''GET''"] exI [of _ "''a.io''"] exI [of _ "''/a:b''"] exI [of _ None]
      exI [of _ "''/a''"] exI [of _ "Some ''b:''"]) (simp add: cache_key_def)

end
