(* ===== verification/Plugins.thy ===== *)
theory Plugins
  imports Resilience Response_Cache Gateway_Config
begin

text \<open>
  The plugin system of \<open>gateway/src/plugin.rs\<close>: the four built-in plugins, the manager that loads them
  from the configuration, and the request and response phases. A plugin is a value of the datatype
  \<open>plugin\<close> that carries its own state; a hook returns the error or success, the plugin afterwards
  and the context afterwards. \<open>plugin_world\<close> has the clock, the URL parser, HMAC and the
  monetizer service; a fetch that fails comes back with the message of the failing step.

  The per-user limit is a second interpretation of \<open>fixed_window\<close>, the monetizer's billing cache a
  second one of \<open>ttl_cache\<close>.
\<close>

section \<open>Model\<close>

datatype plugin_state = PLoaded | PValidated | PActive | PError string | PRejected string

record plugin_context =
  px_method :: string
  px_host :: string
  px_path :: string
  px_headers :: "string \<rightharpoonup> string"
  px_client_ip :: string
  px_reject :: "(nat \<times> string) option"
  px_add_headers :: "(string \<times> string) list"
  px_remove_headers :: "string list"

record billing =
  bl_plan :: string
  bl_status :: string
  bl_features :: string
  bl_show_ads :: string
  bl_trial_end :: string

record monetizer =
  mz_verify_url :: string
  mz_config_id :: string
  mz_cache_ttl_secs :: nat
  mz_user_header :: string
  mz_cache :: "(string \<times> billing \<times> instant) list"
  mz_signer :: "assertion_signer option"

datatype plugin =
    ApiKeyAuth string "string list"
  | RateLimitByUser u64 nat string "string \<rightharpoonup> window"
  | Monetizer monetizer
  | HeaderInjector "(string \<times> string) list" "(string \<times> string) list"

record plugin_world =
  pw_now :: instant
  pw_unix_now :: nat
  pw_mac :: mac_ops
  pw_parse_url :: "string \<Rightarrow> (string, string) result"
  pw_fetch :: "string \<Rightarrow> (string \<times> string) list \<Rightarrow> (string, billing) result"

type_synonym hook_result = "(string, unit) result \<times> plugin \<times> plugin_context"

definition add_header :: "plugin_context \<Rightarrow> string \<Rightarrow> string \<Rightarrow> plugin_context" where
  "add_header ctx k v = ctx \<lparr> px_add_headers := al_insert k v (px_add_headers ctx) \<rparr>"

definition add_headers :: "plugin_context \<Rightarrow> (string \<times> string) list \<Rightarrow> plugin_context" where
  "add_headers ctx hs = foldl (\<lambda>c (k, v). add_header c k v) ctx hs"

definition api_key_request :: "string \<Rightarrow> string list \<Rightarrow> plugin_context \<Rightarrow> plugin_context" where
  "api_key_request header valid_keys ctx =
     (case px_headers ctx header of
        Some key \<Rightarrow>
          (if key \<in> set valid_keys then ctx else ctx \<lparr> px_reject := Some (403, ''Invalid API key'') \<rparr>)
      | None \<Rightarrow> ctx \<lparr> px_reject := Some (401, ''API key required'') \<rparr>)"

definition user_limit_request ::
    "instant \<Rightarrow> u64 \<Rightarrow> nat \<Rightarrow> string \<Rightarrow> (string \<rightharpoonup> window) \<Rightarrow> plugin_context \<Rightarrow>
     (string \<rightharpoonup> window) \<times> plugin_context" where
  "user_limit_request now max_requests window_secs user_header state ctx =
     (case px_headers ctx user_header of
        None \<Rightarrow> (state, ctx)
      | Some user_id \<Rightarrow>
          (case window_hit max_requests (from_secs window_secs) now (unwrap_or (0, now) (state user_id)) of
             (ok, entry) \<Rightarrow>
               (state(user_id \<mapsto> entry),
                if ok then ctx
                else add_header
                       (ctx \<lparr> px_reject := Some (429, ''User rate limit exceeded ('' @
                          show_nat (unat max_requests) @ ''/'' @ show_nat window_secs @ ''s)'') \<rparr>)
                       ''Retry-After'' (show_nat window_secs))))"

definition MAX_CACHE_ENTRIES :: nat where
  "MAX_CACHE_ENTRIES = 10000"

definition get_cached :: "monetizer \<Rightarrow> instant \<Rightarrow> string \<Rightarrow> billing option \<times> monetizer" where
  "get_cached m now user_id =
     (case map_of (mz_cache m) user_id of
        None \<Rightarrow> (None, m)
      | Some (b, ts) \<Rightarrow>
          (if elapsed now ts < from_secs (mz_cache_ttl_secs m) then (Some b, m)
           else (None, m \<lparr> mz_cache := al_remove user_id (mz_cache m) \<rparr>)))"

definition set_cached :: "monetizer \<Rightarrow> instant \<Rightarrow> string \<Rightarrow> billing \<Rightarrow> monetizer" where
  "set_cached m now user_id b =
     m \<lparr> mz_cache := al_insert user_id (b, now)
           (if MAX_CACHE_ENTRIES \<le> length (mz_cache m) then [] else mz_cache m) \<rparr>"

definition assertion_headers :: "gateway_assertion \<Rightarrow> (string \<times> string) list" where
  "assertion_headers a =
     [(KEY_ID_HEADER, ga_key_id a), (TIMESTAMP_HEADER, ga_timestamp a), (SIGNATURE_HEADER, ga_signature a)]"

definition fetch_billing :: "plugin_world \<Rightarrow> monetizer \<Rightarrow> string \<Rightarrow> (string, billing) result" where
  "fetch_billing w m user_id =
     (let url = mz_verify_url m @ ''?user='' @ user_id @ ''&config='' @ mz_config_id m
      in case pw_parse_url w url of
           Inl e \<Rightarrow> Inl (''invalid monetizer verify URL: '' @ e)
         | Inr path_with_query \<Rightarrow>
             pw_fetch w url
               (case mz_signer m of
                  None \<Rightarrow> []
                | Some s \<Rightarrow>
                    assertion_headers
                      (sign_now (pw_mac w) (pw_unix_now w) s ''GET'' path_with_query [] [] [])))"

definition billing_headers :: "billing \<Rightarrow> (string \<times> string) list" where
  "billing_headers b =
     [(''X-Monetizer-Plan'', bl_plan b), (''X-Monetizer-Status'', bl_status b),
      (''X-Monetizer-Features'', bl_features b), (''X-Monetizer-Show-Ads'', bl_show_ads b)]
     @ (if bl_trial_end b \<noteq> [] then [(''X-Monetizer-Trial-End'', bl_trial_end b)] else [])"

definition monetizer_request ::
    "plugin_world \<Rightarrow> monetizer \<Rightarrow> plugin_context \<Rightarrow> (string, unit) result \<times> monetizer \<times> plugin_context" where
  "monetizer_request w m ctx =
     (case px_headers ctx (mz_user_header m) of
        None \<Rightarrow>
          (Inr (), m, add_headers ctx
             [(''X-Monetizer-Plan'', ''free''), (''X-Monetizer-Status'', ''none''),
              (''X-Monetizer-Features'', []), (''X-Monetizer-Show-Ads'', ''true'')])
      | Some user_id \<Rightarrow>
          (case get_cached m (pw_now w) user_id of
             (Some b, m') \<Rightarrow> (Inr (), m', add_headers ctx (billing_headers b))
           | (None, m') \<Rightarrow>
               (case fetch_billing w m' user_id of
                  Inl e \<Rightarrow> (Inl e, m', ctx)
                | Inr b \<Rightarrow>
                    (Inr (), set_cached m' (pw_now w) user_id b, add_headers ctx (billing_headers b)))))"

fun on_request :: "plugin_world \<Rightarrow> plugin \<Rightarrow> plugin_context \<Rightarrow> hook_result" where
  "on_request w (ApiKeyAuth header keys) ctx =
     (Inr (), ApiKeyAuth header keys, api_key_request header keys ctx)"
| "on_request w (RateLimitByUser limit win header state) ctx =
     (case user_limit_request (pw_now w) limit win header state ctx of
        (state', ctx') \<Rightarrow> (Inr (), RateLimitByUser limit win header state', ctx'))"
| "on_request w (Monetizer m) ctx =
     (case monetizer_request w m ctx of (r, m', ctx') \<Rightarrow> (r, Monetizer m', ctx'))"
| "on_request w (HeaderInjector req resp) ctx = (Inr (), HeaderInjector req resp, add_headers ctx req)"

fun on_response :: "plugin \<Rightarrow> plugin_context \<Rightarrow> plugin_context" where
  "on_response (HeaderInjector req resp) ctx = add_headers ctx resp"
| "on_response _ ctx = ctx"

section \<open>The manager\<close>

record loaded_plugin =
  ld_config :: plugin_config
  ld_state :: plugin_state
  ld_plugin :: plugin

definition config_value :: "plugin_config \<Rightarrow> string \<Rightarrow> string option" where
  "config_value c k = map_of (pc_config c) k"

definition config_number :: "plugin_config \<Rightarrow> string \<Rightarrow> nat \<Rightarrow> nat" where
  "config_number c k d = unwrap_or d (Option.bind (config_value c k) (parse_uint 64))"

definition stripped_entries :: "string \<Rightarrow> (string \<times> string) list \<Rightarrow> (string \<times> string) list" where
  "stripped_entries p kvs =
     foldl (\<lambda>m (k, v). case strip_prefix k p of Some r \<Rightarrow> al_insert r v m | None \<Rightarrow> m) [] kvs"

definition build_plugin :: "assertion_signer option \<Rightarrow> plugin_config \<Rightarrow> plugin option" where
  "build_plugin signer c =
     (if pc_name c = ''api-key-auth'' then
        Some (ApiKeyAuth (unwrap_or ''x-api-key'' (config_value c ''header''))
                (case config_value c ''keys'' of
                   None \<Rightarrow> [] | Some s \<Rightarrow> map trim (split_on CHR '','' s)))
      else if pc_name c = ''rate-limit-by-user'' then
        Some (RateLimitByUser (of_nat (config_number c ''max_requests'' 100)) (config_number c ''window_secs'' 60)
                (unwrap_or ''x-volta-user-id'' (config_value c ''user_header'')) Map.empty)
      else if pc_name c = ''monetizer'' then
        Some (Monetizer
          \<lparr> mz_verify_url = unwrap_or ''http://monetizer:3001/__monetizer/verify'' (config_value c ''verify_url''),
            mz_config_id = unwrap_or [] (config_value c ''config_id''),
            mz_cache_ttl_secs = config_number c ''cache_ttl_secs'' 5,
            mz_user_header = unwrap_or ''x-volta-user-id'' (config_value c ''user_header''),
            mz_cache = [], mz_signer = signer \<rparr>)
      else if pc_name c = ''header-injector'' then
        Some (HeaderInjector
          (stripped_entries ''req.'' (pc_config c))
          (stripped_entries ''resp.'' (filter (\<lambda>(k, v). \<not> starts_with k ''req.'') (pc_config c))))
      else None)"

definition load_from_config_with_assertion ::
    "plugin_config list \<Rightarrow> assertion_signer option \<Rightarrow> loaded_plugin list" where
  "load_from_config_with_assertion configs signer =
     List.map_filter (\<lambda>c. map_option (\<lambda>p. \<lparr> ld_config = c, ld_state = PActive, ld_plugin = p \<rparr>)
       (build_plugin signer c)) configs"

definition runs_in :: "string \<Rightarrow> loaded_plugin \<Rightarrow> bool" where
  "runs_in phase l \<longleftrightarrow>
     ld_state l = PActive \<and> (pc_phase (ld_config l) = phase \<or> pc_phase (ld_config l) = ''both'')"

fun run_request ::
    "plugin_world \<Rightarrow> loaded_plugin list \<Rightarrow> plugin_context \<Rightarrow>
     (nat \<times> string) option \<times> loaded_plugin list \<times> plugin_context" where
  "run_request w [] ctx = (None, [], ctx)"
| "run_request w (l # ls) ctx =
     (if \<not> runs_in ''request'' l
      then (case run_request w ls ctx of (r, ls', ctx') \<Rightarrow> (r, l # ls', ctx'))
      else (case on_request w (ld_plugin l) ctx of
              (res, p', ctx1) \<Rightarrow>
                (let l' = l \<lparr> ld_plugin := p' \<rparr>
                 in case (res, px_reject ctx1) of
                      (Inr _, Some reject) \<Rightarrow> (Some reject, l' # ls, ctx1 \<lparr> px_reject := None \<rparr>)
                    | _ \<Rightarrow> (case run_request w ls ctx1 of (r, ls', ctx') \<Rightarrow> (r, l' # ls', ctx')))))"

definition run_response :: "loaded_plugin list \<Rightarrow> plugin_context \<Rightarrow> plugin_context" where
  "run_response ls ctx = foldl (\<lambda>c l. if runs_in ''response'' l then on_response (ld_plugin l) c else c) ctx ls"

section \<open>Properties\<close>

lemma px_add_headers_only [simp]:
  "px_reject (add_header c k v) = px_reject c" "px_headers (add_header c k v) = px_headers c"
  "px_remove_headers (add_header c k v) = px_remove_headers c"
  "px_reject (add_headers c hs) = px_reject c" "px_headers (add_headers c hs) = px_headers c"
  "px_remove_headers (add_headers c hs) = px_remove_headers c"
proof -
  show "px_reject (add_header c k v) = px_reject c" "px_headers (add_header c k v) = px_headers c"
    "px_remove_headers (add_header c k v) = px_remove_headers c" for c k v
    by (simp_all add: add_header_def)
  then show "px_reject (add_headers c hs) = px_reject c" "px_headers (add_headers c hs) = px_headers c"
    "px_remove_headers (add_headers c hs) = px_remove_headers c"
    by (induction hs arbitrary: c) (auto simp: add_headers_def)
qed

text \<open>The per-user window is a fixed-window limiter.\<close>

interpretation default_user_limit: fixed_window "window_hit 100 (from_secs 60)" "window_acc 100" snd
    window_cap "unat (100 :: u64)" "from_secs 60"
  by (rule gateway_window) auto

text \<open>The billing cache is a cache with expiry, all values living equally long.\<close>

lemma mz_get_ttl [simp]: "mz_cache_ttl_secs (snd (get_cached m now u)) = mz_cache_ttl_secs m"
  by (auto simp: get_cached_def split: option.splits)

interpretation billing_cache: ttl_cache get_cached set_cached "\<lambda>m. map_of (mz_cache m)" "\<lambda>b. b"
    "\<lambda>_. from_secs ttl" "\<lambda>m. mz_cache_ttl_secs m = ttl"
  for ttl
proof
  fix m now u r m'
  assume "mz_cache_ttl_secs m = ttl" and "get_cached m now u = (Some r, m')"
  then show "\<exists>v t. map_of (mz_cache m) u = Some (v, t) \<and> r = v \<and> now - t < from_secs ttl"
    by (auto simp: get_cached_def elapsed_def split: option.splits if_splits)
qed (auto simp: get_cached_def set_cached_def split: option.splits if_splits)

lemma on_request_headers: "on_request w p ctx = (r, p', ctx') \<Longrightarrow> px_headers ctx' = px_headers ctx"
  by (cases p)
    (auto simp: api_key_request_def user_limit_request_def monetizer_request_def
      split: option.splits prod.splits sum.splits if_splits)

lemma on_request_ok_or_clean:
  "on_request w p ctx = (Inl e, p', ctx') \<Longrightarrow> px_reject ctx' = px_reject ctx"
  by (cases p) (auto simp: monetizer_request_def split: option.splits prod.splits sum.splits)

text \<open>What it takes to get past the API-key plugin.\<close>

fun admits :: "plugin_context \<Rightarrow> plugin \<Rightarrow> bool" where
  "admits ctx (ApiKeyAuth header keys) = (\<exists>key. px_headers ctx header = Some key \<and> key \<in> set keys)"
| "admits ctx _ = True"

lemma on_request_admits: "on_request w p ctx = (r, p', ctx') \<Longrightarrow> px_reject ctx' = None \<Longrightarrow> admits ctx p"
  by (cases p) (auto simp: api_key_request_def split: option.splits if_splits)

lemma run_request_admits:
  assumes "run_request w ls ctx = (None, ls', ctx')" and "px_reject ctx = None"
    and "l \<in> set ls" and "runs_in ''request'' l"
  shows "admits ctx (ld_plugin l)"
  using assms
proof (induction ls arbitrary: ctx ls')
  case (Cons a ls)
  show ?case
  proof (cases "runs_in ''request'' a")
    case False
    with Cons show ?thesis by (auto split: prod.splits)
  next
    case True
    obtain res p' ctx1 where o: "on_request w (ld_plugin a) ctx = (res, p', ctx1)" by (metis prod_cases3)
    have rej: "px_reject ctx1 = None"
      using Cons.prems(1,2) True o on_request_ok_or_clean [of w "ld_plugin a" ctx _ p' ctx1]
      by (cases res; cases "px_reject ctx1") (auto simp: Let_def)
    then obtain ls1 where rest: "run_request w ls ctx1 = (None, ls1, ctx')"
      using Cons.prems(1) True o by (cases res) (auto simp: Let_def split: prod.splits)
    show ?thesis
    proof (cases "l = a")
      case False
      with Cons.IH [OF rest rej] Cons.prems(3,4) have "admits ctx1 (ld_plugin l)" by auto
      with on_request_headers [OF o] show ?thesis by (cases "ld_plugin l") auto
    next
      case True
      with on_request_admits [OF o rej] show ?thesis by simp
    qed
  qed
qed simp

text \<open>
  With an API-key plugin active in the request phase, no request gets past the plugins without
  one of the configured keys in the configured header, whichever other plugins run before or after
  it and whether or not they fail.
\<close>

theorem api_key_required:
  assumes "run_request w ls ctx = (None, ls', ctx')" and "px_reject ctx = None"
    and "l \<in> set ls" and "runs_in ''request'' l" and "ld_plugin l = ApiKeyAuth header keys"
  shows "\<exists>key. px_headers ctx header = Some key \<and> key \<in> set keys"
  using run_request_admits [OF assms(1-4)] assms(5) by simp

definition demo_context :: "(string \<rightharpoonup> string) \<Rightarrow> plugin_context" where
  "demo_context hs =
     \<lparr> px_method = ''GET'', px_host = ''a.io'', px_path = ''/'', px_headers = hs, px_client_ip = ''10.0.0.1'',
       px_reject = None, px_add_headers = [], px_remove_headers = [] \<rparr>"

definition demo_plugin_config :: "string \<Rightarrow> (string \<times> string) list \<Rightarrow> plugin_config" where
  "demo_plugin_config name kvs =
     \<lparr> pc_name = name, pc_plugin_type = ''native'', pc_path = None, pc_config = kvs, pc_phase = ''request'' \<rparr>"

definition demo_plugins :: "loaded_plugin list" where
  "demo_plugins = load_from_config_with_assertion [demo_plugin_config ''api-key-auth'' [(''keys'', ''k1, k2'')]] None"

definition demo_plugin_world :: plugin_world where
  "demo_plugin_world =
     \<lparr> pw_now = 0, pw_unix_now = 0, pw_mac = demo_ops, pw_parse_url = Inr, pw_fetch = (\<lambda>_ _. Inl ''down'') \<rparr>"

lemma demo_plugins_eq:
  "demo_plugins = [\<lparr> ld_config = demo_plugin_config ''api-key-auth'' [(''keys'', ''k1, k2'')], ld_state = PActive,
     ld_plugin = ApiKeyAuth ''x-api-key'' [''k1'', ''k2''] \<rparr>]"
proof -
  have "map trim (split_on CHR '','' ''k1, k2'') = [''k1'', ''k2'']" by code_simp
  then show ?thesis
    by (simp add: demo_plugins_def load_from_config_with_assertion_def build_plugin_def config_value_def
        demo_plugin_config_def map_filter_simps)
qed

theorem api_key_required_witness:
  "\<exists>key. px_headers (demo_context [''x-api-key'' \<mapsto> ''k2'']) ''x-api-key'' = Some key \<and> key \<in> set [''k1'', ''k2'']"
proof (rule api_key_required)
  let ?ctx = "demo_context [''x-api-key'' \<mapsto> ''k2'']"
  show "run_request demo_plugin_world demo_plugins ?ctx = (None, demo_plugins, ?ctx)"
    by (simp add: demo_plugins_eq runs_in_def demo_plugin_config_def api_key_request_def demo_context_def)
  show "hd demo_plugins \<in> set demo_plugins" "runs_in ''request'' (hd demo_plugins)"
    "ld_plugin (hd demo_plugins) = ApiKeyAuth ''x-api-key'' [''k1'', ''k2'']"
    by (simp_all add: demo_plugins_eq runs_in_def demo_plugin_config_def)
qed (simp add: demo_context_def)

lemma load_all:
  "\<forall>p \<in> set ps. build_plugin signer p \<noteq> None \<Longrightarrow>
     map ld_config (load_from_config_with_assertion ps signer) = ps"
  unfolding load_from_config_with_assertion_def by (induction ps) (auto simp: map_filter_simps)

text \<open>
  Every native plugin of a validated configuration is loaded: no plugin that validation lets
  through is silently skipped when the manager is built, and the plugins keep their order.
\<close>

theorem validated_plugins_all_load:
  assumes "validate_detailed e g = Inr ()" and "\<forall>p \<in> set (gc_plugins g). pc_plugin_type p = ''native''"
  shows "map ld_config (load_from_config_with_assertion (gc_plugins g) signer) = gc_plugins g"
proof -
  have "\<forall>p \<in> set (gc_plugins g). check_plugin p = []"
    using assms(1) by (simp add: validate_detailed_ok validate_errors_def)
  with assms(2) have "\<forall>p \<in> set (gc_plugins g). build_plugin signer p \<noteq> None"
    by (auto simp: check_plugin_def BUILTIN_PLUGINS_def build_plugin_def)
  then show ?thesis by (rule load_all)
qed

theorem validated_plugins_all_load_witness:
  "map ld_config (load_from_config_with_assertion (gc_plugins (sample_config [sample_route ''A.io''])) None)
     = gc_plugins (sample_config [sample_route ''A.io''])"
  by (rule validated_plugins_all_load [OF sample_valid]) (simp add: sample_config_def)

fun user_requests :: "instant list \<Rightarrow> u64 \<Rightarrow> nat \<Rightarrow> string \<Rightarrow> plugin_context \<Rightarrow> (string \<rightharpoonup> window) \<Rightarrow> bool list" where
  "user_requests [] limit win header ctx state = []"
| "user_requests (t # ts) limit win header ctx state =
     (case user_limit_request t limit win header state ctx of
        (state', ctx') \<Rightarrow> (px_reject ctx' = None) # user_requests ts limit win header ctx state')"


lemma user_requests_hits:
  assumes "px_headers ctx header = Some u" and "px_reject ctx = None"
  shows "length (filter (\<lambda>ok. ok) (user_requests ts limit win header ctx state)) =
    fst (run_hits (window_hit limit (from_secs win)) ts (unwrap_or (0, hd ts) (state u)))"
proof (induction ts arbitrary: state)
  case (Cons t ts)
  obtain ok e where h: "window_hit limit (from_secs win) t (unwrap_or (0, t) (state u)) = (ok, e)"
    using prod.exhaust by blast
  have "px_reject (snd (user_limit_request t limit win header state ctx)) = None \<longleftrightarrow> ok"
    and "fst (user_limit_request t limit win header state ctx) = state(u \<mapsto> e)"
    using h assms by (auto simp: user_limit_request_def)
  moreover have "length (filter (\<lambda>ok. ok) (user_requests ts limit win header ctx (state(u \<mapsto> e)))) =
      fst (run_hits (window_hit limit (from_secs win)) ts e)"
    using Cons [of "state(u \<mapsto> e)"] by (simp only: fun_upd_same unwrap_or_simps)
  ultimately show ?case using h
    by (cases "user_limit_request t limit win header state ctx") (auto split: prod.splits)
qed simp

text \<open>
  The per-user limit is exact within a window: of the requests of one user that arrive within
  the window of the first, precisely the first \<open>max_requests\<close> pass.
\<close>

theorem user_limit_exact:
  assumes "limit \<noteq> 0" and "0 < win" and "length ts < 2 ^ 64"
    and "px_headers ctx header = Some u" and "px_reject ctx = None"
    and "\<forall>t \<in> set ts. t < hd ts + from_secs win"
  shows "length (filter (\<lambda>ok. ok) (user_requests ts limit win header ctx Map.empty)) = min (length ts) (unat limit)"
proof -
  have w: "0 < from_secs win" using assms(2) by simp
  have "fst (run_hits (window_hit limit (from_secs win)) ts (0, hd ts)) = min (length ts) (unat limit - 0)"
    using fixed_window.within_window [OF gateway_window [OF assms(1) w], of ts "(0, hd ts)"] assms(3,6) by simp
  with user_requests_hits [OF assms(4,5)] show ?thesis by simp
qed

theorem user_limit_exact_witness:
  "length (filter (\<lambda>ok. ok) (user_requests [3, 4, 5] 2 60 ''x-volta-user-id'' (demo_context [''x-volta-user-id'' \<mapsto> ''u'']) Map.empty))
     = 2"
  using user_limit_exact [of 2 60 "[3, 4, 5]" "demo_context [''x-volta-user-id'' \<mapsto> ''u'']" "''x-volta-user-id''" "''u''"]
  by (simp add: demo_context_def from_secs_def)

text \<open>
  An empty key list is not an empty key set. Configured with \<open>keys: ""\<close>, the API-key plugin
  accepts a request whose key header is present but empty, because splitting the empty string
  gives one empty key.
\<close>

theorem empty_keys_admit_empty_key:
  "fst (run_request demo_plugin_world
     (load_from_config_with_assertion [demo_plugin_config ''api-key-auth'' [(''keys'', [])]] None)
     (demo_context [''x-api-key'' \<mapsto> []])) = None"
proof -
  have "map trim (split_on CHR '','' []) = [[]]" by code_simp
  then show ?thesis
    by (simp add: load_from_config_with_assertion_def build_plugin_def config_value_def
        demo_plugin_config_def map_filter_simps runs_in_def api_key_request_def demo_context_def)
qed

end
