(* ===== verification/Proxy_Service.thy ===== *)
theory Proxy_Service
  imports Auth_Client Plugins
begin

text \<open>
  \<open>ProxyService::handle\<close> of \<open>gateway/src/proxy.rs\<close> for requests that are not WebSocket upgrades, one
  definition per stage of the function, in the order of the code. A stage takes the state (the
  service and the list of effects so far) and either ends the request with a response (\<open>Inl\<close>) or
  goes on with a value (\<open>Inr\<close>); \<open>None\<close> is a request that is never answered, because the validator
  does not return or an index is out of range. Everything that leaves the gateway is an effect:
  calls to the auth server, requests to backends, retries, mirrored requests, WebSocket upgrades
  (for the handler of \<open>websocket.rs\<close>, which shares this state), recorded statuses.

  \<open>world\<close> collects what one request meets outside: the tramli engine, the auth server, the plugins'
  world, the backends, the address parser, fresh identifiers, random samples and compression. The
  clock is read once on arrival and once after the backend exchange.
\<close>

section \<open>State and surroundings\<close>

record hot_state =
  hs_routing :: routing_table
  hs_flow_def :: flow_definition
  hs_error_pages :: "nat \<rightharpoonup> string"
  hs_cors :: cors_table
  hs_trusted_proxies :: "ip_net list"

definition new_full ::
    "routing_table \<Rightarrow> allowlist_table \<Rightarrow> (nat \<rightharpoonup> string) \<Rightarrow> cors_table \<Rightarrow> ip_net list \<Rightarrow> hot_state" where
  "new_full routing ip_allowlists pages cors trusted =
     \<lparr> hs_routing = routing, hs_flow_def = build_proxy_flow_with_allowlist routing ip_allowlists,
       hs_error_pages = pages, hs_cors = cors, hs_trusted_proxies = trusted \<rparr>"

record proxy_service =
  ps_volta :: auth_client
  ps_hot :: hot_state
  ps_rate_limiter :: rate_limiter
  ps_selector :: backend_selector
  ps_breaker :: circuit_breaker
  ps_plugins :: "loaded_plugin list"
  ps_cache :: response_cache
  ps_signer :: "assertion_signer option"

definition new_with_assertion ::
    "instant \<Rightarrow> auth_client \<Rightarrow> hot_state \<Rightarrow> loaded_plugin list \<Rightarrow> assertion_signer option \<Rightarrow> proxy_service" where
  "new_with_assertion now volta hot plugins signer =
     \<lparr> ps_volta = volta, ps_hot = hot, ps_rate_limiter = new_rate_limiter now 1000 100,
       ps_selector = new_selector, ps_breaker = new_circuit_breaker 5 30, ps_plugins = plugins,
       ps_cache = new_cache 10000, ps_signer = signer \<rparr>"

record request =
  rq_method :: string
  rq_path :: string
  rq_query :: "string option"
  rq_scheme :: "string option"
  rq_headers :: header_map
  rq_body :: string

datatype effect =
    EAuth auth_query bool
  | EBackend http_request string nat
  | ERetry http_request
  | EMirror http_request
  | EUpgrade http_request
  | EMetric nat

record world =
  wd_engine :: flow_engine
  wd_auth :: auth_world
  wd_plugin :: plugin_world
  wd_parse_ip :: "string \<Rightarrow> ip_addr option"
  wd_show_ip :: "ip_addr \<Rightarrow> string"
  wd_request_id :: string
  wd_traceparent :: string
  wd_now :: instant
  wd_done :: instant
  wd_retry_unix :: nat
  wd_pick :: u32
  wd_mirror_sample :: rat
  wd_backend :: "http_request \<Rightarrow> string \<Rightarrow> nat \<Rightarrow> exchange"
  wd_retry :: "http_request \<Rightarrow> exchange"
  wd_collect :: "string \<Rightarrow> string option"
  wd_gzip :: "string \<Rightarrow> string option"
  wd_gzip_stream :: "string \<Rightarrow> string option"

abbreviation wd_web :: "world \<Rightarrow> web" where
  "wd_web w \<equiv> aw_web (wd_auth w)"

record gw_state =
  gs_service :: proxy_service
  gs_effects :: "effect list"
  gs_ws_connections :: u64

type_synonym 'a stage = "gw_state \<Rightarrow> ((http_response, 'a) result \<times> gw_state) option"

definition go_on :: "'a \<Rightarrow> 'a stage" where
  "go_on a st = Some (Inr a, st)"

definition finish :: "http_response \<Rightarrow> 'a stage" where
  "finish resp st = Some (Inl resp, st)"

definition sbind :: "'a stage \<Rightarrow> ('a \<Rightarrow> 'b stage) \<Rightarrow> 'b stage" where
  "sbind m f st =
     (case m st of
        None \<Rightarrow> None
      | Some (Inl resp, st') \<Rightarrow> Some (Inl resp, st')
      | Some (Inr a, st') \<Rightarrow> f a st')"

definition effect_of :: "effect \<Rightarrow> gw_state \<Rightarrow> gw_state" where
  "effect_of e st = st \<lparr> gs_effects := gs_effects st @ [e] \<rparr>"

text \<open>Record a status and end the request.\<close>

definition finish_with :: "nat \<Rightarrow> http_response \<Rightarrow> 'a stage" where
  "finish_with status resp st = Some (Inl resp, effect_of (EMetric status) st)"

section \<open>Responses of the gateway itself\<close>

definition json_error :: "nat \<Rightarrow> string \<Rightarrow> string \<Rightarrow> string" where
  "json_error code reason request_id =
     ''{\"error\":{\"code\":'' @ show_nat code @ '',\"reason\":\"'' @ reason @ ''\",\"request_id\":\"'' @ request_id @ ''\"}}''"

definition reason_of :: "nat \<Rightarrow> string" where
  "reason_of status =
     (if status = 400 then ''Bad Request'' else if status = 403 then ''Forbidden''
      else if status = 502 then ''Bad Gateway'' else if status = 504 then ''Gateway Timeout''
      else ''Internal Server Error'')"

definition error_response_with_pages :: "nat \<Rightarrow> string \<Rightarrow> (nat \<rightharpoonup> string) \<Rightarrow> http_response" where
  "error_response_with_pages status request_id pages =
     (case pages status of
        Some html \<Rightarrow>
          \<lparr> hr_status = status,
            hr_headers = [(''content-type'', HText ''text/html; charset=utf-8''), (''x-request-id'', HText request_id)],
            hr_body = html \<rparr>
      | None \<Rightarrow>
          \<lparr> hr_status = status,
            hr_headers = [(''content-type'', HText ''application/json''), (''x-request-id'', HText request_id)],
            hr_body = json_error status (reason_of status) request_id \<rparr>)"

definition error_response :: "nat \<Rightarrow> string \<Rightarrow> http_response" where
  "error_response status request_id = error_response_with_pages status request_id Map.empty"

definition redirect_response :: "string \<Rightarrow> string \<Rightarrow> http_response" where
  "redirect_response location request_id =
     \<lparr> hr_status = 302, hr_headers = [(''location'', HText location), (''x-request-id'', HText request_id)],
       hr_body = [] \<rparr>"

definition rate_limited_response :: "string \<Rightarrow> http_response" where
  "rate_limited_response request_id =
     \<lparr> hr_status = 429,
       hr_headers = [(''content-type'', HText ''application/json''), (''retry-after'', HText ''1''),
         (''x-request-id'', HText request_id)],
       hr_body = json_error 429 ''Too Many Requests'' request_id \<rparr>"

section \<open>Reading the request\<close>

definition from_trusted :: "hot_state \<Rightarrow> ip_addr \<Rightarrow> bool" where
  "from_trusted hot remote \<longleftrightarrow>
     hs_trusted_proxies hot \<noteq> [] \<and> list_ex (\<lambda>net. net remote) (hs_trusted_proxies hot)"

definition real_client_ip :: "world \<Rightarrow> hot_state \<Rightarrow> ip_addr \<Rightarrow> header_map \<Rightarrow> ip_addr" where
  "real_client_ip w hot remote h =
     (if from_trusted hot remote
      then unwrap_or remote
             (Option.bind (Option.bind (or_else (h_get h ''cf-connecting-ip'') (h_get h ''x-real-ip'')) hv_str)
                (wd_parse_ip w))
      else remote)"

definition is_upgrade :: "request \<Rightarrow> bool" where
  "is_upgrade rq \<longleftrightarrow>
     (case h_str (rq_headers rq) ''upgrade'' of Some v \<Rightarrow> eq_ignore_case v ''websocket'' | None \<Rightarrow> False) \<or>
     (rq_method rq = ''CONNECT'' \<and>
      (case h_str (rq_headers rq) '':protocol'' of Some v \<Rightarrow> eq_ignore_case v ''websocket'' | None \<Rightarrow> False))"

definition extract_host :: "header_map \<Rightarrow> string option" where
  "extract_host h = map_option normalize_host (h_str h ''host'')"

definition header_size :: "header_map \<Rightarrow> nat" where
  "header_size h = sum_list (map (\<lambda>(k, v). length k + length (hv_bytes v)) h)"

definition content_length :: "header_map \<Rightarrow> nat option" where
  "content_length h = Option.bind (h_str h ''content-length'') (parse_uint 64)"

definition bearer_of :: "header_map \<Rightarrow> string option" where
  "bearer_of h =
     opt_filter (\<lambda>t. t \<noteq> [])
       (Option.bind (h_str h ''authorization'')
          (\<lambda>s. Option.bind (split_once CHR '' '' s)
             (\<lambda>(scheme, rest). if eq_ignore_case scheme ''bearer'' then Some (trim rest) else None)))"

definition proto_of :: "request \<Rightarrow> string" where
  "proto_of rq =
     (if opt_filter (\<lambda>s. eq_ignore_case s ''https'') (h_str (rq_headers rq) ''x-forwarded-proto'') \<noteq> None
      then ''https''
      else if rq_scheme rq = Some ''https'' then ''https'' else ''http'')"

definition traceparent_of :: "world \<Rightarrow> header_map \<Rightarrow> string" where
  "traceparent_of w h = unwrap_or (wd_traceparent w) (h_str h ''traceparent'')"

definition path_and_query :: "request \<Rightarrow> string" where
  "path_and_query rq =
     (if rq_path rq = [] \<and> rq_query rq = None then ''/''
      else rq_path rq @ (case rq_query rq of None \<Rightarrow> [] | Some q \<Rightarrow> CHR ''?'' # q))"

definition cors_origin_for :: "cors_table \<Rightarrow> string \<Rightarrow> string option \<Rightarrow> string" where
  "cors_origin_for cors host origin =
     (case cors host of
        None \<Rightarrow> []
      | Some origins \<Rightarrow>
          (if list_ex (\<lambda>o'. o' = ''*'') origins then ''*''
           else (let req_origin = unwrap_or [] origin
                 in if list_ex (\<lambda>o'. o' = req_origin) origins then req_origin else [])))"

section \<open>Stages before authentication\<close>

definition rate_limit_stage :: "world \<Rightarrow> ip_addr \<Rightarrow> unit stage" where
  "rate_limit_stage w ip st =
     (case allow (ps_rate_limiter (gs_service st)) (wd_now w) ip of
        (ok, l') \<Rightarrow>
          (let st' = st \<lparr> gs_service := gs_service st \<lparr> ps_rate_limiter := l' \<rparr> \<rparr>
           in if ok then go_on () st'
              else finish_with 429 (rate_limited_response (wd_request_id w)) st'))"

definition preflight_response :: "world \<Rightarrow> string \<Rightarrow> http_response" where
  "preflight_response w cors_origin =
     \<lparr> hr_status = 204,
       hr_headers =
         [(''access-control-allow-origin'', HText cors_origin),
          (''access-control-allow-methods'', HText ''GET, POST, PUT, PATCH, DELETE, OPTIONS''),
          (''access-control-allow-headers'', HText ''Content-Type, Authorization, X-CSRF-Token''),
          (''access-control-max-age'', HText ''86400''),
          (''x-request-id'', HText (wd_request_id w))]
         @ (if cors_origin \<noteq> ''*'' then [(''vary'', HText ''Origin'')] else []),
       hr_body = [] \<rparr>"

definition preflight_stage :: "world \<Rightarrow> hot_state \<Rightarrow> request \<Rightarrow> string \<Rightarrow> unit stage" where
  "preflight_stage w hot rq host =
     (let cors_origin = cors_origin_for (hs_cors hot) host (h_str (rq_headers rq) ''origin'')
      in if rq_method rq = ''OPTIONS'' \<and> cors_origin \<noteq> []
         then finish (preflight_response w cors_origin) else go_on ())"

definition request_data_of :: "request \<Rightarrow> string \<Rightarrow> ip_addr \<Rightarrow> request_data" where
  "request_data_of rq host ip =
     \<lparr> rd_host = host, rd_path = rq_path rq, rd_method = rq_method rq,
       rd_header_size = header_size (rq_headers rq), rd_content_length = content_length (rq_headers rq),
       rd_client_ip = Some ip \<rparr>"

text \<open>\<open>start_flow\<close>, the \<open>Denied\<close> terminal, the route target of the flow's context.\<close>

definition start_stage :: "world \<Rightarrow> hot_state \<Rightarrow> request_data \<Rightarrow> (flow_run \<times> route_target) stage" where
  "start_stage w hot rd st =
     (case en_start (wd_engine w) (hs_flow_def hot) (initial_ctx rd) of
        None \<Rightarrow> None
      | Some (Inl e) \<Rightarrow> finish_with 400 (error_response 400 (wd_request_id w)) st
      | Some (Inr run) \<Rightarrow>
          (if fst run = Denied
           then finish_with (as_status_code Denied)
                  (error_response_with_pages (as_status_code Denied) (wd_request_id w) (hs_error_pages hot)) st
           else (case cx_route (snd run) of
                   None \<Rightarrow> finish_with 400 (error_response 400 (wd_request_id w)) st
                 | Some rt \<Rightarrow> go_on (run, rt) st)))"

definition select_stage :: "world \<Rightarrow> string \<Rightarrow> route_info option \<Rightarrow> route_target \<Rightarrow> string stage" where
  "select_stage w host route rt st =
     (case select (ps_selector (gs_service st)) host (rt_backends rt)
             (case route of Some r \<Rightarrow> ri_weights r | None \<Rightarrow> []) (wd_pick w) of
        None \<Rightarrow> None
      | Some (backend, sel') \<Rightarrow>
          go_on backend (st \<lparr> gs_service := gs_service st \<lparr> ps_selector := sel' \<rparr> \<rparr>))"

section \<open>Authentication and authorization\<close>

text \<open>What the routing table says about authentication of this path.\<close>

record auth_plan =
  ap_public :: bool
  ap_soft :: bool
  ap_bypass :: "bypass_path option"
  ap_skip :: bool
  ap_min_role :: "string option"

definition auth_plan_for :: "route_info option \<Rightarrow> string \<Rightarrow> auth_plan" where
  "auth_plan_for route path =
     (let is_public = (case route of Some r \<Rightarrow> ri_public r | None \<Rightarrow> False);
          is_soft_auth = (case route of Some r \<Rightarrow> ri_soft_auth r | None \<Rightarrow> False);
          bypass_match = Option.bind route (\<lambda>r. find_bypass (ri_bypass_paths r) path);
          auth_rule_match = Option.bind route (\<lambda>r. resolve_auth_rule (ri_auth_rules r) path);
          route_min_role = Option.bind route ri_min_role
      in \<lparr> ap_public = is_public,
           ap_soft = is_soft_auth,
           ap_bypass = bypass_match,
           ap_skip = (is_public \<or> bypass_match \<noteq> None \<or> auth_rule_match = Some Public),
           ap_min_role =
             (case auth_rule_match of
                Some (Require role) \<Rightarrow> Some role
              | Some Public \<Rightarrow> None
              | None \<Rightarrow> route_min_role) \<rparr>)"

definition auth_query_of ::
    "world \<Rightarrow> request \<Rightarrow> string \<Rightarrow> ip_addr \<Rightarrow> string option \<Rightarrow> string option \<Rightarrow> auth_query" where
  "auth_query_of w rq host ip app_id min_role =
     \<lparr> aq_host = host, aq_uri = rq_path rq, aq_proto = proto_of rq,
       aq_cookie = h_str (rq_headers rq) ''cookie'', aq_app_id = app_id, aq_min_role = min_role,
       aq_client_ip = Some (wd_show_ip w ip), aq_bearer = bearer_of (rq_headers rq) \<rparr>"

definition call_auth :: "world \<Rightarrow> auth_query \<Rightarrow> bool \<Rightarrow> gw_state \<Rightarrow> auth_result \<times> gw_state" where
  "call_auth w q allow_degraded st =
     (case check_with_degraded_policy (wd_auth w) (ps_volta (gs_service st)) q allow_degraded of
        (r, vc') \<Rightarrow>
          (r, effect_of (EAuth q allow_degraded)
                (st \<lparr> gs_service := gs_service st \<lparr> ps_volta := vc' \<rparr> \<rparr>)))"

definition auth_stage :: "world \<Rightarrow> hot_state \<Rightarrow> auth_plan \<Rightarrow> auth_query \<Rightarrow> volta_headers stage" where
  "auth_stage w hot plan q st =
     (if ap_skip plan then go_on [] st
      else if ap_soft plan
        then (case call_auth w q True st of
                (Authenticated headers, st') \<Rightarrow> go_on headers st'
              | (_, st') \<Rightarrow> go_on [] st')
      else (case call_auth w q (ap_min_role plan = None) st of
              (Authenticated headers, st') \<Rightarrow> go_on headers st'
            | (AuthRedirect location, st') \<Rightarrow>
                finish_with 302 (redirect_response location (wd_request_id w)) st'
            | (AuthDenied, st') \<Rightarrow>
                finish_with 403 (error_response_with_pages 403 (wd_request_id w) (hs_error_pages hot)) st'
            | (AuthError msg, st') \<Rightarrow>
                finish_with 502 (error_response_with_pages 502 (wd_request_id w) (hs_error_pages hot)) st'))"

definition roles_of :: "volta_headers \<Rightarrow> string list" where
  "roles_of h =
     (case map_of h ''x-volta-roles'' of
        None \<Rightarrow> []
      | Some v \<Rightarrow> filter (\<lambda>r. r \<noteq> []) (map (\<lambda>r. to_upper (trim r)) (split_on CHR '','' v)))"

definition role_satisfied :: "volta_headers \<Rightarrow> string \<Rightarrow> bool" where
  "role_satisfied h min_role \<longleftrightarrow>
     (let required = to_upper (trim min_role)
      in list_ex (\<lambda>r. r = required) (hierarchy default_policy) \<and>
         enforce_min_role default_policy (roles_of h) required = Allow)"

definition role_stage :: "world \<Rightarrow> hot_state \<Rightarrow> auth_plan \<Rightarrow> volta_headers \<Rightarrow> unit stage" where
  "role_stage w hot plan h =
     (let forbid = finish_with 403 (error_response_with_pages 403 (wd_request_id w) (hs_error_pages hot))
      in case ap_min_role plan of
           None \<Rightarrow> go_on ()
         | Some min_role \<Rightarrow>
             (if ap_public plan then forbid
              else if ap_bypass plan \<noteq> None then go_on ()
              else if role_satisfied h min_role then go_on () else forbid))"

section \<open>Stages between authorization and forwarding\<close>

definition resume_stage :: "world \<Rightarrow> hot_state \<Rightarrow> flow_run \<Rightarrow> volta_headers \<Rightarrow> flow_run stage" where
  "resume_stage w hot run h =
     (case en_resume (wd_engine w) (hs_flow_def hot) run ((snd run) \<lparr> cx_auth := Some h \<rparr>) of
        Inl e \<Rightarrow> finish_with 502 (error_response_with_pages 502 (wd_request_id w) (hs_error_pages hot))
      | Inr run' \<Rightarrow> go_on run')"

definition plugin_headers_of :: "header_map \<Rightarrow> volta_headers \<Rightarrow> (string \<rightharpoonup> string)" where
  "plugin_headers_of h volta =
     collect_map (List.map_filter (\<lambda>(k, v). if is_volta k then None else map_option (\<lambda>t. (k, t)) (hv_str v)) h)
     ++ collect_map volta"

definition plugin_stage ::
    "world \<Rightarrow> request \<Rightarrow> string \<Rightarrow> ip_addr \<Rightarrow> volta_headers \<Rightarrow> ((string \<times> string) list \<times> string list) stage" where
  "plugin_stage w rq host ip h st =
     (case run_request (wd_plugin w) (ps_plugins (gs_service st))
             \<lparr> px_method = rq_method rq, px_host = host, px_path = rq_path rq,
               px_headers = plugin_headers_of (rq_headers rq) h, px_client_ip = wd_show_ip w ip,
               px_reject = None, px_add_headers = [], px_remove_headers = [] \<rparr> of
        (reject, plugins', ctx) \<Rightarrow>
          (let st' = st \<lparr> gs_service := gs_service st \<lparr> ps_plugins := plugins' \<rparr> \<rparr>
           in case reject of
                Some (status, body) \<Rightarrow>
                  finish_with status
                    \<lparr> hr_status = (if 100 \<le> status \<and> status < 1000 then status else 403),
                      hr_headers = [(''content-type'', HText ''application/json''),
                        (''x-request-id'', HText (wd_request_id w))],
                      hr_body = json_error status body (wd_request_id w) \<rparr> st'
              | None \<Rightarrow> go_on (px_add_headers ctx, px_remove_headers ctx) st'))"

definition geo_ok :: "route_info option \<Rightarrow> header_map \<Rightarrow> bool" where
  "geo_ok route h \<longleftrightarrow>
     (case route of
        None \<Rightarrow> True
      | Some ri \<Rightarrow>
          (let country = unwrap_or [] (h_str h ''cf-ipcountry'')
           in \<not> (ri_geo_allowlist ri \<noteq> [] \<and> \<not> list_ex (\<lambda>c. c = country) (ri_geo_allowlist ri)) \<and>
              \<not> list_ex (\<lambda>c. c = country) (ri_geo_denylist ri)))"

definition geo_stage :: "world \<Rightarrow> hot_state \<Rightarrow> route_info option \<Rightarrow> header_map \<Rightarrow> unit stage" where
  "geo_stage w hot route h =
     (if geo_ok route h then go_on ()
      else finish_with 403 (error_response_with_pages 403 (wd_request_id w) (hs_error_pages hot)))"

text \<open>The cache plan: the key to use, when the route, the request and the method allow caching.\<close>

definition cache_enabled_for :: "auth_plan \<Rightarrow> route_info option \<Rightarrow> request \<Rightarrow> bool" where
  "cache_enabled_for plan route rq \<longleftrightarrow>
     ap_public plan \<and> is_shared_cache_request (rq_headers rq) \<and>
     (case Option.bind route ri_cache of Some c \<Rightarrow> cc_enabled c | None \<Rightarrow> False)"

definition cache_method_ok :: "route_info option \<Rightarrow> request \<Rightarrow> bool" where
  "cache_method_ok route rq \<longleftrightarrow>
     (case Option.bind route ri_cache of
        Some c \<Rightarrow> list_ex (\<lambda>m. eq_ignore_case m (rq_method rq)) (cc_methods c) | None \<Rightarrow> False)"

definition cache_key_of :: "route_info option \<Rightarrow> request \<Rightarrow> string \<Rightarrow> string" where
  "cache_key_of route rq host =
     cache_key (rq_method rq) host (rq_path rq) (rq_query rq)
       (case Option.bind route ri_cache of Some c \<Rightarrow> cc_ignore_query c | None \<Rightarrow> False)"

definition cached_response :: "world \<Rightarrow> cached_entry \<Rightarrow> http_response" where
  "cached_response w e =
     \<lparr> hr_status = (if 100 \<le> cd_status e \<and> cd_status e < 1000 then cd_status e else 200),
       hr_headers =
         map (\<lambda>(n, v). (to_lower n, HText v))
           (filter (\<lambda>(n, v). name_ok (wd_web w) n \<and> value_ok (wd_web w) v) (cd_headers e))
         @ [(''x-volta-cache'', HText ''HIT''), (''x-request-id'', HText (wd_request_id w))],
       hr_body = cd_body e \<rparr>"

definition cache_stage :: "world \<Rightarrow> auth_plan \<Rightarrow> route_info option \<Rightarrow> request \<Rightarrow> string \<Rightarrow> unit stage" where
  "cache_stage w plan route rq host st =
     (if cache_enabled_for plan route rq \<and> cache_method_ok route rq
      then (case cache_get (ps_cache (gs_service st)) (wd_now w) (cache_key_of route rq host) of
              (hit, c') \<Rightarrow>
                (let st' = st \<lparr> gs_service := gs_service st \<lparr> ps_cache := c' \<rparr> \<rparr>
                 in case hit of
                      Some e \<Rightarrow> finish (cached_response w e) st'
                    | None \<Rightarrow> go_on () st'))
      else go_on () st)"

definition breaker_stage :: "world \<Rightarrow> hot_state \<Rightarrow> string \<Rightarrow> unit stage" where
  "breaker_stage w hot backend st =
     (if is_available (ps_breaker (gs_service st)) (wd_now w) backend then go_on () st
      else (let resp = error_response_with_pages 503 (wd_request_id w) (hs_error_pages hot)
            in finish (resp \<lparr> hr_headers := h_insert (hr_headers resp) ''retry-after''
                         (HText (show_nat (cb_recovery_secs (ps_breaker (gs_service st))))) \<rparr>) st))"

section \<open>The request that goes out\<close>

definition HOP_BY_HOP :: "string list" where
  "HOP_BY_HOP = [''connection'', ''keep-alive'', ''proxy-authenticate'', ''proxy-authorization'', ''te'',
     ''trailer'', ''transfer-encoding'']"

definition CLIENT_IP_HEADERS :: "string list" where
  "CLIENT_IP_HEADERS = [''forwarded'', ''x-forwarded-for'', ''x-forwarded-host'', ''x-forwarded-proto'',
     ''x-real-ip'', ''cf-connecting-ip'']"

definition filter_request_headers ::
    "route_info option \<Rightarrow> string list \<Rightarrow> header_map \<Rightarrow> header_map" where
  "filter_request_headers route plugin_remove h =
     (let remove_headers =
            (case Option.bind route ri_request_headers of
               Some rh \<Rightarrow> map to_lower (hm_remove rh) | None \<Rightarrow> []);
          plugin_remove_headers = map to_lower plugin_remove
      in filter (\<lambda>(name, _).
            name \<noteq> ''host'' \<and> \<not> is_volta name \<and> name \<notin> set HOP_BY_HOP \<and>
            name \<notin> set CLIENT_IP_HEADERS \<and> name \<notin> set remove_headers \<and>
            name \<notin> set plugin_remove_headers) h)"

definition xff_of :: "world \<Rightarrow> hot_state \<Rightarrow> ip_addr \<Rightarrow> ip_addr \<Rightarrow> header_map \<Rightarrow> string" where
  "xff_of w hot remote ip h =
     (let client_ip = wd_show_ip w ip
      in if from_trusted hot remote
         then (case h_str h ''x-forwarded-for'' of
                 Some existing \<Rightarrow> existing @ '', '' @ client_ip | None \<Rightarrow> client_ip)
         else client_ip)"

definition not_volta :: "(string \<times> string) list \<Rightarrow> (string \<times> string) list" where
  "not_volta hs = filter (\<lambda>(k, v). \<not> is_volta (to_lower k)) hs"

definition header_or_empty :: "volta_headers \<Rightarrow> string \<Rightarrow> string" where
  "header_or_empty h k = unwrap_or [] (map_of h k)"

definition sign_request ::
    "world \<Rightarrow> nat \<Rightarrow> assertion_signer option \<Rightarrow> string \<Rightarrow> string \<Rightarrow> volta_headers \<Rightarrow> (string \<times> string) list" where
  "sign_request w unix signer method pq h =
     (case signer of
        None \<Rightarrow> []
      | Some s \<Rightarrow>
          assertion_headers
            (sign_now (pw_mac (wd_plugin w)) unix s method pq (header_or_empty h ''x-volta-user-id'')
               (header_or_empty h ''x-volta-tenant-id'') (header_or_empty h ''x-volta-roles'')))"

record forward_plan =
  fp_backend :: string
  fp_path_and_query :: string
  fp_headers :: header_map
  fp_volta :: volta_headers
  fp_plugin_add :: "(string \<times> string) list"
  fp_client_ip :: string
  fp_xff :: string
  fp_host :: string
  fp_proto :: string

definition gateway_headers :: "world \<Rightarrow> forward_plan \<Rightarrow> (string \<times> string) list" where
  "gateway_headers w fp =
     [(''X-Request-Id'', wd_request_id w), (''X-Real-IP'', fp_client_ip fp), (''X-Forwarded-For'', fp_xff fp),
      (''X-Forwarded-Host'', fp_host fp), (''X-Forwarded-Proto'', fp_proto fp)]"

definition route_added :: "route_info option \<Rightarrow> (string \<times> string) list" where
  "route_added route =
     (case Option.bind route ri_request_headers of Some rh \<Rightarrow> not_volta (hm_add rh) | None \<Rightarrow> [])"

definition backend_request ::
    "world \<Rightarrow> request \<Rightarrow> route_info option \<Rightarrow> assertion_signer option \<Rightarrow> forward_plan \<Rightarrow> http_request option" where
  "backend_request w rq route signer fp =
     map_option (\<lambda>hs. \<lparr> hq_method = rq_method rq,
           hq_uri = parse_uri (wd_web w) (fp_backend fp @ fp_path_and_query fp),
           hq_headers = fp_headers fp @ hs \<rparr>)
       (build_headers (wd_web w)
          (fp_volta fp @ not_volta (fp_plugin_add fp) @ gateway_headers w fp
           @ [(''traceparent'', traceparent_of w (rq_headers rq))] @ route_added route
           @ sign_request w (pw_unix_now (wd_plugin w)) signer (rq_method rq) (fp_path_and_query fp) (fp_volta fp)))"

definition retry_request ::
    "world \<Rightarrow> request \<Rightarrow> assertion_signer option \<Rightarrow> forward_plan \<Rightarrow> http_request option" where
  "retry_request w rq signer fp =
     map_option (\<lambda>hs. \<lparr> hq_method = rq_method rq,
           hq_uri = parse_uri (wd_web w) (fp_backend fp @ fp_path_and_query fp),
           hq_headers = fp_headers fp @ hs \<rparr>)
       (build_headers (wd_web w)
          (fp_volta fp @ not_volta (fp_plugin_add fp) @ gateway_headers w fp
           @ sign_request w (wd_retry_unix w) signer (rq_method rq) (fp_path_and_query fp) (fp_volta fp)))"

definition is_idempotent :: "string \<Rightarrow> bool" where
  "is_idempotent method \<longleftrightarrow> method \<in> set [''GET'', ''HEAD'', ''OPTIONS'']"

section \<open>Forwarding\<close>

definition breaker_event :: "(circuit_breaker \<Rightarrow> circuit_breaker) \<Rightarrow> gw_state \<Rightarrow> gw_state" where
  "breaker_event f st = st \<lparr> gs_service := gs_service st \<lparr> ps_breaker := f (ps_breaker (gs_service st)) \<rparr> \<rparr>"

text \<open>The first attempt and, for an idempotent method whose connection failed, the retry.\<close>

definition attempt ::
    "world \<Rightarrow> request \<Rightarrow> assertion_signer option \<Rightarrow> forward_plan \<Rightarrow> http_request \<Rightarrow> nat \<Rightarrow> gw_state \<Rightarrow>
     (exchange \<times> gw_state) option" where
  "attempt w rq signer fp req timeout_secs st =
     (let st1 = effect_of (EBackend req (rq_body rq) timeout_secs) st
      in case wd_backend w req (rq_body rq) timeout_secs of
           SendError e \<Rightarrow>
             (if is_idempotent (rq_method rq)
              then (let st2 = breaker_event (\<lambda>cb. record_failure cb (wd_done w) (fp_backend fp)) st1
                    in case retry_request w rq signer fp of
                         None \<Rightarrow> None
                       | Some req' \<Rightarrow> Some (wd_retry w req', effect_of (ERetry req') st2))
              else Some (SendError e, st1))
         | other \<Rightarrow> Some (other, st1))"

definition forward_stage ::
    "world \<Rightarrow> hot_state \<Rightarrow> request \<Rightarrow> route_info option \<Rightarrow> forward_plan \<Rightarrow> http_response stage" where
  "forward_stage w hot rq route fp st =
     (let signer = ps_signer (gs_service st);
          bad_gateway = error_response_with_pages 502 (wd_request_id w) (hs_error_pages hot)
      in case backend_request w rq route signer fp of
           None \<Rightarrow> finish_with 502 bad_gateway st
         | Some req \<Rightarrow>
             (case attempt w rq signer fp req
                     (unwrap_or 30 (Option.bind route ri_timeout_secs)) st of
                None \<Rightarrow> None
              | Some (Answer resp, st') \<Rightarrow>
                  go_on resp (breaker_event (\<lambda>cb. record_success cb (fp_backend fp)) st')
              | Some (SendError e, st') \<Rightarrow>
                  finish_with 502 bad_gateway
                    (breaker_event (\<lambda>cb. record_failure cb (wd_done w) (fp_backend fp)) st')
              | Some (TimedOut, st') \<Rightarrow>
                  finish_with 504 (error_response_with_pages 504 (wd_request_id w) (hs_error_pages hot))
                    (breaker_event (\<lambda>cb. record_failure cb (wd_done w) (fp_backend fp)) st')))"

section \<open>The response that goes back\<close>

definition strip_volta :: "header_map \<Rightarrow> header_map" where
  "strip_volta h = filter (\<lambda>(n, v). \<not> is_volta n) h"

definition cors_headers :: "string \<Rightarrow> header_map \<Rightarrow> header_map" where
  "cors_headers cors_origin h =
     (if cors_origin = [] then h
      else (let h1 = h_insert h ''access-control-allow-origin'' (HText cors_origin);
                h2 = h_insert h1 ''access-control-allow-methods'' (HText ''GET, POST, PUT, PATCH, DELETE, OPTIONS'');
                h3 = h_insert h2 ''access-control-allow-headers'' (HText ''Content-Type, Authorization, X-CSRF-Token'')
            in if cors_origin \<noteq> ''*'' then h_insert h3 ''vary'' (HText ''Origin'') else h3))"

definition remove_names :: "web \<Rightarrow> string list \<Rightarrow> header_map \<Rightarrow> header_map" where
  "remove_names wb names h = foldl (\<lambda>h n. if name_ok wb n then h_remove h n else h) h names"

definition insert_pairs :: "web \<Rightarrow> (string \<times> string) list \<Rightarrow> header_map \<Rightarrow> header_map" where
  "insert_pairs wb kvs h =
     foldl (\<lambda>h (n, v). if name_ok wb n \<and> value_ok wb v then h_insert h n (HText v) else h) h kvs"

definition has_frame_override :: "route_info option \<Rightarrow> bool" where
  "has_frame_override route \<longleftrightarrow>
     (case Option.bind route ri_response_headers of
        Some rh \<Rightarrow> map_of (hm_add rh) ''x-frame-options'' \<noteq> None \<or>
                   map_of (hm_add rh) ''content-security-policy'' \<noteq> None
      | None \<Rightarrow> False)"

definition response_headers_of ::
    "world \<Rightarrow> hot_state \<Rightarrow> request \<Rightarrow> string \<Rightarrow> route_info option \<Rightarrow> header_map \<Rightarrow> header_map" where
  "response_headers_of w hot rq host route h =
     (let h1 = h_insert (strip_volta h) ''x-request-id'' (HText (wd_request_id w));
          h2 = h_insert h1 ''traceparent'' (HText (traceparent_of w (rq_headers rq)));
          h3 = cors_headers (cors_origin_for (hs_cors hot) host (h_str (rq_headers rq) ''origin'')) h2;
          h4 = h_insert h3 ''strict-transport-security'' (HText ''max-age=31536000; includeSubDomains'');
          h5 = h_insert h4 ''x-content-type-options'' (HText ''nosniff'');
          h6 = (if has_frame_override route then h5 else h_insert h5 ''x-frame-options'' (HText ''DENY''))
      in case Option.bind route ri_response_headers of
           None \<Rightarrow> h6
         | Some rh \<Rightarrow> insert_pairs (wd_web w) (hm_add rh) (remove_names (wd_web w) (hm_remove rh) h6))"

definition mirror_request ::
    "world \<Rightarrow> request \<Rightarrow> mirror_config \<Rightarrow> forward_plan \<Rightarrow> http_request" where
  "mirror_request w rq mc fp =
     \<lparr> hq_method = rq_method rq,
       hq_uri = parse_uri (wd_web w) (mc_backend mc @ fp_path_and_query fp),
       hq_headers =
         [(''x-volta-mirror'', HText ''true''), (''x-request-id'', HText (wd_request_id w))]
         @ filter (\<lambda>(k, v). \<not> is_volta k \<and> k \<noteq> ''cookie'' \<and> k \<noteq> ''authorization'') (fp_headers fp) \<rparr>"

definition mirror_stage ::
    "world \<Rightarrow> request \<Rightarrow> route_info option \<Rightarrow> forward_plan \<Rightarrow> gw_state \<Rightarrow> gw_state" where
  "mirror_stage w rq route fp st =
     (case Option.bind route ri_mirror of
        None \<Rightarrow> st
      | Some mc \<Rightarrow>
          (if 1 \<le> mc_sample_rate mc \<or> wd_mirror_sample w < mc_sample_rate mc
           then effect_of (EMirror (mirror_request w rq mc fp)) st else st))"

definition header_texts :: "header_map \<Rightarrow> (string \<times> string) list" where
  "header_texts h = List.map_filter (\<lambda>(k, v). map_option (\<lambda>t. (k, t)) (hv_str v)) h"

definition plugin_response_stage ::
    "world \<Rightarrow> request \<Rightarrow> string \<Rightarrow> ip_addr \<Rightarrow> loaded_plugin list \<Rightarrow> header_map \<Rightarrow> header_map" where
  "plugin_response_stage w rq host ip plugins h =
     (let ctx = run_response plugins
            \<lparr> px_method = rq_method rq, px_host = host, px_path = rq_path rq,
              px_headers = collect_map (header_texts h), px_client_ip = wd_show_ip w ip,
              px_reject = None, px_add_headers = [], px_remove_headers = [] \<rparr>
      in insert_pairs (wd_web w) (px_add_headers ctx)
           (remove_names (wd_web w) (px_remove_headers ctx) h))"

section \<open>Caching and compressing the body\<close>

definition gzip_headers :: "header_map \<Rightarrow> nat \<Rightarrow> header_map" where
  "gzip_headers h len =
     filter (\<lambda>(n, v). n \<notin> set [''content-length'', ''content-encoding'', ''transfer-encoding'']) h
     @ [(''content-encoding'', HText ''gzip''), (''content-length'', HText (show_nat len))]"

definition wants_gzip :: "request \<Rightarrow> header_map \<Rightarrow> bool" where
  "wants_gzip rq h \<longleftrightarrow>
     \<not> h_contains h ''content-encoding'' \<and>
     (case h_str h ''content-type'' of
        Some ct \<Rightarrow> starts_with ct ''text/'' \<or> contains_sub ct ''json'' \<or> contains_sub ct ''xml'' \<or>
                    contains_sub ct ''javascript''
      | None \<Rightarrow> False) \<and>
     contains_sub (unwrap_or [] (h_str (rq_headers rq) ''accept-encoding'')) ''gzip''"

definition MAX_BUFFERED :: nat where
  "MAX_BUFFERED = 1048576"

definition store_in_cache ::
    "world \<Rightarrow> route_info option \<Rightarrow> request \<Rightarrow> string \<Rightarrow> http_response \<Rightarrow> string \<Rightarrow> gw_state \<Rightarrow> gw_state" where
  "store_in_cache w route rq host resp body st =
     (let cfg = Option.bind route ri_cache
      in if is_response_cacheable (hr_headers resp) \<and>
            length body \<le> (case cfg of Some c \<Rightarrow> cc_max_body_size c | None \<Rightarrow> 10485760)
         then st \<lparr> gs_service := gs_service st \<lparr> ps_cache :=
                cache_put (ps_cache (gs_service st)) (wd_done w) (cache_key_of route rq host)
                  (hr_status resp) (header_texts (hr_headers resp)) body
                  (from_secs (case cfg of Some c \<Rightarrow> cc_ttl_secs c | None \<Rightarrow> 300)) \<rparr> \<rparr>
         else st)"

definition body_stage ::
    "world \<Rightarrow> hot_state \<Rightarrow> auth_plan \<Rightarrow> route_info option \<Rightarrow> request \<Rightarrow> string \<Rightarrow> http_response \<Rightarrow> unit stage" where
  "body_stage w hot plan route rq host resp st =
     (if \<not> wants_gzip rq (hr_headers resp) then finish resp st
      else if cache_enabled_for plan route rq \<and> cache_method_ok route rq \<and>
              200 \<le> hr_status resp \<and> hr_status resp < 300
        then (if (case Option.bind (h_str (hr_headers resp) ''content-length'') (parse_uint 64) of
                    Some len \<Rightarrow> MAX_BUFFERED < len | None \<Rightarrow> False)
              then finish resp st
              else (case wd_collect w (hr_body resp) of
                      None \<Rightarrow>
                        finish_with 502 (error_response_with_pages 502 (wd_request_id w) (hs_error_pages hot)) st
                    | Some body \<Rightarrow>
                        (if MAX_BUFFERED < length body then finish (resp \<lparr> hr_body := body \<rparr>) st
                         else (let st' = store_in_cache w route rq host resp body st
                               in case wd_gzip w body of
                                    Some z \<Rightarrow>
                                      (if length z < length body
                                       then finish (resp \<lparr> hr_headers := gzip_headers (hr_headers resp) (length z),
                                              hr_body := z \<rparr>) st'
                                       else finish (resp \<lparr> hr_body := body \<rparr>) st')
                                  | None \<Rightarrow> finish (resp \<lparr> hr_body := body \<rparr>) st'))))
      else (case wd_gzip_stream w (hr_body resp) of
              Some z \<Rightarrow>
                (if z \<noteq> []
                 then finish (resp \<lparr> hr_headers := gzip_headers (hr_headers resp) (length z), hr_body := z \<rparr>) st
                 else finish (resp \<lparr> hr_body := [] \<rparr>) st)
            | None \<Rightarrow> finish (resp \<lparr> hr_body := [] \<rparr>) st))"

section \<open>The whole handler\<close>

text \<open>From the backend's answer to the response, with the status recorded and the mirror sent.\<close>

definition answer_stage ::
    "world \<Rightarrow> hot_state \<Rightarrow> auth_plan \<Rightarrow> route_info option \<Rightarrow> request \<Rightarrow> string \<Rightarrow> ip_addr \<Rightarrow> forward_plan \<Rightarrow>
     http_response \<Rightarrow> unit stage" where
  "answer_stage w hot plan route rq host ip fp resp st =
     (let h = response_headers_of w hot rq host route (hr_headers resp);
          st1 = mirror_stage w rq route fp (effect_of (EMetric (hr_status resp)) st);
          h' = plugin_response_stage w rq host ip (ps_plugins (gs_service st1)) h
      in body_stage w hot plan route rq host (resp \<lparr> hr_headers := h' \<rparr>) st1)"

definition forward_plan_of ::
    "world \<Rightarrow> hot_state \<Rightarrow> request \<Rightarrow> string \<Rightarrow> ip_addr \<Rightarrow> ip_addr \<Rightarrow> route_info option \<Rightarrow> string \<Rightarrow>
     volta_headers \<Rightarrow> (string \<times> string) list \<times> string list \<Rightarrow> forward_plan" where
  "forward_plan_of w hot rq host remote ip route backend h plugin_headers =
     \<lparr> fp_backend = backend,
       fp_path_and_query = rewrite_path route (path_and_query rq),
       fp_headers = filter_request_headers route (snd plugin_headers) (rq_headers rq),
       fp_volta = h,
       fp_plugin_add = fst plugin_headers,
       fp_client_ip = wd_show_ip w ip,
       fp_xff = xff_of w hot remote ip (rq_headers rq),
       fp_host = host,
       fp_proto = proto_of rq \<rparr>"

text \<open>Everything after the identity is known: policy, plugins, cache, breaker, backend.\<close>

definition serve_stage ::
    "world \<Rightarrow> hot_state \<Rightarrow> request \<Rightarrow> string \<Rightarrow> ip_addr \<Rightarrow> ip_addr \<Rightarrow> route_info option \<Rightarrow> auth_plan \<Rightarrow>
     flow_run \<Rightarrow> string \<Rightarrow> volta_headers \<Rightarrow> unit stage" where
  "serve_stage w hot rq host remote ip route plan run backend h =
     sbind (role_stage w hot plan h) (\<lambda>_.
     sbind (resume_stage w hot run h) (\<lambda>_.
     sbind (plugin_stage w rq host ip h) (\<lambda>ph.
     sbind (geo_stage w hot route (rq_headers rq)) (\<lambda>_.
     sbind (cache_stage w plan route rq host) (\<lambda>_.
     sbind (breaker_stage w hot backend) (\<lambda>_.
     (let fp = forward_plan_of w hot rq host remote ip route backend h ph
      in sbind (forward_stage w hot rq route fp) (\<lambda>resp.
         answer_stage w hot plan route rq host ip fp resp))))))))"

definition handle_http :: "world \<Rightarrow> request \<Rightarrow> ip_addr \<Rightarrow> unit stage" where
  "handle_http w rq remote st =
     (let hot = ps_hot (gs_service st);
          ip = real_client_ip w hot remote (rq_headers rq);
          host = unwrap_or [] (extract_host (rq_headers rq));
          route = lookup_route (hs_routing hot) host;
          plan = auth_plan_for route (rq_path rq)
      in sbind (rate_limit_stage w ip) (\<lambda>_.
         sbind (preflight_stage w hot rq host) (\<lambda>_.
         sbind (start_stage w hot (request_data_of rq host ip)) (\<lambda>(run, rt).
         sbind (select_stage w host route rt) (\<lambda>selected.
         (let backend = unwrap_or selected (Option.bind (ap_bypass plan) bp_backend)
          in sbind (auth_stage w hot plan (auth_query_of w rq host ip (rt_app_id rt) (ap_min_role plan)))
               (\<lambda>h. serve_stage w hot rq host remote ip route plan run backend h)))))) st)"

end
