(* ===== verification/Proxy_Safety.thy ===== *)
theory Proxy_Safety
  imports Proxy_Service
begin

text \<open>
  What \<open>ProxyService::handle\<close> lets out. The stages of the handler are classified by what they may send
  (\<open>quiet\<close>) and by what they leave alone (\<open>kept\<close>); from these, \<open>handle_sends\<close> traces everything that
  goes to a backend back to the decisions the earlier stages took. The properties of the handler rest
  on it: authentication and roles, validation, identity headers, mirroring, retries, caching, and
  that every request is answered.
\<close>

section \<open>Composition of stages\<close>

lemma sbind_Some_iff:
  "sbind m f st = Some (r, st2) \<longleftrightarrow>
     (\<exists>resp. m st = Some (Inl resp, st2) \<and> r = Inl resp) \<or>
     (\<exists>a st1. m st = Some (Inr a, st1) \<and> f a st1 = Some (r, st2))"
  by (auto simp: sbind_def split: option.splits prod.splits sum.splits)

fun is_send :: "effect \<Rightarrow> bool" where
  "is_send (EBackend _ _ _) = True"
| "is_send (ERetry _) = True"
| "is_send (EMirror _) = True"
| "is_send (EUpgrade _) = True"
| "is_send _ = False"

text \<open>What has gone out to backends so far.\<close>

definition sends :: "gw_state \<Rightarrow> effect list" where
  "sends st = filter is_send (gs_effects st)"

lemma sends_effect [simp]: "sends (effect_of e st) = sends st @ (if is_send e then [e] else [])"
  by (simp add: sends_def effect_of_def)

lemma sends_update [simp]: "sends (st \<lparr> gs_service := s \<rparr>) = sends st"
  by (simp add: sends_def)

definition quiet :: "'a stage \<Rightarrow> bool" where
  "quiet m \<longleftrightarrow> (\<forall>st r st'. m st = Some (r, st') \<longrightarrow> sends st' = sends st)"

lemma quiet_sbind_sends:
  assumes "quiet m" and "sbind m f st = Some (r, st2)" and "sends st2 \<noteq> sends st"
  shows "\<exists>a st1. m st = Some (Inr a, st1) \<and> sends st1 = sends st \<and> f a st1 = Some (r, st2)"
  using assms by (auto simp: sbind_Some_iff quiet_def)

lemma quiet_go_on [simp]: "quiet (go_on a)"
  by (simp add: quiet_def go_on_def)

lemma quiet_finish [simp]: "quiet (finish resp)"
  by (simp add: quiet_def finish_def)

lemma quiet_finish_with [simp]: "quiet (finish_with s resp)"
  by (simp add: quiet_def finish_with_def)

lemmas stage_defs = go_on_def finish_def finish_with_def

lemma quiet_rate_limit [simp]: "quiet (rate_limit_stage w ip)"
  by (auto simp: quiet_def rate_limit_stage_def stage_defs Let_def split: prod.splits if_splits)

lemma quiet_preflight [simp]: "quiet (preflight_stage w hot rq host)"
  by (simp add: preflight_stage_def Let_def)

lemma quiet_start [simp]: "quiet (start_stage w hot rd)"
  by (auto simp: quiet_def start_stage_def stage_defs split: option.splits sum.splits if_splits)

lemma quiet_select [simp]: "quiet (select_stage w host route rt)"
  by (auto simp: quiet_def select_stage_def stage_defs split: option.splits)

lemma sends_call_auth: "call_auth w q d st = (r, st') \<Longrightarrow> sends st' = sends st"
  by (auto simp: call_auth_def split: prod.splits)

lemma quiet_auth [simp]: "quiet (auth_stage w hot plan q)"
  by (auto simp: quiet_def auth_stage_def stage_defs split: prod.splits auth_result.splits if_splits
      dest: sends_call_auth)

lemma quiet_role [simp]: "quiet (role_stage w hot plan h)"
  by (simp add: role_stage_def Let_def split: option.splits)

lemma quiet_resume [simp]: "quiet (resume_stage w hot run h)"
  by (simp add: resume_stage_def split: sum.splits)

lemma quiet_plugin [simp]: "quiet (plugin_stage w rq host ip h)"
  by (auto simp: quiet_def plugin_stage_def stage_defs Let_def split: prod.splits option.splits)

lemma quiet_geo [simp]: "quiet (geo_stage w hot route h)"
  by (simp add: geo_stage_def)

lemma quiet_cache [simp]: "quiet (cache_stage w plan route rq host)"
  by (auto simp: quiet_def cache_stage_def stage_defs Let_def split: prod.splits option.splits if_splits)

lemma quiet_breaker [simp]: "quiet (breaker_stage w hot backend)"
  by (auto simp: quiet_def breaker_stage_def stage_defs Let_def split: if_splits)

section \<open>What the stages leave alone\<close>

text \<open>The parts of the service that later stages read.\<close>

definition kept :: "gw_state \<Rightarrow> gw_state \<Rightarrow> bool" where
  "kept st st' \<longleftrightarrow>
     ps_hot (gs_service st') = ps_hot (gs_service st) \<and>
     ps_breaker (gs_service st') = ps_breaker (gs_service st) \<and>
     ps_signer (gs_service st') = ps_signer (gs_service st)"

lemma kept_refl [simp]: "kept st st"
  by (simp add: kept_def)

lemma kept_trans: "kept a b \<Longrightarrow> kept b c \<Longrightarrow> kept a c"
  by (simp add: kept_def)

lemma effect_of_service [simp]: "gs_service (effect_of e st) = gs_service st"
  by (simp add: effect_of_def)

lemma rate_limit_Inr:
  assumes "rate_limit_stage w ip st = Some (Inr u, st')"
  shows "fst (allow (ps_rate_limiter (gs_service st)) (wd_now w) ip) \<and> kept st st' \<and>
    ps_volta (gs_service st') = ps_volta (gs_service st) \<and> gs_effects st' = gs_effects st"
  using assms by (auto simp: rate_limit_stage_def stage_defs kept_def Let_def split: prod.splits if_splits)

lemma preflight_Inr: "preflight_stage w hot rq host st = Some (Inr u, st') \<Longrightarrow> st' = st"
  by (auto simp: preflight_stage_def stage_defs Let_def split: if_splits)

lemma start_Inr_stage:
  assumes "start_stage w hot rd st = Some (Inr (run, rt), st')"
  shows "st' = st \<and> en_start (wd_engine w) (hs_flow_def hot) (initial_ctx rd) = Some (Inr run) \<and>
    fst run \<noteq> Denied \<and> cx_route (snd run) = Some rt"
  using assms by (auto simp: start_stage_def stage_defs split: option.splits sum.splits if_splits)

lemma select_Inr:
  assumes "select_stage w host route rt st = Some (Inr b, st')"
  shows "kept st st' \<and> ps_volta (gs_service st') = ps_volta (gs_service st) \<and> gs_effects st' = gs_effects st \<and>
    (\<exists>sel'. select (ps_selector (gs_service st)) host (rt_backends rt)
      (case route of Some r \<Rightarrow> ri_weights r | None \<Rightarrow> []) (wd_pick w) = Some (b, sel'))"
  using assms by (auto simp: select_stage_def stage_defs kept_def split: option.splits)

lemma auth_Inr:
  assumes "auth_stage w hot plan q st = Some (Inr h, st')"
  shows "kept st st' \<and>
    (ap_skip plan \<and> h = [] \<or>
     \<not> ap_skip plan \<and> ap_soft plan \<and> h = [] \<or>
     \<not> ap_skip plan \<and>
       (\<exists>vc'. check_with_degraded_policy (wd_auth w) (ps_volta (gs_service st)) q
          (ap_soft plan \<or> ap_min_role plan = None) = (Authenticated h, vc')))"
  using assms
  by (auto simp: auth_stage_def call_auth_def stage_defs kept_def
      split: if_splits prod.splits auth_result.splits)

lemma role_Inr:
  assumes "role_stage w hot plan h st = Some (Inr u, st')"
  shows "st' = st \<and> (\<forall>m. ap_min_role plan = Some m \<longrightarrow>
      \<not> ap_public plan \<and> (ap_bypass plan \<noteq> None \<or> role_satisfied h m))"
  using assms by (auto simp: role_stage_def stage_defs Let_def split: option.splits if_splits)

lemma resume_Inr: "resume_stage w hot run h st = Some (Inr u, st') \<Longrightarrow> st' = st"
  by (auto simp: resume_stage_def stage_defs split: sum.splits)

lemma plugin_Inr:
  assumes "plugin_stage w rq host ip h st = Some (Inr ph, st')"
  shows "kept st st' \<and> gs_effects st' = gs_effects st \<and>
    (\<exists>ps' ctx. run_request (wd_plugin w) (ps_plugins (gs_service st))
       \<lparr> px_method = rq_method rq, px_host = host, px_path = rq_path rq,
         px_headers = plugin_headers_of (rq_headers rq) h, px_client_ip = wd_show_ip w ip,
         px_reject = None, px_add_headers = [], px_remove_headers = [] \<rparr> = (None, ps', ctx) \<and>
       ph = (px_add_headers ctx, px_remove_headers ctx))"
  using assms by (auto simp: plugin_stage_def stage_defs kept_def Let_def split: prod.splits option.splits)

lemma geo_Inr: "geo_stage w hot route h st = Some (Inr u, st') \<Longrightarrow> st' = st \<and> geo_ok route h"
  by (auto simp: geo_stage_def stage_defs split: if_splits)

lemma cache_Inr: "cache_stage w plan route rq host st = Some (Inr u, st') \<Longrightarrow> kept st st' \<and> gs_effects st' = gs_effects st"
  by (auto simp: cache_stage_def stage_defs kept_def Let_def split: prod.splits option.splits if_splits)

lemma breaker_Inr:
  "breaker_stage w hot b st = Some (Inr u, st') \<Longrightarrow> st' = st \<and> is_available (ps_breaker (gs_service st)) (wd_now w) b"
  by (auto simp: breaker_stage_def stage_defs Let_def split: if_splits)


section \<open>What can go out\<close>

lemma sends_breaker_event [simp]: "sends (breaker_event f st) = sends st"
  by (simp add: breaker_event_def)

definition first_send :: "world \<Rightarrow> request \<Rightarrow> route_info option \<Rightarrow> assertion_signer option \<Rightarrow> forward_plan \<Rightarrow> effect \<Rightarrow> bool" where
  "first_send w rq route signer fp e \<longleftrightarrow>
     (\<exists>req. backend_request w rq route signer fp = Some req \<and>
        e = EBackend req (rq_body rq) (unwrap_or 30 (Option.bind route ri_timeout_secs)))"

definition retry_send :: "world \<Rightarrow> request \<Rightarrow> assertion_signer option \<Rightarrow> forward_plan \<Rightarrow> effect \<Rightarrow> bool" where
  "retry_send w rq signer fp e \<longleftrightarrow>
     is_idempotent (rq_method rq) \<and> (\<exists>req. retry_request w rq signer fp = Some req \<and> e = ERetry req)"

definition mirror_send :: "world \<Rightarrow> request \<Rightarrow> route_info option \<Rightarrow> forward_plan \<Rightarrow> effect \<Rightarrow> bool" where
  "mirror_send w rq route fp e \<longleftrightarrow>
     (\<exists>mc. Option.bind route ri_mirror = Some mc \<and> e = EMirror (mirror_request w rq mc fp))"

fun refused :: "world \<Rightarrow> effect \<Rightarrow> bool" where
  "refused w (EBackend req body t) = (case wd_backend w req body t of SendError _ \<Rightarrow> True | _ \<Rightarrow> False)"
| "refused w _ = False"

lemma attempt_sends:
  assumes "attempt w rq signer fp req t st = Some (x, st')"
  shows "sends st' = sends st @ [EBackend req (rq_body rq) t] \<or>
    (\<exists>e. retry_send w rq signer fp e \<and> sends st' = sends st @ [EBackend req (rq_body rq) t, e] \<and>
       refused w (EBackend req (rq_body rq) t))"
  using assms
  by (auto simp: attempt_def retry_send_def Let_def split: exchange.splits if_splits option.splits)

lemma forward_sends:
  assumes "forward_stage w hot rq route fp st = Some (r, st')"
  shows "sends st' = sends st \<or>
    (\<exists>e. first_send w rq route (ps_signer (gs_service st)) fp e \<and>
       (sends st' = sends st @ [e] \<or>
        (\<exists>e'. retry_send w rq (ps_signer (gs_service st)) fp e' \<and> refused w e \<and> sends st' = sends st @ [e, e'])))"
proof (cases "backend_request w rq route (ps_signer (gs_service st)) fp")
  case None
  with assms show ?thesis by (auto simp: forward_stage_def stage_defs Let_def)
next
  case (Some req)
  let ?t = "unwrap_or 30 (Option.bind route ri_timeout_secs)"
  from assms Some obtain x st1 where a: "attempt w rq (ps_signer (gs_service st)) fp req ?t st = Some (x, st1)"
      "sends st' = sends st1"
    by (auto simp: forward_stage_def stage_defs Let_def split: option.splits exchange.splits)
  from attempt_sends [OF a(1)] a(2) Some show ?thesis
    unfolding first_send_def by (metis (no_types, lifting))
qed

lemma forward_Inr_sent:
  assumes "forward_stage w hot rq route fp st = Some (Inr resp, st')"
  shows "sends st' \<noteq> sends st"
proof (cases "backend_request w rq route (ps_signer (gs_service st)) fp")
  case None
  with assms show ?thesis by (auto simp: forward_stage_def stage_defs Let_def)
next
  case (Some req)
  with assms obtain x st1 where "attempt w rq (ps_signer (gs_service st)) fp req
        (unwrap_or 30 (Option.bind route ri_timeout_secs)) st = Some (x, st1)" "sends st' = sends st1"
    by (auto simp: forward_stage_def stage_defs Let_def split: option.splits exchange.splits)
  with attempt_sends show ?thesis by fastforce
qed

lemma sends_store [simp]: "sends (store_in_cache w route rq host resp body st) = sends st"
  by (simp add: store_in_cache_def Let_def)

lemma quiet_body: "quiet (body_stage w hot plan route rq host resp)"
  by (auto simp: quiet_def body_stage_def stage_defs Let_def split: if_splits option.splits)

lemma mirror_sends:
  "sends (mirror_stage w rq route fp st) = sends st \<or>
   (\<exists>e. mirror_send w rq route fp e \<and> sends (mirror_stage w rq route fp st) = sends st @ [e])"
  by (auto simp: mirror_stage_def mirror_send_def split: option.splits)

lemma answer_sends:
  assumes "answer_stage w hot plan route rq host ip fp resp st = Some (r, st')"
  shows "sends st' = sends st \<or> (\<exists>e. mirror_send w rq route fp e \<and> sends st' = sends st @ [e])"
proof -
  have "sends st' = sends (mirror_stage w rq route fp (effect_of (EMetric (hr_status resp)) st))"
    using assms quiet_body by (auto simp: answer_stage_def Let_def quiet_def)
  with mirror_sends [of w rq route fp "effect_of (EMetric (hr_status resp)) st"] show ?thesis by simp
qed

text \<open>
  Everything a request sends out, in order: the request to the backend, possibly its retry,
  possibly the mirrored copy.
\<close>

definition sends_for ::
    "world \<Rightarrow> request \<Rightarrow> route_info option \<Rightarrow> assertion_signer option \<Rightarrow> forward_plan \<Rightarrow> effect list \<Rightarrow> bool" where
  "sends_for w rq route signer fp es \<longleftrightarrow>
     (\<exists>e rs ms. es = e # rs @ ms \<and> first_send w rq route signer fp e \<and>
        length rs \<le> 1 \<and> length ms \<le> 1 \<and> (rs \<noteq> [] \<longrightarrow> refused w e) \<and>
        (\<forall>x \<in> set rs. retry_send w rq signer fp x) \<and> (\<forall>x \<in> set ms. mirror_send w rq route fp x))"

lemma forward_answer_sends:
  assumes "sbind (forward_stage w hot rq route fp) (\<lambda>resp. answer_stage w hot plan route rq host ip fp resp) st
      = Some (r, st')"
  shows "sends st' = sends st \<or>
    (\<exists>es. sends st' = sends st @ es \<and> sends_for w rq route (ps_signer (gs_service st)) fp es)"
proof -
  from assms obtain r1 st1 where f: "forward_stage w hot rq route fp st = Some (r1, st1)"
    and rest: "st' = st1 \<or> (\<exists>resp. r1 = Inr resp \<and> answer_stage w hot plan route rq host ip fp resp st1 = Some (r, st'))"
    by (auto simp: sbind_Some_iff)
  have fwd: "sends st1 = sends st \<or>
      (\<exists>e rs. sends st1 = sends st @ e # rs \<and> first_send w rq route (ps_signer (gs_service st)) fp e \<and>
        length rs \<le> 1 \<and> (rs \<noteq> [] \<longrightarrow> refused w e) \<and> (\<forall>x \<in> set rs. retry_send w rq (ps_signer (gs_service st)) fp x))"
    using forward_sends [OF f] by fastforce
  have ans: "\<exists>ms. sends st' = sends st1 @ ms \<and> length ms \<le> 1 \<and> (\<forall>x \<in> set ms. mirror_send w rq route fp x)"
    using rest answer_sends by fastforce
  have none: "st' = st1 \<or> sends st1 \<noteq> sends st"
    using rest f forward_Inr_sent by blast
  from fwd show ?thesis
  proof
    assume "sends st1 = sends st"
    with none show ?thesis by auto
  next
    assume "\<exists>e rs. sends st1 = sends st @ e # rs \<and> first_send w rq route (ps_signer (gs_service st)) fp e \<and>
        length rs \<le> 1 \<and> (rs \<noteq> [] \<longrightarrow> refused w e) \<and> (\<forall>x \<in> set rs. retry_send w rq (ps_signer (gs_service st)) fp x)"
    then obtain e rs where "sends st1 = sends st @ e # rs" "first_send w rq route (ps_signer (gs_service st)) fp e"
      "length rs \<le> 1" "rs \<noteq> [] \<longrightarrow> refused w e" "\<forall>x \<in> set rs. retry_send w rq (ps_signer (gs_service st)) fp x" by blast
    moreover obtain ms where "sends st' = sends st1 @ ms" "length ms \<le> 1"
      "\<forall>x \<in> set ms. mirror_send w rq route fp x" using ans by blast
    ultimately show ?thesis unfolding sends_for_def by (intro disjI2 exI [of _ "e # rs @ ms"]) auto
  qed
qed

text \<open>
  Serving a request whose identity is \<open>h\<close>: if anything goes out, then every policy stage let it pass.
\<close>

definition cleared ::
    "world \<Rightarrow> request \<Rightarrow> route_info option \<Rightarrow> auth_plan \<Rightarrow> string \<Rightarrow> volta_headers \<Rightarrow> gw_state \<Rightarrow> bool" where
  "cleared w rq route plan backend h st \<longleftrightarrow>
     (\<forall>m. ap_min_role plan = Some m \<longrightarrow> \<not> ap_public plan \<and> (ap_bypass plan \<noteq> None \<or> role_satisfied h m)) \<and>
     geo_ok route (rq_headers rq) \<and>
     is_available (ps_breaker (gs_service st)) (wd_now w) backend"

lemma serve_sends:
  assumes "serve_stage w hot rq host remote ip route plan run backend h st = Some (r, st')"
    and "sends st' \<noteq> sends st"
  shows "cleared w rq route plan backend h st \<and>
    (\<exists>ph es. sends st' = sends st @ es \<and>
       sends_for w rq route (ps_signer (gs_service st))
         (forward_plan_of w hot rq host remote ip route backend h ph) es)"
proof -
  let ?fp = "\<lambda>ph. forward_plan_of w hot rq host remote ip route backend h ph"
  from quiet_sbind_sends [OF quiet_role assms(1) [unfolded serve_stage_def] assms(2)]
  obtain u1 s1 where 1: "role_stage w hot plan h st = Some (Inr u1, s1)" "sends s1 = sends st"
    "sbind (resume_stage w hot run h) (\<lambda>_. sbind (plugin_stage w rq host ip h) (\<lambda>ph.
       sbind (geo_stage w hot route (rq_headers rq)) (\<lambda>_. sbind (cache_stage w plan route rq host) (\<lambda>_.
       sbind (breaker_stage w hot backend) (\<lambda>_. let fp = ?fp ph in sbind (forward_stage w hot rq route fp)
       (\<lambda>resp. answer_stage w hot plan route rq host ip fp resp)))))) s1 = Some (r, st')" by blast
  from quiet_sbind_sends [OF quiet_resume 1(3)] assms(2) 1(2)
  obtain u2 s2 where 2: "resume_stage w hot run h s1 = Some (Inr u2, s2)" "sends s2 = sends st"
    "sbind (plugin_stage w rq host ip h) (\<lambda>ph.
       sbind (geo_stage w hot route (rq_headers rq)) (\<lambda>_. sbind (cache_stage w plan route rq host) (\<lambda>_.
       sbind (breaker_stage w hot backend) (\<lambda>_. let fp = ?fp ph in sbind (forward_stage w hot rq route fp)
       (\<lambda>resp. answer_stage w hot plan route rq host ip fp resp))))) s2 = Some (r, st')" by auto
  from quiet_sbind_sends [OF quiet_plugin 2(3)] assms(2) 2(2)
  obtain ph s3 where 3: "plugin_stage w rq host ip h s2 = Some (Inr ph, s3)" "sends s3 = sends st"
    "sbind (geo_stage w hot route (rq_headers rq)) (\<lambda>_. sbind (cache_stage w plan route rq host) (\<lambda>_.
       sbind (breaker_stage w hot backend) (\<lambda>_. let fp = ?fp ph in sbind (forward_stage w hot rq route fp)
       (\<lambda>resp. answer_stage w hot plan route rq host ip fp resp)))) s3 = Some (r, st')" by auto
  from quiet_sbind_sends [OF quiet_geo 3(3)] assms(2) 3(2)
  obtain u4 s4 where 4: "geo_stage w hot route (rq_headers rq) s3 = Some (Inr u4, s4)" "sends s4 = sends st"
    "sbind (cache_stage w plan route rq host) (\<lambda>_.
       sbind (breaker_stage w hot backend) (\<lambda>_. let fp = ?fp ph in sbind (forward_stage w hot rq route fp)
       (\<lambda>resp. answer_stage w hot plan route rq host ip fp resp))) s4 = Some (r, st')" by auto
  from quiet_sbind_sends [OF quiet_cache 4(3)] assms(2) 4(2)
  obtain u5 s5 where 5: "cache_stage w plan route rq host s4 = Some (Inr u5, s5)" "sends s5 = sends st"
    "sbind (breaker_stage w hot backend) (\<lambda>_. let fp = ?fp ph in sbind (forward_stage w hot rq route fp)
       (\<lambda>resp. answer_stage w hot plan route rq host ip fp resp)) s5 = Some (r, st')" by auto
  from quiet_sbind_sends [OF quiet_breaker 5(3)] assms(2) 5(2)
  obtain u6 s6 where 6: "breaker_stage w hot backend s5 = Some (Inr u6, s6)" "sends s6 = sends st"
    "sbind (forward_stage w hot rq route (?fp ph))
       (\<lambda>resp. answer_stage w hot plan route rq host ip (?fp ph) resp) s6 = Some (r, st')"
    by (auto simp: Let_def)
  note role = role_Inr [OF 1(1)] and resume = resume_Inr [OF 2(1)] and plug = plugin_Inr [OF 3(1)]
    and geo = geo_Inr [OF 4(1)] and cache = cache_Inr [OF 5(1)] and brk = breaker_Inr [OF 6(1)]
  have k: "kept st s6" using role resume plug geo cache brk by (simp add: kept_def)
  have "is_available (ps_breaker (gs_service st)) (wd_now w) backend" using brk k by (simp add: kept_def)
  then have c: "cleared w rq route plan backend h st" using role geo by (simp add: cleared_def)
  have "ps_signer (gs_service s6) = ps_signer (gs_service st)" using k by (simp add: kept_def)
  with forward_answer_sends [OF 6(3)] assms(2) 6(2)
  obtain es where "sends st' = sends st @ es" "sends_for w rq route (ps_signer (gs_service st)) (?fp ph) es" by auto
  with c show ?thesis by blast
qed

section \<open>The whole request\<close>

lemma select_in_backends: "select sel host backends weights r = Some (b, sel') \<Longrightarrow> b \<in> set backends"
  using select_member [of backends sel host weights r] by (cases "backends = []") (auto simp: select_def)

text \<open>
  What the gateway has decided about a request before anything leaves for a backend: who the client
  is, that the rate limiter let it in, that the validator accepted it, which route and backend serve
  it, and which identity the auth server gave it.
\<close>

definition authorised ::
    "world \<Rightarrow> request \<Rightarrow> auth_plan \<Rightarrow> auth_query \<Rightarrow> auth_client \<Rightarrow> volta_headers \<Rightarrow> bool" where
  "authorised w rq plan q volta h \<longleftrightarrow>
     ap_skip plan \<and> h = [] \<or>
     \<not> ap_skip plan \<and> ap_soft plan \<and> h = [] \<or>
     \<not> ap_skip plan \<and>
       fst (check_with_degraded_policy (wd_auth w) volta q (ap_soft plan \<or> ap_min_role plan = None))
         = Authenticated h"

lemma handle_sends:
  assumes "handle_http w rq remote st = Some (r, st')" and "sends st' \<noteq> sends st"
    and hot: "hot = ps_hot (gs_service st)"
    and ip: "ip = real_client_ip w hot remote (rq_headers rq)"
    and host: "host = unwrap_or [] (extract_host (rq_headers rq))"
    and route: "route = lookup_route (hs_routing hot) host"
    and plan: "plan = auth_plan_for route (rq_path rq)"
  obtains run rt backend h ph es where
    "fst (allow (ps_rate_limiter (gs_service st)) (wd_now w) ip)"
    "en_start (wd_engine w) (hs_flow_def hot) (initial_ctx (request_data_of rq host ip)) = Some (Inr run)"
    "fst run \<noteq> Denied" "cx_route (snd run) = Some rt"
    "authorised w rq plan (auth_query_of w rq host ip (rt_app_id rt) (ap_min_role plan)) (ps_volta (gs_service st)) h"
    "cleared w rq route plan backend h st"
    "backend \<in> set (rt_backends rt) \<or> Option.bind (ap_bypass plan) bp_backend = Some backend"
    "sends st' = sends st @ es"
    "sends_for w rq route (ps_signer (gs_service st))
       (forward_plan_of w hot rq host remote ip route backend h ph) es"
proof -
  let ?rest = "\<lambda>run rt selected. let backend = unwrap_or selected (Option.bind (ap_bypass plan) bp_backend)
          in sbind (auth_stage w hot plan (auth_query_of w rq host ip (rt_app_id rt) (ap_min_role plan)))
               (\<lambda>h. serve_stage w hot rq host remote ip route plan run backend h)"
  have "sbind (rate_limit_stage w ip) (\<lambda>_. sbind (preflight_stage w hot rq host) (\<lambda>_.
         sbind (start_stage w hot (request_data_of rq host ip)) (\<lambda>(run, rt).
         sbind (select_stage w host route rt) (\<lambda>selected. ?rest run rt selected)))) st = Some (r, st')"
    using assms(1) unfolding handle_http_def Let_def hot ip host route plan by simp
  from quiet_sbind_sends [OF quiet_rate_limit this assms(2)] obtain s1 where
    1: "rate_limit_stage w ip st = Some (Inr (), s1)" "sends s1 = sends st"
       "sbind (preflight_stage w hot rq host) (\<lambda>_.
         sbind (start_stage w hot (request_data_of rq host ip)) (\<lambda>(run, rt).
         sbind (select_stage w host route rt) (\<lambda>selected. ?rest run rt selected))) s1 = Some (r, st')" by auto
  from quiet_sbind_sends [OF quiet_preflight 1(3)] assms(2) 1(2) obtain s2 where
    2: "preflight_stage w hot rq host s1 = Some (Inr (), s2)" "sends s2 = sends st"
       "sbind (start_stage w hot (request_data_of rq host ip)) (\<lambda>(run, rt).
         sbind (select_stage w host route rt) (\<lambda>selected. ?rest run rt selected)) s2 = Some (r, st')" by auto
  from quiet_sbind_sends [OF quiet_start 2(3)] assms(2) 2(2) obtain run rt s3 where
    3: "start_stage w hot (request_data_of rq host ip) s2 = Some (Inr (run, rt), s3)" "sends s3 = sends st"
       "sbind (select_stage w host route rt) (\<lambda>selected. ?rest run rt selected) s3 = Some (r, st')" by auto
  from quiet_sbind_sends [OF quiet_select 3(3)] assms(2) 3(2) obtain selected s4 where
    4: "select_stage w host route rt s3 = Some (Inr selected, s4)" "sends s4 = sends st"
       "?rest run rt selected s4 = Some (r, st')" by auto
  define backend where "backend = unwrap_or selected (Option.bind (ap_bypass plan) bp_backend)"
  from quiet_sbind_sends [OF quiet_auth] 4(3) assms(2) 4(2) obtain h s5 where
    5: "auth_stage w hot plan (auth_query_of w rq host ip (rt_app_id rt) (ap_min_role plan)) s4 = Some (Inr h, s5)"
       "sends s5 = sends st"
       "serve_stage w hot rq host remote ip route plan run backend h s5 = Some (r, st')"
    unfolding Let_def backend_def by (metis (no_types, lifting))
  note rl = rate_limit_Inr [OF 1(1)] and pf = preflight_Inr [OF 2(1)] and sta = start_Inr_stage [OF 3(1)]
    and sel = select_Inr [OF 4(1)] and au = auth_Inr [OF 5(1)]
  have volta: "ps_volta (gs_service s4) = ps_volta (gs_service st)" using rl pf sta sel by simp
  have k: "kept st s5" using rl pf sta sel au by (auto simp: kept_def)
  have auth: "authorised w rq plan (auth_query_of w rq host ip (rt_app_id rt) (ap_min_role plan))
      (ps_volta (gs_service st)) h"
    using au volta by (auto simp: authorised_def)
  have "backend \<in> set (rt_backends rt) \<or> Option.bind (ap_bypass plan) bp_backend = Some backend"
    using sel select_in_backends by (auto simp: backend_def unwrap_or_def split: option.splits)
  moreover from serve_sends [OF 5(3)] assms(2) 5(2) obtain ph es where
    "cleared w rq route plan backend h s5" "sends st' = sends st @ es"
    "sends_for w rq route (ps_signer (gs_service st)) (forward_plan_of w hot rq host remote ip route backend h ph) es"
    using k by (auto simp: kept_def)
  moreover have "cleared w rq route plan backend h s5 = cleared w rq route plan backend h st"
    using k by (simp add: cleared_def kept_def)
  ultimately show thesis using that rl sta auth by blast
qed


section \<open>What reaches a backend\<close>

text \<open>The request as the gateway reads it.\<close>

abbreviation client_of :: "world \<Rightarrow> request \<Rightarrow> ip_addr \<Rightarrow> gw_state \<Rightarrow> ip_addr" where
  "client_of w rq remote st \<equiv> real_client_ip w (ps_hot (gs_service st)) remote (rq_headers rq)"

abbreviation host_of :: "request \<Rightarrow> string" where
  "host_of rq \<equiv> unwrap_or [] (extract_host (rq_headers rq))"

abbreviation route_of :: "request \<Rightarrow> gw_state \<Rightarrow> route_info option" where
  "route_of rq st \<equiv> lookup_route (hs_routing (ps_hot (gs_service st))) (host_of rq)"

abbreviation plan_of :: "request \<Rightarrow> gw_state \<Rightarrow> auth_plan" where
  "plan_of rq st \<equiv> auth_plan_for (route_of rq st) (rq_path rq)"

text \<open>\<open>e\<close> leaves the gateway for a backend while the request is handled.\<close>

definition goes_out :: "world \<Rightarrow> request \<Rightarrow> ip_addr \<Rightarrow> gw_state \<Rightarrow> effect \<Rightarrow> bool" where
  "goes_out w rq remote st e \<longleftrightarrow>
     (\<exists>r st' es. handle_http w rq remote st = Some (r, st') \<and> sends st' = sends st @ es \<and> e \<in> set es)"

lemma goes_out_obtain:
  assumes "goes_out w rq remote st e"
  obtains run rt backend h ph es where
    "fst (allow (ps_rate_limiter (gs_service st)) (wd_now w) (client_of w rq remote st))"
    "en_start (wd_engine w) (hs_flow_def (ps_hot (gs_service st)))
       (initial_ctx (request_data_of rq (host_of rq) (client_of w rq remote st))) = Some (Inr run)"
    "cx_route (snd run) = Some rt"
    "authorised w rq (plan_of rq st)
       (auth_query_of w rq (host_of rq) (client_of w rq remote st) (rt_app_id rt) (ap_min_role (plan_of rq st)))
       (ps_volta (gs_service st)) h"
    "cleared w rq (route_of rq st) (plan_of rq st) backend h st"
    "backend \<in> set (rt_backends rt) \<or> Option.bind (ap_bypass (plan_of rq st)) bp_backend = Some backend"
    "sends_for w rq (route_of rq st) (ps_signer (gs_service st))
       (forward_plan_of w (ps_hot (gs_service st)) rq (host_of rq) remote (client_of w rq remote st)
          (route_of rq st) backend h ph) es"
    "e \<in> set es"
proof -
  from assms obtain r st' es where h: "handle_http w rq remote st = Some (r, st')" and s: "sends st' = sends st @ es"
    and e: "e \<in> set es" by (auto simp: goes_out_def)
  then have "sends st' \<noteq> sends st" by auto
  from handle_sends [OF h this refl refl refl refl refl] s e show thesis
    by (metis (no_types, lifting) same_append_eq that)
qed

text \<open>Evidence for an identity: the auth server vouched for this very request, or the fallback did.\<close>

definition evidence ::
    "world \<Rightarrow> request \<Rightarrow> ip_addr \<Rightarrow> gw_state \<Rightarrow> bool \<Rightarrow> volta_headers \<Rightarrow> bool" where
  "evidence w rq remote st fallback h \<longleftrightarrow>
     (\<exists>app. let q = auth_query_of w rq (host_of rq) (client_of w rq remote st) app (ap_min_role (plan_of rq st))
        in online_ok (wd_auth w) (ps_volta (gs_service st)) q h \<or>
           fallback \<and> degraded_ok (wd_auth w) (ps_volta (gs_service st)) q h)"

lemma authorised_evidence:
  assumes "authorised w rq (plan_of rq st)
       (auth_query_of w rq (host_of rq) (client_of w rq remote st) app (ap_min_role (plan_of rq st)))
       (ps_volta (gs_service st)) h"
    and "\<not> ap_skip (plan_of rq st)"
  shows "ap_soft (plan_of rq st) \<and> h = [] \<or>
    evidence w rq remote st (ap_soft (plan_of rq st) \<or> ap_min_role (plan_of rq st) = None) h"
proof (cases "ap_soft (plan_of rq st) \<and> h = []")
  case False
  let ?q = "auth_query_of w rq (host_of rq) (client_of w rq remote st) app (ap_min_role (plan_of rq st))"
  from False assms obtain vc' where "check_with_degraded_policy (wd_auth w) (ps_volta (gs_service st)) ?q
      (ap_soft (plan_of rq st) \<or> ap_min_role (plan_of rq st) = None) = (Authenticated h, vc')"
    unfolding authorised_def by (metis prod.collapse)
  from check_authenticated [OF this] show ?thesis unfolding evidence_def Let_def by blast
qed blast


lemma no_roles_denied: "\<not> role_satisfied [] m"
  by (auto simp: role_satisfied_def roles_of_def enforce_min_role_def Let_def split: if_splits)

text \<open>
  C2: a required role is enforced before anything leaves the gateway. When the route or the auth rule
  of the path asks for a role and no bypass path matches, a request that reaches a backend carries an
  identity with evidence whose roles satisfy the requirement under the default role hierarchy; the
  route is not public; and unless the route has soft authentication the evidence is the auth
  server's own answer, never the degraded fallback.
\<close>

theorem min_role_enforced:
  assumes "goes_out w rq remote st e"
    and "ap_min_role (plan_of rq st) = Some m" and "ap_bypass (plan_of rq st) = None"
  shows "\<not> ap_public (plan_of rq st) \<and>
    (\<exists>h. evidence w rq remote st (ap_soft (plan_of rq st)) h \<and>
       enforce_min_role default_policy (roles_of h) (to_upper (trim m)) = Allow)"
  using assms(1)
proof (rule goes_out_obtain)
  fix run rt backend h ph es
  assume au: "authorised w rq (plan_of rq st)
      (auth_query_of w rq (host_of rq) (client_of w rq remote st) (rt_app_id rt) (ap_min_role (plan_of rq st)))
      (ps_volta (gs_service st)) h"
    and cl: "cleared w rq (route_of rq st) (plan_of rq st) backend h st"
  from cl assms(2,3) have np: "\<not> ap_public (plan_of rq st)" and rs: "role_satisfied h m" by (auto simp: cleared_def)
  from rs have "h \<noteq> []" using no_roles_denied by blast
  moreover from this au have "\<not> ap_skip (plan_of rq st)" by (auto simp: authorised_def)
  ultimately have "evidence w rq remote st (ap_soft (plan_of rq st)) h"
    using authorised_evidence [OF au] assms(2) by simp
  with np rs show ?thesis by (auto simp: role_satisfied_def Let_def)
qed


section \<open>Identity headers\<close>

fun sent_headers :: "effect \<Rightarrow> header_map" where
  "sent_headers (EBackend req _ _) = hq_headers req"
| "sent_headers (ERetry req) = hq_headers req"
| "sent_headers (EMirror req) = hq_headers req"
| "sent_headers (EUpgrade req) = hq_headers req"
| "sent_headers _ = []"

definition as_sent :: "(string \<times> string) list \<Rightarrow> header_map" where
  "as_sent hs = map (\<lambda>(n, v). (to_lower n, HText v)) hs"

lemma build_headers_Some: "build_headers wb hs = Some h \<Longrightarrow> h = as_sent hs"
  by (auto simp: build_headers_def as_sent_def split: if_splits)

lemma as_sent_append [simp]: "as_sent (a @ b) = as_sent a @ as_sent b"
  by (simp add: as_sent_def)

lemma not_volta_as_sent: "(n, v) \<in> set (as_sent (not_volta hs)) \<Longrightarrow> \<not> is_volta n"
  by (auto simp: as_sent_def not_volta_def)

lemma gateway_headers_not_volta: "(n, v) \<in> set (as_sent (gateway_headers w fp)) \<Longrightarrow> \<not> is_volta n"
proof -
  have "list_all (\<lambda>n. \<not> is_volta (to_lower n))
      [''X-Request-Id'', ''X-Real-IP'', ''X-Forwarded-For'', ''X-Forwarded-Host'', ''X-Forwarded-Proto'']" by code_simp
  then show "(n, v) \<in> set (as_sent (gateway_headers w fp)) \<Longrightarrow> \<not> is_volta n"
    by (auto simp: as_sent_def gateway_headers_def)
qed

lemma as_sent_Cons [simp]: "as_sent ((n, v) # hs) = (to_lower n, HText v) # as_sent hs"
  by (simp add: as_sent_def)

lemma traceparent_not_volta: "\<not> is_volta (to_lower ''traceparent'')"
  by code_simp

lemma route_added_not_volta: "(n, v) \<in> set (as_sent (route_added route)) \<Longrightarrow> \<not> is_volta n"
  by (auto simp: route_added_def as_sent_def not_volta_def split: option.splits)

lemma client_headers_not_volta: "(n, v) \<in> set (filter_request_headers route rm h) \<Longrightarrow> \<not> is_volta n"
  by (auto simp: filter_request_headers_def Let_def)

lemmas not_identity = not_volta_as_sent gateway_headers_not_volta
  route_added_not_volta client_headers_not_volta

text \<open>The identity headers of what is sent to the backend that serves the request.\<close>

lemma backend_identity:
  assumes "first_send w rq route signer fp e \<or> retry_send w rq signer fp e"
    and "fp_headers fp = filter_request_headers route rm (rq_headers rq)"
  shows "\<exists>unix. \<forall>(n, v) \<in> set (sent_headers e). is_volta n \<longrightarrow>
    (n, v) \<in> set (as_sent (fp_volta fp)) \<or>
    (n, v) \<in> set (as_sent (sign_request w unix signer (rq_method rq) (fp_path_and_query fp) (fp_volta fp)))"
  using assms(1)
proof
  assume "first_send w rq route signer fp e"
  then obtain req b t where "e = EBackend req b t" "backend_request w rq route signer fp = Some req"
    by (auto simp: first_send_def)
  then show ?thesis using assms(2)
    by (intro exI [of _ "pw_unix_now (wd_plugin w)"])
      (auto simp: backend_request_def traceparent_not_volta dest!: build_headers_Some dest: not_identity)
next
  assume "retry_send w rq signer fp e"
  then obtain req where "e = ERetry req" "retry_request w rq signer fp = Some req"
    by (auto simp: retry_send_def)
  then show ?thesis using assms(2)
    by (intro exI [of _ "wd_retry_unix w"])
      (auto simp: retry_request_def dest!: build_headers_Some dest: not_identity)
qed

lemma mirror_headers:
  assumes "mirror_send w rq route fp e" and "(n, v) \<in> set (sent_headers e)"
  shows "n \<noteq> ''cookie'' \<and> n \<noteq> ''authorization'' \<and> (is_volta n \<longrightarrow> (n, v) = (''x-volta-mirror'', HText ''true''))"
proof -
  have "\<not> is_volta ''x-request-id''" by code_simp
  with assms show ?thesis by (auto simp: mirror_send_def mirror_request_def)
qed

lemma sends_for_cases:
  assumes "sends_for w rq route signer fp es" and "e \<in> set es"
  shows "first_send w rq route signer fp e \<or> retry_send w rq signer fp e \<or> mirror_send w rq route fp e"
  using assms by (auto simp: sends_for_def)

text \<open>What the gateway holds about the client when the request leaves: nothing, or proven identity.\<close>

definition known_identity :: "world \<Rightarrow> request \<Rightarrow> ip_addr \<Rightarrow> gw_state \<Rightarrow> volta_headers \<Rightarrow> bool" where
  "known_identity w rq remote st h \<longleftrightarrow>
     h = [] \<and> (ap_skip (plan_of rq st) \<or> ap_soft (plan_of rq st)) \<or>
     \<not> ap_skip (plan_of rq st) \<and>
       evidence w rq remote st (ap_soft (plan_of rq st) \<or> ap_min_role (plan_of rq st) = None) h"

lemma authorised_known:
  assumes "authorised w rq (plan_of rq st)
       (auth_query_of w rq (host_of rq) (client_of w rq remote st) app (ap_min_role (plan_of rq st)))
       (ps_volta (gs_service st)) h"
  shows "known_identity w rq remote st h"
  using authorised_evidence [OF assms] assms unfolding known_identity_def authorised_def by blast

text \<open>
  C3: a client cannot forge an identity. Every \<open>x-volta-*\<close> header of the request that reaches a
  backend, or of its retry, comes from one identity the gateway established itself, which is empty
  on public, bypassed and soft-authenticated requests without one and is otherwise proven by the auth
  server or the verified session, or belongs to the gateway's own signed assertion over exactly that
  identity, method and path. Whatever the client, a plugin or the route configuration puts under
  these names is gone.
\<close>

theorem identity_not_forged:
  assumes "goes_out w rq remote st e" and "\<And>req. e \<noteq> EMirror req"
  shows "\<exists>h unix. known_identity w rq remote st h \<and>
    (\<forall>(n, v) \<in> set (sent_headers e). is_volta n \<longrightarrow>
       (n, v) \<in> set (as_sent h) \<or>
       (n, v) \<in> set (as_sent (sign_request w unix (ps_signer (gs_service st)) (rq_method rq)
          (rewrite_path (route_of rq st) (path_and_query rq)) h)))"
  using assms(1)
proof (rule goes_out_obtain)
  fix run rt backend h ph es
  let ?fp = "forward_plan_of w (ps_hot (gs_service st)) rq (host_of rq) remote (client_of w rq remote st)
     (route_of rq st) backend h ph"
  assume au: "authorised w rq (plan_of rq st)
      (auth_query_of w rq (host_of rq) (client_of w rq remote st) (rt_app_id rt) (ap_min_role (plan_of rq st)))
      (ps_volta (gs_service st)) h"
    and sf: "sends_for w rq (route_of rq st) (ps_signer (gs_service st)) ?fp es" and e: "e \<in> set es"
  have "\<not> mirror_send w rq (route_of rq st) ?fp e" using assms(2) by (auto simp: mirror_send_def)
  with sends_for_cases [OF sf e] have "first_send w rq (route_of rq st) (ps_signer (gs_service st)) ?fp e \<or>
      retry_send w rq (ps_signer (gs_service st)) ?fp e" by blast
  from backend_identity [OF this, of "snd ph"] authorised_known [OF au] show ?thesis
    by (auto simp: forward_plan_of_def)
qed

text \<open>
  The mirror sees no credentials. The copy of a request sent to a mirror has no \<open>cookie\<close> and no
  \<open>authorization\<close> header and no identity header of any kind; the one \<open>x-volta-*\<close> header it carries is
  the gateway's marker.
\<close>

theorem mirror_carries_no_credentials:
  assumes "goes_out w rq remote st (EMirror req)" and "(n, v) \<in> set (hq_headers req)"
  shows "n \<noteq> ''cookie'' \<and> n \<noteq> ''authorization'' \<and> (is_volta n \<longrightarrow> n = ''x-volta-mirror'')"
  using assms(1)
proof (rule goes_out_obtain)
  fix run rt backend h ph es
  assume "sends_for w rq (route_of rq st) (ps_signer (gs_service st))
     (forward_plan_of w (ps_hot (gs_service st)) rq (host_of rq) remote (client_of w rq remote st)
     (route_of rq st) backend h ph) es" and "EMirror req \<in> set es"
  from sends_for_cases [OF this] show ?thesis
    using mirror_headers assms(2) by (fastforce simp: first_send_def retry_send_def)
qed

section \<open>Retries\<close>

text \<open>
  A request is sent at most twice. Handling a request adds nothing to what goes out, or one
  request to a backend, followed by at most one retry and at most one mirrored copy, in this order;
  there is a retry only when the connection of the first attempt failed and the method is \<open>GET\<close>,
  \<open>HEAD\<close> or \<open>OPTIONS\<close>, so an update is never executed twice.
\<close>

theorem at_most_one_retry:
  assumes "handle_http w rq remote st = Some (r, st')" and "sends st' \<noteq> sends st"
  shows "\<exists>req body t rs ms. sends st' = sends st @ EBackend req body t # map ERetry rs @ map EMirror ms \<and>
    length rs \<le> 1 \<and> length ms \<le> 1 \<and>
    (rs \<noteq> [] \<longrightarrow> rq_method rq \<in> {''GET'', ''HEAD'', ''OPTIONS''} \<and> (\<exists>m. wd_backend w req body t = SendError m))"
  using assms(1,2) refl refl refl refl refl
proof (rule handle_sends)
  fix run rt backend h ph es
  let ?fp = "forward_plan_of w (ps_hot (gs_service st)) rq (host_of rq) remote (client_of w rq remote st)
     (route_of rq st) backend h ph"
  assume s: "sends st' = sends st @ es"
    and "sends_for w rq (route_of rq st) (ps_signer (gs_service st)) ?fp es"
  then obtain e rs ms where e: "es = e # rs @ ms" "first_send w rq (route_of rq st) (ps_signer (gs_service st)) ?fp e"
    "length rs \<le> 1" "length ms \<le> 1" "rs \<noteq> [] \<longrightarrow> refused w e"
    and r: "\<forall>x \<in> set rs. retry_send w rq (ps_signer (gs_service st)) ?fp x"
    and m: "\<forall>x \<in> set ms. mirror_send w rq (route_of rq st) ?fp x" by (auto simp: sends_for_def)
  from e(2) obtain req t where req: "e = EBackend req (rq_body rq) t" by (auto simp: first_send_def)
  from r have "\<exists>rs'. rs = map ERetry rs'" by (auto simp: ex_map_conv retry_send_def)
  then obtain rs' where rs: "rs = map ERetry rs'" ..
  from m have "\<exists>ms'. ms = map EMirror ms'" by (auto simp: ex_map_conv mirror_send_def)
  then obtain ms' where ms: "ms = map EMirror ms'" ..
  have "rs' \<noteq> [] \<longrightarrow> rq_method rq \<in> {''GET'', ''HEAD'', ''OPTIONS''} \<and> (\<exists>m. wd_backend w req (rq_body rq) t = SendError m)"
    using r e(5) unfolding rs req
    by (cases rs') (auto simp: retry_send_def is_idempotent_def split: exchange.splits)
  with s e req rs ms show ?thesis by auto
qed

section \<open>Refusals\<close>

text \<open>
  A client over its limit gets the 429 answer and nothing else happens: no call to the auth
  server, no backend, no plugin; the only things that change are the limiter and the counted status.
\<close>

theorem rate_limited_answer:
  assumes "allow (ps_rate_limiter (gs_service st)) (wd_now w) (client_of w rq remote st) = (False, l)"
  shows "handle_http w rq remote st = Some (Inl (rate_limited_response (wd_request_id w)),
      st \<lparr> gs_service := gs_service st \<lparr> ps_rate_limiter := l \<rparr>, gs_effects := gs_effects st @ [EMetric 429] \<rparr>)"
  using assms by (simp add: handle_http_def Let_def sbind_def rate_limit_stage_def finish_with_def effect_of_def)

text \<open>The answer to a request the auth server did not accept.\<close>

fun refusal :: "string \<Rightarrow> (nat \<rightharpoonup> string) \<Rightarrow> auth_result \<Rightarrow> http_response option" where
  "refusal rid pages (Authenticated h) = None"
| "refusal rid pages (AuthRedirect location) = Some (redirect_response location rid)"
| "refusal rid pages AuthDenied = Some (error_response_with_pages 403 rid pages)"
| "refusal rid pages (AuthError m) = Some (error_response_with_pages 502 rid pages)"

lemma auth_stage_refusal:
  assumes "\<not> ap_skip plan" and "\<not> ap_soft plan"
    and "check_with_degraded_policy (wd_auth w) (ps_volta (gs_service st)) q (ap_min_role plan = None) = (res, vc')"
    and "refusal (wd_request_id w) (hs_error_pages hot) res = Some resp"
  shows "auth_stage w hot plan q st = Some (Inl resp,
     st \<lparr> gs_service := gs_service st \<lparr> ps_volta := vc' \<rparr>,
       gs_effects := gs_effects st @ [EAuth q (ap_min_role plan = None), EMetric (hr_status resp)] \<rparr>)"
proof -
  from assms show ?thesis
    by (cases res) (auto simp: auth_stage_def call_auth_def finish_with_def effect_of_def redirect_response_def
        error_response_with_pages_def split: option.splits)
qed

lemma select_stage_member:
  assumes "rt_backends rt \<noteq> []"
  shows "\<exists>b sel. select_stage w host route rt st =
     Some (Inr b, st \<lparr> gs_service := gs_service st \<lparr> ps_selector := sel \<rparr> \<rparr>)"
  using select_member [OF assms, of "ps_selector (gs_service st)" host
      "case route of Some r \<Rightarrow> ri_weights r | None \<Rightarrow> []" "wd_pick w"]
  by (auto simp: select_stage_def go_on_def)

lemma sbind_go: "m st = Some (Inr a, st1) \<Longrightarrow> sbind m f st = f a st1"
  by (simp add: sbind_def)


section \<open>Every request is answered\<close>

definition live :: "('a \<Rightarrow> bool) \<Rightarrow> 'a stage \<Rightarrow> bool" where
  "live Q m \<longleftrightarrow> (\<forall>st. \<exists>r st'. m st = Some (r, st') \<and> (\<forall>a. r = Inr a \<longrightarrow> Q a))"

lemma live_sbind:
  assumes "live Q m" and "\<And>a. Q a \<Longrightarrow> live R (f a)"
  shows "live R (sbind m f)"
  unfolding live_def
proof
  fix st
  from assms(1) obtain r st1 where m: "m st = Some (r, st1)" "\<forall>a. r = Inr a \<longrightarrow> Q a"
    unfolding live_def by blast
  show "\<exists>r st'. sbind m f st = Some (r, st') \<and> (\<forall>a. r = Inr a \<longrightarrow> R a)"
  proof (cases r)
    case (Inr a)
    with m assms(2) have "live R (f a)" by blast
    then obtain r' st2 where "f a st1 = Some (r', st2)" "\<forall>b. r' = Inr b \<longrightarrow> R b"
      unfolding live_def by blast
    with m Inr show ?thesis by (simp add: sbind_def)
  qed (use m in \<open>simp add: sbind_def\<close>)
qed

lemma live_finish [simp]: "live Q (finish resp)" "live Q (finish_with n resp)"
  by (auto simp: live_def finish_def finish_with_def)

lemma live_go_on [simp]: "live Q (go_on a) \<longleftrightarrow> Q a"
  by (simp add: live_def go_on_def)

lemma live_rate_limit: "live (\<lambda>_. True) (rate_limit_stage w ip)"
  by (auto simp: live_def rate_limit_stage_def stage_defs Let_def split: prod.splits)

lemma live_preflight: "live (\<lambda>_. True) (preflight_stage w hot rq host)"
  by (simp add: preflight_stage_def Let_def)

lemma live_start:
  assumes "runs_auto_chain (wd_engine w)" and "hs_flow_def hot = proxy_flow routing allowlist"
    and "validate_request routing allowlist rd \<noteq> None"
  shows "live (\<lambda>(run, rt). rt_backends rt \<noteq> []) (start_stage w hot rd)"
proof -
  have "auto_chain (hs_flow_def hot) (length (fd_transitions (hs_flow_def hot))) (Received, initial_ctx rd) \<noteq> None"
    unfolding assms(2) proxy_flow_chain using assms(3) by (auto split: option.splits sum.splits)
  then have "en_start (wd_engine w) (hs_flow_def hot) (initial_ctx rd) \<noteq> None"
    using spec [OF spec [OF assms(1) [unfolded runs_auto_chain_def], of "hs_flow_def hot"], of "initial_ctx rd"]
    by (auto split: option.splits)
  moreover have "rt_backends rt \<noteq> []"
    if "en_start (wd_engine w) (hs_flow_def hot) (initial_ctx rd) = Some (Inr run)" "cx_route (snd run) = Some rt" for run rt
    using start_Inr [OF assms(1), of routing allowlist rd "fst run" "snd run"] that assms(2)
    by (auto simp: resolve_route_def split: option.splits list.splits)
  ultimately show ?thesis
    by (auto simp: live_def start_stage_def stage_defs split: option.splits sum.splits)
qed

lemma live_select: "rt_backends rt \<noteq> [] \<Longrightarrow> live (\<lambda>_. True) (select_stage w host route rt)"
  using select_stage_member by (fastforce simp: live_def)

lemma live_auth: "live (\<lambda>_. True) (auth_stage w hot plan q)"
  by (auto simp: live_def auth_stage_def stage_defs split: prod.splits auth_result.splits)

lemma live_role: "live (\<lambda>_. True) (role_stage w hot plan h)"
  by (simp add: role_stage_def Let_def split: option.splits)

lemma live_resume: "live (\<lambda>_. True) (resume_stage w hot run h)"
  by (simp add: resume_stage_def split: sum.splits)

lemma live_plugin: "live (\<lambda>_. True) (plugin_stage w rq host ip h)"
  by (auto simp: live_def plugin_stage_def stage_defs Let_def split: prod.splits option.splits)

lemma live_geo: "live (\<lambda>_. True) (geo_stage w hot route h)"
  by (simp add: geo_stage_def)

lemma live_cache: "live (\<lambda>_. True) (cache_stage w plan route rq host)"
  by (auto simp: live_def cache_stage_def stage_defs Let_def split: prod.splits option.splits)

lemma live_breaker: "live (\<lambda>_. True) (breaker_stage w hot backend)"
  by (auto simp: live_def breaker_stage_def stage_defs Let_def)

text \<open>
  What the header crate accepts of the gateway's assertions: the key identifier, a decimal time stamp
  and a hexadecimal signature are valid header values at any time.
\<close>

definition signs_cleanly :: "world \<Rightarrow> bool" where
  "signs_cleanly w \<longleftrightarrow>
     (\<forall>unix signer method pq h. build_headers (wd_web w) (sign_request w unix signer method pq h) \<noteq> None)"

lemma build_headers_append:
  "build_headers wb (a @ b) \<noteq> None \<longleftrightarrow> build_headers wb a \<noteq> None \<and> build_headers wb b \<noteq> None"
  by (auto simp: build_headers_def)

lemma retry_builds:
  assumes "signs_cleanly w" and "backend_request w rq route signer fp \<noteq> None"
  shows "retry_request w rq signer fp \<noteq> None"
  using assms unfolding backend_request_def retry_request_def signs_cleanly_def
  by (simp only: option.map_disc_iff build_headers_append) blast

lemma live_forward:
  assumes "signs_cleanly w"
  shows "live (\<lambda>_. True) (forward_stage w hot rq route fp)"
proof -
  have "attempt w rq signer fp req t st \<noteq> None" if "backend_request w rq route signer fp \<noteq> None" for signer req t st
    using retry_builds [OF assms that] by (auto simp: attempt_def Let_def split: exchange.splits)
  then have "forward_stage w hot rq route fp st \<noteq> None" for st
    by (cases "backend_request w rq route (ps_signer (gs_service st)) fp")
      (auto simp: forward_stage_def stage_defs Let_def split: option.splits exchange.splits)
  then show ?thesis by (auto simp: live_def)
qed

lemma live_answer: "live (\<lambda>_. False) (answer_stage w hot plan route rq host ip fp resp)"
  by (auto simp: live_def answer_stage_def body_stage_def stage_defs Let_def split: option.splits)

lemma live_serve: "signs_cleanly w \<Longrightarrow> live (\<lambda>_. False) (serve_stage w hot rq host remote ip route plan run backend h)"
  unfolding serve_stage_def Let_def
  by (rule live_sbind [OF live_role], rule live_sbind [OF live_resume], rule live_sbind [OF live_plugin],
      rule live_sbind [OF live_geo], rule live_sbind [OF live_cache], rule live_sbind [OF live_breaker],
      rule live_sbind [OF live_forward], assumption, rule live_answer)


section \<open>A concrete gateway\<close>

definition reference_engine :: flow_engine where
  "reference_engine =
     \<lparr> en_start = (\<lambda>def ctx. map_option Inr (auto_chain def (length (fd_transitions def)) (Received, ctx))),
       en_resume = (\<lambda>def run ctx. Inr (Forwarded, ctx)) \<rparr>"

lemma reference_engine_runs: "runs_auto_chain reference_engine"
  by (auto simp: runs_auto_chain_def reference_engine_def split: option.splits)

definition demo_gateway :: "exchange \<Rightarrow> exchange \<Rightarrow> exchange \<Rightarrow> world" where
  "demo_gateway auth backend retry =
     \<lparr> wd_engine = reference_engine, wd_auth = demo_world auth, wd_plugin = demo_plugin_world,
       wd_parse_ip = (\<lambda>_. None), wd_show_ip = (\<lambda>_. ''192.0.2.7''), wd_request_id = ''r-1'',
       wd_traceparent = ''00-ab-cd-01'', wd_now = 0, wd_done = 1, wd_retry_unix = 1, wd_pick = 0,
       wd_mirror_sample = 0, wd_backend = (\<lambda>_ _ _. backend), wd_retry = (\<lambda>_. retry),
       wd_collect = Some, wd_gzip = (\<lambda>_. None), wd_gzip_stream = (\<lambda>_. None) \<rparr>"

definition demo_ri :: route_info where
  "demo_ri =
     \<lparr> ri_backends = [''http://b''], ri_weights = [], ri_app_id = None, ri_min_role = Some ''MEMBER'',
       ri_public = False, ri_soft_auth = False, ri_bypass_paths = [], ri_auth_rules = [],
       ri_mirror = Some \<lparr> mc_backend = ''http://m'', mc_sample_rate = 1 \<rparr>, ri_path_prefix = None,
       ri_strip_prefix = None, ri_add_prefix = None,
       ri_request_headers = Some \<lparr> hm_add = [(''X-Env'', ''prod'')], hm_remove = [] \<rparr>,
       ri_response_headers = None, ri_geo_allowlist = [], ri_geo_denylist = [], ri_timeout_secs = None,
       ri_cache = None, ri_backend_tls = None \<rparr>"

definition demo_rq :: request where
  "demo_rq =
     \<lparr> rq_method = ''GET'', rq_path = ''/a'', rq_query = None, rq_scheme = None,
       rq_headers = [(''host'', HText ''a.io''), (''cookie'', HText ''__volta_session=good''),
         (''x-volta-roles'', HText ''OWNER'')],
       rq_body = [] \<rparr>"

definition online_client :: auth_client where
  "online_client =
     \<lparr> vc_base_url = ''http://auth'', vc_verify_path = ''/auth/verify'', vc_session_verifier = None,
       vc_auth_public_url = None, vc_degraded_mode = False, vc_degraded_total = 0 \<rparr>"

definition demo_state :: "route_info \<Rightarrow> gw_state" where
  "demo_state ri =
     \<lparr> gs_service =
         \<lparr> ps_volta = online_client, ps_hot = new_full [''a.io'' \<mapsto> ri] Map.empty Map.empty Map.empty [],
           ps_rate_limiter = new_rate_limiter 0 9 9, ps_selector = new_selector,
           ps_breaker = new_circuit_breaker 5 30, ps_plugins = [], ps_cache = new_cache 9, ps_signer = None \<rparr>,
       gs_effects = [], gs_ws_connections = 0 \<rparr>"

definition auth_says :: "string \<Rightarrow> exchange" where
  "auth_says roles = Answer \<lparr> hr_status = 200,
     hr_headers = [(''x-volta-user-id'', HText ''u1''), (''x-volta-roles'', HText roles)], hr_body = [] \<rparr>"

definition ok_response :: exchange where
  "ok_response = Answer \<lparr> hr_status = 200, hr_headers = [(''x-volta-debug'', HText ''1'')], hr_body = ''hi'' \<rparr>"

lemma demo_limiter: "\<exists>l'. allow (new_rate_limiter 0 9 9) 0 ip = (True, l')"
  by (simp add: allow_def new_rate_limiter_def window_hit_def)

text \<open>The handler once the rate limiter and the validator have accepted the request.\<close>

definition after_start ::
    "world \<Rightarrow> request \<Rightarrow> ip_addr \<Rightarrow> flow_run \<Rightarrow> route_target \<Rightarrow> unit stage" where
  "after_start w rq remote run rt st =
     (let hot = ps_hot (gs_service st);
          ip = real_client_ip w hot remote (rq_headers rq);
          host = unwrap_or [] (extract_host (rq_headers rq));
          route = lookup_route (hs_routing hot) host;
          plan = auth_plan_for route (rq_path rq)
      in sbind (select_stage w host route rt) (\<lambda>selected.
         (let backend = unwrap_or selected (Option.bind (ap_bypass plan) bp_backend)
          in sbind (auth_stage w hot plan (auth_query_of w rq host ip (rt_app_id rt) (ap_min_role plan)))
               (\<lambda>h. serve_stage w hot rq host remote ip route plan run backend h))) st)"

lemma handle_after_start:
  assumes "allow (ps_rate_limiter (gs_service st)) (wd_now w)
      (real_client_ip w (ps_hot (gs_service st)) remote (rq_headers rq)) = (True, l)"
    and "ps_hot (gs_service st) = new_full routing allowlist pages cors trusted"
    and "host = unwrap_or [] (extract_host (rq_headers rq))" and "rq_method rq \<noteq> ''OPTIONS''"
    and "rd = request_data_of rq host (real_client_ip w (ps_hot (gs_service st)) remote (rq_headers rq))"
    and "validate_request routing allowlist rd = Some (Inr ())" and "resolve_route routing host = Inr rt"
    and "wd_engine w = reference_engine"
  shows "handle_http w rq remote st =
    after_start w rq remote (Routed, initial_ctx rd \<lparr> cx_route := Some rt \<rparr>) rt
      (st \<lparr> gs_service := gs_service st \<lparr> ps_rate_limiter := l \<rparr> \<rparr>)"
proof -
  have "rate_limit_stage w (real_client_ip w (ps_hot (gs_service st)) remote (rq_headers rq)) st =
      Some (Inr (), st \<lparr> gs_service := gs_service st \<lparr> ps_rate_limiter := l \<rparr> \<rparr>)"
    using assms(1) by (simp add: rate_limit_stage_def go_on_def)
  moreover have "preflight_stage w hot rq host = go_on ()" for hot
    using assms(4) by (simp add: preflight_stage_def)
  moreover have "start_stage w (ps_hot (gs_service st)) rd s =
      Some (Inr ((Routed, initial_ctx rd \<lparr> cx_route := Some rt \<rparr>), rt), s)" for s
    using assms(2,5-8) proxy_flow_chain [of routing allowlist rd]
    by (simp add: start_stage_def reference_engine_def new_full_def request_data_of_def go_on_def)
  ultimately show ?thesis
    using assms(3,5) by (simp add: handle_http_def after_start_def Let_def sbind_def go_on_def)
qed

definition demo_busy :: world where
  "demo_busy = demo_gateway (auth_says ''ADMIN'') (SendError []) ok_response"

definition demo_target :: route_target where
  "demo_target = \<lparr> rt_backend_url = ''http://b'', rt_backends = [''http://b''], rt_app_id = None \<rparr>"

end
