(* ===== verification/Proxy_Answers.thy ===== *)
theory Proxy_Answers
  imports Proxy_Safety
begin

text \<open>
  What the client of the gateway gets to see, and what the shared cache gets to keep, on the handler of
  \<open>Proxy_Service\<close>: stages that do not depend on the cache (\<open>indifferent\<close>), stages that end only in answers
  without identity headers of the backend (\<open>discreet\<close>).
\<close>

section \<open>Shared cache\<close>

definition set_cache :: "response_cache \<Rightarrow> gw_state \<Rightarrow> gw_state" where
  "set_cache c st = st \<lparr> gs_service := gs_service st \<lparr> ps_cache := c \<rparr> \<rparr>"

lemma set_cache_parts [simp]:
  "ps_volta (gs_service (set_cache c st)) = ps_volta (gs_service st)"
  "ps_hot (gs_service (set_cache c st)) = ps_hot (gs_service st)"
  "ps_rate_limiter (gs_service (set_cache c st)) = ps_rate_limiter (gs_service st)"
  "ps_selector (gs_service (set_cache c st)) = ps_selector (gs_service st)"
  "ps_breaker (gs_service (set_cache c st)) = ps_breaker (gs_service st)"
  "ps_plugins (gs_service (set_cache c st)) = ps_plugins (gs_service st)"
  "ps_signer (gs_service (set_cache c st)) = ps_signer (gs_service st)"
  "gs_effects (set_cache c st) = gs_effects st"
  by (simp_all add: set_cache_def)

lemma set_cache_service:
  "set_cache c st \<lparr> gs_service := gs_service (set_cache c st) \<lparr> ps_rate_limiter := l \<rparr> \<rparr> =
     set_cache c (st \<lparr> gs_service := gs_service st \<lparr> ps_rate_limiter := l \<rparr> \<rparr>)"
  "set_cache c st \<lparr> gs_service := gs_service (set_cache c st) \<lparr> ps_selector := s \<rparr> \<rparr> =
     set_cache c (st \<lparr> gs_service := gs_service st \<lparr> ps_selector := s \<rparr> \<rparr>)"
  "set_cache c st \<lparr> gs_service := gs_service (set_cache c st) \<lparr> ps_volta := v \<rparr> \<rparr> =
     set_cache c (st \<lparr> gs_service := gs_service st \<lparr> ps_volta := v \<rparr> \<rparr>)"
  "set_cache c st \<lparr> gs_service := gs_service (set_cache c st) \<lparr> ps_plugins := p \<rparr> \<rparr> =
     set_cache c (st \<lparr> gs_service := gs_service st \<lparr> ps_plugins := p \<rparr> \<rparr>)"
  "effect_of e (set_cache c st) = set_cache c (effect_of e st)"
  "breaker_event f (set_cache c st) = set_cache c (breaker_event f st)"
  by (simp_all add: set_cache_def effect_of_def breaker_event_def)

text \<open>A stage whose outcome and effects do not depend on the cache, and that leaves the cache as it is.\<close>

definition indifferent :: "'a stage \<Rightarrow> bool" where
  "indifferent m \<longleftrightarrow> (\<forall>c st. m (set_cache c st) = map_option (map_prod id (set_cache c)) (m st))"

lemma indifferent_sbind:
  assumes "indifferent m" and "\<And>a. indifferent (f a)"
  shows "indifferent (sbind m f)"
  unfolding indifferent_def
proof (intro allI)
  fix c st
  show "sbind m f (set_cache c st) = map_option (map_prod id (set_cache c)) (sbind m f st)"
    using assms unfolding indifferent_def
    by (auto simp: sbind_def split: option.splits sum.splits)
qed

lemma indifferent_finish [simp]: "indifferent (finish resp)" "indifferent (finish_with n resp)" "indifferent (go_on a)"
  by (simp_all add: indifferent_def stage_defs set_cache_service)

lemma indifferent_rate_limit: "indifferent (rate_limit_stage w ip)"
  by (auto simp: indifferent_def rate_limit_stage_def stage_defs Let_def set_cache_service split: prod.splits)

lemma indifferent_preflight: "indifferent (preflight_stage w hot rq host)"
  by (simp add: preflight_stage_def Let_def)

lemma indifferent_start: "indifferent (start_stage w hot rd)"
  by (auto simp: indifferent_def start_stage_def stage_defs set_cache_service split: option.splits sum.splits)

lemma indifferent_select: "indifferent (select_stage w host route rt)"
  by (auto simp: indifferent_def select_stage_def stage_defs set_cache_service split: option.splits)

lemma indifferent_auth: "indifferent (auth_stage w hot plan q)"
  by (auto simp: indifferent_def auth_stage_def call_auth_def stage_defs set_cache_service
      split: prod.splits auth_result.splits)

lemma indifferent_role: "indifferent (role_stage w hot plan h)"
  by (simp add: role_stage_def Let_def split: option.splits)

lemma indifferent_resume: "indifferent (resume_stage w hot run h)"
  by (simp add: resume_stage_def split: sum.splits)

lemma indifferent_plugin: "indifferent (plugin_stage w rq host ip h)"
  by (auto simp: indifferent_def plugin_stage_def stage_defs Let_def set_cache_service
      split: prod.splits option.splits)

lemma indifferent_geo: "indifferent (geo_stage w hot route h)"
  by (simp add: geo_stage_def)

lemma indifferent_cache: "\<not> cache_enabled_for plan route rq \<Longrightarrow> indifferent (cache_stage w plan route rq host)"
  by (auto simp: indifferent_def cache_stage_def stage_defs)

lemma indifferent_breaker: "indifferent (breaker_stage w hot backend)"
  by (auto simp: indifferent_def breaker_stage_def stage_defs Let_def)

lemma attempt_set_cache:
  "attempt w rq signer fp req t (set_cache c st) = map_option (map_prod id (set_cache c)) (attempt w rq signer fp req t st)"
  by (auto simp: attempt_def Let_def set_cache_service split: exchange.splits option.splits)

lemma indifferent_forward: "indifferent (forward_stage w hot rq route fp)"
  by (auto simp: indifferent_def forward_stage_def stage_defs Let_def attempt_set_cache set_cache_service
      split: option.splits exchange.splits)

lemma indifferent_answer:
  assumes "\<not> cache_enabled_for plan route rq"
  shows "indifferent (answer_stage w hot plan route rq host ip fp resp)"
proof -
  have m: "mirror_stage w rq route fp (set_cache c st) = set_cache c (mirror_stage w rq route fp st)" for c st
    by (auto simp: mirror_stage_def set_cache_service split: option.splits)
  show ?thesis
    using assms by (auto simp: indifferent_def answer_stage_def body_stage_def stage_defs Let_def m
        set_cache_service split: option.splits)
qed

lemma indifferent_serve:
  assumes "\<not> cache_enabled_for plan route rq"
  shows "indifferent (serve_stage w hot rq host remote ip route plan run backend h)"
  unfolding serve_stage_def Let_def
  by (intro indifferent_sbind indifferent_role indifferent_resume indifferent_plugin indifferent_geo
      indifferent_cache indifferent_breaker indifferent_forward indifferent_answer assms)

lemma private_request_indifferent:
  assumes "\<not> cache_enabled_for (plan_of rq st) (route_of rq st) rq"
  shows "handle_http w rq remote (set_cache c st) =
    map_option (map_prod id (set_cache c)) (handle_http w rq remote st)"
proof -
  let ?hot = "ps_hot (gs_service st)" and ?ip = "client_of w rq remote st"
  have "indifferent (sbind (rate_limit_stage w ?ip) (\<lambda>_. sbind (preflight_stage w ?hot rq (host_of rq)) (\<lambda>_.
     sbind (start_stage w ?hot (request_data_of rq (host_of rq) ?ip)) (\<lambda>(run, rt).
     sbind (select_stage w (host_of rq) (route_of rq st) rt) (\<lambda>selected.
     sbind (auth_stage w ?hot (plan_of rq st)
         (auth_query_of w rq (host_of rq) ?ip (rt_app_id rt) (ap_min_role (plan_of rq st))))
       (\<lambda>h. serve_stage w ?hot rq (host_of rq) remote ?ip (route_of rq st) (plan_of rq st) run
          (unwrap_or selected (Option.bind (ap_bypass (plan_of rq st)) bp_backend)) h))))))"
    by (intro indifferent_sbind indifferent_rate_limit indifferent_preflight indifferent_start
        indifferent_select indifferent_auth indifferent_serve assms | simp split: prod.split, intro allI impI)+
  then show ?thesis unfolding handle_http_def Let_def indifferent_def by simp
qed

text \<open>
  C6: the shared response cache never mixes with private traffic. A request to a route that is not
  public, that carries a cookie or an \<open>Authorization\<close> header, or whose route has no cache, is handled
  exactly as if the cache had any other contents, with the same response and the same effects, and it
  leaves the cache exactly as it was.
\<close>

theorem private_requests_avoid_cache:
  assumes "\<not> ap_public (plan_of rq st) \<or> h_contains (rq_headers rq) ''cookie'' \<or>
      h_contains (rq_headers rq) ''authorization'' \<or> Option.bind (route_of rq st) ri_cache = None"
  shows "handle_http w rq remote (set_cache c st) =
      map_option (map_prod id (set_cache c)) (handle_http w rq remote st)"
  by (rule private_request_indifferent)
    (use assms in \<open>auto simp: cache_enabled_for_def is_shared_cache_request_def\<close>)

theorem private_requests_avoid_cache_witness:
  "handle_http (demo_gateway (auth_says ''ADMIN'') ok_response ok_response) demo_rq (V4 1)
      (set_cache (new_cache 5) (demo_state demo_ri)) =
    map_option (map_prod id (set_cache (new_cache 5)))
      (handle_http (demo_gateway (auth_says ''ADMIN'') ok_response ok_response) demo_rq (V4 1) (demo_state demo_ri))"
proof (rule private_requests_avoid_cache)
  have "h_contains (rq_headers demo_rq) ''cookie''" by code_simp
  then show "\<not> ap_public (plan_of demo_rq (demo_state demo_ri)) \<or> h_contains (rq_headers demo_rq) ''cookie'' \<or>
      h_contains (rq_headers demo_rq) ''authorization'' \<or> Option.bind (route_of demo_rq (demo_state demo_ri)) ri_cache = None"
    by simp
qed


section \<open>What the client sees\<close>

text \<open>Header names the gateway uses in answers of its own; none is an identity header.\<close>

lemma own_names [simp]:
  "\<not> is_volta ''content-type''" "\<not> is_volta ''x-request-id''" "\<not> is_volta ''retry-after''"
  "\<not> is_volta ''location''" "\<not> is_volta ''access-control-allow-origin''"
  "\<not> is_volta ''access-control-allow-methods''" "\<not> is_volta ''access-control-allow-headers''"
  "\<not> is_volta ''access-control-max-age''" "\<not> is_volta ''vary''" "\<not> is_volta ''traceparent''"
  "\<not> is_volta ''strict-transport-security''" "\<not> is_volta ''x-content-type-options''"
  "\<not> is_volta ''x-frame-options''" "\<not> is_volta ''content-encoding''" "\<not> is_volta ''content-length''"
  by code_simp+

lemma own_names_lower [simp]:
  "to_lower ''x-request-id'' = ''x-request-id''" "to_lower ''retry-after'' = ''retry-after''"
  "to_lower ''access-control-allow-origin'' = ''access-control-allow-origin''"
  "to_lower ''access-control-allow-methods'' = ''access-control-allow-methods''"
  "to_lower ''access-control-allow-headers'' = ''access-control-allow-headers''"
  "to_lower ''vary'' = ''vary''" "to_lower ''traceparent'' = ''traceparent''"
  "to_lower ''strict-transport-security'' = ''strict-transport-security''"
  "to_lower ''x-content-type-options'' = ''x-content-type-options''"
  "to_lower ''x-frame-options'' = ''x-frame-options''"
  by code_simp+

text \<open>The pairs that header-injecting plugins add to responses.\<close>

definition injected :: "loaded_plugin list \<Rightarrow> (string \<times> string) set" where
  "injected ls = (\<Union>l \<in> set ls. case ld_plugin l of HeaderInjector req resp \<Rightarrow> set resp | _ \<Rightarrow> {})"

lemma injected_Cons: "injected (l # ls) = (case ld_plugin l of HeaderInjector req resp \<Rightarrow> set resp | _ \<Rightarrow> {}) \<union> injected ls"
  by (simp add: injected_def)

lemma on_request_injects:
  "on_request w p ctx = (r, p', ctx') \<Longrightarrow>
     (case p' of HeaderInjector req resp \<Rightarrow> set resp | _ \<Rightarrow> {}) = (case p of HeaderInjector req resp \<Rightarrow> set resp | _ \<Rightarrow> {})"
  by (cases p) (auto split: prod.splits)

lemma run_request_injects: "run_request w ls ctx = (r, ls', ctx') \<Longrightarrow> injected ls' = injected ls"
proof (induction ls arbitrary: ctx r ls' ctx')
  case (Cons l ls)
  then show ?case
    by (auto simp: injected_Cons Let_def on_request_injects split: if_splits prod.splits sum.splits option.splits)
qed simp

lemma add_headers_set: "set (px_add_headers (add_headers c hs)) \<subseteq> set (px_add_headers c) \<union> set hs"
proof (induction hs arbitrary: c)
  case (Cons a hs)
  have "set (px_add_headers (add_header c k v)) \<subseteq> set (px_add_headers c) \<union> {(k, v)}" for k v
    by (auto simp: add_header_def al_insert_def al_remove_def)
  with Cons [of "add_header c (fst a) (snd a)"] show ?case
    by (cases a) (fastforce simp: add_headers_def)
qed (simp add: add_headers_def)

lemma run_response_Cons:
  "run_response (l # ls) c = run_response ls (if runs_in ''response'' l then on_response (ld_plugin l) c else c)"
  by (simp add: run_response_def)

lemma on_response_adds:
  "set (px_add_headers (on_response p c)) \<subseteq> set (px_add_headers c) \<union>
      (case p of HeaderInjector req resp \<Rightarrow> set resp | _ \<Rightarrow> {})"
  using add_headers_set by (cases p) auto

lemma run_response_adds: "set (px_add_headers (run_response ls c)) \<subseteq> set (px_add_headers c) \<union> injected ls"
proof (induction ls arbitrary: c)
  case (Cons l ls)
  show ?case
    using Cons [of "if runs_in ''response'' l then on_response (ld_plugin l) c else c"]
      on_response_adds [of "ld_plugin l" c]
    unfolding run_response_Cons injected_Cons by (cases "runs_in ''response'' l") auto
qed (simp add: run_response_def)

lemma insert_pairs_Cons:
  "insert_pairs wb ((k, v) # kvs) h =
     insert_pairs wb kvs (if name_ok wb k \<and> value_ok wb v then h_insert h k (HText v) else h)"
  by (simp add: insert_pairs_def)

lemma insert_pairs_set: "set (insert_pairs wb kvs h) \<subseteq> set h \<union> set (as_sent kvs)"
proof (induction kvs arbitrary: h)
  case (Cons kv kvs)
  obtain k v where kv: "kv = (k, v)" by fastforce
  show ?case
    using Cons [of "if name_ok wb k \<and> value_ok wb v then h_insert h k (HText v) else h"]
    unfolding kv insert_pairs_Cons by (auto simp: set_h_insert split: if_splits)
qed (simp add: insert_pairs_def)

lemma remove_names_set: "set (remove_names wb ns h) \<subseteq> set h"
proof (induction ns arbitrary: h)
  case (Cons n ns)
  from Cons [of h] Cons [of "h_remove h n"] show ?case by (auto simp: remove_names_def set_h_remove)
qed (simp add: remove_names_def)

definition volta_within :: "string set \<Rightarrow> header_map \<Rightarrow> bool" where
  "volta_within N h \<longleftrightarrow> (\<forall>(n, v) \<in> set h. is_volta n \<longrightarrow> n \<in> N)"

lemma volta_within_insert [simp]: "volta_within N h \<Longrightarrow> \<not> is_volta (to_lower n) \<Longrightarrow> volta_within N (h_insert h n v)"
  by (auto simp: volta_within_def set_h_insert)

lemma volta_within_strip [simp]: "volta_within N (strip_volta h)"
  by (auto simp: volta_within_def strip_volta_def)

lemma volta_within_cors [simp]: "volta_within N h \<Longrightarrow> volta_within N (cors_headers o' h)"
  by (simp add: cors_headers_def Let_def)

lemma volta_within_pairs:
  assumes "volta_within N h" and "\<And>k v. (k, v) \<in> set kvs \<Longrightarrow> to_lower k \<in> N"
  shows "volta_within N (insert_pairs wb kvs (remove_names wb ns h))"
  unfolding volta_within_def
proof (clarify)
  fix n v
  assume "(n, v) \<in> set (insert_pairs wb kvs (remove_names wb ns h))" and i: "is_volta n"
  with insert_pairs_set remove_names_set have "(n, v) \<in> set h \<or> (n, v) \<in> set (as_sent kvs)" by fastforce
  with i assms show "n \<in> N" by (auto simp: volta_within_def as_sent_def)
qed

text \<open>The names that the operator configured for responses, on the route or in a plugin.\<close>

definition configured_names :: "route_info option \<Rightarrow> loaded_plugin list \<Rightarrow> string set" where
  "configured_names route ls =
     {to_lower k |k v. (\<exists>rh. Option.bind route ri_response_headers = Some rh \<and> (k, v) \<in> set (hm_add rh)) \<or> (k, v) \<in> injected ls}"

lemma response_headers_within: "volta_within (configured_names route ls) (response_headers_of w hot rq host route h)"
proof -
  have "volta_within N (if has_frame_override route then x else y)" if "volta_within N x" "volta_within N y" for N x y
    using that by simp
  then show ?thesis
    unfolding response_headers_of_def Let_def
    by (cases "Option.bind route ri_response_headers")
      (auto intro!: volta_within_pairs simp: configured_names_def)
qed

lemma plugin_response_within:
  "volta_within (configured_names route ls) h \<Longrightarrow>
   volta_within (configured_names route ls) (plugin_response_stage w rq host ip ls h)"
  unfolding plugin_response_stage_def Let_def
  by (rule volta_within_pairs) (use run_response_adds in \<open>fastforce simp: configured_names_def\<close>)+

text \<open>A stage that keeps what plugins inject and ends only in answers without foreign identity headers.\<close>

definition discreet :: "route_info option \<Rightarrow> loaded_plugin list \<Rightarrow> 'a stage \<Rightarrow> bool" where
  "discreet route ls m \<longleftrightarrow>
     (\<forall>st r st'. injected (ps_plugins (gs_service st)) = injected ls \<longrightarrow> m st = Some (r, st') \<longrightarrow>
        injected (ps_plugins (gs_service st')) = injected ls \<and>
        (\<forall>resp. r = Inl resp \<longrightarrow> volta_within (configured_names route ls) (hr_headers resp)))"

lemma discreetD:
  assumes "discreet route ls m" and "injected (ps_plugins (gs_service st)) = injected ls" and "m st = Some (r, st')"
  shows "injected (ps_plugins (gs_service st')) = injected ls"
    and "r = Inl resp \<Longrightarrow> volta_within (configured_names route ls) (hr_headers resp)"
  using assms(1) [unfolded discreet_def, rule_format, OF assms(2,3)] by simp_all

lemma discreet_sbind:
  assumes "discreet route ls m" and "\<And>a. discreet route ls (f a)"
  shows "discreet route ls (sbind m f)"
  unfolding discreet_def
proof (intro allI impI)
  fix st r st2
  assume i: "injected (ps_plugins (gs_service st)) = injected ls" and "sbind m f st = Some (r, st2)"
  then consider resp where "m st = Some (Inl resp, st2)" "r = Inl resp"
    | a st1 where "m st = Some (Inr a, st1)" "f a st1 = Some (r, st2)" by (auto simp: sbind_Some_iff)
  then show "injected (ps_plugins (gs_service st2)) = injected ls \<and>
      (\<forall>resp. r = Inl resp \<longrightarrow> volta_within (configured_names route ls) (hr_headers resp))"
  proof cases
    case 1
    with discreetD [OF assms(1) i] show ?thesis by simp
  next
    case (2 a st1)
    from discreetD(1) [OF assms(1) i 2(1)] discreetD [OF assms(2) _ 2(2)] show ?thesis by simp
  qed
qed

lemma discreet_go_on [simp]: "discreet route ls (go_on a)"
  by (simp add: discreet_def go_on_def)

lemma discreet_finish [simp]:
  "discreet route ls (finish resp) \<longleftrightarrow> volta_within (configured_names route ls) (hr_headers resp)"
  "discreet route ls (finish_with n resp) \<longleftrightarrow> volta_within (configured_names route ls) (hr_headers resp)"
proof -
  have "\<exists>st. injected (ps_plugins (gs_service st)) = injected ls"
    by (rule exI [of _ "undefined \<lparr> gs_service := (undefined \<lparr> ps_plugins := ls \<rparr>) \<rparr>"]) simp
  then show "discreet route ls (finish resp) \<longleftrightarrow> volta_within (configured_names route ls) (hr_headers resp)"
    "discreet route ls (finish_with n resp) \<longleftrightarrow> volta_within (configured_names route ls) (hr_headers resp)"
    by (auto simp: discreet_def stage_defs)
qed

lemma own_answers [simp]:
  "volta_within N (hr_headers (error_response_with_pages s rid pages))"
  "volta_within N (hr_headers (error_response s rid))"
  "volta_within N (hr_headers (redirect_response l rid))"
  "volta_within N (hr_headers (rate_limited_response rid))"
  "volta_within N (hr_headers (preflight_response w o'))"
  by (auto simp: volta_within_def error_response_def error_response_with_pages_def redirect_response_def
      rate_limited_response_def preflight_response_def split: option.splits)

lemma discreet_rate_limit: "discreet route ls (rate_limit_stage w ip)"
  by (auto simp: discreet_def rate_limit_stage_def stage_defs Let_def split: prod.splits if_splits)

lemma discreet_preflight: "discreet route ls (preflight_stage w hot rq host)"
  by (simp add: preflight_stage_def Let_def)

lemma discreet_start: "discreet route ls (start_stage w hot rd)"
  by (auto simp: discreet_def start_stage_def stage_defs split: option.splits sum.splits if_splits)

lemma discreet_select: "discreet route ls (select_stage w host route rt)"
  by (auto simp: discreet_def select_stage_def stage_defs split: option.splits)

lemma discreet_auth: "discreet route ls (auth_stage w hot plan q)"
  by (auto simp: discreet_def auth_stage_def call_auth_def stage_defs
      split: prod.splits auth_result.splits if_splits)

lemma discreet_role: "discreet route ls (role_stage w hot plan h)"
  by (simp add: role_stage_def Let_def split: option.splits)

lemma discreet_resume: "discreet route ls (resume_stage w hot run h)"
  by (simp add: resume_stage_def split: sum.splits)

lemma discreet_plugin: "discreet route ls (plugin_stage w rq host ip h)"
  unfolding discreet_def
proof (intro allI impI)
  fix st r st'
  assume i: "injected (ps_plugins (gs_service st)) = injected ls" and p: "plugin_stage w rq host ip h st = Some (r, st')"
  obtain rej ls' ctx where run: "run_request (wd_plugin w) (ps_plugins (gs_service st))
     \<lparr> px_method = rq_method rq, px_host = host, px_path = rq_path rq,
       px_headers = plugin_headers_of (rq_headers rq) h, px_client_ip = wd_show_ip w ip,
       px_reject = None, px_add_headers = [], px_remove_headers = [] \<rparr> = (rej, ls', ctx)" by (rule prod_cases3)
  have "ps_plugins (gs_service st') = ls' \<and>
    (\<forall>resp. r = Inl resp \<longrightarrow> volta_within (configured_names route ls) (hr_headers resp))"
    using p unfolding plugin_stage_def run stage_defs Let_def
    by (cases rej) (auto simp: volta_within_def)
  with run_request_injects [OF run] i
  show "injected (ps_plugins (gs_service st')) = injected ls \<and>
      (\<forall>resp. r = Inl resp \<longrightarrow> volta_within (configured_names route ls) (hr_headers resp))" by simp
qed

lemma discreet_geo: "discreet route ls (geo_stage w hot r h)"
  by (simp add: geo_stage_def)

lemma discreet_cache: "\<not> cache_enabled_for plan r rq \<Longrightarrow> discreet route ls (cache_stage w plan r rq host)"
  by (auto simp: discreet_def cache_stage_def stage_defs)

lemma discreet_breaker: "discreet route ls (breaker_stage w hot backend)"
  by (auto simp: discreet_def breaker_stage_def stage_defs Let_def split: if_splits)

lemma attempt_plugins:
  "attempt w rq signer fp req t st = Some (x, st') \<Longrightarrow> ps_plugins (gs_service st') = ps_plugins (gs_service st)"
  by (auto simp: attempt_def breaker_event_def Let_def split: exchange.splits if_splits option.splits)

lemma breaker_event_plugins [simp]: "ps_plugins (gs_service (breaker_event f st)) = ps_plugins (gs_service st)"
  by (simp add: breaker_event_def)

lemma forward_result:
  assumes "forward_stage w hot rq route fp st = Some (r, st')"
  shows "ps_plugins (gs_service st') = ps_plugins (gs_service st)"
    and "r = Inl resp \<Longrightarrow> \<exists>s. resp = error_response_with_pages s (wd_request_id w) (hs_error_pages hot)"
proof -
  let ?P = "ps_plugins (gs_service st') = ps_plugins (gs_service st) \<and>
    (\<forall>resp. r = Inl resp \<longrightarrow> (\<exists>s. resp = error_response_with_pages s (wd_request_id w) (hs_error_pages hot)))"
  have ?P
  proof (cases "backend_request w rq route (ps_signer (gs_service st)) fp")
    case None
    with assms show ?thesis by (auto simp: forward_stage_def stage_defs Let_def)
  next
    case (Some req)
    let ?a = "attempt w rq (ps_signer (gs_service st)) fp req (unwrap_or 30 (Option.bind route ri_timeout_secs)) st"
    from assms Some obtain x st1 where a: "?a = Some (x, st1)"
      by (auto simp: forward_stage_def Let_def split: option.splits)
    from attempt_plugins [OF a] assms Some show ?thesis
      by (cases x) (auto simp: forward_stage_def Let_def a stage_defs)
  qed
  then show "ps_plugins (gs_service st') = ps_plugins (gs_service st)"
    and "r = Inl resp \<Longrightarrow> \<exists>s. resp = error_response_with_pages s (wd_request_id w) (hs_error_pages hot)" by blast+
qed

lemma discreet_forward: "discreet route ls (forward_stage w hot rq r fp)"
  unfolding discreet_def using forward_result by (metis own_answers(1))

lemma configured_names_cong: "injected ls' = injected ls \<Longrightarrow> configured_names route ls' = configured_names route ls"
  by (simp add: configured_names_def)

lemma mirror_service [simp]: "gs_service (mirror_stage w rq route fp st) = gs_service st"
  by (simp add: mirror_stage_def split: option.splits)

lemma volta_within_gzip: "volta_within N h \<Longrightarrow> volta_within N (gzip_headers h len)"
  by (auto simp: volta_within_def gzip_headers_def)

lemma body_headers:
  assumes "body_stage w hot plan route rq host resp st = Some (r, st')" and "volta_within N (hr_headers resp)"
  shows "ps_plugins (gs_service st') = ps_plugins (gs_service st)" and "r = Inl resp' \<Longrightarrow> volta_within N (hr_headers resp')"
  using assms
  by (auto simp: body_stage_def store_in_cache_def stage_defs Let_def intro: volta_within_gzip
      split: if_splits option.splits)

lemma discreet_answer: "discreet route ls (answer_stage w hot plan route rq host ip fp resp)"
  unfolding discreet_def
proof (intro allI impI)
  fix st r st'
  assume i: "injected (ps_plugins (gs_service st)) = injected ls"
    and a: "answer_stage w hot plan route rq host ip fp resp st = Some (r, st')"
  let ?ls = "ps_plugins (gs_service st)"
  let ?h = "plugin_response_stage w rq host ip ?ls (response_headers_of w hot rq host route (hr_headers resp))"
  have "volta_within (configured_names route ?ls) ?h"
    by (intro plugin_response_within response_headers_within)
  then have h: "volta_within (configured_names route ls) (hr_headers (resp \<lparr> hr_headers := ?h \<rparr>))"
    using configured_names_cong [OF i] by simp
  from a have "body_stage w hot plan route rq host (resp \<lparr> hr_headers := ?h \<rparr>)
      (mirror_stage w rq route fp (effect_of (EMetric (hr_status resp)) st)) = Some (r, st')"
    by (simp add: answer_stage_def Let_def)
  from body_headers [OF this h] i
  show "injected (ps_plugins (gs_service st')) = injected ls \<and>
      (\<forall>resp. r = Inl resp \<longrightarrow> volta_within (configured_names route ls) (hr_headers resp))" by simp
qed

lemma discreet_serve:
  assumes "\<not> cache_enabled_for plan route rq"
  shows "discreet route ls (serve_stage w hot rq host remote ip route plan run backend h)"
  unfolding serve_stage_def Let_def
  by (intro discreet_sbind discreet_role discreet_resume discreet_plugin discreet_geo discreet_cache
      discreet_breaker discreet_forward discreet_answer assms)


end
