(* ===== verification/Proxy_Examples.thy ===== *)
theory Proxy_Examples
  imports Proxy_Answers
begin

text \<open>
  The gateway of \<open>Proxy_Safety\<close> on one request, run through the whole handler, and the properties of the
  handler applied to this run; two examples of what the handler does not do.
\<close>

text \<open>The auth server vouches for an admin, the backend refuses the connection and then serves the retry.\<close>

fun demo_shape :: "effect list \<Rightarrow> bool" where
  "demo_shape [EBackend a _ _, ERetry b, EMirror c] \<longleftrightarrow>
     h_str (hq_headers a) ''x-env'' = Some ''prod'' \<and> \<not> h_contains (hq_headers b) ''x-env'' \<and>
     h_contains (hq_headers a) ''traceparent'' \<and> \<not> h_contains (hq_headers b) ''traceparent''"
| "demo_shape _ \<longleftrightarrow> False"

lemma demo_run:
  "case after_start demo_busy demo_rq (V4 1) run demo_target
     (demo_state demo_ri \<lparr> gs_service := gs_service (demo_state demo_ri) \<lparr> ps_rate_limiter := l \<rparr> \<rparr>) of
   Some (Inl resp, st') \<Rightarrow> demo_shape (sends st') | _ \<Rightarrow> False"
  by code_simp

lemma demo_host: "host_of demo_rq = ''a.io''"
  by code_simp

lemma demo_plan:
  "auth_plan_for (Some demo_ri) (rq_path demo_rq) =
     \<lparr> ap_public = False, ap_soft = False, ap_bypass = None, ap_skip = False, ap_min_role = Some ''MEMBER'' \<rparr>"
  by code_simp

lemma demo_hot: "ps_hot (gs_service (demo_state ri)) = new_full [''a.io'' \<mapsto> ri] Map.empty Map.empty Map.empty []"
  by (simp add: demo_state_def)

lemma demo_route: "route_of demo_rq (demo_state ri) = Some ri"
  by (simp add: demo_host demo_hot new_full_def lookup_route_def or_else_def)

lemma demo_client: "client_of (demo_gateway a b c) demo_rq remote (demo_state ri) = remote"
  by (simp add: real_client_ip_def from_trusted_def demo_hot new_full_def)

lemma demo_valid:
  "validate_request [''a.io'' \<mapsto> ri] Map.empty (request_data_of demo_rq ''a.io'' ip) = Some (Inr ())"
proof -
  have "urlencoding_decode ''/a'' = Some ''/a''" "\<not> contains_sub ''/a'' ''..''" by code_simp+
  moreover have "content_length (rq_headers demo_rq) = None" by code_simp
  moreover have "header_size (rq_headers demo_rq) \<le> 8192" by (simp add: header_size_def demo_rq_def)
  ultimately show ?thesis
    by (simp add: validate_request_def request_data_of_def host_known_def ip_allowed_at_def demo_rq_def)
qed

lemma demo_handled:
  "\<exists>run l. handle_http (demo_gateway a b c) demo_rq (V4 1) (demo_state demo_ri) =
     after_start (demo_gateway a b c) demo_rq (V4 1) run demo_target
       (demo_state demo_ri \<lparr> gs_service := gs_service (demo_state demo_ri) \<lparr> ps_rate_limiter := l \<rparr> \<rparr>)"
proof -
  obtain l where "allow (new_rate_limiter 0 9 9) 0 (V4 1) = (True, l)" using demo_limiter by blast
  then have "allow (ps_rate_limiter (gs_service (demo_state demo_ri))) (wd_now (demo_gateway a b c))
      (client_of (demo_gateway a b c) demo_rq (V4 1) (demo_state demo_ri)) = (True, l)"
    unfolding demo_client by (simp add: demo_state_def demo_gateway_def)
  from handle_after_start [OF this demo_hot demo_host [symmetric] _ refl] demo_valid show ?thesis
    by (fastforce simp: demo_rq_def demo_client resolve_route_def lookup_route_def demo_ri_def demo_target_def
        demo_gateway_def)
qed

lemma demo_sent:
  obtains resp st' a body t b c where
    "handle_http demo_busy demo_rq (V4 1) (demo_state demo_ri) = Some (Inl resp, st')"
    "sends st' = [EBackend a body t, ERetry b, EMirror c]"
    "h_str (hq_headers a) ''x-env'' = Some ''prod''" "\<not> h_contains (hq_headers b) ''x-env''"
    "h_contains (hq_headers a) ''traceparent''" "\<not> h_contains (hq_headers b) ''traceparent''"
proof -
  obtain run l where h: "handle_http demo_busy demo_rq (V4 1) (demo_state demo_ri) =
     after_start demo_busy demo_rq (V4 1) run demo_target
       (demo_state demo_ri \<lparr> gs_service := gs_service (demo_state demo_ri) \<lparr> ps_rate_limiter := l \<rparr> \<rparr>)"
    using demo_handled unfolding demo_busy_def by blast
  from demo_run [of run l] obtain resp st' where r: "handle_http demo_busy demo_rq (V4 1) (demo_state demo_ri) = Some (Inl resp, st')"
    and "demo_shape (sends st')" unfolding h [symmetric] by (auto split: option.splits prod.splits sum.splits)
  from this(2) show thesis by (rule demo_shape.elims(2)) (use that [OF r] in auto)
qed

lemma demo_goes_out:
  obtains a body t c where "goes_out demo_busy demo_rq (V4 1) (demo_state demo_ri) (EBackend a body t)"
    and "goes_out demo_busy demo_rq (V4 1) (demo_state demo_ri) (EMirror c)"
proof -
  have n: "sends (demo_state demo_ri) = []" by (simp add: sends_def demo_state_def)
  obtain resp st' a body t b c where h: "handle_http demo_busy demo_rq (V4 1) (demo_state demo_ri) = Some (Inl resp, st')"
    and s: "sends st' = [EBackend a body t, ERetry b, EMirror c]" by (rule demo_sent)
  then have "goes_out demo_busy demo_rq (V4 1) (demo_state demo_ri) e" if "e \<in> set (sends st')" for e
    using that n unfolding goes_out_def by (intro exI [of _ "Inl resp"] exI [of _ st'] exI [of _ "sends st'"]) simp
  from this [of "EBackend a body t"] this [of "EMirror c"] show thesis by (rule that) (simp_all add: s)
qed

lemma demo_plan_of:
  "plan_of demo_rq (demo_state demo_ri) =
     \<lparr> ap_public = False, ap_soft = False, ap_bypass = None, ap_skip = False, ap_min_role = Some ''MEMBER'' \<rparr>"
  by (simp add: demo_route demo_plan)


theorem min_role_enforced_witness:
  "\<exists>h. evidence demo_busy demo_rq (V4 1) (demo_state demo_ri) False h \<and>
     enforce_min_role default_policy (roles_of h) (to_upper (trim ''MEMBER'')) = Allow"
proof -
  obtain e where e: "goes_out demo_busy demo_rq (V4 1) (demo_state demo_ri) e" by (rule demo_goes_out)
  from min_role_enforced [OF e, of "''MEMBER''"] show ?thesis by (simp add: demo_plan_of)
qed


theorem identity_not_forged_witness:
  "\<exists>e h unix. goes_out demo_busy demo_rq (V4 1) (demo_state demo_ri) e \<and> is_send e \<and>
     known_identity demo_busy demo_rq (V4 1) (demo_state demo_ri) h \<and>
     (\<forall>(n, v) \<in> set (sent_headers e). is_volta n \<longrightarrow>
       (n, v) \<in> set (as_sent h) \<or>
       (n, v) \<in> set (as_sent (sign_request demo_busy unix None ''GET'' (rewrite_path (Some demo_ri) (path_and_query demo_rq)) h)))"
proof -
  obtain a body t where e: "goes_out demo_busy demo_rq (V4 1) (demo_state demo_ri) (EBackend a body t)"
    by (rule demo_goes_out)
  have s: "ps_signer (gs_service (demo_state demo_ri)) = None" "rq_method demo_rq = ''GET''"
    by (simp_all add: demo_state_def demo_rq_def)
  have "\<And>req. EBackend a body t \<noteq> EMirror req" "is_send (EBackend a body t)" by simp_all
  with identity_not_forged [OF e, unfolded demo_route s] e show ?thesis by blast
qed

theorem mirror_carries_no_credentials_witness:
  "\<exists>req. goes_out demo_busy demo_rq (V4 1) (demo_state demo_ri) (EMirror req) \<and>
     (\<forall>(n, v) \<in> set (hq_headers req). n \<noteq> ''cookie'' \<and> n \<noteq> ''authorization'' \<and> (is_volta n \<longrightarrow> n = ''x-volta-mirror''))"
proof -
  obtain c where c: "goes_out demo_busy demo_rq (V4 1) (demo_state demo_ri) (EMirror c)" by (rule demo_goes_out)
  show ?thesis
  proof (intro exI [of _ c] conjI ballI)
    fix nv assume "nv \<in> set (hq_headers c)"
    with mirror_carries_no_credentials [OF c, of "fst nv" "snd nv"]
    show "case nv of (n, v) \<Rightarrow> n \<noteq> ''cookie'' \<and> n \<noteq> ''authorization'' \<and> (is_volta n \<longrightarrow> n = ''x-volta-mirror'')"
      by (cases nv) simp
  qed (rule c)
qed

theorem at_most_one_retry_witness:
  "\<exists>r st' req body t rs ms. handle_http demo_busy demo_rq (V4 1) (demo_state demo_ri) = Some (r, st') \<and>
     sends st' = EBackend req body t # map ERetry rs @ map EMirror ms \<and> length rs \<le> 1 \<and> length ms \<le> 1"
proof -
  obtain resp st' a body t b c where h: "handle_http demo_busy demo_rq (V4 1) (demo_state demo_ri) = Some (Inl resp, st')"
    and s: "sends st' = [EBackend a body t, ERetry b, EMirror c]" by (rule demo_sent)
  have n: "sends (demo_state demo_ri) = []" by (simp add: sends_def demo_state_def)
  have "sends st' \<noteq> sends (demo_state demo_ri)" using s n by simp
  from at_most_one_retry [OF h this] h show ?thesis unfolding n append_Nil by blast
qed

text \<open>
  The retry is not the request again: it lacks the trace context and the headers that the route
  configuration adds to requests.
\<close>

theorem retry_drops_headers:
  "\<exists>w rq remote st resp st' a body t b rest.
     handle_http w rq remote st = Some (Inl resp, st') \<and>
     sends st' = EBackend a body t # ERetry b # rest \<and>
     h_str (hq_headers a) ''x-env'' = Some ''prod'' \<and> \<not> h_contains (hq_headers b) ''x-env'' \<and>
     h_contains (hq_headers a) ''traceparent'' \<and> \<not> h_contains (hq_headers b) ''traceparent''"
  by (rule demo_sent) blast

theorem rate_limited_answer_witness:
  "\<exists>l. handle_http demo_busy demo_rq (V4 1)
       (demo_state demo_ri \<lparr> gs_service := gs_service (demo_state demo_ri) \<lparr> ps_rate_limiter := new_rate_limiter 0 0 0 \<rparr> \<rparr>) =
     Some (Inl (rate_limited_response ''r-1''),
      (demo_state demo_ri) \<lparr> gs_service := gs_service (demo_state demo_ri) \<lparr> ps_rate_limiter := l \<rparr>,
        gs_effects := [EMetric 429] \<rparr>)"
proof -
  let ?st = "demo_state demo_ri \<lparr> gs_service := gs_service (demo_state demo_ri) \<lparr> ps_rate_limiter := new_rate_limiter 0 0 0 \<rparr> \<rparr>"
  obtain l where "allow (ps_rate_limiter (gs_service ?st)) (wd_now demo_busy) (client_of demo_busy demo_rq (V4 1) ?st) = (False, l)"
    by (auto simp: allow_def new_rate_limiter_def window_hit_def demo_busy_def demo_gateway_def)
  from rate_limited_answer [OF this] show ?thesis
    by (auto simp: demo_state_def demo_busy_def demo_gateway_def)
qed




text \<open>
  The auth rules see the path as it was sent, the traversal check a decoded one: with the same rules,
  \<open>/adm/x\<close> requires a role and \<open>/%61dm/x\<close>, which decodes to the same path, is public.
\<close>

theorem encoded_path_escapes_rule:
  "resolve_auth_rule (re_auth_rules (sample_route ''A.io'')) ''/adm/x'' = Some (Require ''ADMIN'') \<and>
   resolve_auth_rule (re_auth_rules (sample_route ''A.io'')) ''/%61dm/x'' = Some Public \<and>
   urlencoding_decode ''/%61dm/x'' = Some ''/adm/x''"
  by code_simp

end
