(* ===== verification/Websocket.thy ===== *)
theory Websocket
  imports Proxy_Answers
begin

text \<open>
  \<open>handle_websocket\<close> of \<open>gateway/src/websocket.rs\<close>, stage by stage on the state of \<open>Proxy_Service\<close>, and
  \<open>ProxyService::handle\<close> with its dispatch between upgrades and ordinary requests. The tunnel that
  an accepted upgrade spawns only counts: it holds one of the \<open>WS_CONNECTIONS\<close> until it ends. The
  handler reads that counter when a request arrives and increments it when the backend has answered,
  so the limit is stated on interleavings of several handlers, as a step relation.
\<close>

section \<open>Stages of the upgrade\<close>

definition MAX_WS_CONNECTIONS :: u64 where
  "MAX_WS_CONNECTIONS = 1024"

definition ws_error_response :: "nat \<Rightarrow> string \<Rightarrow> http_response" where
  "ws_error_response status request_id =
     \<lparr> hr_status = status,
       hr_headers = [(''content-type'', HText ''application/json''), (''x-request-id'', HText request_id)],
       hr_body = json_error status (reason_of status) request_id \<rparr>"

definition ws_redirect_response :: "string \<Rightarrow> string \<Rightarrow> http_response" where
  "ws_redirect_response location request_id =
     \<lparr> hr_status = 302, hr_headers = [(''location'', HText location), (''x-request-id'', HText request_id)],
       hr_body = [] \<rparr>"

definition ws_limit_stage :: "world \<Rightarrow> unit stage" where
  "ws_limit_stage w st =
     (if MAX_WS_CONNECTIONS \<le> gs_ws_connections st
      then finish (ws_error_response 503 (wd_request_id w)) st else go_on () st)"

definition ws_resolve_route :: "routing_table \<Rightarrow> string \<Rightarrow> route_info option" where
  "ws_resolve_route routing host =
     (case routing host of
        Some r \<Rightarrow> Some r
      | None \<Rightarrow> (case split_once CHR ''.'' host of
                   None \<Rightarrow> None | Some (_, d) \<Rightarrow> routing (''*.'' @ d)))"

definition ws_route_stage :: "world \<Rightarrow> hot_state \<Rightarrow> string \<Rightarrow> route_info stage" where
  "ws_route_stage w hot host =
     (case ws_resolve_route (hs_routing hot) host of
        None \<Rightarrow> finish (ws_error_response 400 (wd_request_id w))
      | Some r \<Rightarrow> go_on r)"

definition ws_public_stage :: "world \<Rightarrow> route_info \<Rightarrow> unit stage" where
  "ws_public_stage w r =
     (if ri_public r \<and> ri_min_role r \<noteq> None then finish (ws_error_response 403 (wd_request_id w))
      else go_on ())"

text \<open>The query of the upgrade: the protocol is taken to be \<open>https\<close>.\<close>

definition ws_auth_query :: "world \<Rightarrow> request \<Rightarrow> string \<Rightarrow> ip_addr \<Rightarrow> route_info \<Rightarrow> auth_query" where
  "ws_auth_query w rq host ip r =
     \<lparr> aq_host = host, aq_uri = rq_path rq, aq_proto = ''https'',
       aq_cookie = h_str (rq_headers rq) ''cookie'', aq_app_id = ri_app_id r, aq_min_role = ri_min_role r,
       aq_client_ip = Some (wd_show_ip w ip), aq_bearer = bearer_of (rq_headers rq) \<rparr>"

definition ws_auth_stage :: "world \<Rightarrow> route_info \<Rightarrow> bypass_path option \<Rightarrow> auth_query \<Rightarrow> volta_headers stage" where
  "ws_auth_stage w r bypass_match q st =
     (if ri_public r \<or> bypass_match \<noteq> None then go_on [] st
      else if ri_soft_auth r
        then (case call_auth w q True st of
                (Authenticated headers, st') \<Rightarrow> go_on headers st'
              | (_, st') \<Rightarrow> go_on [] st')
      else (case call_auth w q (ri_min_role r = None) st of
              (Authenticated headers, st') \<Rightarrow> go_on headers st'
            | (AuthRedirect loc, st') \<Rightarrow> finish (ws_redirect_response loc (wd_request_id w)) st'
            | (AuthDenied, st') \<Rightarrow> finish (ws_error_response 403 (wd_request_id w)) st'
            | (AuthError msg, st') \<Rightarrow> finish (ws_error_response 502 (wd_request_id w)) st'))"

definition ws_role_stage :: "world \<Rightarrow> route_info \<Rightarrow> bypass_path option \<Rightarrow> volta_headers \<Rightarrow> unit stage" where
  "ws_role_stage w r bypass_match h =
     (case ri_min_role r of
        None \<Rightarrow> go_on ()
      | Some min_role \<Rightarrow>
          (if bypass_match \<noteq> None then go_on ()
           else if role_satisfied h min_role then go_on ()
           else finish (ws_error_response 403 (wd_request_id w))))"

definition ws_backend_stage :: "world \<Rightarrow> string \<Rightarrow> route_info \<Rightarrow> bypass_path option \<Rightarrow> string stage" where
  "ws_backend_stage w host r bypass_match st =
     (case Option.bind bypass_match bp_backend of
        Some b \<Rightarrow> go_on b st
      | None \<Rightarrow>
          (case select (ps_selector (gs_service st)) host (ri_backends r) (ri_weights r) (wd_pick w) of
             None \<Rightarrow> None
           | Some (b, sel') \<Rightarrow>
               go_on b (st \<lparr> gs_service := gs_service st \<lparr> ps_selector := sel' \<rparr> \<rparr>)))"

definition WS_PSEUDO :: "string list" where
  "WS_PSEUDO = [''host'', '':method'', '':protocol'', '':scheme'', '':path'', '':authority'']"

definition WS_FORWARDED :: "string list" where
  "WS_FORWARDED = [''upgrade'', ''connection'', ''sec-websocket-key'', ''sec-websocket-version'',
     ''sec-websocket-protocol'', ''sec-websocket-extensions'', ''cookie'', ''authorization'']"

definition ws_forwards :: "string \<Rightarrow> bool" where
  "ws_forwards key \<longleftrightarrow>
     (if key \<in> set WS_PSEUDO then False
      else if is_volta key then False
      else if key \<in> set WS_FORWARDED then True
      else starts_with key ''x-'')"

definition ws_client_headers :: "request \<Rightarrow> header_map" where
  "ws_client_headers rq =
     filter (\<lambda>(key, _). ws_forwards key) (rq_headers rq)
     @ (if rq_method rq = ''CONNECT'' \<and> \<not> h_contains (rq_headers rq) ''upgrade''
        then [(''upgrade'', HText ''websocket''), (''connection'', HText ''upgrade'')] else [])"

definition ws_request ::
    "world \<Rightarrow> assertion_signer option \<Rightarrow> request \<Rightarrow> string \<Rightarrow> ip_addr \<Rightarrow> string \<Rightarrow> volta_headers \<Rightarrow>
     http_request option" where
  "ws_request w signer rq host ip backend h =
     map_option (\<lambda>hs. \<lparr> hq_method = ''GET'', hq_uri = parse_uri (wd_web w) (backend @ path_and_query rq),
           hq_headers = ws_client_headers rq @ hs \<rparr>)
       (build_headers (wd_web w)
          (h @ [(''X-Request-Id'', wd_request_id w), (''X-Forwarded-For'', wd_show_ip w ip),
                (''X-Forwarded-Host'', host), (''X-Forwarded-Proto'', ''https'')]
           @ sign_request w (pw_unix_now (wd_plugin w)) signer ''GET'' (path_and_query rq) h))"

definition ws_connect_stage :: "world \<Rightarrow> http_request option \<Rightarrow> http_response stage" where
  "ws_connect_stage w req st =
     (case req of
        None \<Rightarrow> finish (ws_error_response 502 (wd_request_id w)) st
      | Some r \<Rightarrow>
          (let st' = effect_of (EUpgrade r) st
           in case wd_retry w r of
                SendError e \<Rightarrow> finish (ws_error_response 502 (wd_request_id w)) st'
              | TimedOut \<Rightarrow> finish (ws_error_response 504 (wd_request_id w)) st'
              | Answer resp \<Rightarrow>
                  (if hr_status resp \<noteq> 101 then finish (ws_error_response 502 (wd_request_id w)) st'
                   else go_on resp st')))"

definition WS_ANSWERED :: "string list" where
  "WS_ANSWERED = [''upgrade'', ''connection'', ''sec-websocket-accept'', ''sec-websocket-protocol'',
     ''sec-websocket-extensions'']"

definition ws_client_response :: "world \<Rightarrow> request \<Rightarrow> http_response \<Rightarrow> http_response" where
  "ws_client_response w rq resp =
     (let is_h2_connect = (rq_method rq = ''CONNECT'')
      in \<lparr> hr_status = (if is_h2_connect then 200 else 101),
           hr_headers = (''x-request-id'', HText (wd_request_id w)) #
             filter (\<lambda>(key, _). key \<in> set WS_ANSWERED \<and>
                 \<not> (is_h2_connect \<and> (key = ''upgrade'' \<or> key = ''connection''))) (hr_headers resp),
           hr_body = [] \<rparr>)"

text \<open>The tunnel takes a slot when it is spawned and gives it back when it is dropped.\<close>

definition ws_open :: "gw_state \<Rightarrow> gw_state" where
  "ws_open st = st \<lparr> gs_ws_connections := gs_ws_connections st + 1 \<rparr>"

definition ws_drop :: "gw_state \<Rightarrow> gw_state" where
  "ws_drop st = st \<lparr> gs_ws_connections := gs_ws_connections st - 1 \<rparr>"

definition ws_accept_stage :: "world \<Rightarrow> request \<Rightarrow> http_response \<Rightarrow> unit stage" where
  "ws_accept_stage w rq resp st = finish (ws_client_response w rq resp) (ws_open st)"

text \<open>From the identity on.\<close>

definition ws_serve_stage ::
    "world \<Rightarrow> request \<Rightarrow> string \<Rightarrow> ip_addr \<Rightarrow> route_info \<Rightarrow> bypass_path option \<Rightarrow> volta_headers \<Rightarrow> unit stage" where
  "ws_serve_stage w rq host ip r bypass_match h =
     sbind (ws_role_stage w r bypass_match h) (\<lambda>_.
     sbind (ws_backend_stage w host r bypass_match) (\<lambda>backend.
     (\<lambda>st. sbind (ws_connect_stage w (ws_request w (ps_signer (gs_service st)) rq host ip backend h))
        (ws_accept_stage w rq) st)))"

definition handle_websocket :: "world \<Rightarrow> hot_state \<Rightarrow> request \<Rightarrow> ip_addr \<Rightarrow> unit stage" where
  "handle_websocket w hot rq remote =
     (let host = unwrap_or [] (extract_host (rq_headers rq));
          ip = real_client_ip w hot remote (rq_headers rq)
      in sbind (ws_limit_stage w) (\<lambda>_.
         sbind (ws_route_stage w hot host) (\<lambda>r.
         sbind (ws_public_stage w r) (\<lambda>_.
         (let bypass_match = find_bypass (ri_bypass_paths r) (rq_path rq)
          in sbind (ws_auth_stage w r bypass_match (ws_auth_query w rq host ip r)) (\<lambda>h.
             ws_serve_stage w rq host ip r bypass_match h))))))"

text \<open>
  The whole handler. The rate limiter comes first in both branches; \<open>handle_http\<close> contains it.
\<close>

definition handle :: "world \<Rightarrow> request \<Rightarrow> ip_addr \<Rightarrow> unit stage" where
  "handle w rq remote st =
     (if is_upgrade rq
      then (let hot = ps_hot (gs_service st)
            in sbind (rate_limit_stage w (real_client_ip w hot remote (rq_headers rq)))
                 (\<lambda>_. handle_websocket w hot rq remote) st)
      else handle_http w rq remote st)"

section \<open>What an upgrade lets out\<close>

lemma ws_resolve_route_lookup: "ws_resolve_route routing host = lookup_route routing host"
  by (auto simp: ws_resolve_route_def lookup_route_def or_else_def split: option.splits)

lemma ws_error_response_same: "ws_error_response s rid = error_response s rid"
  by (simp add: ws_error_response_def error_response_def error_response_with_pages_def)

lemma quiet_ws_limit [simp]: "quiet (ws_limit_stage w)"
  by (auto simp: quiet_def ws_limit_stage_def stage_defs split: if_splits)

lemma quiet_ws_route [simp]: "quiet (ws_route_stage w hot host)"
  by (simp add: ws_route_stage_def split: option.splits)

lemma quiet_ws_public [simp]: "quiet (ws_public_stage w r)"
  by (simp add: ws_public_stage_def)

lemma quiet_ws_auth [simp]: "quiet (ws_auth_stage w r b q)"
  by (auto simp: quiet_def ws_auth_stage_def stage_defs split: prod.splits auth_result.splits if_splits
      dest: sends_call_auth)

lemma quiet_ws_role [simp]: "quiet (ws_role_stage w r b h)"
  by (simp add: ws_role_stage_def split: option.splits)

lemma quiet_ws_backend [simp]: "quiet (ws_backend_stage w host r b)"
  by (auto simp: quiet_def ws_backend_stage_def stage_defs split: option.splits)

lemma ws_limit_Inr: "ws_limit_stage w st = Some (Inr u, st') \<Longrightarrow> st' = st \<and> gs_ws_connections st < MAX_WS_CONNECTIONS"
  by (auto simp: ws_limit_stage_def stage_defs split: if_splits)

lemma ws_route_Inr: "ws_route_stage w hot host st = Some (Inr r, st') \<Longrightarrow> st' = st \<and> lookup_route (hs_routing hot) host = Some r"
  by (auto simp: ws_route_stage_def ws_resolve_route_lookup stage_defs split: option.splits)

lemma ws_public_Inr: "ws_public_stage w r st = Some (Inr u, st') \<Longrightarrow> st' = st \<and> \<not> (ri_public r \<and> ri_min_role r \<noteq> None)"
  by (auto simp: ws_public_stage_def stage_defs split: if_splits)

lemma ws_role_Inr:
  "ws_role_stage w r b h st = Some (Inr u, st') \<Longrightarrow>
     st' = st \<and> (\<forall>m. ri_min_role r = Some m \<longrightarrow> b \<noteq> None \<or> role_satisfied h m)"
  by (auto simp: ws_role_stage_def stage_defs split: option.splits if_splits)

lemma ws_auth_Inr:
  assumes "ws_auth_stage w r b q st = Some (Inr h, st')"
  shows "kept st st' \<and>
    ((ri_public r \<or> b \<noteq> None) \<and> h = [] \<or>
     \<not> (ri_public r \<or> b \<noteq> None) \<and> ri_soft_auth r \<and> h = [] \<or>
     \<not> (ri_public r \<or> b \<noteq> None) \<and>
       (\<exists>vc'. check_with_degraded_policy (wd_auth w) (ps_volta (gs_service st)) q
          (ri_soft_auth r \<or> ri_min_role r = None) = (Authenticated h, vc')))"
  using assms
  by (auto simp: ws_auth_stage_def call_auth_def stage_defs kept_def
      split: if_splits prod.splits auth_result.splits)

lemma ws_backend_Inr: "ws_backend_stage w host r b st = Some (Inr u, st') \<Longrightarrow> kept st st'"
  by (auto simp: ws_backend_stage_def stage_defs kept_def split: option.splits)

lemma ws_connect_sends:
  assumes "sbind (ws_connect_stage w req) (ws_accept_stage w rq) st = Some (x, st')"
  shows "sends st' = sends st \<or> (\<exists>r. req = Some r \<and> sends st' = sends st @ [EUpgrade r])"
proof -
  have o: "sends (ws_open s) = sends s" for s by (simp add: ws_open_def sends_def)
  show ?thesis
    using assms by (auto simp: sbind_Some_iff ws_connect_stage_def ws_accept_stage_def stage_defs Let_def o
        split: option.splits exchange.splits if_splits)
qed

text \<open>What the gateway knows when an upgrade leaves for a backend.\<close>

definition ws_evidence :: "world \<Rightarrow> request \<Rightarrow> ip_addr \<Rightarrow> gw_state \<Rightarrow> route_info \<Rightarrow> bool \<Rightarrow> volta_headers \<Rightarrow> bool" where
  "ws_evidence w rq remote st r fallback h \<longleftrightarrow>
     (let q = ws_auth_query w rq (host_of rq) (client_of w rq remote st) r
      in online_ok (wd_auth w) (ps_volta (gs_service st)) q h \<or>
         fallback \<and> degraded_ok (wd_auth w) (ps_volta (gs_service st)) q h)"

definition ws_identity :: "world \<Rightarrow> request \<Rightarrow> ip_addr \<Rightarrow> gw_state \<Rightarrow> route_info \<Rightarrow> volta_headers \<Rightarrow> bool" where
  "ws_identity w rq remote st r h \<longleftrightarrow>
     (let skip = (ri_public r \<or> find_bypass (ri_bypass_paths r) (rq_path rq) \<noteq> None)
      in h = [] \<and> (skip \<or> ri_soft_auth r) \<or>
         \<not> skip \<and> ws_evidence w rq remote st r (ri_soft_auth r \<or> ri_min_role r = None) h)"

lemma ws_serve_sends:
  assumes "ws_serve_stage w rq host ip r b h st = Some (x, st')" and "sends st' \<noteq> sends st"
  obtains backend req where "\<forall>m. ri_min_role r = Some m \<longrightarrow> b \<noteq> None \<or> role_satisfied h m"
    "ws_request w (ps_signer (gs_service st)) rq host ip backend h = Some req"
    "sends st' = sends st @ [EUpgrade req]"
proof -
  from quiet_sbind_sends [OF quiet_ws_role assms(1) [unfolded ws_serve_stage_def] assms(2)]
  obtain u s1 where 1: "ws_role_stage w r b h st = Some (Inr u, s1)"
    "sbind (ws_backend_stage w host r b) (\<lambda>backend st. sbind (ws_connect_stage w
       (ws_request w (ps_signer (gs_service st)) rq host ip backend h)) (ws_accept_stage w rq) st) s1 = Some (x, st')"
    by blast
  note role = ws_role_Inr [OF 1(1)]
  from quiet_sbind_sends [OF quiet_ws_backend 1(2)] assms(2) role
  obtain backend s2 where 2: "ws_backend_stage w host r b s1 = Some (Inr backend, s2)" "sends s2 = sends st"
    "sbind (ws_connect_stage w (ws_request w (ps_signer (gs_service s2)) rq host ip backend h)) (ws_accept_stage w rq) s2
       = Some (x, st')" by auto
  from ws_backend_Inr [OF 2(1)] role have "ps_signer (gs_service s2) = ps_signer (gs_service st)" by (simp add: kept_def)
  with ws_connect_sends [OF 2(3)] 2(2) assms(2) role that show thesis by auto
qed

lemma ws_sends:
  assumes "handle_websocket w (ps_hot (gs_service st)) rq remote st = Some (x, st')" and "sends st' \<noteq> sends st"
  obtains r h backend req where "route_of rq st = Some r" "\<not> (ri_public r \<and> ri_min_role r \<noteq> None)"
    "gs_ws_connections st < MAX_WS_CONNECTIONS" "ws_identity w rq remote st r h"
    "\<forall>m. ri_min_role r = Some m \<longrightarrow> find_bypass (ri_bypass_paths r) (rq_path rq) \<noteq> None \<or> role_satisfied h m"
    "ws_request w (ps_signer (gs_service st)) rq (host_of rq) (client_of w rq remote st) backend h = Some req"
    "sends st' = sends st @ [EUpgrade req]"
proof -
  let ?hot = "ps_hot (gs_service st)" and ?ip = "client_of w rq remote st"
  let ?b = "\<lambda>r. find_bypass (ri_bypass_paths r) (rq_path rq)"
  let ?auth = "\<lambda>r. sbind (ws_auth_stage w r (?b r) (ws_auth_query w rq (host_of rq) ?ip r))
     (\<lambda>h. ws_serve_stage w rq (host_of rq) ?ip r (?b r) h)"
  have h: "sbind (ws_limit_stage w) (\<lambda>_. sbind (ws_route_stage w ?hot (host_of rq)) (\<lambda>r.
     sbind (ws_public_stage w r) (\<lambda>_. ?auth r))) st = Some (x, st')"
    using assms(1) unfolding handle_websocket_def Let_def .
  from quiet_sbind_sends [OF quiet_ws_limit h assms(2)] obtain s1 where
    1: "ws_limit_stage w st = Some (Inr (), s1)" "sbind (ws_route_stage w ?hot (host_of rq)) (\<lambda>r.
      sbind (ws_public_stage w r) (\<lambda>_. ?auth r)) s1 = Some (x, st')" by auto
  note lim = ws_limit_Inr [OF 1(1)]
  from quiet_sbind_sends [OF quiet_ws_route 1(2)] lim assms(2) obtain r s2 where
    2: "ws_route_stage w ?hot (host_of rq) s1 = Some (Inr r, s2)" "sbind (ws_public_stage w r) (\<lambda>_. ?auth r) s2 = Some (x, st')"
    by auto
  note rt = ws_route_Inr [OF 2(1)]
  from quiet_sbind_sends [OF quiet_ws_public 2(2)] rt lim assms(2) obtain s3 where
    3: "ws_public_stage w r s2 = Some (Inr (), s3)" "?auth r s3 = Some (x, st')" by auto
  note pub = ws_public_Inr [OF 3(1)]
  from quiet_sbind_sends [OF quiet_ws_auth 3(2)] pub rt lim assms(2) obtain h s4 where
    4: "ws_auth_stage w r (?b r) (ws_auth_query w rq (host_of rq) ?ip r) st = Some (Inr h, s4)" "sends s4 = sends st"
       "ws_serve_stage w rq (host_of rq) ?ip r (?b r) h s4 = Some (x, st')" by auto
  from ws_auth_Inr [OF 4(1)] have k: "ps_signer (gs_service s4) = ps_signer (gs_service st)" by (simp add: kept_def)
  from ws_auth_Inr [OF 4(1)] have id: "ws_identity w rq remote st r h"
    unfolding ws_identity_def ws_evidence_def Let_def by (auto dest: check_authenticated)
  from 4(2,3) assms(2) have "sends st' \<noteq> sends s4" by simp
  from ws_serve_sends [OF 4(3) this] that [OF _ _ _ id] lim rt pub k 4(2) show thesis by metis
qed


text \<open>
  Unlike requests, upgrades are not subject to the per-path auth rules of the route: changing them
  in any way changes neither the answer nor what is sent.
\<close>

theorem upgrades_ignore_auth_rules:
  assumes "hot' = hot \<lparr> hs_routing := (\<lambda>host. map_option (\<lambda>r. r \<lparr> ri_auth_rules := rules host \<rparr>) (hs_routing hot host)) \<rparr>"
  shows "handle_websocket w hot' rq remote = handle_websocket w hot rq remote"
proof
  fix st
  let ?upd = "\<lambda>rs r. r \<lparr> ri_auth_rules := rs \<rparr>"
  have same: "ws_public_stage w (?upd rs r) = ws_public_stage w r"
    "ws_auth_query w rq host ip (?upd rs r) = ws_auth_query w rq host ip r"
    "ws_auth_stage w (?upd rs r) b q = ws_auth_stage w r b q"
    "ws_role_stage w (?upd rs r) b h = ws_role_stage w r b h"
    "ws_backend_stage w host (?upd rs r) b = ws_backend_stage w host r b" for rs r host ip b q h
    by (simp_all add: ws_public_stage_def ws_auth_query_def ws_auth_stage_def
        ws_role_stage_def ws_backend_stage_def fun_eq_iff cong: option.case_cong)
  have serve: "ws_serve_stage w rq host ip (?upd rs r) b = ws_serve_stage w rq host ip r b" for rs r host ip b
    unfolding ws_serve_stage_def same fun_eq_iff by simp
  have ip: "real_client_ip w hot' remote h = real_client_ip w hot remote h" for h
    using assms by (simp add: real_client_ip_def from_trusted_def)
  have f: "ws_route_stage w hot' host = (case ws_resolve_route (hs_routing hot) host of None \<Rightarrow> ws_route_stage w hot host
      | Some r \<Rightarrow> go_on (?upd (if hs_routing hot host = None then rules (''*.'' @ snd (the (split_once CHR ''.'' host))) else rules host) r))" for host
    using assms by (auto simp: ws_route_stage_def ws_resolve_route_def split: option.splits)
  have g: "sbind (ws_route_stage w hot' host) F st = sbind (ws_route_stage w hot host) F st"
    if "\<And>rs r. F (?upd rs r) = F r" for F :: "route_info \<Rightarrow> unit stage" and host st
    unfolding f by (cases "ws_resolve_route (hs_routing hot) host")
      (simp_all add: that sbind_def go_on_def ws_route_stage_def)
  show "handle_websocket w hot' rq remote st = handle_websocket w hot rq remote st"
    unfolding handle_websocket_def Let_def ip sbind_def [of "ws_limit_stage w"]
    by (subst g) (simp_all add: same serve)
qed

section \<open>Interleaved upgrades\<close>

text \<open>
  Handlers run concurrently. A handler that has passed the limit check is pending until its backend
  answers; then it opens a tunnel, or gives up. Tunnels end at any time. The counter is the one of the
  model's stages: \<open>ws_limit_stage\<close> reads it, \<open>ws_open\<close> and \<open>ws_drop\<close> change it.
\<close>

record ws_process =
  wp_state :: gw_state
  wp_pending :: nat
  wp_open :: nat

inductive ws_step :: "world \<Rightarrow> ws_process \<Rightarrow> ws_process \<Rightarrow> bool" for w where
  check: "ws_limit_stage w (wp_state p) = Some (Inr (), st') \<Longrightarrow>
     ws_step w p (p \<lparr> wp_state := st', wp_pending := Suc (wp_pending p) \<rparr>)"
| accept: "wp_pending p = Suc n \<Longrightarrow> ws_accept_stage w rq resp (wp_state p) = Some (Inl answer, st') \<Longrightarrow>
     ws_step w p (p \<lparr> wp_state := st', wp_pending := n, wp_open := Suc (wp_open p) \<rparr>)"
| give_up: "wp_pending p = Suc n \<Longrightarrow> ws_step w p (p \<lparr> wp_pending := n \<rparr>)"
| tunnel_ends: "wp_open p = Suc n \<Longrightarrow>
     ws_step w p (p \<lparr> wp_state := ws_drop (wp_state p), wp_open := n \<rparr>)"

inductive_cases ws_stepE: "ws_step w p p'"

text \<open>Runs in which at most \<open>k\<close> handlers are between the check and the answer at any time.\<close>

inductive ws_reach :: "world \<Rightarrow> nat \<Rightarrow> ws_process \<Rightarrow> bool" for w k where
  start: "gs_ws_connections st = 0 \<Longrightarrow> ws_reach w k \<lparr> wp_state = st, wp_pending = 0, wp_open = 0 \<rparr>"
| step: "ws_reach w k p \<Longrightarrow> ws_step w p p' \<Longrightarrow> wp_pending p' \<le> k \<Longrightarrow> ws_reach w k p'"

lemma ws_accept_state: "ws_accept_stage w rq resp st = Some (Inl answer, st') \<Longrightarrow> st' = ws_open st"
  by (simp add: ws_accept_stage_def finish_def)

definition ws_inv :: "nat \<Rightarrow> ws_process \<Rightarrow> bool" where
  "ws_inv k p \<longleftrightarrow> unat (gs_ws_connections (wp_state p)) = wp_open p \<and> wp_open p + wp_pending p \<le> 1023 + k"

lemma ws_inv_step:
  assumes "ws_step w p p'" and "ws_inv k p" and "wp_pending p' \<le> k" and "k < 2 ^ 63"
  shows "ws_inv k p'"
  using assms(1)
proof cases
  case (check st')
  with ws_limit_Inr [OF check(2)] assms(2,3) have "unat (gs_ws_connections (wp_state p)) < 1024"
    by (simp add: MAX_WS_CONNECTIONS_def word_less_nat_alt)
  with check ws_limit_Inr [OF check(2)] assms(2,3) show ?thesis by (simp add: ws_inv_def)
next
  case (accept n rq resp answer st')
  have "unat (gs_ws_connections (wp_state p)) + 1 < 2 ^ 64" using assms(2,4) by (simp add: ws_inv_def)
  then have "unat (gs_ws_connections (wp_state p) + 1) = wp_open p + 1"
    using assms(2) by (simp add: ws_inv_def unat_word_ariths)
  with accept ws_accept_state [OF accept(3)] assms(2) show ?thesis by (simp add: ws_inv_def ws_open_def)
next
  case (give_up n)
  with assms(2) show ?thesis by (simp add: ws_inv_def)
next
  case (tunnel_ends n)
  then have "gs_ws_connections (wp_state p) \<noteq> 0" using assms(2) by (auto simp: ws_inv_def)
  then have "unat (gs_ws_connections (wp_state p) - 1) = n"
    using tunnel_ends assms(2) by (simp add: ws_inv_def unat_minus_one)
  with tunnel_ends assms(2) show ?thesis by (simp add: ws_inv_def ws_drop_def)
qed

lemma ws_reach_inv:
  assumes "ws_reach w k p" and "k < 2 ^ 63"
  shows "ws_inv k p"
  using assms(1)
proof induction
  case (start st)
  then show ?case by (simp add: ws_inv_def)
next
  case (step p p')
  with ws_inv_step assms(2) show ?case by blast
qed

text \<open>
  The connection counter is exact, and the limit holds up to the number of handlers in flight.
  In every interleaving in which at most \<open>k\<close> upgrades are between their check and their answer, the
  counter equals the number of open tunnels, never wraps, and is at most \<open>1023 + k\<close>; with one upgrade
  at a time it is at most the limit of 1024.
\<close>

theorem ws_connections_bounded:
  assumes "ws_reach w k p" and "k < 2 ^ 63"
  shows "unat (gs_ws_connections (wp_state p)) = wp_open p \<and> wp_open p \<le> 1023 + k"
  using ws_reach_inv [OF assms] by (auto simp: ws_inv_def)

lemma ws_reach_opens:
  fixes st :: gw_state
  assumes "1 \<le> k" and "n \<le> 1023" and "gs_ws_connections st = 0"
  shows "\<exists>st'. ws_reach w k \<lparr> wp_state = st', wp_pending = 0, wp_open = n \<rparr> \<and> gs_ws_connections st' = of_nat n"
  using assms(2)
proof (induction n)
  case 0
  with ws_reach.start [OF assms(3)] assms(3) show ?case by force
next
  case (Suc n)
  then obtain st' where r: "ws_reach w k \<lparr> wp_state = st', wp_pending = 0, wp_open = n \<rparr>"
    and c: "gs_ws_connections st' = of_nat n" by auto
  have "of_nat n < (1024 :: u64)" using Suc.prems by (simp add: word_less_nat_alt unat_of_nat)
  then have l: "ws_limit_stage w st' = Some (Inr (), st')"
    using c by (auto simp: ws_limit_stage_def go_on_def MAX_WS_CONNECTIONS_def dest: leD)
  have 1: "ws_reach w k \<lparr> wp_state = st', wp_pending = 1, wp_open = n \<rparr>"
    using ws_reach.step [OF r ws_step.check] l assms(1) by simp
  have "ws_reach w k \<lparr> wp_state = ws_open st', wp_pending = 0, wp_open = Suc n \<rparr>"
    using ws_reach.step [OF 1 ws_step.accept] by (simp add: ws_accept_stage_def finish_def)
  moreover have "gs_ws_connections (ws_open st') = of_nat (Suc n)" using c by (simp add: ws_open_def)
  ultimately show ?case by blast
qed

text \<open>
  The check and the increment are not one step: two upgrades that are in flight together can both
  pass the check and leave 1025 tunnels open, more than the limit of 1024.
\<close>

theorem ws_limit_exceeded:
  "\<exists>p. ws_reach w 2 p \<and> wp_open p = 1025 \<and> 1024 < unat (gs_ws_connections (wp_state p))"
proof -
  obtain st :: gw_state where "gs_ws_connections st = 0"
    by (rule that [of "undefined \<lparr> gs_ws_connections := 0 \<rparr>"]) simp
  from ws_reach_opens [OF _ _ this, of 2 1023 w] obtain st'
    where r: "ws_reach w 2 \<lparr> wp_state = st', wp_pending = 0, wp_open = 1023 \<rparr>"
      and c: "gs_ws_connections st' = 1023" by auto
  have l: "ws_limit_stage w st' = Some (Inr (), st')"
    using c by (simp add: ws_limit_stage_def go_on_def MAX_WS_CONNECTIONS_def)
  have 1: "ws_reach w 2 \<lparr> wp_state = st', wp_pending = 1, wp_open = 1023 \<rparr>"
    using ws_reach.step [OF r ws_step.check] l by simp
  have 2: "ws_reach w 2 \<lparr> wp_state = st', wp_pending = 2, wp_open = 1023 \<rparr>"
    using ws_reach.step [OF 1 ws_step.check] l by (simp add: numeral_2_eq_2)
  have 3: "ws_reach w 2 \<lparr> wp_state = ws_open st', wp_pending = 1, wp_open = 1024 \<rparr>"
    using ws_reach.step [OF 2 ws_step.accept [where n = 1]] by (simp add: ws_accept_stage_def finish_def)
  have 4: "ws_reach w 2 \<lparr> wp_state = ws_open (ws_open st'), wp_pending = 0, wp_open = 1025 \<rparr>"
    using ws_reach.step [OF 3 ws_step.accept [where n = 0]] by (simp add: ws_accept_stage_def finish_def)
  from ws_reach_inv [OF 4] have "unat (gs_ws_connections (ws_open (ws_open st'))) = 1025" by (simp add: ws_inv_def)
  with 4 show ?thesis by fastforce
qed

section \<open>An upgrade on the concrete gateway\<close>

definition demo_upgrade :: request where
  "demo_upgrade =
     \<lparr> rq_method = ''GET'', rq_path = ''/ws'', rq_query = None, rq_scheme = None,
       rq_headers = [(''host'', HText ''a.io''), (''upgrade'', HText ''websocket''),
         (''x-volta-roles'', HText ''OWNER'')],
       rq_body = [] \<rparr>"

definition demo_switch :: world where
  "demo_switch = demo_gateway (auth_says ''ADMIN'') TimedOut
     (Answer \<lparr> hr_status = 101, hr_headers = [(''upgrade'', HText ''websocket'')], hr_body = [] \<rparr>)"

fun upgrade_shape :: "effect list \<Rightarrow> bool" where
  "upgrade_shape [EUpgrade req] = True"
| "upgrade_shape _ = False"

lemma demo_upgraded:
  "case handle_websocket demo_switch (ps_hot (gs_service (demo_state demo_ri))) demo_upgrade (V4 1) (demo_state demo_ri) of
     Some (Inl resp, st') \<Rightarrow> upgrade_shape (sends st') \<and> hr_status resp = 101 | _ \<Rightarrow> False"
  by code_simp


theorem ws_connections_bounded_witness:
  "unat (gs_ws_connections (wp_state \<lparr> wp_state = demo_state demo_ri, wp_pending = 0, wp_open = 0 \<rparr>)) = 0"
proof -
  have "ws_reach demo_switch 1 \<lparr> wp_state = demo_state demo_ri, wp_pending = 0, wp_open = 0 \<rparr>"
    by (rule ws_reach.start) (simp add: demo_state_def)
  from ws_connections_bounded [OF this] show ?thesis by simp
qed

end
