(* ===== verification/Config_Overlay.thy ===== *)
theory Config_Overlay
  imports Proxy_Service "HOL-Library.Countable"
begin

text \<open>
  The overlay of \<open>gateway/src/config_overlay.rs\<close>: JSON merge patches, the store that keeps the base
  configuration and the patches accumulated through the admin API, its persistence, and the rebuild
  of the hot state. An object is an association list without repeated keys; numbers are kept as
  their text. Parsing and printing (\<open>serde\<close>), and the file system's answers, are parameters.
\<close>

section \<open>JSON merge patches\<close>

datatype json =
    JNull
  | JBool bool
  | JNum string
  | JStr string
  | JArr "json list"
  | JObj "(string \<times> json) list"

fun fields_of :: "json \<Rightarrow> (string \<times> json) list" where
  "fields_of (JObj m) = m"
| "fields_of _ = []"

fun deep_merge :: "json \<Rightarrow> json \<Rightarrow> json"
  and merge_fields :: "(string \<times> json) list \<Rightarrow> (string \<times> json) list \<Rightarrow> (string \<times> json) list" where
  "deep_merge base (JObj patch_map) = JObj (merge_fields (fields_of base) patch_map)"
| "deep_merge base JNull = JNull"
| "deep_merge base (JBool b) = JBool b"
| "deep_merge base (JNum n) = JNum n"
| "deep_merge base (JStr s) = JStr s"
| "deep_merge base (JArr xs) = JArr xs"
| "merge_fields base_map [] = base_map"
| "merge_fields base_map ((k, v) # rest) =
     merge_fields
       (if v = JNull then al_remove k base_map
        else al_insert k (deep_merge (unwrap_or JNull (map_of base_map k)) v) base_map)
       rest"

section \<open>The store\<close>

record apply_result =
  hot_applied :: "string list"
  requires_restart :: "string list"

definition only_trusted :: "json \<Rightarrow> bool" where
  "only_trusted v =
     (case v of JObj m \<Rightarrow> m \<noteq> [] \<and> list_all (\<lambda>(sk, _). sk = ''trusted_proxies'') m | _ \<Rightarrow> False)"

definition classify_key :: "apply_result \<Rightarrow> string \<times> json \<Rightarrow> apply_result" where
  "classify_key result kv =
     (case kv of (k, v) \<Rightarrow>
        (if k = ''routing'' \<or> k = ''error_pages_dir'' then result \<lparr> hot_applied := hot_applied result @ [k] \<rparr>
         else if k = ''server''
           then (if only_trusted v
                 then result \<lparr> hot_applied := hot_applied result @ [''server.trusted_proxies''] \<rparr>
                 else result \<lparr> requires_restart := requires_restart result @ [k] \<rparr>)
         else result \<lparr> requires_restart := requires_restart result @ [k] \<rparr>))"

definition classify_patch :: "json \<Rightarrow> apply_result" where
  "classify_patch patch =
     (case patch of
        JObj m \<Rightarrow> foldl classify_key \<lparr> hot_applied = [], requires_restart = [] \<rparr> m
      | _ \<Rightarrow> \<lparr> hot_applied = [], requires_restart = [] \<rparr>)"

text \<open>
  What the store needs of its surroundings: the parsers, the printer, the deserializer of the
  configuration, and the surroundings of validation.
\<close>

record store_env =
  se_parse_yaml :: "string \<Rightarrow> (string, json) result"
  se_parse_json :: "string \<Rightarrow> (string, json) result"
  se_print_json :: "json \<Rightarrow> string"
  se_from_value :: "json \<Rightarrow> (string, gateway_config) result"
  se_checks :: surroundings

text \<open>The files: the base, the overlay and the temporary file next to it. \<open>None\<close> is a missing file.\<close>

record disk =
  dk_base :: "string option"
  dk_overlay :: "string option"
  dk_tmp :: "string option"

datatype persist_fault = CreateFails | WriteFails string | SyncFails | RenameFails

definition persist :: "store_env \<Rightarrow> persist_fault option \<Rightarrow> json \<Rightarrow> disk \<Rightarrow> (string, unit) result \<times> disk" where
  "persist e fault overlay d =
     (let body = se_print_json e overlay
      in case fault of
           Some CreateFails \<Rightarrow> (Inl ''create overlay tmp'', d)
         | Some (WriteFails partial) \<Rightarrow> (Inl ''write overlay tmp'', d \<lparr> dk_tmp := Some partial \<rparr>)
         | Some SyncFails \<Rightarrow> (Inl ''fsync overlay tmp'', d \<lparr> dk_tmp := Some body \<rparr>)
         | Some RenameFails \<Rightarrow> (Inl ''rename overlay into place'', d \<lparr> dk_tmp := Some body \<rparr>)
         | None \<Rightarrow> (Inr (), d \<lparr> dk_overlay := Some body, dk_tmp := None \<rparr>))"

definition read_base :: "store_env \<Rightarrow> disk \<Rightarrow> (string, json) result" where
  "read_base e d =
     (case dk_base d of None \<Rightarrow> Inl ''read base config'' | Some yaml \<Rightarrow> se_parse_yaml e yaml)"

definition build_effective :: "store_env \<Rightarrow> json \<Rightarrow> json \<Rightarrow> (string, gateway_config) result" where
  "build_effective e base overlay = se_from_value e (deep_merge base overlay)"

record config_store =
  cs_base :: json
  cs_overlay :: json

definition read_overlay :: "store_env \<Rightarrow> disk \<Rightarrow> (string, json) result" where
  "read_overlay e d =
     (case dk_overlay d of
        Some s \<Rightarrow> (if trim s \<noteq> [] then se_parse_json e s else Inr (JObj []))
      | None \<Rightarrow> Inr (JObj []))"

definition load_store :: "store_env \<Rightarrow> disk \<Rightarrow> (string, config_store \<times> gateway_config) result" where
  "load_store e d =
     (case read_base e d of
        Inl m \<Rightarrow> Inl m
      | Inr base \<Rightarrow>
          (case read_overlay e d of
             Inl m \<Rightarrow> Inl m
           | Inr overlay \<Rightarrow>
               (case build_effective e base overlay of
                  Inl m \<Rightarrow> Inl m
                | Inr effective \<Rightarrow> Inr (\<lparr> cs_base = base, cs_overlay = overlay \<rparr>, effective))))"

definition effective_config :: "store_env \<Rightarrow> config_store \<Rightarrow> (string, gateway_config) result" where
  "effective_config e s = build_effective e (cs_base s) (cs_overlay s)"

text \<open>Merge, build and validate; the common part of the dry run and of the real patch.\<close>

definition checked :: "store_env \<Rightarrow> json \<Rightarrow> json \<Rightarrow> (string list, gateway_config) result" where
  "checked e base candidate =
     (case build_effective e base candidate of
        Inl m \<Rightarrow> Inl [m]
      | Inr effective \<Rightarrow>
          (case validate (se_checks e) effective of Inl errs \<Rightarrow> Inl errs | Inr _ \<Rightarrow> Inr effective))"

definition validate_patch ::
    "store_env \<Rightarrow> config_store \<Rightarrow> json \<Rightarrow> (string list, gateway_config \<times> apply_result) result" where
  "validate_patch e s patch =
     (case checked e (cs_base s) (deep_merge (cs_overlay s) patch) of
        Inl errs \<Rightarrow> Inl errs
      | Inr effective \<Rightarrow> Inr (effective, classify_patch patch))"

definition apply_patch ::
    "store_env \<Rightarrow> persist_fault option \<Rightarrow> json \<Rightarrow> config_store \<Rightarrow> disk \<Rightarrow>
     (string list, gateway_config \<times> apply_result) result \<times> config_store \<times> disk" where
  "apply_patch e fault patch s d =
     (let candidate = deep_merge (cs_overlay s) patch
      in case checked e (cs_base s) candidate of
           Inl errs \<Rightarrow> (Inl errs, s, d)
         | Inr effective \<Rightarrow>
             (case persist e fault candidate d of
                (Inl m, d') \<Rightarrow> (Inl [m], s, d')
              | (Inr _, d') \<Rightarrow> (Inr (effective, classify_patch patch), s \<lparr> cs_overlay := candidate \<rparr>, d')))"

definition clear_overlay ::
    "store_env \<Rightarrow> persist_fault option \<Rightarrow> config_store \<Rightarrow> disk \<Rightarrow>
     (string list, gateway_config) result \<times> config_store \<times> disk" where
  "clear_overlay e fault s d =
     (case checked e (cs_base s) (JObj []) of
        Inl errs \<Rightarrow> (Inl errs, s, d)
      | Inr effective \<Rightarrow>
          (case persist e fault (JObj []) d of
             (Inl m, d') \<Rightarrow> (Inl [m], s, d')
           | (Inr _, d') \<Rightarrow> (Inr effective, s \<lparr> cs_overlay := JObj [] \<rparr>, d')))"

definition reload :: "store_env \<Rightarrow> config_store \<Rightarrow> disk \<Rightarrow> (string list, gateway_config) result \<times> config_store" where
  "reload e s d =
     (case read_base e d of
        Inl m \<Rightarrow> (Inl [m], s)
      | Inr base \<Rightarrow>
          (case checked e base (cs_overlay s) of
             Inl errs \<Rightarrow> (Inl errs, s)
           | Inr effective \<Rightarrow> (Inr effective, s \<lparr> cs_base := base \<rparr>)))"

section \<open>Rebuilding the hot state\<close>

definition rebuild_hot_inner ::
    "surroundings \<Rightarrow> (string option \<Rightarrow> nat \<rightharpoonup> string) \<Rightarrow> gateway_config \<Rightarrow> routing_table option \<Rightarrow> hot_state" where
  "rebuild_hot_inner e load_pages cfg dynamic =
     (let routing = routing_table cfg ++ (case dynamic of Some dyn_routes \<Rightarrow> dyn_routes | None \<Rightarrow> Map.empty)
      in new_full routing (ip_allowlist_table e cfg) (load_pages (gc_error_pages_dir cfg)) (cors_table cfg)
           (List.map_filter (parse_cidr e) (sv_trusted_proxies (gc_server cfg))))"

definition rebuild_hot :: "surroundings \<Rightarrow> (string option \<Rightarrow> nat \<rightharpoonup> string) \<Rightarrow> gateway_config \<Rightarrow> hot_state" where
  "rebuild_hot e load_pages cfg = rebuild_hot_inner e load_pages cfg None"

definition rebuild_hot_with_dynamic ::
    "surroundings \<Rightarrow> (string option \<Rightarrow> nat \<rightharpoonup> string) \<Rightarrow> gateway_config \<Rightarrow> routing_table \<Rightarrow> hot_state" where
  "rebuild_hot_with_dynamic e load_pages cfg dynamic = rebuild_hot_inner e load_pages cfg (Some dynamic)"

section \<open>Merge patches: meaning\<close>

text \<open>No key twice in any object; arrays are opaque to merging.\<close>

fun wf_json :: "json \<Rightarrow> bool" where
  "wf_json (JObj m) \<longleftrightarrow> distinct (map fst m) \<and> list_all (\<lambda>(k, v). wf_json v) m"
| "wf_json _ \<longleftrightarrow> True"

definition jget :: "string \<Rightarrow> json \<Rightarrow> json option" where
  "jget k j = map_of (fields_of j) k"

lemma merge_fields_get:
  assumes "distinct (map fst pm)"
  shows "map_of (merge_fields m pm) k =
    (case map_of pm k of
       None \<Rightarrow> map_of m k
     | Some v \<Rightarrow> (if v = JNull then None else Some (deep_merge (unwrap_or JNull (map_of m k)) v)))"
  using assms
proof (induction pm arbitrary: m)
  case (Cons kv pm)
  obtain k' v' where kv: "kv = (k', v')" by fastforce
  have "map_of pm k' = None" using Cons.prems by (simp add: kv map_of_eq_None_iff)
  then show ?case using Cons.IH Cons.prems by (auto simp: kv split: option.splits)
qed simp

text \<open>What a value looks like along a path of keys; objects are equal when they look alike along all paths.\<close>

datatype jleaf = LObject | LValue json

fun jview :: "json \<Rightarrow> string list \<Rightarrow> jleaf option" where
  "jview (JObj m) [] = Some LObject"
| "jview (JObj m) (k # ks) = (case map_of m k of None \<Rightarrow> None | Some v \<Rightarrow> jview v ks)"
| "jview v [] = Some (LValue v)"
| "jview v (k # ks) = None"

lemma jview_object: "jview j [] = Some LObject \<longleftrightarrow> (\<exists>m. j = JObj m)"
  by (cases j) auto

lemma jview_fields: "jview (JObj (fields_of j)) (k # ks) = jview j (k # ks)"
  by (cases j) auto

lemma jview_step: "jview j (k # ks) = (case jget k j of None \<Rightarrow> None | Some v \<Rightarrow> jview v ks)"
  by (cases j) (auto simp: jget_def split: option.splits)

lemma deep_merge_jget:
  assumes "wf_json (JObj pm)"
  shows "jget k (deep_merge base (JObj pm)) =
    (case map_of pm k of
       None \<Rightarrow> jget k base
     | Some v \<Rightarrow> (if v = JNull then None else Some (deep_merge (unwrap_or JNull (jget k base)) v)))"
  unfolding jget_def deep_merge.simps fields_of.simps by (rule merge_fields_get) (use assms in simp)

lemma wf_json_get: "wf_json (JObj m) \<Longrightarrow> map_of m k = Some v \<Longrightarrow> wf_json v"
  by (auto simp: list_all_iff dest: map_of_SomeD)

lemma jview_deep_merge_cong:
  assumes "wf_json p" and "jview a = jview b"
  shows "jview (deep_merge a p) = jview (deep_merge b p)"
  using assms
proof (induction p arbitrary: a b)
  case (JObj pm)
  show ?case
  proof
    fix ks
    show "jview (deep_merge a (JObj pm)) ks = jview (deep_merge b (JObj pm)) ks"
    proof (cases ks)
      case (Cons k ks')
      show ?thesis
      proof (cases "map_of pm k")
        case None
        then show ?thesis
          using JObj.prems(2) jview_step [of a k ks'] jview_step [of b k ks'] jview_step [of "deep_merge a (JObj pm)" k ks']
            jview_step [of "deep_merge b (JObj pm)" k ks'] deep_merge_jget [OF JObj.prems(1), of k]
          by (simp add: Cons fun_eq_iff)
      next
        case (Some v)
        have eq: "jview (unwrap_or JNull (jget k a)) = jview (unwrap_or JNull (jget k b))"
        proof -
          have e: "(case jget k a of None \<Rightarrow> None | Some v \<Rightarrow> jview v ks) = (case jget k b of None \<Rightarrow> None | Some v \<Rightarrow> jview v ks)" for ks
            using JObj.prems(2) jview_step [of a k ks] jview_step [of b k ks] by simp
          have n: "jview v [] \<noteq> None" for v by (cases v) auto
          show ?thesis
          proof (cases "jget k a")
            case None
            then have "jget k b = None" using e [of "[]"] n [THEN not_sym] by (cases "jget k b") simp_all
            with None show ?thesis by simp
          next
            case (Some va)
            then obtain vb where vb: "jget k b = Some vb" using e [of "[]"] n [of va] by (cases "jget k b") simp_all
            show ?thesis using e unfolding Some vb by (auto simp: fun_eq_iff)
          qed
        qed
        have "(k, v) \<in> set pm" using Some by (rule map_of_SomeD)
        from JObj.IH [OF this _ wf_json_get [OF JObj.prems(1) Some] eq]
        have "jview (deep_merge (unwrap_or JNull (jget k a)) v) = jview (deep_merge (unwrap_or JNull (jget k b)) v)" by simp
        then show ?thesis
          unfolding Cons jview_step deep_merge_jget [OF JObj.prems(1)] by (simp add: Some)
      qed
    qed simp
  qed
qed simp_all

lemma deep_merge_idem:
  assumes "wf_json p"
  shows "jview (deep_merge (deep_merge b p) p) = jview (deep_merge b p)"
  using assms
proof (induction p arbitrary: b)
  case (JObj pm)
  show ?case
  proof
    fix ks
    show "jview (deep_merge (deep_merge b (JObj pm)) (JObj pm)) ks = jview (deep_merge b (JObj pm)) ks"
    proof (cases ks)
      case (Cons k ks')
      have "jview (deep_merge (deep_merge c v) v) = jview (deep_merge c v)" if "map_of pm k = Some v" for v c
        using JObj.IH [OF map_of_SomeD [OF that] _ wf_json_get [OF JObj.prems that]] by simp
      then show ?thesis
        unfolding Cons jview_step deep_merge_jget [OF JObj.prems] by (auto split: option.splits)
    qed simp
  qed
qed simp_all

text \<open>
  Merging follows RFC 7386. Under a key of the patch the result has nothing if the patch says
  \<open>null\<close> there, and otherwise the patch's value merged into what was there; every other key is
  untouched. Applying the same patch twice gives what applying it once gives.
\<close>

theorem deep_merge_is_merge_patch:
  assumes "wf_json (JObj pm)"
  shows "jget k (deep_merge base (JObj pm)) =
      (case map_of pm k of
         None \<Rightarrow> jget k base
       | Some v \<Rightarrow> (if v = JNull then None else Some (deep_merge (unwrap_or JNull (jget k base)) v))) \<and>
    jview (deep_merge (deep_merge base (JObj pm)) (JObj pm)) = jview (deep_merge base (JObj pm))"
  using deep_merge_jget [OF assms] deep_merge_idem [OF assms] by blast

theorem deep_merge_is_merge_patch_witness:
  "jget ''b'' (deep_merge (JObj [(''a'', JNum ''1''), (''b'', JNum ''2'')]) (JObj [(''b'', JNull), (''c'', JNum ''3'')])) = None"
proof -
  have "wf_json (JObj [(''b'', JNull), (''c'', JNum ''3'')])" by code_simp
  from conjunct1 [OF deep_merge_is_merge_patch [OF this, of "''b''" "JObj [(''a'', JNum ''1''), (''b'', JNum ''2'')]"]]
  show ?thesis by simp
qed

text \<open>
  A patch with \<open>null\<close> cannot delete what the base file sets: the key goes from the overlay, and the
  base's value comes back.
\<close>

theorem null_patch_restores_base:
  assumes "wf_json overlay" and "\<exists>m. overlay = JObj m"
  shows "jget k (deep_merge base (deep_merge overlay (JObj [(k, JNull)]))) = jget k base"
proof -
  obtain m where m: "overlay = JObj m" using assms(2) by blast
  have "list_all (\<lambda>(k, v). wf_json v) (al_remove k m)" using assms(1) by (auto simp: m list_all_iff al_remove_def)
  then have "wf_json (JObj (al_remove k m))" using assms(1) by (simp add: m)
  from deep_merge_jget [OF this, of k base] show ?thesis by (simp add: m)
qed

section \<open>The store: transactions and restarts\<close>

lemma checked_valid:
  assumes "checked e base overlay = Inr effective"
  shows "build_effective e base overlay = Inr effective \<and> validate (se_checks e) effective = Inr ()"
  using assms by (auto simp: checked_def split: sum.splits)

text \<open>Documented behaviour of \<open>serde_json\<close>: what is printed is read back, and is not blank.\<close>

definition json_roundtrips :: "store_env \<Rightarrow> bool" where
  "json_roundtrips e \<longleftrightarrow> (\<forall>v. se_parse_json e (se_print_json e v) = Inr v \<and> trim (se_print_json e v) \<noteq> [])"

lemma persist_cases:
  assumes "persist e fault v d = (r, d')"
  shows "dk_base d' = dk_base d \<and>
    (r = Inr () \<and> fault = None \<and> dk_overlay d' = Some (se_print_json e v) \<or>
     (\<exists>m. r = Inl m) \<and> dk_overlay d' = dk_overlay d)"
  using assms by (auto simp: persist_def Let_def split: option.splits persist_fault.splits)

lemma persist_read: "json_roundtrips e \<Longrightarrow> dk_overlay d = Some (se_print_json e v) \<Longrightarrow> read_overlay e d = Inr v"
  by (simp add: json_roundtrips_def read_overlay_def)

lemma read_overlay_cong: "dk_overlay d' = dk_overlay d \<Longrightarrow> read_overlay e d' = read_overlay e d"
  by (simp add: read_overlay_def)

text \<open>
  C40: a patch is applied entirely or not at all, and the dry run tells the truth. If anything fails,
  the merge, the validation or any step of writing the file, the store and the overlay file are as
  before. If the patch is accepted, the dry run predicted the same answer, the configuration returned
  passed validation and is the store's effective configuration, and the overlay file reads back as the
  store's overlay.
\<close>

theorem patch_all_or_nothing:
  assumes "apply_patch e fault patch s d = (r, s', d')" and "json_roundtrips e"
  shows "case r of
      Inl errs \<Rightarrow> s' = s \<and> dk_overlay d' = dk_overlay d
    | Inr (effective, result) \<Rightarrow>
        validate_patch e s patch = Inr (effective, result) \<and>
        validate (se_checks e) effective = Inr () \<and> effective_config e s' = Inr effective \<and>
        cs_base s' = cs_base s \<and> read_overlay e d' = Inr (cs_overlay s')"
proof (cases "checked e (cs_base s) (deep_merge (cs_overlay s) patch)")
  case (Inl errs)
  with assms(1) show ?thesis by (auto simp: apply_patch_def)
next
  case (Inr effective)
  obtain pr d1 where p: "persist e fault (deep_merge (cs_overlay s) patch) d = (pr, d1)" by fastforce
  from persist_cases [OF p] assms(1) Inr checked_valid [OF Inr] persist_read [OF assms(2)] show ?thesis
    by (auto simp: apply_patch_def Let_def p validate_patch_def effective_config_def)
qed

datatype store_op = OpPatch "persist_fault option" json | OpClear "persist_fault option" | OpReload | OpEditBase string

text \<open>One operation of the admin API, or an edit of the base file from outside.\<close>

fun store_step :: "store_env \<Rightarrow> store_op \<Rightarrow> config_store \<times> disk \<Rightarrow> config_store \<times> disk" where
  "store_step e (OpPatch fault p) (s, d) = snd (apply_patch e fault p s d)"
| "store_step e (OpClear fault) (s, d) = snd (clear_overlay e fault s d)"
| "store_step e OpReload (s, d) = (snd (reload e s d), d)"
| "store_step e (OpEditBase yaml) (s, d) = (s, d \<lparr> dk_base := Some yaml \<rparr>)"

definition store_inv :: "store_env \<Rightarrow> config_store \<times> disk \<Rightarrow> bool" where
  "store_inv e sd \<longleftrightarrow> read_overlay e (snd sd) = Inr (cs_overlay (fst sd))"

lemma store_inv_step:
  assumes "json_roundtrips e" and "store_inv e sd"
  shows "store_inv e (store_step e op sd)"
proof -
  obtain s d where sd: "sd = (s, d)" by fastforce
  show ?thesis
  proof (cases op)
    case (OpPatch fault p)
    obtain r s' d' where a: "apply_patch e fault p s d = (r, s', d')" by (rule prod_cases3)
    obtain pr d1 where pp: "persist e fault (deep_merge (cs_overlay s) p) d = (pr, d1)" by fastforce
    from a pp persist_cases [OF pp] persist_read [OF assms(1)] assms(2) read_overlay_cong [of d' d e] show ?thesis
      by (auto simp: sd OpPatch store_inv_def apply_patch_def Let_def split: sum.splits)
  next
    case (OpClear fault)
    obtain pr d1 where pp: "persist e fault (JObj []) d = (pr, d1)" by fastforce
    from pp persist_cases [OF pp] persist_read [OF assms(1)] assms(2) read_overlay_cong [of d1 d e] show ?thesis
      by (auto simp: sd OpClear store_inv_def clear_overlay_def split: sum.splits)
  next
    case OpReload
    with assms(2) show ?thesis by (auto simp: sd store_inv_def reload_def split: sum.splits)
  next
    case (OpEditBase yaml)
    with assms(2) show ?thesis by (simp add: sd store_inv_def read_overlay_def)
  qed
qed

text \<open>
  Changes made through the admin API survive a restart. After any sequence of patches, clearings,
  reloads and edits of the base file, with or without failing writes, a fresh load finds the overlay
  the running store has; and when the base file is the one the store last read, it finds the same
  store with the same effective configuration.
\<close>

theorem restart_keeps_overlay:
  assumes "json_roundtrips e" and "load_store e d0 = Inr (s0, eff0)"
    and "fold (store_step e) ops (s0, d0) = (s, d)"
  shows "read_overlay e d = Inr (cs_overlay s) \<and>
    (read_base e d = Inr (cs_base s) \<longrightarrow>
       (\<forall>eff. effective_config e s = Inr eff \<longrightarrow> load_store e d = Inr (s, eff)))"
proof -
  have "store_inv e (s0, d0)" using assms(2)
    by (auto simp: load_store_def store_inv_def split: sum.splits)
  then have "store_inv e (fold (store_step e) ops (s0, d0))"
    using store_inv_step [OF assms(1)] by (induction ops arbitrary: s0 d0) (simp_all, metis prod.collapse)
  with assms(3) have "read_overlay e d = Inr (cs_overlay s)" by (simp add: store_inv_def)
  then show ?thesis by (auto simp: load_store_def effective_config_def)
qed

section \<open>From an accepted patch to the hot state\<close>

lemma rebuilt_routing:
  "hs_routing (rebuild_hot_with_dynamic e pages cfg dyn_routes) h =
     (case dyn_routes h of Some ri \<Rightarrow> Some ri | None \<Rightarrow> routing_table cfg h)"
  by (simp add: rebuild_hot_with_dynamic_def rebuild_hot_inner_def new_full_def Let_def map_add_def)

lemma rebuild_hot_static: "rebuild_hot e pages cfg = rebuild_hot_with_dynamic e pages cfg Map.empty"
  by (simp add: rebuild_hot_def rebuild_hot_with_dynamic_def rebuild_hot_inner_def)

text \<open>
  What the admin API's patch handler installs. After an accepted patch, the hot state rebuilt
  from the returned configuration and the dynamic routes serves every dynamic route as published,
  and every other route in it is servable and consistent (\<open>route_ok\<close>): a patch can never put a route
  into service that startup validation would have refused.
\<close>

theorem patched_routes_valid:
  assumes "apply_patch e fault patch s d = (Inr (effective, result), s', d')"
  shows "(dyn_routes h = Some ri \<longrightarrow>
      hs_routing (rebuild_hot_with_dynamic (se_checks e) pages effective dyn_routes) h = Some ri) \<and>
    (dyn_routes h = None \<and>
      hs_routing (rebuild_hot_with_dynamic (se_checks e) pages effective dyn_routes) h = Some ri \<longrightarrow> route_ok ri)"
proof -
  have "checked e (cs_base s) (deep_merge (cs_overlay s) patch) = Inr effective"
    using assms by (auto simp: apply_patch_def Let_def split: sum.splits prod.splits)
  from checked_valid [OF this] have "validate_detailed (se_checks e) effective = Inr ()"
    by (auto simp: validate_def split: sum.splits)
  from validated_route [OF this] show ?thesis by (auto simp: rebuilt_routing)
qed

section \<open>A concrete store\<close>

text \<open>
  A serializer for the examples: a value is written as so many letters as its number in an
  enumeration of all values, and read back by counting.
\<close>

instance json :: countable
  by countable_datatype

definition demo_store_env :: store_env where
  "demo_store_env =
     \<lparr> se_parse_yaml = (\<lambda>_. Inr (JObj [(''domain'', JStr ''x.io'')])),
       se_parse_json = (\<lambda>s. Inr (from_nat (length s - 1))),
       se_print_json = (\<lambda>v. replicate (Suc (to_nat v)) CHR ''x''),
       se_from_value = (\<lambda>v. Inr (sample_config [sample_route ''A.io''])),
       se_checks = sample_env \<rparr>"

definition demo_disk :: disk where
  "demo_disk = \<lparr> dk_base = Some ''domain: x.io'', dk_overlay = None, dk_tmp = None \<rparr>"

definition demo_store :: config_store where
  "demo_store = \<lparr> cs_base = JObj [(''domain'', JStr ''x.io'')], cs_overlay = JObj [] \<rparr>"

definition demo_patch :: json where
  "demo_patch = JObj [(''error_pages_dir'', JStr ''/p''), (''server'', JObj [(''port'', JNum ''1'')])]"

definition demo_overlay :: json where
  "demo_overlay = deep_merge (JObj []) demo_patch"

lemma demo_merge: "deep_merge (cs_overlay demo_store) demo_patch = demo_overlay"
  by (simp add: demo_store_def demo_overlay_def)

lemma demo_roundtrips: "json_roundtrips demo_store_env"
proof -
  have x: "trim (replicate (Suc n) CHR ''x'') \<noteq> []" for n
  proof -
    have "\<not> is_space CHR ''x''" by code_simp
    then show ?thesis by (simp add: trim_def)
  qed
  show ?thesis unfolding json_roundtrips_def demo_store_env_def using x by simp
qed

lemma demo_checked: "checked demo_store_env base candidate = Inr (sample_config [sample_route ''A.io''])"
  by (simp add: checked_def build_effective_def demo_store_env_def validate_def sample_valid)

lemma demo_apply:
  "apply_patch demo_store_env None demo_patch demo_store demo_disk =
     (Inr (sample_config [sample_route ''A.io''], \<lparr> hot_applied = [''error_pages_dir''], requires_restart = [''server''] \<rparr>),
      demo_store \<lparr> cs_overlay := demo_overlay \<rparr>,
      demo_disk \<lparr> dk_overlay := Some (se_print_json demo_store_env demo_overlay) \<rparr>)"
proof -
  have c: "classify_patch demo_patch = \<lparr> hot_applied = [''error_pages_dir''], requires_restart = [''server''] \<rparr>" by code_simp
  show ?thesis unfolding apply_patch_def demo_merge demo_checked c by (simp add: persist_def demo_disk_def)
qed

theorem patch_all_or_nothing_witness:
  "validate_patch demo_store_env demo_store demo_patch =
     Inr (sample_config [sample_route ''A.io''], \<lparr> hot_applied = [''error_pages_dir''], requires_restart = [''server''] \<rparr>) \<and>
   snd (apply_patch demo_store_env (Some RenameFails) demo_patch demo_store demo_disk) =
     (demo_store, demo_disk \<lparr> dk_tmp := Some (se_print_json demo_store_env demo_overlay) \<rparr>)"
proof
  show "validate_patch demo_store_env demo_store demo_patch =
      Inr (sample_config [sample_route ''A.io''], \<lparr> hot_applied = [''error_pages_dir''], requires_restart = [''server''] \<rparr>)"
    using patch_all_or_nothing [OF demo_apply demo_roundtrips] by simp
  show "snd (apply_patch demo_store_env (Some RenameFails) demo_patch demo_store demo_disk) =
      (demo_store, demo_disk \<lparr> dk_tmp := Some (se_print_json demo_store_env demo_overlay) \<rparr>)"
    unfolding apply_patch_def demo_merge demo_checked by (simp add: persist_def)
qed

lemma demo_load: "load_store demo_store_env demo_disk = Inr (demo_store, sample_config [sample_route ''A.io''])"
  by (simp add: load_store_def read_base_def read_overlay_def build_effective_def demo_store_env_def demo_disk_def demo_store_def)

theorem restart_keeps_overlay_witness:
  "load_store demo_store_env (demo_disk \<lparr> dk_overlay := Some (se_print_json demo_store_env demo_overlay) \<rparr>) =
     Inr (demo_store \<lparr> cs_overlay := demo_overlay \<rparr>, sample_config [sample_route ''A.io''])"
proof -
  let ?s = "demo_store \<lparr> cs_overlay := demo_overlay \<rparr>"
  let ?d = "demo_disk \<lparr> dk_overlay := Some (se_print_json demo_store_env demo_overlay) \<rparr>"
  have "fold (store_step demo_store_env) [OpPatch None demo_patch] (demo_store, demo_disk) = (?s, ?d)"
    by (simp add: demo_apply)
  from restart_keeps_overlay [OF demo_roundtrips demo_load this]
  have "read_base demo_store_env ?d = Inr (cs_base ?s) \<longrightarrow>
      (\<forall>eff. effective_config demo_store_env ?s = Inr eff \<longrightarrow> load_store demo_store_env ?d = Inr (?s, eff))" by blast
  moreover have "read_base demo_store_env ?d = Inr (cs_base ?s)"
    by (simp add: read_base_def demo_store_env_def demo_disk_def demo_store_def)
  moreover have "effective_config demo_store_env ?s = Inr (sample_config [sample_route ''A.io''])"
    by (simp add: effective_config_def build_effective_def demo_store_env_def)
  ultimately show ?thesis by blast
qed

theorem patched_routes_valid_witness:
  "\<exists>ri. hs_routing (rebuild_hot_with_dynamic sample_env (\<lambda>_. Map.empty) (sample_config [sample_route ''A.io''])
      Map.empty) ''a.io'' = Some ri \<and> route_ok ri"
proof -
  have t: "routing_table (sample_config [sample_route ''A.io'']) ''a.io'' = Some (route_info_of (sample_route ''A.io''))"
    by code_simp
  have c: "se_checks demo_store_env = sample_env" by (simp add: demo_store_env_def)
  from patched_routes_valid [OF demo_apply, of Map.empty "''a.io''" "route_info_of (sample_route ''A.io'')" "\<lambda>_. Map.empty"] t
  show ?thesis by (auto simp: c rebuilt_routing)
qed

end
