(* ===== verification/Gateway_Front.thy ===== *)
theory Gateway_Front
  imports Websocket Config_Overlay
begin

text \<open>
  The service of a gateway connection (\<open>gateway/src/main.rs\<close>, \<open>lifecycle.rs\<close>, \<open>admin_auth.rs\<close>): the redirect to HTTPS,
  metrics, health, the admin API over the configuration store and the circuit breaker, and everything else handed
  to the proxy. The texts of listings and metrics, the serialisation of the configuration and reading a body are
  parameters.
\<close>

section \<open>Decisions\<close>

datatype health_status = HealthOk | HealthDegraded | HealthDraining

fun health_status_code :: "health_status \<Rightarrow> nat" where
  "health_status_code HealthOk = 200"
| "health_status_code HealthDegraded = 503"
| "health_status_code HealthDraining = 503"

fun health_body :: "health_status \<Rightarrow> string" where
  "health_body HealthOk = ''{\"status\":\"ok\",\"volta\":\"ok\"}''"
| "health_body HealthDegraded = ''{\"status\":\"degraded\",\"volta\":\"down\"}''"
| "health_body HealthDraining = ''{\"status\":\"draining\",\"volta\":\"unknown\"}''"

definition healthz_status :: "bool \<Rightarrow> bool \<Rightarrow> health_status" where
  "healthz_status draining volta_ok =
     (if draining then HealthDraining else if volta_ok then HealthOk else HealthDegraded)"

definition should_accept_new :: "bool \<Rightarrow> bool" where
  "should_accept_new draining \<longleftrightarrow> \<not> draining"

datatype admin_auth = AdminAllow | AdminUnauthorized | WriteDisabled

definition admin_decide :: "string option \<Rightarrow> string option \<Rightarrow> bool \<Rightarrow> admin_auth" where
  "admin_decide expected auth_header is_mutating =
     (case expected of
        Some tok \<Rightarrow>
          (if Option.bind auth_header (\<lambda>v. strip_prefix v ''Bearer '') = Some tok then AdminAllow else AdminUnauthorized)
      | None \<Rightarrow> (if is_mutating then WriteDisabled else AdminAllow))"

definition json_resp :: "nat \<Rightarrow> string \<Rightarrow> http_response" where
  "json_resp status body =
     \<lparr> hr_status = status, hr_headers = [(''content-type'', HText ''application/json'')], hr_body = body \<rparr>"

definition healthz_response :: "health_status \<Rightarrow> http_response" where
  "healthz_response s = json_resp (health_status_code s) (health_body s)"

definition admin_loopback_denied_response :: http_response where
  "admin_loopback_denied_response =
     \<lparr> hr_status = 403, hr_headers = [], hr_body = ''{\"error\":\"admin API is localhost only\"}'' \<rparr>"

definition admin_unauthorized_response :: http_response where
  "admin_unauthorized_response =
     \<lparr> hr_status = 401, hr_headers = [(''content-type'', HText ''application/json''), (''www-authenticate'', HText ''Bearer'')],
       hr_body = ''{\"error\":\"unauthorized\"}'' \<rparr>"

section \<open>State and surroundings\<close>

record front_state =
  fs_gateway :: gw_state
  fs_store :: config_store
  fs_disk :: disk
  fs_draining :: bool
  fs_dynamic :: routing_table

record front_env =
  fe_world :: world
  fe_store :: store_env
  fe_fault :: "persist_fault option"
  fe_load_pages :: "string option \<Rightarrow> nat \<rightharpoonup> string"
  fe_force_https :: bool
  fe_tls_port :: nat
  fe_admin_token :: "string option"
  fe_volta_ok :: bool
  fe_metrics :: "gw_state \<Rightarrow> string"
  fe_routes :: "routing_table \<Rightarrow> string"
  fe_backends :: "proxy_service \<Rightarrow> string"
  fe_stats :: "gw_state \<Rightarrow> string"
  fe_config_value :: "gateway_config \<Rightarrow> json"
  fe_utf8_lossy :: "string \<Rightarrow> string"
  fe_collect :: "string \<Rightarrow> string option"

abbreviation fs_hot :: "front_state \<Rightarrow> hot_state" where
  "fs_hot fs \<equiv> ps_hot (gs_service (fs_gateway fs))"

definition set_hot :: "hot_state \<Rightarrow> front_state \<Rightarrow> front_state" where
  "set_hot hot fs = fs \<lparr> fs_gateway := fs_gateway fs \<lparr> gs_service := gs_service (fs_gateway fs) \<lparr> ps_hot := hot \<rparr> \<rparr> \<rparr>"

definition front_rebuild :: "front_env \<Rightarrow> gateway_config \<Rightarrow> front_state \<Rightarrow> front_state" where
  "front_rebuild e cfg fs = set_hot (rebuild_hot_with_dynamic (se_checks (fe_store e)) (fe_load_pages e) cfg (fs_dynamic fs)) fs"

section \<open>Redirect, routing of the admin API, decoding\<close>

definition https_redirect :: "front_env \<Rightarrow> request \<Rightarrow> http_response option" where
  "https_redirect e rq =
     (if fe_force_https e \<and> \<not> (rq_path rq = ''/healthz'' \<or> rq_path rq = ''/metrics'' \<or> starts_with (rq_path rq) ''/.well-known/'')
      then (let host = unwrap_or ''localhost'' (h_str (rq_headers rq) ''host'');
                host_no_port = (if starts_with host ''['' then hd (split_on CHR '']'' host) @ '']'' else hd (split_on CHR '':'' host));
                location = ''https://'' @ host_no_port
                  @ (if fe_tls_port e = 443 then [] else '':'' @ show_nat (fe_tls_port e)) @ path_and_query rq
            in Some \<lparr> hr_status = 301, hr_headers = [(''location'', HText location)], hr_body = ''Moved Permanently'' \<rparr>)
      else None)"

definition admin_host_routed :: "routing_table \<Rightarrow> request \<Rightarrow> bool" where
  "admin_host_routed routing rq =
     (let host = (case h_str (rq_headers rq) ''host'' of None \<Rightarrow> [] | Some raw \<Rightarrow> normalize_host raw)
      in routing host \<noteq> None \<or> (case split_once dot host of None \<Rightarrow> False | Some (_, d) \<Rightarrow> routing (''*.'' @ d) \<noteq> None))"

definition admin_for_gateway :: "routing_table \<Rightarrow> request \<Rightarrow> bool" where
  "admin_for_gateway routing rq \<longleftrightarrow> starts_with (rq_path rq) ''/admin/'' \<and> \<not> admin_host_routed routing rq"

fun peer_is_loopback :: "ip_addr \<Rightarrow> bool" where
  "peer_is_loopback (V4 a) \<longleftrightarrow> unat a div 2 ^ 24 = 127"
| "peer_is_loopback (V6 a) \<longleftrightarrow> a = 1"

definition to_digit16 :: "char \<Rightarrow> nat option" where
  "to_digit16 c =
     (let n = of_char c :: nat
      in if 48 \<le> n \<and> n \<le> 57 then Some (n - 48)
         else if 97 \<le> n \<and> n \<le> 102 then Some (n - 87)
         else if 65 \<le> n \<and> n \<le> 70 then Some (n - 55) else None)"

fun decode_bytes :: "string \<Rightarrow> string" where
  "decode_bytes (c # x # y # s) =
     (if c = CHR ''%''
      then (case (to_digit16 x, to_digit16 y) of
              (Some h, Some l) \<Rightarrow> char_of (h * 16 + l) # decode_bytes s
            | _ \<Rightarrow> c # decode_bytes (x # y # s))
      else c # decode_bytes (x # y # s))"
| "decode_bytes s = s"

definition percent_decode :: "front_env \<Rightarrow> string \<Rightarrow> string" where
  "percent_decode e s = fe_utf8_lossy e (decode_bytes s)"

definition reset_target :: "request \<Rightarrow> string option" where
  "reset_target rq =
     (if rq_method rq = ''POST''
      then (case strip_prefix (rq_path rq) ''/admin/backends/'' of
              None \<Rightarrow> None
            | Some rest \<Rightarrow> map_option rev (strip_prefix (rev rest) (rev ''/reset'')))
      else None)"

section \<open>Redaction\<close>

definition secret_paths :: "(string \<times> string) list" where
  "secret_paths =
     [(''auth'', ''jwt_secret''), (''auth'', ''gateway_assertion_secret''), (''auth'', ''gateway_assertion_previous_secret''),
      (''admin'', ''token''), (''tls'', ''dns_api_token'')]"

definition null_field :: "string \<Rightarrow> json \<Rightarrow> json" where
  "null_field k v =
     (case v of
        JObj m \<Rightarrow> (if map_of m k = None then v else JObj (map (\<lambda>(k', x). (k', if k' = k then JNull else x)) m))
      | _ \<Rightarrow> v)"

definition redact_path :: "string \<times> string \<Rightarrow> json \<Rightarrow> json" where
  "redact_path p v =
     (case v of
        JObj m \<Rightarrow> JObj (map (\<lambda>(k', x). (k', if k' = fst p then null_field (snd p) x else x)) m)
      | _ \<Rightarrow> v)"

definition redact_secrets :: "json \<Rightarrow> json" where
  "redact_secrets v = fold redact_path secret_paths v"

section \<open>The admin API\<close>

definition json_text :: "(string \<times> json) list \<Rightarrow> front_env \<Rightarrow> string" where
  "json_text kvs e = se_print_json (fe_store e) (JObj kvs)"

definition str_list :: "string list \<Rightarrow> json" where
  "str_list xs = JArr (map JStr xs)"

definition invalid_details :: "front_env \<Rightarrow> string list \<Rightarrow> http_response" where
  "invalid_details e errs =
     json_resp 400 (json_text [(''error'', JStr ''validation failed''), (''details'', str_list errs)] e)"

text \<open>The patch in the body of the request.\<close>

definition read_patch :: "front_env \<Rightarrow> request \<Rightarrow> (http_response, json) result" where
  "read_patch e rq =
     (case fe_collect e (rq_body rq) of
        None \<Rightarrow> Inl (json_resp 400 ''{\"error\":\"failed to read request body\"}'')
      | Some bytes \<Rightarrow>
          (case se_parse_json (fe_store e) bytes of
             Inl m \<Rightarrow> Inl (json_resp 400 (json_text [(''error'', JStr (''invalid JSON: '' @ m))] e))
           | Inr v \<Rightarrow> Inr v))"

definition admin_reset :: "front_env \<Rightarrow> string \<Rightarrow> front_state \<Rightarrow> http_response \<times> front_state" where
  "admin_reset e id_enc fs =
     (let backend = percent_decode e id_enc; sv = gs_service (fs_gateway fs)
      in case reset_circuit (ps_breaker sv) backend of
           (was_tracked, cb) \<Rightarrow>
             (json_resp 200 (json_text
                [(''status'', JStr ''reset''), (''backend'', JStr backend), (''was_open'', JBool was_tracked),
                 (''circuit_state'', JStr (state_of cb (wd_now (fe_world e)) backend))] e),
              fs \<lparr> fs_gateway := fs_gateway fs \<lparr> gs_service := sv \<lparr> ps_breaker := cb \<rparr> \<rparr> \<rparr>))"

definition admin_reload :: "front_env \<Rightarrow> front_state \<Rightarrow> http_response \<times> front_state" where
  "admin_reload e fs =
     (case reload (fe_store e) (fs_store fs) (fs_disk fs) of
        (Inl errs, s) \<Rightarrow> (invalid_details e errs, fs \<lparr> fs_store := s \<rparr>)
      | (Inr cfg, s) \<Rightarrow>
          (json_resp 200 (''{\"status\":\"reloaded\",\"routes\":'' @ show_nat (length (gc_routing cfg)) @ ''}''),
           front_rebuild e cfg (fs \<lparr> fs_store := s \<rparr>)))"

definition admin_get_config :: "front_env \<Rightarrow> front_state \<Rightarrow> http_response" where
  "admin_get_config e fs =
     (case effective_config (fe_store e) (fs_store fs) of
        Inl m \<Rightarrow> json_resp 500 (json_text [(''error'', JStr m)] e)
      | Inr cfg \<Rightarrow> json_resp 200 (se_print_json (fe_store e) (redact_secrets (fe_config_value e cfg))))"

definition admin_patch :: "front_env \<Rightarrow> request \<Rightarrow> front_state \<Rightarrow> http_response \<times> front_state" where
  "admin_patch e rq fs =
     (case read_patch e rq of
        Inl resp \<Rightarrow> (resp, fs)
      | Inr patch \<Rightarrow>
          (case apply_patch (fe_store e) (fe_fault e) patch (fs_store fs) (fs_disk fs) of
             (Inl errs, s, d) \<Rightarrow> (invalid_details e errs, fs \<lparr> fs_store := s, fs_disk := d \<rparr>)
           | (Inr (cfg, res), s, d) \<Rightarrow>
               (json_resp 200 (json_text
                  [(''status'', JStr ''applied''), (''hot_applied'', str_list (hot_applied res)),
                   (''requires_restart'', str_list (requires_restart res))] e),
                front_rebuild e cfg (fs \<lparr> fs_store := s, fs_disk := d \<rparr>))))"

definition admin_validate :: "front_env \<Rightarrow> request \<Rightarrow> front_state \<Rightarrow> http_response" where
  "admin_validate e rq fs =
     (case read_patch e rq of
        Inl resp \<Rightarrow> resp
      | Inr patch \<Rightarrow>
          (case validate_patch (fe_store e) (fs_store fs) patch of
             Inl errs \<Rightarrow>
               json_resp 400 (json_text
                 [(''status'', JStr ''invalid''), (''error'', JStr ''validation failed''), (''details'', str_list errs)] e)
           | Inr (_, res) \<Rightarrow>
               json_resp 200 (json_text
                 [(''status'', JStr ''valid''), (''hot_applied'', str_list (hot_applied res)),
                  (''requires_restart'', str_list (requires_restart res))] e)))"

definition admin_clear :: "front_env \<Rightarrow> front_state \<Rightarrow> http_response \<times> front_state" where
  "admin_clear e fs =
     (case clear_overlay (fe_store e) (fe_fault e) (fs_store fs) (fs_disk fs) of
        (Inl errs, s, d) \<Rightarrow> (invalid_details e errs, fs \<lparr> fs_store := s, fs_disk := d \<rparr>)
      | (Inr cfg, s, d) \<Rightarrow>
          (json_resp 200 ''{\"status\":\"overlay cleared\"}'', front_rebuild e cfg (fs \<lparr> fs_store := s, fs_disk := d \<rparr>)))"

definition admin_routes :: "front_env \<Rightarrow> request \<Rightarrow> front_state \<Rightarrow> http_response \<times> front_state" where
  "admin_routes e rq fs =
     (let path = rq_path rq; m = rq_method rq
      in case reset_target rq of
           Some id_enc \<Rightarrow> admin_reset e id_enc fs
         | None \<Rightarrow>
             (if path = ''/admin/routes'' then (json_resp 200 (fe_routes e (hs_routing (fs_hot fs))), fs)
              else if path = ''/admin/backends'' then (json_resp 200 (fe_backends e (gs_service (fs_gateway fs))), fs)
              else if path = ''/admin/reload'' \<and> m = ''POST'' then admin_reload e fs
              else if path = ''/admin/config'' \<and> m = ''GET'' then (admin_get_config e fs, fs)
              else if path = ''/admin/config'' \<and> (m = ''PATCH'' \<or> m = ''POST'') then admin_patch e rq fs
              else if path = ''/admin/config/validate'' \<and> m = ''POST'' then (admin_validate e rq fs, fs)
              else if path = ''/admin/config/overlay'' \<and> m = ''DELETE'' then admin_clear e fs
              else if path = ''/admin/stats'' then (json_resp 200 (fe_stats e (fs_gateway fs)), fs)
              else if path = ''/admin/drain'' \<and> m = ''POST''
                then (json_resp 200 ''{\"status\":\"draining\"}'', fs \<lparr> fs_draining := True \<rparr>)
              else (\<lparr> hr_status = 404, hr_headers = [], hr_body = ''{\"error\":\"unknown admin endpoint\"}'' \<rparr>, fs)))"

definition admin_api :: "front_env \<Rightarrow> request \<Rightarrow> ip_addr \<Rightarrow> front_state \<Rightarrow> http_response \<times> front_state" where
  "admin_api e rq remote fs =
     (if \<not> peer_is_loopback remote then (admin_loopback_denied_response, fs)
      else (case admin_decide (fe_admin_token e) (h_str (rq_headers rq) ''authorization'') (rq_method rq \<noteq> ''GET'') of
              AdminUnauthorized \<Rightarrow> (admin_unauthorized_response, fs)
            | WriteDisabled \<Rightarrow>
                (json_resp 403 ''{\"error\":\"mutating admin API disabled: configure admin.token or VOLTA_ADMIN_TOKEN\"}'', fs)
            | AdminAllow \<Rightarrow> admin_routes e rq fs))"

section \<open>The service\<close>

text \<open>\<open>None\<close> where the proxy's handler does not return.\<close>

definition serve :: "front_env \<Rightarrow> request \<Rightarrow> ip_addr \<Rightarrow> front_state \<Rightarrow> ((http_response, unit) result \<times> front_state) option" where
  "serve e rq remote fs =
     (case https_redirect e rq of
        Some resp \<Rightarrow> Some (Inl resp, fs)
      | None \<Rightarrow>
          (if rq_path rq = ''/metrics''
           then Some (Inl \<lparr> hr_status = 200, hr_headers = [(''content-type'', HText ''text/plain; version=0.0.4'')],
                            hr_body = fe_metrics e (fs_gateway fs) \<rparr>, fs)
           else if rq_path rq = ''/healthz'' \<and> \<not> host_is_routed_raw (h_str (rq_headers rq) ''host'') (hs_routing (fs_hot fs))
             then Some (Inl (healthz_response (healthz_status (fs_draining fs) (fe_volta_ok e))), fs)
           else if admin_for_gateway (hs_routing (fs_hot fs)) rq
             then (case admin_api e rq remote fs of (resp, fs') \<Rightarrow> Some (Inl resp, fs'))
           else (case handle (fe_world e) rq remote (fs_gateway fs) of
                   None \<Rightarrow> None
                 | Some (r, g) \<Rightarrow> Some (r, fs \<lparr> fs_gateway := g \<rparr>))))"

section \<open>Who may change what\<close>

lemma admin_decide_allow:
  "admin_decide (Some tok) v w = AdminAllow \<longleftrightarrow> v = Some (''Bearer '' @ tok)"
  "admin_decide None v w = AdminAllow \<longleftrightarrow> \<not> w"
  by (cases v; auto simp: admin_decide_def strip_prefix_Some_iff split: option.splits)+

text \<open>The parts of the state that only the admin API changes.\<close>

definition admin_part :: "front_state \<Rightarrow> config_store \<times> disk \<times> bool" where
  "admin_part fs = (fs_store fs, fs_disk fs, fs_draining fs)"

lemma front_rebuild_part [simp]:
  "fs_store (front_rebuild e cfg fs) = fs_store fs" "fs_disk (front_rebuild e cfg fs) = fs_disk fs"
  "fs_draining (front_rebuild e cfg fs) = fs_draining fs" "fs_dynamic (front_rebuild e cfg fs) = fs_dynamic fs"
  "fs_hot (front_rebuild e cfg fs) = rebuild_hot_with_dynamic (se_checks (fe_store e)) (fe_load_pages e) cfg (fs_dynamic fs)"
  by (simp_all add: front_rebuild_def set_hot_def)

text \<open>A request with the method GET changes nothing.\<close>

lemma admin_get_pure: "rq_method rq = ''GET'' \<Longrightarrow> snd (admin_routes e rq fs) = fs"
  by (simp add: admin_routes_def reset_target_def Let_def)

lemma admin_api_change:
  assumes "snd (admin_api e rq remote fs) \<noteq> fs"
  shows "peer_is_loopback remote \<and> rq_method rq \<noteq> ''GET'' \<and>
    (\<exists>tok. fe_admin_token e = Some tok \<and> h_str (rq_headers rq) ''authorization'' = Some (''Bearer '' @ tok))"
proof -
  let ?d = "admin_decide (fe_admin_token e) (h_str (rq_headers rq) ''authorization'') (rq_method rq \<noteq> ''GET'')"
  from assms have "peer_is_loopback remote" "?d = AdminAllow" "snd (admin_routes e rq fs) \<noteq> fs"
    by (auto simp: admin_api_def split: if_splits admin_auth.splits)
  moreover from this(3) admin_get_pure have "rq_method rq \<noteq> ''GET''" by blast
  ultimately show ?thesis by (cases "fe_admin_token e") (auto simp: admin_decide_allow)
qed

text \<open>
  C10: who changes the gateway's configuration. When serving a request alters the configuration store, the files behind it or
  the drain flag, then the path is one of the admin API, its host is not routed to a backend, the peer is a loopback
  address, the method is not GET, and the request carries the configured admin token; without a configured token nothing
  changes. Such a request is never answered by the proxy.
\<close>

theorem admin_changes_authorised:
  assumes "serve e rq remote fs = Some (r, fs')" "admin_part fs' \<noteq> admin_part fs"
  shows "starts_with (rq_path rq) ''/admin/'' \<and> \<not> admin_host_routed (hs_routing (fs_hot fs)) rq \<and> peer_is_loopback remote \<and>
    rq_method rq \<noteq> ''GET'' \<and>
    (\<exists>tok. fe_admin_token e = Some tok \<and> h_str (rq_headers rq) ''authorization'' = Some (''Bearer '' @ tok)) \<and>
    (r, fs') = apfst Inl (admin_api e rq remote fs)"
proof -
  have "admin_for_gateway (hs_routing (fs_hot fs)) rq" and api: "(r, fs') = apfst Inl (admin_api e rq remote fs)"
    using assms by (auto simp: serve_def admin_part_def split: option.splits if_splits prod.splits)
  moreover have "snd (admin_api e rq remote fs) \<noteq> fs" using assms(2) api by (cases "admin_api e rq remote fs") auto
  ultimately show ?thesis using admin_api_change by (auto simp: admin_for_gateway_def)
qed

text \<open>Draining is never taken back.\<close>

lemma draining_stays:
  assumes "serve e rq remote fs = Some (r, fs')" "fs_draining fs"
  shows "fs_draining fs'"
proof -
  have "fs_draining (snd (admin_routes e rq fs))"
    using assms(2) by (auto simp: admin_routes_def admin_reset_def admin_reload_def admin_patch_def admin_clear_def Let_def
        split: option.split prod.split sum.split)
  then have "fs_draining (snd (admin_api e rq remote fs))" using assms(2) by (simp add: admin_api_def split: admin_auth.split)
  with assms show ?thesis by (auto simp: serve_def split: option.splits if_splits prod.splits)
qed

section \<open>What a patch does\<close>

lemma patch_served:
  assumes "https_redirect e rq = None" "admin_for_gateway (hs_routing (fs_hot fs)) rq" "peer_is_loopback remote"
    and "fe_admin_token e = Some tok" "h_str (rq_headers rq) ''authorization'' = Some (''Bearer '' @ tok)"
    and "rq_path rq = ''/admin/config''" "rq_method rq = ''PATCH''"
    and "fe_collect e (rq_body rq) = Some bytes" "se_parse_json (fe_store e) bytes = Inr patch"
    and "checked (fe_store e) (cs_base (fs_store fs)) (deep_merge (cs_overlay (fs_store fs)) patch) = Inr cfg" "fe_fault e = None"
  shows "\<exists>resp. hr_status resp = 200 \<and> serve e rq remote fs = Some (Inl resp, front_rebuild e cfg
    (fs \<lparr> fs_store := fs_store fs \<lparr> cs_overlay := deep_merge (cs_overlay (fs_store fs)) patch \<rparr>,
          fs_disk := fs_disk fs \<lparr> dk_overlay := Some (se_print_json (fe_store e) (deep_merge (cs_overlay (fs_store fs)) patch)),
            dk_tmp := None \<rparr> \<rparr>))"
proof -
  have p: "apply_patch (fe_store e) (fe_fault e) patch (fs_store fs) (fs_disk fs) =
      (Inr (cfg, classify_patch patch), fs_store fs \<lparr> cs_overlay := deep_merge (cs_overlay (fs_store fs)) patch \<rparr>,
       fs_disk fs \<lparr> dk_overlay := Some (se_print_json (fe_store e) (deep_merge (cs_overlay (fs_store fs)) patch)), dk_tmp := None \<rparr>)"
    using assms(10,11) by (simp add: apply_patch_def persist_def Let_def)
  have d: "admin_decide (fe_admin_token e) (h_str (rq_headers rq) ''authorization'') w = AdminAllow" for w
    by (simp only: assms(4,5) admin_decide_allow)
  have "admin_api e rq remote fs = admin_patch e rq fs"
    using assms(3,6,7) unfolding admin_api_def d by (simp add: admin_routes_def reset_target_def Let_def)
  with assms(1,2,6,8,9) p show ?thesis
    by (simp add: serve_def admin_patch_def read_patch_def json_resp_def split: prod.split)
qed

text \<open>
  C11: the effect of a patch. An authorised PATCH of the configuration whose body is a JSON patch that yields a valid configuration,
  and whose overlay can be written, is answered with 200; afterwards the store's effective configuration is the patched one, the
  file holds the merged overlay, requests are routed by tables rebuilt from it and the dynamic routes, and the drain
  flag and everything else of the proxy are as before.
\<close>

theorem admin_patch_effect:
  assumes "https_redirect e rq = None" "admin_for_gateway (hs_routing (fs_hot fs)) rq" "peer_is_loopback remote"
    and "fe_admin_token e = Some tok" "h_str (rq_headers rq) ''authorization'' = Some (''Bearer '' @ tok)"
    and "rq_path rq = ''/admin/config''" "rq_method rq = ''PATCH''"
    and "fe_collect e (rq_body rq) = Some bytes" "se_parse_json (fe_store e) bytes = Inr patch"
    and "checked (fe_store e) (cs_base (fs_store fs)) (deep_merge (cs_overlay (fs_store fs)) patch) = Inr cfg" "fe_fault e = None"
  shows "\<exists>resp fs'. serve e rq remote fs = Some (Inl resp, fs') \<and> hr_status resp = 200 \<and>
    effective_config (fe_store e) (fs_store fs') = Inr cfg \<and>
    dk_overlay (fs_disk fs') = Some (se_print_json (fe_store e) (cs_overlay (fs_store fs'))) \<and>
    fs_hot fs' = rebuild_hot_with_dynamic (se_checks (fe_store e)) (fe_load_pages e) cfg (fs_dynamic fs) \<and>
    fs_gateway fs' = fs_gateway (set_hot (fs_hot fs') fs) \<and> fs_draining fs' = fs_draining fs"
proof -
  have "effective_config (fe_store e) (fs_store fs \<lparr> cs_overlay := deep_merge (cs_overlay (fs_store fs)) patch \<rparr>) = Inr cfg"
    using assms(10) by (auto simp: effective_config_def checked_def split: sum.splits)
  with patch_served [OF assms] show ?thesis by (fastforce simp: front_rebuild_def set_hot_def)
qed

section \<open>Redaction\<close>

lemma map_of_field: "map_of (map (\<lambda>(k', x). (k', if k' = k then f x else x)) m) j = (if j = k then map_option f (map_of m j) else map_of m j)"
  by (induction m) auto

definition hidden :: "string \<times> string \<Rightarrow> json \<Rightarrow> bool" where
  "hidden p v \<longleftrightarrow> jview v [fst p, snd p] \<in> {None, Some (LValue JNull)}"

lemma jview_redact_path:
  "jview (redact_path p v) [a, k] = (if a = fst p \<and> k = snd p \<and> jview v [a, k] \<noteq> None then Some (LValue JNull) else jview v [a, k])"
proof -
  have nf: "jview (null_field k' x) [k] = (if k = k' \<and> jview x [k] \<noteq> None then Some (LValue JNull) else jview x [k])" for k' x
  proof (cases x)
    case (JObj m)
    have "jview y [] \<noteq> None" for y by (cases y) simp_all
    with JObj show ?thesis by (auto simp: null_field_def map_of_field split: option.split)
  qed (simp_all add: null_field_def)
  show ?thesis
  proof (cases v)
    case (JObj m)
    show ?thesis
    proof (cases "map_of m a")
      case (Some x)
      with JObj nf [of "snd p" x] show ?thesis by (cases "a = fst p"; cases "k = snd p") (auto simp: redact_path_def map_of_field)
    qed (auto simp: JObj redact_path_def map_of_field)
  qed (simp_all add: redact_path_def)
qed

text \<open>No secret of the list survives, whatever the shape of the value.\<close>

lemma redact_hides:
  assumes "p \<in> set secret_paths"
  shows "hidden p (redact_secrets v)"
proof -
  have keep: "hidden p (redact_path q v)" if "hidden p v" for q v
    using that by (auto simp: hidden_def jview_redact_path)
  have this_one: "hidden p (redact_path p v)" for v by (simp add: hidden_def jview_redact_path)
  have "p \<in> set ps \<or> hidden p v \<Longrightarrow> hidden p (fold redact_path ps v)" for ps v
  proof (induction ps arbitrary: v)
    case (Cons q ps)
    from Cons.prems keep [of v q] this_one [of v] have "p \<in> set ps \<or> hidden p (redact_path q v)" by (cases "p = q") auto
    with Cons.IH show ?case by simp
  qed simp
  with assms show ?thesis by (simp add: redact_secrets_def)
qed

text \<open>After redaction a configured secret and one that is not configured look alike.\<close>

lemma redaction_hides_presence:
  "redact_secrets (JObj [(''admin'', JObj [(''token'', JStr t)])]) = redact_secrets (JObj [(''admin'', JObj [(''token'', JNull)])])"
  by (simp add: redact_secrets_def secret_paths_def redact_path_def null_field_def)

text \<open>The path of the metrics is answered by the gateway for every host, a routed one too.\<close>

lemma metrics_shadow_backends:
  assumes "rq_path rq = ''/metrics''"
  shows "serve e rq remote fs = Some (Inl \<lparr> hr_status = 200, hr_headers = [(''content-type'', HText ''text/plain; version=0.0.4'')],
    hr_body = fe_metrics e (fs_gateway fs) \<rparr>, fs)"
  using assms by (simp add: serve_def https_redirect_def)

section \<open>Examples\<close>

definition demo_front :: front_state where
  "demo_front =
     \<lparr> fs_gateway = demo_state demo_ri, fs_store = demo_store, fs_disk = demo_disk, fs_draining = False, fs_dynamic = Map.empty \<rparr>"

definition demo_front_env :: front_env where
  "demo_front_env =
     \<lparr> fe_world = demo_gateway TimedOut TimedOut TimedOut, fe_store = demo_store_env \<lparr> se_parse_json := (\<lambda>_. Inr demo_patch) \<rparr>, fe_fault = None,
       fe_load_pages = (\<lambda>_. Map.empty), fe_force_https = False, fe_tls_port = 443, fe_admin_token = Some ''t'',
       fe_volta_ok = True, fe_metrics = (\<lambda>_. []), fe_routes = (\<lambda>_. []), fe_backends = (\<lambda>_. []), fe_stats = (\<lambda>_. []),
       fe_config_value = (\<lambda>_. JNull), fe_utf8_lossy = (\<lambda>s. s), fe_collect = Some \<rparr>"

definition demo_admin_rq :: request where
  "demo_admin_rq =
     \<lparr> rq_method = ''PATCH'', rq_path = ''/admin/config'', rq_query = None, rq_scheme = None,
       rq_headers = [(''host'', HText ''localhost:9000''), (''authorization'', HText ''Bearer t'')], rq_body = ''p'' \<rparr>"

lemma demo_admin:
  "https_redirect demo_front_env demo_admin_rq = None" "admin_for_gateway (hs_routing (fs_hot demo_front)) demo_admin_rq"
  "peer_is_loopback (V4 0x7F000001)" "fe_admin_token demo_front_env = Some ''t''"
  "h_str (rq_headers demo_admin_rq) ''authorization'' = Some (''Bearer '' @ ''t'')" "rq_path demo_admin_rq = ''/admin/config''"
  "rq_method demo_admin_rq = ''PATCH''" "fe_collect demo_front_env (rq_body demo_admin_rq) = Some ''p''"
  "se_parse_json (fe_store demo_front_env) ''p'' = Inr demo_patch"
  "checked (fe_store demo_front_env) (cs_base (fs_store demo_front)) (deep_merge (cs_overlay (fs_store demo_front)) demo_patch) =
     Inr (sample_config [sample_route ''A.io''])"
  "fe_fault demo_front_env = None"
proof -
  show "admin_for_gateway (hs_routing (fs_hot demo_front)) demo_admin_rq" by code_simp
  show "h_str (rq_headers demo_admin_rq) ''authorization'' = Some (''Bearer '' @ ''t'')" by code_simp
  show "checked (fe_store demo_front_env) (cs_base (fs_store demo_front)) (deep_merge (cs_overlay (fs_store demo_front)) demo_patch) =
     Inr (sample_config [sample_route ''A.io''])"
    using demo_checked by (simp add: checked_def build_effective_def demo_front_env_def demo_store_env_def validate_def sample_valid)
qed (simp_all add: demo_front_env_def demo_admin_rq_def https_redirect_def)

theorem admin_patch_effect_witness:
  "\<exists>resp fs'. serve demo_front_env demo_admin_rq (V4 0x7F000001) demo_front = Some (Inl resp, fs') \<and> hr_status resp = 200 \<and>
     effective_config (fe_store demo_front_env) (fs_store fs') = Inr (sample_config [sample_route ''A.io''])"
  using admin_patch_effect [OF demo_admin] by blast

theorem admin_changes_authorised_witness:
  "\<exists>r fs'. serve demo_front_env demo_admin_rq (V4 0x7F000001) demo_front = Some (r, fs') \<and> admin_part fs' \<noteq> admin_part demo_front \<and>
     h_str (rq_headers demo_admin_rq) ''authorization'' = Some ''Bearer t''"
proof -
  from patch_served [OF demo_admin] obtain resp fs' where
    s: "serve demo_front_env demo_admin_rq (V4 0x7F000001) demo_front = Some (Inl resp, fs')"
    and st: "cs_overlay (fs_store fs') = deep_merge (cs_overlay (fs_store demo_front)) demo_patch" by fastforce
  have "deep_merge (cs_overlay (fs_store demo_front)) demo_patch \<noteq> cs_overlay (fs_store demo_front)" by code_simp
  with st have c: "admin_part fs' \<noteq> admin_part demo_front" by (auto simp: admin_part_def)
  from admin_changes_authorised [OF s c] have "h_str (rq_headers demo_admin_rq) ''authorization'' = Some ''Bearer t''"
    by (auto simp: demo_admin(4))
  with s c show ?thesis by blast
qed

end
