(* ===== verification/Flow_Validate.thy ===== *)
theory Flow_Validate
  imports Rust_Prelude
begin

text \<open>
  The startup validation of flow definitions, \<open>auth-core/src/flow/validate.rs\<close>: reachability,
  cycle detection, the requires/produces contract and the structural rules, each loop as the source
  has it, with an explicit stack. A Rust \<open>HashSet\<close> or \<open>HashMap\<close> is iterated in an unspecified order:
  the two iterations that can be observed take the order as a parameter.
\<close>

section \<open>Descriptors\<close>

record edge =
  e_from :: string
  e_to :: string
  e_label :: string

record processor_spec =
  sp_state :: string
  sp_requires :: "string list"
  sp_produces :: "string list"

record flow_descriptor =
  fl_name :: string
  fl_states :: "string list"
  fl_initial :: string
  fl_terminals :: "string list"
  fl_edges :: "edge list"
  fl_external_edges :: "edge list"
  fl_processors :: "processor_spec list"
  fl_flow_data_aliases :: "(string \<times> string) list"

datatype flow_def_error =
    InitialNotDeclared string
  | TerminalNotDeclared string
  | UnknownEdgeState string string
  | UnreachableState string
  | NoTerminalPath
  | AutoBranchCycle "string list"
  | MultipleExternalEdges string
  | UnknownBranchTarget string
  | RequirementMismatch string "string list"
  | DuplicateAlias string string string
  | TerminalHasOutgoing string

definition nexts :: "edge list \<Rightarrow> string \<Rightarrow> string list" where
  "nexts es s = map e_to (filter (\<lambda>e. e_from e = s) es)"

section \<open>Reachability\<close>

definition edge_nodes :: "edge list \<Rightarrow> string set" where
  "edge_nodes es = set (map e_from es) \<union> set (map e_to es)"

lemma finite_edge_nodes [simp]: "finite (edge_nodes es)"
  by (simp add: edge_nodes_def)

lemma set_nexts: "n \<in> set (nexts es s) \<longleftrightarrow> (\<exists>e \<in> set es. e_from e = s \<and> e_to e = n)"
  by (auto simp: nexts_def)

lemma nexts_nodes: "n \<in> set (nexts es s) \<Longrightarrow> n \<in> edge_nodes es"
  by (auto simp: set_nexts edge_nodes_def)

text \<open>The stack has its top at the front; what a loop pushes last is popped first.\<close>

function reach_loop :: "edge list \<Rightarrow> string list \<Rightarrow> string list \<Rightarrow> string list" where
  "reach_loop es [] seen = seen"
| "reach_loop es (s # stack) seen =
     (if s \<in> set seen then reach_loop es stack seen
      else reach_loop es (rev (filter (\<lambda>n. n \<notin> set (s # seen)) (nexts es s)) @ stack) (s # seen))"
  by pat_completeness auto

termination
proof (relation "inv_image (finite_psubset <*lex*> less_than)
    (\<lambda>(es, stack, seen). ((edge_nodes es \<union> set stack) - set seen, length stack))", goal_cases)
  case (3 es s stack seen)
  have "set (rev (filter (\<lambda>n. n \<notin> set (s # seen)) (nexts es s)) @ stack) \<subseteq> edge_nodes es \<union> set stack"
    using nexts_nodes by auto
  with 3 show ?case by (auto simp: finite_psubset_def)
qed (auto simp: finite_psubset_def intro: wf_finite_psubset [unfolded finite_psubset_def])

definition bfs_reachable :: "flow_descriptor \<Rightarrow> string list" where
  "bfs_reachable flow = reach_loop (fl_edges flow) [fl_initial flow] []"

section \<open>Cycles\<close>

datatype color = White | Gray | Black

fun position :: "'a \<Rightarrow> 'a list \<Rightarrow> nat option" where
  "position x [] = None"
| "position x (y # ys) = (if x = y then Some 0 else map_option Suc (position x ys))"

definition whites :: "edge list \<Rightarrow> (string \<Rightarrow> color) \<Rightarrow> string set" where
  "whites es color = {n \<in> edge_nodes es. color n = White}"

lemma finite_whites [simp]: "finite (whites es color)"
  by (rule finite_subset [of _ "edge_nodes es"]) (auto simp: whites_def)

definition stack_work :: "edge list \<Rightarrow> (string \<times> nat) list \<Rightarrow> nat" where
  "stack_work es stack = sum_list (map (\<lambda>(c, i). Suc (Suc (length (nexts es c)) - i)) stack)"

function cycle_loop ::
    "edge list \<Rightarrow> (string \<Rightarrow> color) \<Rightarrow> (string \<times> nat) list \<Rightarrow> string list \<Rightarrow> string list + (string \<Rightarrow> color)" where
  "cycle_loop es color [] path = Inr color"
| "cycle_loop es color ((cur, i) # stack) path =
     (if i < length (nexts es cur)
      then (let next = nexts es cur ! i
            in case color next of
                 White \<Rightarrow> cycle_loop es (color(next := Gray)) ((next, 0) # (cur, i + 1) # stack) (path @ [next])
               | Gray \<Rightarrow> Inl (case position next path of Some pos \<Rightarrow> drop pos path | None \<Rightarrow> [next])
               | Black \<Rightarrow> cycle_loop es color ((cur, i + 1) # stack) path)
      else cycle_loop es (color(cur := Black)) stack (butlast path))"
  by pat_completeness auto

termination
proof (relation "inv_image (finite_psubset <*lex*> less_than)
    (\<lambda>(es, color, stack, path). (whites es color, stack_work es stack))", goal_cases)
  case (2 es color cur i stack path nx)
  then have "nx \<in> edge_nodes es" using nexts_nodes nth_mem by fastforce
  with 2 show ?case by (auto simp: finite_psubset_def whites_def)
next
  case (4 es color cur i stack path)
  have "whites es (color(cur := Black)) \<subseteq> whites es color" by (auto simp: whites_def)
  then show ?case by (auto simp: finite_psubset_def stack_work_def)
qed (auto simp: stack_work_def)

fun cycle_search :: "edge list \<Rightarrow> string list \<Rightarrow> (string \<Rightarrow> color) \<Rightarrow> string list option" where
  "cycle_search es [] color = None"
| "cycle_search es (start # nodes) color =
     (if color start \<noteq> White then cycle_search es nodes color
      else (case cycle_loop es (color(start := Gray)) [(start, 0)] [start] of
              Inl cycle \<Rightarrow> Some cycle
            | Inr color' \<Rightarrow> cycle_search es nodes color'))"

definition find_cycle :: "(string list \<Rightarrow> string list) \<Rightarrow> edge list \<Rightarrow> string list option" where
  "find_cycle order es =
     cycle_search es (order (remdups (concat (map (\<lambda>e. [e_from e, e_to e]) es)))) (\<lambda>_. White)"

section \<open>The requires/produces contract\<close>

definition proc_map :: "flow_descriptor \<Rightarrow> string \<Rightarrow> processor_spec option" where
  "proc_map flow s = find (\<lambda>p. sp_state p = s) (rev (fl_processors flow))"

definition requires_of :: "flow_descriptor \<Rightarrow> string \<Rightarrow> string list" where
  "requires_of flow s = (case proc_map flow s of Some p \<Rightarrow> sp_requires p | None \<Rightarrow> [])"

definition produces_of :: "flow_descriptor \<Rightarrow> string \<Rightarrow> string list" where
  "produces_of flow s = (case proc_map flow s of Some p \<Rightarrow> sp_produces p | None \<Rightarrow> [])"

type_synonym produced_map = "string \<Rightarrow> string list option"

definition already :: "produced_map \<Rightarrow> string \<Rightarrow> string list \<Rightarrow> bool" where
  "already visited n produced = (case visited n of Some prev \<Rightarrow> set produced \<subseteq> set prev | None \<Rightarrow> False)"

definition push_next ::
    "string list \<Rightarrow> string \<Rightarrow> produced_map \<times> (string \<times> string list) list \<Rightarrow> produced_map \<times> (string \<times> string list) list" where
  "push_next produced_after next vs =
     (if already (fst vs) next produced_after then vs
      else ((fst vs)(next \<mapsto> produced_after), (next, produced_after) # snd vs))"

definition missing_keys :: "flow_descriptor \<Rightarrow> string \<Rightarrow> string list \<Rightarrow> string list" where
  "missing_keys flow s produced = filter (\<lambda>r. r \<notin> set produced) (requires_of flow s)"

definition report ::
    "flow_descriptor \<Rightarrow> string \<Rightarrow> string list \<Rightarrow> string list \<times> flow_def_error list \<Rightarrow> string list \<times> flow_def_error list" where
  "report flow s produced re =
     (let missing = missing_keys flow s produced
      in if missing \<noteq> [] \<and> s \<notin> set (fst re)
         then (s # fst re, snd re @ [RequirementMismatch s missing]) else re)"

partial_function (option) produce_loop ::
    "flow_descriptor \<Rightarrow> (string \<times> string list) list \<Rightarrow> produced_map \<Rightarrow> string list \<times> flow_def_error list \<Rightarrow>
     flow_def_error list option" where
  "produce_loop flow stack visited re =
     (case stack of
        [] \<Rightarrow> Some (snd re)
      | (s, produced) # rest \<Rightarrow>
          (let vs = fold (push_next (produced @ produces_of flow s)) (nexts (fl_edges flow) s) (visited, rest)
           in produce_loop flow (snd vs) (fst vs) (report flow s produced re)))"

definition check_requires_produces :: "flow_descriptor \<Rightarrow> flow_def_error list option" where
  "check_requires_produces flow =
     produce_loop flow [(fl_initial flow, produces_of flow (fl_initial flow))] Map.empty ([], [])"

section \<open>The rules together\<close>

definition alias_step ::
    "string \<times> string \<Rightarrow> (string \<Rightarrow> string option) \<times> flow_def_error list \<Rightarrow> (string \<Rightarrow> string option) \<times> flow_def_error list" where
  "alias_step af se =
     (case af of (alias, fqcn) \<Rightarrow>
        (case fst se alias of
           Some prev_fqcn \<Rightarrow> (if prev_fqcn \<noteq> fqcn then (fst se, snd se @ [DuplicateAlias alias prev_fqcn fqcn]) else se)
         | None \<Rightarrow> ((fst se)(alias \<mapsto> fqcn), snd se)))"

definition check_aliases :: "flow_descriptor \<Rightarrow> flow_def_error list" where
  "check_aliases flow = snd (fold alias_step (fl_flow_data_aliases flow) (Map.empty, []))"

definition validate_global_aliases :: "flow_descriptor list \<Rightarrow> flow_def_error list" where
  "validate_global_aliases flows =
     snd (fold (\<lambda>flow. fold alias_step (fl_flow_data_aliases flow)) flows (Map.empty, []))"

definition sanity_errors :: "flow_descriptor \<Rightarrow> flow_def_error list" where
  "sanity_errors flow =
     (if fl_initial flow \<notin> set (fl_states flow) then [InitialNotDeclared (fl_initial flow)] else []) @
     concat (map (\<lambda>t. if t \<notin> set (fl_states flow) then [TerminalNotDeclared t] else []) (fl_terminals flow)) @
     concat (map (\<lambda>e.
       (if e_from e \<notin> set (fl_states flow) \<or> e_to e \<notin> set (fl_states flow)
        then [UnknownEdgeState (e_from e) (e_to e)] else []) @
       (if e_to e \<notin> set (fl_states flow) then [UnknownBranchTarget (e_to e)] else [])) (fl_edges flow))"

fun is_fatal :: "flow_def_error \<Rightarrow> bool" where
  "is_fatal (InitialNotDeclared _) = True"
| "is_fatal (UnknownEdgeState _ _) = True"
| "is_fatal _ = False"

definition edge_key :: "edge \<Rightarrow> string \<times> string \<times> string" where
  "edge_key e = (e_from e, e_to e, e_label e)"

definition internal_edges :: "flow_descriptor \<Rightarrow> edge list" where
  "internal_edges flow = filter (\<lambda>e. edge_key e \<notin> set (map edge_key (fl_external_edges flow))) (fl_edges flow)"

definition ext_count :: "flow_descriptor \<Rightarrow> string \<Rightarrow> nat" where
  "ext_count flow s = length (filter (\<lambda>e. e_from e = s) (fl_external_edges flow))"

text \<open>Rules 1 to 4, in the order in which \<open>validate\<close> runs them.\<close>

definition graph_errors :: "(string list \<Rightarrow> string list) \<Rightarrow> flow_descriptor \<Rightarrow> flow_def_error list" where
  "graph_errors order flow =
     (let reachable = bfs_reachable flow
      in concat (map (\<lambda>s. if s \<notin> set reachable then [UnreachableState s] else []) (fl_states flow)) @
         (if \<not> list_ex (\<lambda>t. t \<in> set reachable) (fl_terminals flow) \<and> fl_terminals flow \<noteq> [] then [NoTerminalPath] else []) @
         (case find_cycle order (internal_edges flow) of Some cycle \<Rightarrow> [AutoBranchCycle cycle] | None \<Rightarrow> []) @
         concat (map (\<lambda>s. if 1 < ext_count flow s then [MultipleExternalEdges s] else [])
           (order (remdups (map e_from (fl_external_edges flow))))))"

definition contract_errors :: "flow_descriptor \<Rightarrow> flow_def_error list option" where
  "contract_errors flow = (if fl_processors flow \<noteq> [] then check_requires_produces flow else Some [])"

definition outgoing_errors :: "flow_descriptor \<Rightarrow> flow_def_error list" where
  "outgoing_errors flow =
     concat (map (\<lambda>e. if e_from e \<in> set (fl_terminals flow) then [TerminalHasOutgoing (e_from e)] else []) (fl_edges flow))"

text \<open>\<open>None\<close> would be a validation that does not return.\<close>

definition validate_flow ::
    "(string list \<Rightarrow> string list) \<Rightarrow> flow_descriptor \<Rightarrow> (flow_def_error list, unit) result option" where
  "validate_flow order flow =
     (let sanity = sanity_errors flow
      in if list_ex is_fatal sanity then Some (Inl sanity)
         else (case contract_errors flow of
                 None \<Rightarrow> None
               | Some contract \<Rightarrow>
                   (let errors = sanity @ graph_errors order flow @ contract @ check_aliases flow @ outgoing_errors flow
                    in Some (if errors = [] then Inr () else Inl errors))))"

section \<open>Reachability: meaning\<close>

definition edge_rel :: "edge list \<Rightarrow> (string \<times> string) set" where
  "edge_rel es = {(e_from e, e_to e) |e. e \<in> set es}"

lemma nexts_rel: "n \<in> set (nexts es s) \<longleftrightarrow> (s, n) \<in> edge_rel es"
  by (auto simp: set_nexts edge_rel_def)

lemma reach_loop_sound: "set (reach_loop es stack seen) \<subseteq> (edge_rel es)\<^sup>* `` set stack \<union> set seen"
proof (induction es stack seen rule: reach_loop.induct)
  case (2 es s stack seen)
  have "(edge_rel es)\<^sup>* `` set (nexts es s) \<subseteq> (edge_rel es)\<^sup>* `` {s}"
    by (auto simp: nexts_rel intro: converse_rtrancl_into_rtrancl)
  with 2 show ?case by (auto simp: Image_def) blast+
qed simp

lemma reach_loop_mono: "set seen \<union> set stack \<subseteq> set (reach_loop es stack seen)"
  by (induction es stack seen rule: reach_loop.induct) auto

lemma reach_loop_closed:
  assumes "\<And>m n. m \<in> set seen \<Longrightarrow> (m, n) \<in> edge_rel es \<Longrightarrow> n \<in> set seen \<union> set stack"
  shows "m \<in> set (reach_loop es stack seen) \<Longrightarrow> (m, n) \<in> edge_rel es \<Longrightarrow> n \<in> set (reach_loop es stack seen)"
  using assms
proof (induction es stack seen rule: reach_loop.induct)
  case (2 es s stack seen)
  show ?case
  proof (cases "s \<in> set seen")
    case True
    with 2 show ?thesis by auto
  next
    case False
    let ?stack = "rev (filter (\<lambda>n. n \<notin> set (s # seen)) (nexts es s)) @ stack"
    have "n \<in> set (s # seen) \<union> set ?stack" if "m \<in> set (s # seen)" "(m, n) \<in> edge_rel es" for m n
      using that 2(5) [of m n] nexts_rel [of n es s] by auto
    from 2(2) [OF False _ _ this] 2(3, 4) False show ?thesis by simp
  qed
qed auto

lemma reachable_iff: "s \<in> set (bfs_reachable flow) \<longleftrightarrow> (fl_initial flow, s) \<in> (edge_rel (fl_edges flow))\<^sup>*"
proof
  assume "s \<in> set (bfs_reachable flow)"
  then show "(fl_initial flow, s) \<in> (edge_rel (fl_edges flow))\<^sup>*"
    using reach_loop_sound [of "fl_edges flow" "[fl_initial flow]" "[]"] by (auto simp: bfs_reachable_def)
next
  assume "(fl_initial flow, s) \<in> (edge_rel (fl_edges flow))\<^sup>*"
  then show "s \<in> set (bfs_reachable flow)"
  proof induction
    case base
    show ?case using reach_loop_mono [of "[]" "[fl_initial flow]"] by (simp add: bfs_reachable_def)
  next
    case (step m n)
    then show ?case
      using reach_loop_closed [of "[]" "fl_edges flow" "[fl_initial flow]" m n] by (simp add: bfs_reachable_def)
  qed
qed

section \<open>Cycle detection: meaning\<close>

definition closed_walk :: "edge list \<Rightarrow> string list \<Rightarrow> bool" where
  "closed_walk es c \<longleftrightarrow> c \<noteq> [] \<and> successively (\<lambda>a b. (a, b) \<in> edge_rel es) c \<and> (last c, hd c) \<in> edge_rel es"

lemma successively_rtrancl:
  assumes "successively (\<lambda>a b. (a, b) \<in> r) (x # xs)"
  shows "(x, last (x # xs)) \<in> r\<^sup>*"
  using assms by (induction xs arbitrary: x) (auto intro: converse_rtrancl_into_rtrancl)

lemma closed_walk_trancl: "closed_walk es c \<Longrightarrow> (hd c, hd c) \<in> (edge_rel es)\<^sup>+"
  by (cases c) (auto simp: closed_walk_def dest: successively_rtrancl intro: rtrancl_into_trancl1)

lemma position_Some: "x \<in> set xs \<Longrightarrow> \<exists>p. position x xs = Some p \<and> p < length xs \<and> xs ! p = x"
  by (induction xs) auto

text \<open>
  The stack under a frame: each frame has advanced past the node above it, and everything before
  that is finished.
\<close>

fun below_ok :: "edge list \<Rightarrow> (string \<Rightarrow> color) \<Rightarrow> string \<Rightarrow> (string \<times> nat) list \<Rightarrow> bool" where
  "below_ok es color t [] \<longleftrightarrow> True"
| "below_ok es color t ((c, i) # st) \<longleftrightarrow>
     0 < i \<and> i \<le> length (nexts es c) \<and> nexts es c ! (i - 1) = t \<and>
     (\<forall>j < i - 1. color (nexts es c ! j) = Black) \<and> below_ok es color c st"

fun stack_ok :: "edge list \<Rightarrow> (string \<Rightarrow> color) \<Rightarrow> (string \<times> nat) list \<Rightarrow> bool" where
  "stack_ok es color [] \<longleftrightarrow> True"
| "stack_ok es color ((c, i) # st) \<longleftrightarrow>
     i \<le> length (nexts es c) \<and> (\<forall>j < i. color (nexts es c ! j) = Black) \<and> below_ok es color c st"

definition black_ok :: "edge list \<Rightarrow> (string \<Rightarrow> color) \<Rightarrow> bool" where
  "black_ok es color \<longleftrightarrow>
     (\<forall>m n. color m = Black \<longrightarrow> (m, n) \<in> edge_rel es \<longrightarrow> color n = Black) \<and>
     (\<forall>m. color m = Black \<longrightarrow> (m, m) \<notin> (edge_rel es)\<^sup>+)"

definition dfs_inv :: "edge list \<Rightarrow> (string \<Rightarrow> color) \<Rightarrow> (string \<times> nat) list \<Rightarrow> string list \<Rightarrow> bool" where
  "dfs_inv es color stack path \<longleftrightarrow>
     path = rev (map fst stack) \<and> distinct path \<and> (\<forall>n. n \<in> set path \<longleftrightarrow> color n = Gray) \<and>
     stack_ok es color stack \<and> black_ok es color"

lemma dfs_invD:
  assumes "dfs_inv es color ((cur, i) # st) path"
  shows "path = rev (map fst st) @ [cur]" "distinct path" "\<And>n. n \<in> set path \<longleftrightarrow> color n = Gray"
    "i \<le> length (nexts es cur)" "\<And>j. j < i \<Longrightarrow> color (nexts es cur ! j) = Black"
    "below_ok es color cur st" "black_ok es color"
  using assms unfolding dfs_inv_def stack_ok.simps list.map fst_conv rev.simps by blast+

lemma below_ok_mono:
  "below_ok es color t st \<Longrightarrow> (\<And>n. color n = Black \<Longrightarrow> color' n = Black) \<Longrightarrow> below_ok es color' t st"
  by (induction st arbitrary: t) auto

lemma below_ok_walk:
  "below_ok es color t st \<Longrightarrow> successively (\<lambda>a b. (a, b) \<in> edge_rel es) (rev (map fst st) @ [t])"
proof (induction st arbitrary: t)
  case (Cons ci st)
  obtain c i where ci: "ci = (c, i)" by fastforce
  have "(c, t) \<in> edge_rel es"
    using Cons.prems unfolding ci nexts_rel [symmetric] by (auto intro!: nth_mem simp: less_eq_Suc_le)
  with Cons show ?case by (auto simp: ci successively_append_iff)
qed simp

lemma dfs_inv_push:
  assumes "dfs_inv es color ((cur, i) # st) path" and "i < length (nexts es cur)" and "color (nexts es cur ! i) = White"
  shows "dfs_inv es (color(nexts es cur ! i := Gray)) ((nexts es cur ! i, 0) # (cur, i + 1) # st) (path @ [nexts es cur ! i])"
proof -
  note inv = dfs_invD [OF assms(1)]
  let ?nx = "nexts es cur ! i" and ?color = "color(nexts es cur ! i := Gray)"
  have b: "color n = Black \<Longrightarrow> ?color n = Black" for n using assms(3) by auto
  have below: "below_ok es ?color cur st" by (rule below_ok_mono [OF inv(6)]) (rule b)
  have "black_ok es ?color" using inv(7) assms(3) unfolding black_ok_def by (metis color.distinct fun_upd_apply)
  moreover have "stack_ok es ?color ((?nx, 0) # (cur, i + 1) # st)"
    unfolding stack_ok.simps below_ok.simps using below inv(5) b assms(2) by auto
  moreover have "?nx \<notin> set path" using inv(3) [of ?nx] assms(3) by simp
  moreover have "path @ [?nx] = rev (map fst ((?nx, 0) # (cur, i + 1) # st))" using inv(1) by simp
  moreover have "n \<in> set (path @ [?nx]) \<longleftrightarrow> ?color n = Gray" for n using inv(3) [of n] by auto
  moreover have "distinct (path @ [?nx])" using inv(2) calculation(3) by simp
  ultimately show ?thesis unfolding dfs_inv_def by blast
qed

lemma dfs_inv_skip:
  assumes "dfs_inv es color ((cur, i) # st) path" and "i < length (nexts es cur)" and "color (nexts es cur ! i) = Black"
  shows "dfs_inv es color ((cur, i + 1) # st) path"
proof -
  note inv = dfs_invD [OF assms(1)]
  have "stack_ok es color ((cur, i + 1) # st)" using inv(5, 6) assms(2, 3) by (simp add: less_Suc_eq)
  then show ?thesis using assms(1) unfolding dfs_inv_def list.map fst_conv by blast
qed

lemma black_closed: "(m, n) \<in> (edge_rel es)\<^sup>* \<Longrightarrow> black_ok es color \<Longrightarrow> color m = Black \<Longrightarrow> color n = Black"
  by (induction rule: rtrancl_induct) (auto simp: black_ok_def)

lemma dfs_inv_pop:
  assumes "dfs_inv es color ((cur, i) # st) path" and "\<not> i < length (nexts es cur)"
  shows "dfs_inv es (color(cur := Black)) st (butlast path)"
proof -
  note inv = dfs_invD [OF assms(1)]
  let ?color = "color(cur := Black)"
  have cur: "color cur = Gray" using inv(1) inv(3) [of cur] by simp
  have out: "color n = Black" if "(cur, n) \<in> edge_rel es" for n
    using inv(4, 5) assms(2) that unfolding nexts_rel [symmetric] in_set_conv_nth by auto
  have "(cur, cur) \<notin> (edge_rel es)\<^sup>+"
  proof
    assume "(cur, cur) \<in> (edge_rel es)\<^sup>+"
    then obtain n where "(cur, n) \<in> edge_rel es" "(n, cur) \<in> (edge_rel es)\<^sup>*" by (auto dest: tranclD)
    with black_closed [OF _ inv(7)] out cur show False by fastforce
  qed
  with out inv(7) have "black_ok es ?color" unfolding black_ok_def by (metis fun_upd_apply)
  moreover have "stack_ok es ?color st"
  proof (cases st)
    case (Cons ci st')
    obtain c k where ci: "ci = (c, k)" by fastforce
    have "below_ok es ?color cur st" by (rule below_ok_mono [OF inv(6)]) simp
    then have k: "0 < k" "k \<le> length (nexts es c)" "nexts es c ! (k - 1) = cur" "below_ok es ?color c st'"
      "\<And>j. j < k - 1 \<Longrightarrow> ?color (nexts es c ! j) = Black"
      by (simp_all add: Cons ci)
    have "?color (nexts es c ! j) = Black" if "j < k" for j
      using k(3) k(5) [of j] that by (cases "j = k - 1") simp_all
    with k show ?thesis by (simp add: Cons ci)
  qed simp
  moreover have "n \<in> set (butlast path) \<longleftrightarrow> ?color n = Gray" for n
    using inv(1, 2) inv(3) [of n] by auto
  ultimately show ?thesis unfolding dfs_inv_def using inv(1, 2) by simp
qed

lemma dfs_inv_cycle:
  assumes "dfs_inv es color ((cur, i) # st) path" and "i < length (nexts es cur)" and "color (nexts es cur ! i) = Gray"
  shows "\<exists>pos. position (nexts es cur ! i) path = Some pos \<and> closed_walk es (drop pos path)"
proof -
  let ?nx = "nexts es cur ! i"
  note inv = dfs_invD [OF assms(1)]
  have w: "successively (\<lambda>a b. (a, b) \<in> edge_rel es) path" using below_ok_walk [OF inv(6)] inv(1) by simp
  have "?nx \<in> set path" using inv(3) assms(3) by simp
  then obtain pos where pos: "position ?nx path = Some pos" "pos < length path" "path ! pos = ?nx"
    using position_Some by metis
  have "successively (\<lambda>a b. (a, b) \<in> edge_rel es) (drop pos path)"
    using w by (metis append_take_drop_id successively_append_iff)
  moreover have "last (drop pos path) = cur" using pos(2) inv(1) by simp
  moreover have "hd (drop pos path) = ?nx" using pos by (simp add: hd_drop_conv_nth)
  moreover have "(cur, ?nx) \<in> edge_rel es" using assms(2) by (auto simp: nexts_rel [symmetric])
  ultimately show ?thesis using pos(1, 2) by (auto simp: closed_walk_def)
qed

lemma cycle_loop_spec:
  assumes "dfs_inv es color stack path"
  shows "case cycle_loop es color stack path of
      Inl cycle \<Rightarrow> closed_walk es cycle
    | Inr color' \<Rightarrow> dfs_inv es color' [] [] \<and> (\<forall>n. color n \<noteq> White \<longrightarrow> color' n \<noteq> White)"
  using assms
proof (induction es color stack path rule: cycle_loop.induct)
  case (1 es color path)
  then show ?case by (auto simp: dfs_inv_def)
next
  case (2 es color cur i stack path)
  show ?case
  proof (cases "i < length (nexts es cur)")
    case False
    note r = 2(3) [OF False dfs_inv_pop [OF 2(4) False]]
    have grows: "(color(cur := Black)) n \<noteq> White" if "color n \<noteq> White" for n using that by simp
    from r grows False show ?thesis
      by (cases "cycle_loop es (color(cur := Black)) stack (butlast path)") (simp_all del: fun_upd_apply)
  next
    case True
    let ?nx = "nexts es cur ! i"
    show ?thesis
    proof (cases "color ?nx")
      case White
      note r = 2(1) [OF True refl White dfs_inv_push [OF 2(4) True White]]
      have grows: "(color(?nx := Gray)) n \<noteq> White" if "color n \<noteq> White" for n using that by simp
      from r grows True White show ?thesis
        by (cases "cycle_loop es (color(?nx := Gray)) ((?nx, 0) # (cur, i + 1) # stack) (path @ [?nx])")
          (simp_all add: Let_def del: fun_upd_apply)
    next
      case Gray
      with dfs_inv_cycle [OF 2(4) True Gray] True show ?thesis by (auto simp: Let_def)
    next
      case Black
      with 2(2) [OF True refl Black dfs_inv_skip [OF 2(4) True Black]] True show ?thesis by (simp add: Let_def)
    qed
  qed
qed

lemma dfs_inv_start:
  assumes "dfs_inv es color [] []" and "color start = White"
  shows "dfs_inv es (color(start := Gray)) [(start, 0)] [start]"
  using assms by (auto simp: dfs_inv_def black_ok_def)

lemma cycle_search_spec:
  assumes "dfs_inv es color [] []"
  shows "case cycle_search es nodes color of
      Some cycle \<Rightarrow> closed_walk es cycle
    | None \<Rightarrow> (\<forall>n \<in> set nodes. (n, n) \<notin> (edge_rel es)\<^sup>+)"
  using assms
proof (induction nodes arbitrary: color)
  case (Cons start nodes)
  have done_ok: "(n, n) \<notin> (edge_rel es)\<^sup>+" if "dfs_inv es c [] []" "c n \<noteq> White" for c n
    using that by (cases "c n") (auto simp: dfs_inv_def black_ok_def)
  show ?case
  proof (cases "color start = White")
    case False
    with Cons.IH [OF Cons.prems] done_ok [OF Cons.prems False] show ?thesis by (auto split: option.splits)
  next
    case True
    note l = cycle_loop_spec [OF dfs_inv_start [OF Cons.prems True]]
    show ?thesis
    proof (cases "cycle_loop es (color(start := Gray)) [(start, 0)] [start]")
      case (Inl c)
      with l True show ?thesis by simp
    next
      case (Inr color')
      with l have c: "dfs_inv es color' [] []" "color' start \<noteq> White" by auto
      with Cons.IH [OF c(1)] done_ok [OF c] True Inr show ?thesis by (auto split: option.splits)
    qed
  qed
qed simp

lemma find_cycle_spec:
  assumes "\<And>xs. set (order xs) = set xs"
  shows "case find_cycle order es of Some cycle \<Rightarrow> closed_walk es cycle | None \<Rightarrow> acyclic (edge_rel es)"
proof -
  have "dfs_inv es (\<lambda>_. White) [] []" by (simp add: dfs_inv_def black_ok_def)
  note s = cycle_search_spec [OF this, of "order (remdups (concat (map (\<lambda>e. [e_from e, e_to e]) es)))", folded find_cycle_def]
  have "n \<in> set (order (remdups (concat (map (\<lambda>e. [e_from e, e_to e]) es))))" if "(n, n) \<in> (edge_rel es)\<^sup>+" for n
    using tranclD [OF that] assms by (auto simp: edge_rel_def)
  with s show ?thesis by (cases "find_cycle order es") (auto simp: acyclic_def)
qed

section \<open>The requires/produces check: termination and meaning\<close>

declare produce_loop.simps [code]

definition unvisited :: "flow_descriptor \<Rightarrow> produced_map \<Rightarrow> string list \<Rightarrow> string set" where
  "unvisited flow visited produced = {n \<in> edge_nodes (fl_edges flow). \<not> already visited n produced}"

lemma finite_unvisited [simp]: "finite (unvisited flow visited produced)"
  by (rule finite_subset [of _ "edge_nodes (fl_edges flow)"]) (auto simp: unvisited_def)

definition all_keys :: "flow_descriptor \<Rightarrow> string set" where
  "all_keys flow = (\<Union>p \<in> set (fl_processors flow). set (sp_produces p))"

lemma produces_keys: "set (produces_of flow s) \<subseteq> all_keys flow"
proof (cases "proc_map flow s")
  case (Some p)
  then have "p \<in> set (fl_processors flow)" unfolding proc_map_def by (metis find_Some_iff nth_mem set_rev)
  with Some show ?thesis by (auto simp: produces_of_def all_keys_def)
qed (simp add: produces_of_def)

lemma already_update: "set q \<subseteq> set produced \<Longrightarrow> already visited n q \<Longrightarrow> already (visited(m \<mapsto> produced)) n q"
  by (auto simp: already_def split: if_splits option.splits)

lemma push_all:
  "\<exists>items. snd (fold (push_next produced) ns (visited, rest)) = items @ rest \<and>
     set items \<subseteq> {(n, produced) |n. n \<in> set ns \<and> \<not> already visited n produced} \<and>
     (\<forall>(n, p) \<in> set items. already (fst (fold (push_next produced) ns (visited, rest))) n produced) \<and>
     (\<forall>n q. set q \<subseteq> set produced \<longrightarrow> already visited n q \<longrightarrow>
        already (fst (fold (push_next produced) ns (visited, rest))) n q)"
proof (induction ns arbitrary: visited rest)
  case (Cons m ns)
  show ?case
  proof (cases "already visited m produced")
    case True
    then have "push_next produced m (visited, rest) = (visited, rest)" by (simp add: push_next_def)
    with Cons [of visited rest] show ?thesis by fastforce
  next
    case False
    let ?v = "visited(m \<mapsto> produced)"
    have p: "push_next produced m (visited, rest) = (?v, (m, produced) # rest)" using False by (simp add: push_next_def)
    from Cons [of ?v "(m, produced) # rest"] obtain items where i:
      "snd (fold (push_next produced) ns (?v, (m, produced) # rest)) = items @ (m, produced) # rest"
      "set items \<subseteq> {(n, produced) |n. n \<in> set ns \<and> \<not> already ?v n produced}"
      "\<forall>(n, p) \<in> set items. already (fst (fold (push_next produced) ns (?v, (m, produced) # rest))) n produced"
      "\<forall>n q. set q \<subseteq> set produced \<longrightarrow> already ?v n q \<longrightarrow>
         already (fst (fold (push_next produced) ns (?v, (m, produced) # rest))) n q" by blast
    have "already ?v m produced" by (simp add: already_def)
    moreover have "\<not> already visited n produced" if "\<not> already ?v n produced" for n
      using that already_update [of produced produced visited n m] by auto
    ultimately show ?thesis
      using i False p already_update [of _ produced visited]
      by (intro exI [of _ "items @ [(m, produced)]"]) auto
  qed
qed simp

definition keeps_visits :: "string list \<Rightarrow> produced_map \<Rightarrow> produced_map \<Rightarrow> bool" where
  "keeps_visits p v v' \<longleftrightarrow> (\<forall>n q. set q \<subseteq> set p \<longrightarrow> already v n q \<longrightarrow> already v' n q)"

lemma keeps_visits_trans: "keeps_visits p v v' \<Longrightarrow> keeps_visits p v' v'' \<Longrightarrow> keeps_visits p v v''"
  by (simp add: keeps_visits_def)

lemma keeps_visits_mono: "keeps_visits p v v' \<Longrightarrow> set q \<subseteq> set p \<Longrightarrow> keeps_visits q v v'"
  by (auto simp: keeps_visits_def)

lemma keeps_visits_unvisited: "keeps_visits p v v' \<Longrightarrow> unvisited flow v' p \<subseteq> unvisited flow v p"
  by (auto simp: keeps_visits_def unvisited_def)

definition loop_rank :: "flow_descriptor \<Rightarrow> string list \<Rightarrow> produced_map \<Rightarrow> nat \<times> nat" where
  "loop_rank flow p v = (card (all_keys flow - set p), card (unvisited flow v p))"

definition resolves :: "flow_descriptor \<Rightarrow> (string \<times> string list) list \<Rightarrow> string list \<Rightarrow> produced_map \<Rightarrow> bool" where
  "resolves flow items p v \<longleftrightarrow>
     (\<forall>rest re. \<exists>v' re'. produce_loop flow (items @ rest) v re = produce_loop flow rest v' re' \<and> keeps_visits p v v')"

lemma resolves_items:
  assumes "\<And>n v'. keeps_visits p v v' \<Longrightarrow> resolves flow [(n, p)] p v'" and "set items \<subseteq> {(n, p) |n. True}"
  shows "resolves flow items p v"
  using assms
proof (induction items arbitrary: v)
  case Nil
  show ?case by (auto simp: resolves_def keeps_visits_def)
next
  case (Cons it items)
  obtain n where it: "it = (n, p)" using Cons.prems(2) by auto
  have "\<exists>v2 re2. produce_loop flow ((it # items) @ rest) v re = produce_loop flow rest v2 re2 \<and> keeps_visits p v v2" for rest re
  proof -
    have "resolves flow [(n, p)] p v" by (rule Cons.prems(1)) (simp add: keeps_visits_def)
    then obtain v1 re1 where 1: "produce_loop flow ([(n, p)] @ items @ rest) v re = produce_loop flow (items @ rest) v1 re1"
        "keeps_visits p v v1"
      unfolding resolves_def by blast
    have "resolves flow items p v1"
      using Cons.prems keeps_visits_trans [OF 1(2)] by (intro Cons.IH) auto
    then obtain v2 re2 where 2: "produce_loop flow (items @ rest) v1 re1 = produce_loop flow rest v2 re2" "keeps_visits p v1 v2"
      unfolding resolves_def by blast
    from 1(1) 2(1) have "produce_loop flow ((it # items) @ rest) v re = produce_loop flow rest v2 re2" by (simp add: it)
    with keeps_visits_trans [OF 1(2) 2(2)] show ?thesis by blast
  qed
  then show ?case unfolding resolves_def by blast
qed

lemma rank_decreases:
  assumes "set items \<subseteq> {(n, p @ ps) |n. n \<in> set (nexts (fl_edges flow) s) \<and> \<not> already v n (p @ ps)}"
    and "\<forall>(n, q) \<in> set items. already v1 n (p @ ps)" and "keeps_visits (p @ ps) v v1"
    and "items \<noteq> []" and "keeps_visits (p @ ps) v1 v'" and "set ps \<subseteq> all_keys flow"
  shows "(loop_rank flow (p @ ps) v', loop_rank flow p v) \<in> less_than <*lex*> less_than"
proof (cases "set ps \<subseteq> set p")
  case True
  then have eq: "already w n (p @ ps) = already w n p" for w n by (auto simp: already_def split: option.splits)
  obtain n where n: "n \<in> set (nexts (fl_edges flow) s)" "\<not> already v n p" "already v1 n p"
    using assms(1, 2, 4) by (cases items) (auto simp: eq)
  have "unvisited flow v' (p @ ps) \<subseteq> unvisited flow v1 (p @ ps)" by (rule keeps_visits_unvisited [OF assms(5)])
  also have "\<dots> \<subset> unvisited flow v p"
  proof
    show "unvisited flow v1 (p @ ps) \<subseteq> unvisited flow v p"
      using assms(3) eq by (auto simp: unvisited_def keeps_visits_def)
    show "unvisited flow v1 (p @ ps) \<noteq> unvisited flow v p"
      using n nexts_nodes [OF n(1)] eq by (auto simp: unvisited_def)
  qed
  finally have "card (unvisited flow v' (p @ ps)) < card (unvisited flow v p)" by (simp add: psubset_card_mono)
  moreover have "set (p @ ps) = set p" using True by auto
  ultimately show ?thesis by (simp add: loop_rank_def)
next
  case False
  then have "all_keys flow - set (p @ ps) \<subset> all_keys flow - set p" using assms(6) by auto
  moreover have "finite (all_keys flow - set p)" by (simp add: all_keys_def)
  ultimately have "card (all_keys flow - set (p @ ps)) < card (all_keys flow - set p)" by (rule psubset_card_mono [rotated])
  then show ?thesis by (simp add: loop_rank_def)
qed

lemma resolves_item: "resolves flow [(s, p)] p v"
proof (induction "loop_rank flow p v" arbitrary: s p v rule: wf_induct_rule [OF wf_lex_prod [OF wf_less_than wf_less_than]])
  case (1 p v s)
  let ?q = "p @ produces_of flow s" and ?ns = "nexts (fl_edges flow) s"
  have "\<exists>v' re'. produce_loop flow ([(s, p)] @ rest) v re = produce_loop flow rest v' re' \<and> keeps_visits p v v'" for rest re
  proof -
    let ?vs = "fold (push_next ?q) ?ns (v, rest)"
    from push_all [of ?q ?ns v rest] obtain items where i: "snd ?vs = items @ rest"
      "set items \<subseteq> {(n, ?q) |n. n \<in> set ?ns \<and> \<not> already v n ?q}" "\<forall>(n, q) \<in> set items. already (fst ?vs) n ?q"
      "keeps_visits ?q v (fst ?vs)" unfolding keeps_visits_def by blast
    have step: "produce_loop flow ([(s, p)] @ rest) v re = produce_loop flow (items @ rest) (fst ?vs) (report flow s p re)"
      by (simp add: produce_loop.simps [of flow "(s, p) # rest"] i(1) Let_def)
    have "resolves flow items ?q (fst ?vs)"
    proof (cases "items = []")
      case False
      show ?thesis
        by (rule resolves_items) (use 1 rank_decreases [OF i(2, 3, 4) False _ produces_keys] i(2) in auto)
    qed (simp add: resolves_def, auto simp: keeps_visits_def)
    then obtain v' re' where l: "produce_loop flow (items @ rest) (fst ?vs) (report flow s p re) = produce_loop flow rest v' re'"
        "keeps_visits ?q (fst ?vs) v'" unfolding resolves_def by blast
    have "keeps_visits p v v'" by (rule keeps_visits_mono [OF keeps_visits_trans [OF i(4) l(2)]]) simp
    with step l(1) show ?thesis by metis
  qed
  then show ?case unfolding resolves_def by blast
qed

lemma check_requires_produces_returns: "\<exists>errs. check_requires_produces flow = Some errs"
proof -
  let ?p = "produces_of flow (fl_initial flow)"
  from resolves_item [of flow "fl_initial flow" ?p Map.empty] obtain v' re' where
    "produce_loop flow ([(fl_initial flow, ?p)] @ []) Map.empty ([], []) = produce_loop flow [] v' re'"
    unfolding resolves_def by blast
  then show ?thesis by (simp add: check_requires_produces_def produce_loop.simps [of flow "[]"])
qed

text \<open>The keys available at a state along some path from the initial state.\<close>

inductive along :: "flow_descriptor \<Rightarrow> string \<Rightarrow> string list \<Rightarrow> bool" for flow where
  start: "along flow (fl_initial flow) (produces_of flow (fl_initial flow))"
| step: "along flow s p \<Longrightarrow> (s, n) \<in> edge_rel (fl_edges flow) \<Longrightarrow> along flow n (p @ produces_of flow s)"

lemma fold_push_along:
  assumes "\<forall>(s, p) \<in> set rest. along flow s p" and "along flow s p"
    and "set ns \<subseteq> set (nexts (fl_edges flow) s)"
  shows "\<forall>(s, p) \<in> set (snd (fold (push_next (p @ produces_of flow s)) ns (v, rest))). along flow s p"
  using assms
proof (induction ns arbitrary: v rest)
  case (Cons n ns)
  let ?q = "p @ produces_of flow s"
  have n: "along flow n ?q" using Cons.prems by (auto simp: nexts_rel intro: along.step)
  show ?case
  proof (cases "already v n ?q")
    case True
    then have p: "push_next ?q n (v, rest) = (v, rest)" by (simp add: push_next_def)
    show ?thesis unfolding fold_simps p by (rule Cons.IH) (use Cons.prems in auto)
  next
    case False
    then have p: "push_next ?q n (v, rest) = (v(n \<mapsto> ?q), (n, ?q) # rest)" by (simp add: push_next_def)
    show ?thesis unfolding fold_simps p by (rule Cons.IH) (use Cons.prems n in auto)
  qed
qed simp

definition real_gap :: "flow_descriptor \<Rightarrow> flow_def_error \<Rightarrow> bool" where
  "real_gap flow err \<longleftrightarrow>
     (\<exists>s p. along flow s p \<and> missing_keys flow s p \<noteq> [] \<and> err = RequirementMismatch s (missing_keys flow s p))"

lemma report_real:
  "along flow s p \<Longrightarrow> \<forall>err \<in> set (snd re). real_gap flow err \<Longrightarrow> \<forall>err \<in> set (snd (report flow s p re)). real_gap flow err"
  by (auto simp: report_def Let_def real_gap_def)

lemma produce_loop_sound:
  assumes "produce_loop flow stack visited re = Some errs" and "\<forall>(s, p) \<in> set stack. along flow s p"
    and "\<forall>err \<in> set (snd re). real_gap flow err"
  shows "\<forall>err \<in> set errs. real_gap flow err"
  using assms(2, 3)
proof (induction rule: produce_loop.raw_induct [OF _ assms(1)])
  case (1 loop flow stack visited re errs)
  show ?case
  proof (cases stack)
    case Nil
    with 1 show ?thesis by simp
  next
    case (Cons sp rest)
    obtain s p where sp: "sp = (s, p)" by fastforce
    have al: "along flow s p" "\<forall>(s, p) \<in> set rest. along flow s p" using 1(3) by (auto simp: Cons sp)
    from 1(2) have "loop flow (snd (fold (push_next (p @ produces_of flow s)) (nexts (fl_edges flow) s) (visited, rest)))
        (fst (fold (push_next (p @ produces_of flow s)) (nexts (fl_edges flow) s) (visited, rest)))
        (report flow s p re) = Some errs"
      by (simp add: Cons sp Let_def)
    from 1(1) [OF this fold_push_along [OF al(2) al(1) subset_refl] report_real [OF al(1) 1(4)]] show ?thesis .
  qed
qed

text \<open>Every state in \<open>done\<close> has been checked, and what comes after it has been visited.\<close>

definition explored ::
    "flow_descriptor \<Rightarrow> string set \<Rightarrow> (string \<times> string list) list \<Rightarrow> produced_map \<Rightarrow> flow_def_error list \<Rightarrow> bool" where
  "explored flow finished stack visited errs \<longleftrightarrow>
     (\<forall>s \<in> finished. (\<exists>p. along flow s p \<and> missing_keys flow s p = []) \<or> (\<exists>m. RequirementMismatch s m \<in> set errs)) \<and>
     (\<forall>s \<in> finished. \<forall>n. (s, n) \<in> edge_rel (fl_edges flow) \<longrightarrow> n \<in> dom visited) \<and>
     dom visited \<union> {fl_initial flow} \<subseteq> finished \<union> fst ` set stack"

lemma fold_push_dom:
  "dom (fst (fold (push_next q) ns (v, rest))) = dom v \<union> set ns \<and>
   fst ` set rest \<subseteq> fst ` set (snd (fold (push_next q) ns (v, rest))) \<and>
   set ns - dom v \<subseteq> fst ` set (snd (fold (push_next q) ns (v, rest)))"
proof (induction ns arbitrary: v rest)
  case (Cons n ns)
  show ?case
  proof (cases "already v n q")
    case True
    then have n: "n \<in> dom v" by (auto simp: already_def split: option.splits)
    have "push_next q n (v, rest) = (v, rest)" using True by (simp add: push_next_def)
    with Cons [of v rest] n show ?thesis by auto
  next
    case False
    then have p: "push_next q n (v, rest) = (v(n \<mapsto> q), (n, q) # rest)" by (simp add: push_next_def)
    obtain v2 st2 where w: "fold (push_next q) ns (v(n \<mapsto> q), (n, q) # rest) = (v2, st2)" by fastforce
    from Cons [of "v(n \<mapsto> q)" "(n, q) # rest"] have "dom v2 = insert n (dom v) \<union> set ns"
      "insert n (fst ` set rest) \<subseteq> fst ` set st2" "set ns - insert n (dom v) \<subseteq> fst ` set st2"
      unfolding w by (simp_all only: fst_conv snd_conv list.set image_insert dom_fun_upd option.distinct if_False)
    then show ?thesis unfolding fold_simps p w fst_conv snd_conv list.set by blast
  qed
qed simp

lemma report_covers:
  assumes "along flow s p" and "\<forall>s \<in> set (fst re). \<exists>m. RequirementMismatch s m \<in> set (snd re)"
  shows "((\<exists>p. along flow s p \<and> missing_keys flow s p = []) \<or> (\<exists>m. RequirementMismatch s m \<in> set (snd (report flow s p re)))) \<and>
    (\<forall>t \<in> set (fst (report flow s p re)). \<exists>m. RequirementMismatch t m \<in> set (snd (report flow s p re))) \<and>
    set (snd re) \<subseteq> set (snd (report flow s p re))"
  using assms by (cases "missing_keys flow s p = []") (auto simp: report_def Let_def)

lemma explored_step:
  assumes "explored flow finished ((s, p) # rest) visited (snd re)" and "along flow s p"
    and "\<forall>s \<in> set (fst re). \<exists>m. RequirementMismatch s m \<in> set (snd re)"
  shows "explored flow (insert s finished) (snd (fold (push_next q) (nexts (fl_edges flow) s) (visited, rest)))
    (fst (fold (push_next q) (nexts (fl_edges flow) s) (visited, rest))) (snd (report flow s p re))"
proof -
  obtain v2 st2 where w: "fold (push_next q) (nexts (fl_edges flow) s) (visited, rest) = (v2, st2)" by fastforce
  note d = fold_push_dom [of q "nexts (fl_edges flow) s" visited rest, unfolded w fst_conv snd_conv]
  note r = report_covers [OF assms(2, 3)]
  note e = assms(1) [unfolded explored_def, THEN conjunct1]
    assms(1) [unfolded explored_def, THEN conjunct2, THEN conjunct1]
    assms(1) [unfolded explored_def, THEN conjunct2, THEN conjunct2]
  have "(\<exists>p. along flow t p \<and> missing_keys flow t p = []) \<or> (\<exists>m. RequirementMismatch t m \<in> set (snd (report flow s p re)))"
    if "t \<in> insert s finished" for t
  proof (cases "t = s")
    case True
    with r show ?thesis by blast
  next
    case False
    with that e(1) have "(\<exists>p. along flow t p \<and> missing_keys flow t p = []) \<or> (\<exists>m. RequirementMismatch t m \<in> set (snd re))" by blast
    with r show ?thesis by blast
  qed
  moreover have "n \<in> dom v2" if "t \<in> insert s finished" "(t, n) \<in> edge_rel (fl_edges flow)" for t n
  proof (cases "t = s")
    case True
    with that(2) have "n \<in> set (nexts (fl_edges flow) s)" by (simp add: nexts_rel)
    with d show ?thesis by blast
  next
    case False
    with that(1) have "t \<in> finished" by simp
    with that(2) e(2) have "n \<in> dom visited" by blast
    with d show ?thesis by blast
  qed
  moreover have "n \<in> insert s finished \<union> fst ` set st2" if "n \<in> dom v2 \<union> {fl_initial flow}" for n
  proof (cases "n \<in> set (nexts (fl_edges flow) s) - dom visited")
    case True
    with d show ?thesis by blast
  next
    case False
    with that d have "n \<in> dom visited \<union> {fl_initial flow}" by blast
    with e(3) have "n \<in> finished \<union> fst ` set ((s, p) # rest)" by blast
    with d show ?thesis by (auto simp only: list.set image_insert fst_conv)
  qed
  ultimately show ?thesis unfolding explored_def w fst_conv snd_conv by (intro conjI ballI allI impI subsetI)
qed

lemma produce_loop_explores:
  assumes "produce_loop flow stack visited re = Some errs" and "explored flow finished stack visited (snd re)"
    and "\<forall>(s, p) \<in> set stack. along flow s p" and "\<forall>s \<in> set (fst re). \<exists>m. RequirementMismatch s m \<in> set (snd re)"
  shows "\<exists>finished' v'. explored flow finished' [] v' errs"
  using assms(2, 3, 4)
proof (induction arbitrary: finished rule: produce_loop.raw_induct [OF _ assms(1)])
  case (1 loop flow stack visited re errs)
  show ?case
  proof (cases stack)
    case Nil
    with 1 show ?thesis by auto
  next
    case (Cons sp rest)
    obtain s p where sp: "sp = (s, p)" by fastforce
    have al: "along flow s p" "\<forall>(s, p) \<in> set rest. along flow s p" using 1(4) by (auto simp: Cons sp)
    from 1(2) have l: "loop flow (snd (fold (push_next (p @ produces_of flow s)) (nexts (fl_edges flow) s) (visited, rest)))
        (fst (fold (push_next (p @ produces_of flow s)) (nexts (fl_edges flow) s) (visited, rest)))
        (report flow s p re) = Some errs"
      by (simp add: Cons sp Let_def)
    show ?thesis
      by (rule 1(1) [OF l explored_step [OF _ al(1) 1(5)] fold_push_along [OF al(2) al(1) subset_refl]])
        (rule 1(3) [unfolded Cons sp], rule report_covers [OF al(1) 1(5), THEN conjunct2, THEN conjunct1])
  qed
qed

lemma explored_reachable:
  assumes "explored flow finished [] visited errs" and "(fl_initial flow, s) \<in> (edge_rel (fl_edges flow))\<^sup>*"
  shows "s \<in> finished"
  using assms(2)
proof induction
  case base
  then show ?case using assms(1) by (simp add: explored_def)
next
  case (step m n)
  then have "n \<in> dom visited" using assms(1) by (auto simp: explored_def)
  then show ?case using assms(1) by (auto simp: explored_def)
qed

lemma check_requires_produces_explores:
  assumes "check_requires_produces flow = Some errs" and "(fl_initial flow, s) \<in> (edge_rel (fl_edges flow))\<^sup>*"
  shows "(\<exists>p. along flow s p \<and> missing_keys flow s p = []) \<or> (\<exists>m. RequirementMismatch s m \<in> set errs)"
proof -
  have "explored flow {} [(fl_initial flow, produces_of flow (fl_initial flow))] Map.empty (snd ([] :: string list, []))"
    by (simp add: explored_def)
  from produce_loop_explores [OF assms(1) [unfolded check_requires_produces_def] this] along.start
  obtain finished v where e: "explored flow finished [] v errs" by auto
  from e explored_reachable [OF e assms(2)] show ?thesis unfolding explored_def by blast
qed

text \<open>
  The requires/produces check always returns, reports only gaps that a path from the initial
  state really has, and leaves no reachable state unchecked: a state it does not report has its
  requirements met along some path.
\<close>

theorem contract_check_correct:
  "\<exists>errs. check_requires_produces flow = Some errs \<and>
     (\<forall>err \<in> set errs. \<exists>s p. along flow s p \<and> missing_keys flow s p \<noteq> [] \<and> err = RequirementMismatch s (missing_keys flow s p)) \<and>
     (\<forall>s. (fl_initial flow, s) \<in> (edge_rel (fl_edges flow))\<^sup>* \<longrightarrow>
        (\<exists>p. along flow s p \<and> missing_keys flow s p = []) \<or> (\<exists>m. RequirementMismatch s m \<in> set errs))"
proof -
  obtain errs where errs: "check_requires_produces flow = Some errs" using check_requires_produces_returns by blast
  have "\<forall>err \<in> set errs. real_gap flow err"
    by (rule produce_loop_sound [OF errs [unfolded check_requires_produces_def]]) (simp_all add: along.start)
  then have "\<forall>err \<in> set errs. \<exists>s p. along flow s p \<and> missing_keys flow s p \<noteq> [] \<and> err = RequirementMismatch s (missing_keys flow s p)"
    by (simp add: real_gap_def)
  with errs check_requires_produces_explores [OF errs] show ?thesis by blast
qed

section \<open>Validation: meaning\<close>

lemma alias_scan_grows: "snd se \<noteq> [] \<Longrightarrow> snd (fold alias_step afs se) \<noteq> []"
proof (induction afs arbitrary: se)
  case (Cons x afs)
  have "snd (alias_step x se) \<noteq> []" using Cons.prems by (auto simp: alias_step_def split: option.splits prod.splits)
  with Cons.IH show ?case by simp
qed simp

lemma alias_scan:
  "snd (fold alias_step afs (m, [])) = [] \<longleftrightarrow>
    (\<forall>a f g. (a, f) \<in> set afs \<longrightarrow> m a = Some g \<or> (a, g) \<in> set afs \<longrightarrow> f = g)"
proof (induction afs arbitrary: m)
  case (Cons af afs)
  obtain a f where af: "af = (a, f)" by fastforce
  show ?case
  proof (cases "m a")
    case None
    then have s: "alias_step af (m, []) = (m(a \<mapsto> f), [])" by (simp add: alias_step_def af)
    show ?thesis
    proof
      assume "snd (fold alias_step (af # afs) (m, [])) = []"
      then have "\<forall>b f' g. (b, f') \<in> set afs \<longrightarrow> (m(a \<mapsto> f)) b = Some g \<or> (b, g) \<in> set afs \<longrightarrow> f' = g"
        unfolding fold_simps s Cons.IH .
      then show "\<forall>b f' g. (b, f') \<in> set (af # afs) \<longrightarrow> m b = Some g \<or> (b, g) \<in> set (af # afs) \<longrightarrow> f' = g"
        using None by (auto simp: af) (metis option.distinct(1))+
    next
      assume "\<forall>b f' g. (b, f') \<in> set (af # afs) \<longrightarrow> m b = Some g \<or> (b, g) \<in> set (af # afs) \<longrightarrow> f' = g"
      then have "\<forall>b f' g. (b, f') \<in> set afs \<longrightarrow> (m(a \<mapsto> f)) b = Some g \<or> (b, g) \<in> set afs \<longrightarrow> f' = g"
        by (auto simp: af)
      then show "snd (fold alias_step (af # afs) (m, [])) = []" unfolding fold_simps s Cons.IH .
    qed
  next
    case (Some g)
    show ?thesis
    proof (cases "g = f")
      case True
      then have s: "alias_step af (m, []) = (m, [])" using Some by (simp add: alias_step_def af)
      show ?thesis unfolding fold_simps s Cons.IH using Some True by (auto simp: af)
    next
      case False
      then have "snd (alias_step af (m, [])) \<noteq> []" using Some by (simp add: alias_step_def af)
      from alias_scan_grows [OF this, of afs] Some False show ?thesis by (auto simp: af)
    qed
  qed
qed simp

definition aliases_functional :: "(string \<times> string) list \<Rightarrow> bool" where
  "aliases_functional afs \<longleftrightarrow> (\<forall>(a, f) \<in> set afs. \<forall>(b, g) \<in> set afs. a = b \<longrightarrow> f = g)"

lemma alias_scan_iff: "snd (fold alias_step afs (Map.empty, [])) = [] \<longleftrightarrow> aliases_functional afs"
  unfolding alias_scan by (auto simp: aliases_functional_def)

lemma check_aliases_iff: "check_aliases flow = [] \<longleftrightarrow> aliases_functional (fl_flow_data_aliases flow)"
  unfolding check_aliases_def by (rule alias_scan_iff)

lemma fold_concat_map: "fold (\<lambda>x. fold f (g x)) xs s = fold f (concat (map g xs)) s"
  by (induction xs arbitrary: s) simp_all

lemma validate_global_aliases_iff:
  "validate_global_aliases flows = [] \<longleftrightarrow> aliases_functional (concat (map fl_flow_data_aliases flows))"
  unfolding validate_global_aliases_def fold_concat_map by (rule alias_scan_iff)

text \<open>What the rules other than the requires/produces contract demand, without reference to any algorithm.\<close>

definition flow_wf :: "flow_descriptor \<Rightarrow> bool" where
  "flow_wf flow \<longleftrightarrow>
     fl_initial flow \<in> set (fl_states flow) \<and> set (fl_terminals flow) \<subseteq> set (fl_states flow) \<and>
     edge_nodes (fl_edges flow) \<subseteq> set (fl_states flow) \<and>
     (\<forall>s \<in> set (fl_states flow). (fl_initial flow, s) \<in> (edge_rel (fl_edges flow))\<^sup>*) \<and>
     acyclic (edge_rel (internal_edges flow)) \<and> (\<forall>s. ext_count flow s \<le> 1) \<and>
     aliases_functional (fl_flow_data_aliases flow) \<and>
     (\<forall>t \<in> set (fl_terminals flow). \<forall>s. (t, s) \<notin> edge_rel (fl_edges flow))"

lemma sanity_errors_Nil:
  "sanity_errors flow = [] \<longleftrightarrow> fl_initial flow \<in> set (fl_states flow) \<and> set (fl_terminals flow) \<subseteq> set (fl_states flow) \<and>
     edge_nodes (fl_edges flow) \<subseteq> set (fl_states flow)"
  by (auto simp: sanity_errors_def edge_nodes_def split: if_splits)

lemma outgoing_errors_Nil:
  "outgoing_errors flow = [] \<longleftrightarrow> (\<forall>t \<in> set (fl_terminals flow). \<forall>s. (t, s) \<notin> edge_rel (fl_edges flow))"
  by (auto simp: outgoing_errors_def edge_rel_def split: if_splits)

lemma find_cycle_None:
  assumes "\<And>xs. set (order xs) = set xs"
  shows "find_cycle order es = None \<longleftrightarrow> acyclic (edge_rel es)"
  using find_cycle_spec [of order es, OF assms]
  by (cases "find_cycle order es") (auto simp: acyclic_def dest: closed_walk_trancl)

lemma ext_count_pos: "1 < ext_count flow s \<Longrightarrow> s \<in> set (map e_from (fl_external_edges flow))"
  by (cases "filter (\<lambda>e. e_from e = s) (fl_external_edges flow)") (auto simp: ext_count_def dest: filter_eq_ConsD)

lemma graph_errors_Nil:
  assumes "\<And>xs. set (order xs) = set xs" and "set (fl_terminals flow) \<subseteq> set (fl_states flow)"
  shows "graph_errors order flow = [] \<longleftrightarrow>
    (\<forall>s \<in> set (fl_states flow). (fl_initial flow, s) \<in> (edge_rel (fl_edges flow))\<^sup>*) \<and>
    acyclic (edge_rel (internal_edges flow)) \<and> (\<forall>s. ext_count flow s \<le> 1)"
proof -
  let ?ext = "order (remdups (map e_from (fl_external_edges flow)))" and ?reach = "bfs_reachable flow"
  have "(\<forall>s \<in> set ?ext. \<not> 1 < ext_count flow s) \<longleftrightarrow> (\<forall>s. ext_count flow s \<le> 1)"
    using ext_count_pos [of flow] by (simp add: assms(1) not_less) (metis image_iff not_less)
  then have x: "concat (map (\<lambda>s. if 1 < ext_count flow s then [MultipleExternalEdges s] else []) ?ext) = [] \<longleftrightarrow>
      (\<forall>s. ext_count flow s \<le> 1)" by auto
  have c: "(case find_cycle order (internal_edges flow) of Some cycle \<Rightarrow> [AutoBranchCycle cycle] | None \<Rightarrow> []) = [] \<longleftrightarrow>
      acyclic (edge_rel (internal_edges flow))"
    unfolding find_cycle_None [OF assms(1), symmetric] by (auto split: option.splits)
  have r: "concat (map (\<lambda>s. if s \<notin> set ?reach then [UnreachableState s] else []) (fl_states flow)) = [] \<longleftrightarrow>
      (\<forall>s \<in> set (fl_states flow). (fl_initial flow, s) \<in> (edge_rel (fl_edges flow))\<^sup>*)" by (auto simp: reachable_iff)
  have "(if \<not> list_ex (\<lambda>t. t \<in> set ?reach) (fl_terminals flow) \<and> fl_terminals flow \<noteq> [] then [NoTerminalPath] else []) = []"
    if "\<forall>s \<in> set (fl_states flow). (fl_initial flow, s) \<in> (edge_rel (fl_edges flow))\<^sup>*"
    using that assms(2) by (cases "fl_terminals flow") (auto simp: reachable_iff)
  then show ?thesis unfolding graph_errors_def Let_def append_is_Nil_conv x c r by blast
qed

lemma validate_flow_ok:
  assumes "\<And>xs. set (order xs) = set xs"
  shows "(\<exists>r. validate_flow order flow = Some r) \<and>
    (validate_flow order flow = Some (Inr ()) \<longleftrightarrow> flow_wf flow \<and> contract_errors flow = Some [])"
proof -
  obtain contract where c: "contract_errors flow = Some contract"
    using check_requires_produces_returns by (cases "fl_processors flow = []") (auto simp: contract_errors_def)
  show ?thesis
  proof (cases "sanity_errors flow = []")
    case True
    then have "\<not> list_ex is_fatal (sanity_errors flow)" by simp
    with graph_errors_Nil [of order flow, OF assms] True [unfolded sanity_errors_Nil] show ?thesis
      by (simp add: validate_flow_def Let_def c True flow_wf_def check_aliases_iff outgoing_errors_Nil conj_ac)
  next
    case False
    then have "\<not> flow_wf flow" by (auto simp: flow_wf_def sanity_errors_Nil)
    with False show ?thesis by (simp add: validate_flow_def Let_def c)
  qed
qed

text \<open>
  C35: startup validation of a flow definition decides exactly its rules. It always returns, and it
  accepts a definition if and only if every declared state is reachable, all names are declared, the
  automatic transitions form no cycle, no state waits for two external inputs, no terminal state has
  a way out, aliases are unambiguous and the requires/produces check is clean; whatever the order in
  which hash tables are iterated.
\<close>

theorem validate_flow_correct:
  assumes "\<And>xs. set (order xs) = set xs"
  shows "(\<exists>r. validate_flow order flow = Some r) \<and>
    (validate_flow order flow = Some (Inr ()) \<longleftrightarrow> flow_wf flow \<and> contract_errors flow = Some [])"
  by (rule validate_flow_ok [OF assms])

end
