(* ===== verification/Flow_Tables.thy ===== *)
theory Flow_Tables
  imports Flow_Validate
begin

text \<open>
  The flow descriptors of \<open>auth-server/src/handlers/viz.rs\<close> and the startup gate of the auth server
  (\<open>main.rs\<close>), which refuses to serve unless every descriptor passes validation.
\<close>

definition mk_edge :: "string \<Rightarrow> string \<Rightarrow> string \<Rightarrow> edge" where
  "mk_edge f t l = \<lparr> e_from = f, e_to = t, e_label = l \<rparr>"

definition OIDC_EXTERNAL :: "edge list" where
  "OIDC_EXTERNAL =
       [mk_edge ''REDIRECTED'' ''CALLBACK_RECEIVED'' ''OidcCallbackGuard'']"

definition OIDC :: flow_descriptor where
  "OIDC =
     \<lparr> fl_name = ''oidc'',
       fl_states = [''INIT'', ''REDIRECTED'', ''CALLBACK_RECEIVED'', ''TOKEN_EXCHANGED'', ''USER_RESOLVED'', ''COMPLETE'', ''COMPLETE_MFA_PENDING'', ''TERMINAL_ERROR''],
       fl_initial = ''INIT'',
       fl_terminals = [''COMPLETE'', ''COMPLETE_MFA_PENDING'', ''TERMINAL_ERROR''],
       fl_edges =
       [mk_edge ''INIT'' ''REDIRECTED'' ''OidcInitProcessor'',
        mk_edge ''REDIRECTED'' ''CALLBACK_RECEIVED'' ''OidcCallbackGuard'',
        mk_edge ''CALLBACK_RECEIVED'' ''TOKEN_EXCHANGED'' ''OidcTokenExchangeProcessor'',
        mk_edge ''TOKEN_EXCHANGED'' ''USER_RESOLVED'' ''UserResolveProcessor'',
        mk_edge ''USER_RESOLVED'' ''COMPLETE'' ''branch(no_mfa)'',
        mk_edge ''USER_RESOLVED'' ''COMPLETE_MFA_PENDING'' ''branch(mfa_required)'',
        mk_edge ''REDIRECTED'' ''TERMINAL_ERROR'' ''guard_fail'',
        mk_edge ''CALLBACK_RECEIVED'' ''TERMINAL_ERROR'' ''idp_error''],
       fl_external_edges = OIDC_EXTERNAL,
       fl_processors = [], fl_flow_data_aliases = [] \<rparr>"

definition PASSKEY_EXTERNAL :: "edge list" where
  "PASSKEY_EXTERNAL =
       [mk_edge ''REG_CHALLENGE'' ''ATTESTATION_RECEIVED'' ''attestation_ext'',
        mk_edge ''AUTH_CHALLENGE'' ''ASSERTION_RECEIVED'' ''assertion_ext'']"

definition PASSKEY :: flow_descriptor where
  "PASSKEY =
     \<lparr> fl_name = ''passkey'',
       fl_states = [''INIT'', ''REG_CHALLENGE'', ''ATTESTATION_RECEIVED'', ''REGISTERED'', ''AUTH_CHALLENGE'', ''ASSERTION_RECEIVED'', ''USER_RESOLVED'', ''COUNTER_CHECKED'', ''COMPLETE'', ''TERMINAL_ERROR'', ''CLONE_REJECTED''],
       fl_initial = ''INIT'',
       fl_terminals = [''REGISTERED'', ''COMPLETE'', ''TERMINAL_ERROR'', ''CLONE_REJECTED''],
       fl_edges =
       [mk_edge ''INIT'' ''REG_CHALLENGE'' ''register_start'',
        mk_edge ''REG_CHALLENGE'' ''ATTESTATION_RECEIVED'' ''attestation_ext'',
        mk_edge ''ATTESTATION_RECEIVED'' ''REGISTERED'' ''verify_and_store'',
        mk_edge ''REG_CHALLENGE'' ''TERMINAL_ERROR'' ''already_registered'',
        mk_edge ''ATTESTATION_RECEIVED'' ''TERMINAL_ERROR'' ''attestation_invalid'',
        mk_edge ''INIT'' ''AUTH_CHALLENGE'' ''discover_start'',
        mk_edge ''AUTH_CHALLENGE'' ''ASSERTION_RECEIVED'' ''assertion_ext'',
        mk_edge ''ASSERTION_RECEIVED'' ''USER_RESOLVED'' ''verify_user_handle'',
        mk_edge ''USER_RESOLVED'' ''COUNTER_CHECKED'' ''sign_counter_check'',
        mk_edge ''COUNTER_CHECKED'' ''COMPLETE'' ''session_issue'',
        mk_edge ''COUNTER_CHECKED'' ''CLONE_REJECTED'' ''signcount_regression'',
        mk_edge ''AUTH_CHALLENGE'' ''TERMINAL_ERROR'' ''challenge_expired'',
        mk_edge ''ASSERTION_RECEIVED'' ''TERMINAL_ERROR'' ''invalid_signature''],
       fl_external_edges = PASSKEY_EXTERNAL,
       fl_processors = [], fl_flow_data_aliases = [] \<rparr>"

definition MFA_EXTERNAL :: "edge list" where
  "MFA_EXTERNAL =
       [mk_edge ''CHALLENGE_SHOWN'' ''VERIFIED'' ''MfaCodeGuard'']"

definition MFA :: flow_descriptor where
  "MFA =
     \<lparr> fl_name = ''mfa'',
       fl_states = [''CHALLENGE_SHOWN'', ''VERIFIED'', ''TERMINAL_ERROR'', ''EXPIRED''],
       fl_initial = ''CHALLENGE_SHOWN'',
       fl_terminals = [''VERIFIED'', ''TERMINAL_ERROR'', ''EXPIRED''],
       fl_edges =
       [mk_edge ''CHALLENGE_SHOWN'' ''VERIFIED'' ''MfaCodeGuard'',
        mk_edge ''CHALLENGE_SHOWN'' ''TERMINAL_ERROR'' ''3x_incorrect'',
        mk_edge ''CHALLENGE_SHOWN'' ''EXPIRED'' ''ttl''],
       fl_external_edges = MFA_EXTERNAL,
       fl_processors = [], fl_flow_data_aliases = [] \<rparr>"

definition INVITE_EXTERNAL :: "edge list" where
  "INVITE_EXTERNAL =
       [mk_edge ''CONSENT_SHOWN'' ''ACCEPTED'' ''EmailMatchGuard'',
        mk_edge ''ACCOUNT_SWITCHING'' ''ACCEPTED'' ''ResumeGuard'']"

definition INVITE :: flow_descriptor where
  "INVITE =
     \<lparr> fl_name = ''invite'',
       fl_states = [''CONSENT_SHOWN'', ''ACCOUNT_SWITCHING'', ''ACCEPTED'', ''COMPLETE'', ''TERMINAL_ERROR'', ''EXPIRED''],
       fl_initial = ''CONSENT_SHOWN'',
       fl_terminals = [''COMPLETE'', ''TERMINAL_ERROR'', ''EXPIRED''],
       fl_edges =
       [mk_edge ''CONSENT_SHOWN'' ''ACCEPTED'' ''EmailMatchGuard'',
        mk_edge ''CONSENT_SHOWN'' ''ACCOUNT_SWITCHING'' ''email_mismatch'',
        mk_edge ''ACCOUNT_SWITCHING'' ''ACCEPTED'' ''ResumeGuard'',
        mk_edge ''ACCEPTED'' ''COMPLETE'' ''InviteCompleteProcessor'',
        mk_edge ''CONSENT_SHOWN'' ''TERMINAL_ERROR'' ''invite_expired'',
        mk_edge ''ACCOUNT_SWITCHING'' ''EXPIRED'' ''resume_timeout''],
       fl_external_edges = INVITE_EXTERNAL,
       fl_processors = [], fl_flow_data_aliases = [] \<rparr>"

definition REGISTRATION_EXTERNAL :: "edge list" where
  "REGISTRATION_EXTERNAL =
       [mk_edge ''EMAIL_VERIFICATION_PENDING'' ''EMAIL_VERIFIED'' ''RegVerifyEmailGuard'',
        mk_edge ''MFA_SETUP_OPTIONAL'' ''COMPLETED'' ''RegMfaDoneGuard'']"

definition REGISTRATION :: flow_descriptor where
  "REGISTRATION =
     \<lparr> fl_name = ''registration'',
       fl_states = [''START'', ''EMAIL_VERIFICATION_PENDING'', ''EMAIL_VERIFIED'', ''MFA_SETUP_OPTIONAL'', ''COMPLETED'', ''CANCELLED''],
       fl_initial = ''START'',
       fl_terminals = [''COMPLETED'', ''CANCELLED''],
       fl_edges =
       [mk_edge ''START'' ''EMAIL_VERIFICATION_PENDING'' ''RegIssueVerification'',
        mk_edge ''EMAIL_VERIFICATION_PENDING'' ''EMAIL_VERIFIED'' ''RegVerifyEmailGuard'',
        mk_edge ''EMAIL_VERIFIED'' ''MFA_SETUP_OPTIONAL'' ''branch(setup)'',
        mk_edge ''EMAIL_VERIFIED'' ''COMPLETED'' ''branch(skip)'',
        mk_edge ''MFA_SETUP_OPTIONAL'' ''COMPLETED'' ''RegMfaDoneGuard'',
        mk_edge ''EMAIL_VERIFICATION_PENDING'' ''CANCELLED'' ''expire_or_cancel''],
       fl_external_edges = REGISTRATION_EXTERNAL,
       fl_processors = [], fl_flow_data_aliases = [] \<rparr>"

definition EMAIL_VERIFICATION_EXTERNAL :: "edge list" where
  "EMAIL_VERIFICATION_EXTERNAL =
       [mk_edge ''SEND_REQUESTED'' ''SENT'' ''EvMarkSentGuard'',
        mk_edge ''SENT'' ''VERIFIED'' ''EvVerifyTokenGuard'']"

definition EMAIL_VERIFICATION :: flow_descriptor where
  "EMAIL_VERIFICATION =
     \<lparr> fl_name = ''email_verification'',
       fl_states = [''TOKEN_ISSUED'', ''SEND_REQUESTED'', ''SENT'', ''VERIFIED'', ''CANCELLED''],
       fl_initial = ''TOKEN_ISSUED'',
       fl_terminals = [''VERIFIED'', ''CANCELLED''],
       fl_edges =
       [mk_edge ''TOKEN_ISSUED'' ''SEND_REQUESTED'' ''EvRequestSend'',
        mk_edge ''SEND_REQUESTED'' ''SENT'' ''EvMarkSentGuard'',
        mk_edge ''SENT'' ''VERIFIED'' ''EvVerifyTokenGuard'',
        mk_edge ''SEND_REQUESTED'' ''CANCELLED'' ''send_failed''],
       fl_external_edges = EMAIL_VERIFICATION_EXTERNAL,
       fl_processors = [], fl_flow_data_aliases = [] \<rparr>"

definition PASSWORD_RESET_EXTERNAL :: "edge list" where
  "PASSWORD_RESET_EXTERNAL =
       [mk_edge ''SEND_REQUESTED'' ''SENT'' ''PrMarkSentGuard'',
        mk_edge ''SENT'' ''TOKEN_VERIFIED'' ''PrVerifyResetTokenGuard'',
        mk_edge ''TOKEN_VERIFIED'' ''PASSWORD_CHANGED'' ''PrChangePasswordGuard'']"

definition PASSWORD_RESET :: flow_descriptor where
  "PASSWORD_RESET =
     \<lparr> fl_name = ''password_reset'',
       fl_states = [''REQUESTED'', ''TOKEN_ISSUED'', ''SEND_REQUESTED'', ''SENT'', ''TOKEN_VERIFIED'', ''PASSWORD_CHANGED'', ''COMPLETED'', ''CANCELLED''],
       fl_initial = ''REQUESTED'',
       fl_terminals = [''COMPLETED'', ''CANCELLED''],
       fl_edges =
       [mk_edge ''REQUESTED'' ''TOKEN_ISSUED'' ''PrIssueResetToken'',
        mk_edge ''TOKEN_ISSUED'' ''SEND_REQUESTED'' ''PrRequestSend'',
        mk_edge ''SEND_REQUESTED'' ''SENT'' ''PrMarkSentGuard'',
        mk_edge ''SENT'' ''TOKEN_VERIFIED'' ''PrVerifyResetTokenGuard'',
        mk_edge ''TOKEN_VERIFIED'' ''PASSWORD_CHANGED'' ''PrChangePasswordGuard'',
        mk_edge ''PASSWORD_CHANGED'' ''COMPLETED'' ''PrComplete'',
        mk_edge ''SEND_REQUESTED'' ''CANCELLED'' ''expire''],
       fl_external_edges = PASSWORD_RESET_EXTERNAL,
       fl_processors = [], fl_flow_data_aliases = [] \<rparr>"

definition MFA_SETUP_EXTERNAL :: "edge list" where
  "MFA_SETUP_EXTERNAL =
       [mk_edge ''NOT_CONFIGURED'' ''SETUP_STARTED'' ''MfaStartSetupGuard'',
        mk_edge ''CONFIRMATION_PENDING'' ''ENABLED'' ''MfaConfirmCodeGuard'']"

definition MFA_SETUP :: flow_descriptor where
  "MFA_SETUP =
     \<lparr> fl_name = ''mfa_setup'',
       fl_states = [''NOT_CONFIGURED'', ''SETUP_STARTED'', ''SECRET_ISSUED'', ''CONFIRMATION_PENDING'', ''ENABLED'', ''RECOVERY_CODES_ISSUED'', ''CANCELLED''],
       fl_initial = ''NOT_CONFIGURED'',
       fl_terminals = [''RECOVERY_CODES_ISSUED'', ''CANCELLED''],
       fl_edges =
       [mk_edge ''NOT_CONFIGURED'' ''SETUP_STARTED'' ''MfaStartSetupGuard'',
        mk_edge ''SETUP_STARTED'' ''SECRET_ISSUED'' ''MfaIssueSecret'',
        mk_edge ''SECRET_ISSUED'' ''CONFIRMATION_PENDING'' ''MfaPresentSecret'',
        mk_edge ''CONFIRMATION_PENDING'' ''ENABLED'' ''MfaConfirmCodeGuard'',
        mk_edge ''ENABLED'' ''RECOVERY_CODES_ISSUED'' ''MfaIssueRecoveryCodes'',
        mk_edge ''CONFIRMATION_PENDING'' ''CANCELLED'' ''cancel''],
       fl_external_edges = MFA_SETUP_EXTERNAL,
       fl_processors = [], fl_flow_data_aliases = [] \<rparr>"

definition LOGIN_CHALLENGE_EXTERNAL :: "edge list" where
  "LOGIN_CHALLENGE_EXTERNAL =
       [mk_edge ''CHALLENGE_SENT'' ''CHALLENGE_VERIFIED'' ''LcVerifyChallengeGuard'']"

definition LOGIN_CHALLENGE :: flow_descriptor where
  "LOGIN_CHALLENGE =
     \<lparr> fl_name = ''login_challenge'',
       fl_states = [''PASSWORD_ACCEPTED'', ''MFA_REQUIRED'', ''CHALLENGE_SENT'', ''CHALLENGE_VERIFIED'', ''LOGIN_GRANTED'', ''LOGIN_DENIED''],
       fl_initial = ''PASSWORD_ACCEPTED'',
       fl_terminals = [''LOGIN_GRANTED'', ''LOGIN_DENIED''],
       fl_edges =
       [mk_edge ''PASSWORD_ACCEPTED'' ''MFA_REQUIRED'' ''branch(mfa)'',
        mk_edge ''PASSWORD_ACCEPTED'' ''LOGIN_GRANTED'' ''branch(grant)'',
        mk_edge ''MFA_REQUIRED'' ''CHALLENGE_SENT'' ''LcSendChallenge'',
        mk_edge ''CHALLENGE_SENT'' ''CHALLENGE_VERIFIED'' ''LcVerifyChallengeGuard'',
        mk_edge ''CHALLENGE_VERIFIED'' ''LOGIN_GRANTED'' ''LcGrant'',
        mk_edge ''CHALLENGE_SENT'' ''LOGIN_DENIED'' ''deny''],
       fl_external_edges = LOGIN_CHALLENGE_EXTERNAL,
       fl_processors = [], fl_flow_data_aliases = [] \<rparr>"

definition DEVICE_GRANT_EXTERNAL :: "edge list" where
  "DEVICE_GRANT_EXTERNAL =
       [mk_edge ''PENDING'' ''APPROVED'' ''device_approve'']"

definition DEVICE_GRANT :: flow_descriptor where
  "DEVICE_GRANT =
     \<lparr> fl_name = ''device_grant'',
       fl_states = [''PENDING'', ''APPROVED'', ''COMPLETED'', ''DENIED'', ''EXPIRED''],
       fl_initial = ''PENDING'',
       fl_terminals = [''COMPLETED'', ''DENIED'', ''EXPIRED''],
       fl_edges =
       [mk_edge ''PENDING'' ''APPROVED'' ''device_approve'',
        mk_edge ''PENDING'' ''DENIED'' ''device_deny'',
        mk_edge ''PENDING'' ''EXPIRED'' ''ttl'',
        mk_edge ''APPROVED'' ''COMPLETED'' ''token_poll''],
       fl_external_edges = DEVICE_GRANT_EXTERNAL,
       fl_processors = [], fl_flow_data_aliases = [] \<rparr>"

definition flow_descriptors :: "flow_descriptor list" where
  "flow_descriptors =
     [OIDC, PASSKEY, MFA, INVITE, REGISTRATION, EMAIL_VERIFICATION, PASSWORD_RESET, MFA_SETUP, LOGIN_CHALLENGE, DEVICE_GRANT]"

text \<open>Whether the server comes up: \<open>Some False\<close> is \<open>exit(1)\<close>, \<open>None\<close> a validation that does not return.\<close>

fun startup_gate :: "(string list \<Rightarrow> string list) \<Rightarrow> flow_descriptor list \<Rightarrow> bool option" where
  "startup_gate order [] = Some True"
| "startup_gate order (d # ds) =
     (case validate_flow order d of
        None \<Rightarrow> None
      | Some (Inl _) \<Rightarrow> Some False
      | Some (Inr _) \<Rightarrow> startup_gate order ds)"

definition startup_flows :: "(string list \<Rightarrow> string list) \<Rightarrow> flow_descriptor list \<Rightarrow> bool option" where
  "startup_flows order ds =
     (case startup_gate order ds of
        Some True \<Rightarrow> Some (validate_global_aliases ds = [])
      | r \<Rightarrow> r)"

lemma startup_gate_True:
  assumes "\<And>xs. set (order xs) = set xs"
  shows "startup_gate order ds = Some True \<longleftrightarrow> (\<forall>d \<in> set ds. validate_flow order d = Some (Inr ()))"
  by (induction ds) (auto split: option.splits sum.splits)

lemma validate_flow_order:
  assumes "\<And>xs. set (order xs) = set xs" and "\<And>xs. set (order' xs) = set xs" and "validate_flow order flow = Some (Inr ())"
  shows "validate_flow order' flow = Some (Inr ())"
  using assms(3) validate_flow_ok [of order flow, OF assms(1)] validate_flow_ok [of order' flow, OF assms(2)] by simp

lemma descriptors_valid: "\<forall>d \<in> set flow_descriptors. validate_flow id d = Some (Inr ())"
  by code_simp

text \<open>
  The auth server comes up. Whatever the iteration order of hash tables, each of the ten flow
  descriptors passes validation and no alias is claimed twice, so the startup gate opens.
\<close>

theorem startup_flows_pass:
  assumes "\<And>xs. set (order xs) = set xs"
  shows "startup_flows order flow_descriptors = Some True"
proof -
  have "\<forall>d \<in> set flow_descriptors. validate_flow order d = Some (Inr ())"
    using descriptors_valid validate_flow_order [of id order, OF _ assms] by auto
  then have "startup_gate order flow_descriptors = Some True" by (simp add: startup_gate_True [OF assms])
  moreover have "validate_global_aliases flow_descriptors = []" by code_simp
  ultimately show ?thesis by (simp add: startup_flows_def)
qed

theorem startup_flows_pass_witness: "startup_flows rev flow_descriptors = Some True"
  by (rule startup_flows_pass) simp

theorem validate_flow_correct_witness: "flow_wf PASSKEY \<and> contract_errors PASSKEY = Some []"
proof -
  have "validate_flow rev PASSKEY = Some (Inr ())" by code_simp
  with validate_flow_correct [of rev PASSKEY] show ?thesis by simp
qed

section \<open>A gap the contract check does not see\<close>

definition gap_flow :: flow_descriptor where
  "gap_flow =
     \<lparr> fl_name = ''gap'', fl_states = [''A'', ''B'', ''C'', ''D''], fl_initial = ''A'', fl_terminals = [''D''],
       fl_edges = [mk_edge ''A'' ''C'' ''branch_no'', mk_edge ''A'' ''B'' ''branch_yes'', mk_edge ''B'' ''D'' ''auto'', mk_edge ''C'' ''D'' ''auto''],
       fl_external_edges = [],
       fl_processors =
         [\<lparr> sp_state = ''B'', sp_requires = [], sp_produces = [''token''] \<rparr>,
          \<lparr> sp_state = ''D'', sp_requires = [''token''], sp_produces = [] \<rparr>],
       fl_flow_data_aliases = [] \<rparr>"

text \<open>
  A state already visited with more keys is not visited again with fewer, so a flow passes although
  along one of its branches, here through \<open>C\<close>, the required key has not been produced.
\<close>

theorem contract_gap_missed:
  "validate_flow id gap_flow = Some (Inr ()) \<and> along gap_flow ''D'' [] \<and> missing_keys gap_flow ''D'' [] = [''token'']"
proof -
  have "along gap_flow ''A'' (produces_of gap_flow ''A'')" using along.start [of gap_flow] by (simp add: gap_flow_def)
  then have a: "along gap_flow ''A'' []" by (simp add: produces_of_def proc_map_def gap_flow_def)
  from along.step [OF this, of "''C''"] have c: "along gap_flow ''C'' []"
    by (simp add: produces_of_def proc_map_def gap_flow_def edge_rel_def mk_edge_def) (metis edge.select_convs)
  from along.step [OF this, of "''D''"] have "along gap_flow ''D'' []"
    by (simp add: produces_of_def proc_map_def gap_flow_def edge_rel_def mk_edge_def) (metis edge.select_convs)
  moreover have "validate_flow id gap_flow = Some (Inr ())" by code_simp
  moreover have "missing_keys gap_flow ''D'' [] = [''token'']" by code_simp
  ultimately show ?thesis by simp
qed

theorem contract_check_correct_witness: "\<exists>p. along gap_flow ''D'' p \<and> missing_keys gap_flow ''D'' p = []"
proof -
  have "check_requires_produces gap_flow = Some []" by code_simp
  moreover have "(''A'', ''B'') \<in> edge_rel (fl_edges gap_flow)" "(''B'', ''D'') \<in> edge_rel (fl_edges gap_flow)"
    unfolding nexts_rel [symmetric] by code_simp+
  then have "(fl_initial gap_flow, ''D'') \<in> (edge_rel (fl_edges gap_flow))\<^sup>*"
    by (simp add: gap_flow_def)
  ultimately show ?thesis using contract_check_correct [of gap_flow] by auto
qed

end
