(* ===== verification/Session_Store.thy ===== *)
theory Session_Store
  imports Policy
begin

text \<open>
  Session records and the two implementations of the \<open>SessionStore\<close> trait: the in-memory map of
  \<open>auth-core/src/store/session.rs\<close> and the table behind \<open>PgStore\<close> (\<open>store/pg.rs\<close>), each SQL statement as
  the update it performs on the rows. The trait is a record of operations; the locale states what
  its callers rely on, and both implementations are shown to provide it. A database that answers is
  assumed: a lost connection is an error that changes nothing.
\<close>

section \<open>Records\<close>

record session_record =
  sr_session_id :: string
  sr_user_id :: string
  sr_tenant_id :: string
  sr_return_to :: "string option"
  sr_created_at :: u64
  sr_last_active_at :: u64
  sr_expires_at :: u64
  sr_invalidated_at :: "u64 option"
  sr_mfa_verified_at :: "u64 option"
  sr_ip_address :: "string option"
  sr_user_agent :: "string option"
  sr_csrf_token :: "string option"
  sr_email :: "string option"
  sr_tenant_slug :: "string option"
  sr_roles :: "string list"
  sr_display_name :: "string option"

definition is_valid_at :: "session_record \<Rightarrow> u64 \<Rightarrow> bool" where
  "is_valid_at r now_epoch \<longleftrightarrow> sr_invalidated_at r = None \<and> now_epoch < sr_expires_at r"

definition is_mfa_verified :: "session_record \<Rightarrow> bool" where
  "is_mfa_verified r \<longleftrightarrow> sr_mfa_verified_at r \<noteq> None"

definition to_volta_headers :: "session_record \<Rightarrow> string \<Rightarrow> string option" where
  "to_volta_headers r = map_of
     ([(''x-volta-user-id'', sr_user_id r), (''x-volta-tenant-id'', sr_tenant_id r)] @
      (case sr_email r of Some v \<Rightarrow> [(''x-volta-email'', v)] | None \<Rightarrow> []) @
      (case sr_tenant_slug r of Some v \<Rightarrow> [(''x-volta-tenant-slug'', v)] | None \<Rightarrow> []) @
      (if sr_roles r \<noteq> [] then [(''x-volta-roles'', join '','' (sr_roles r))] else []) @
      (case sr_display_name r of Some v \<Rightarrow> [(''x-volta-display-name'', v)] | None \<Rightarrow> []))"

datatype auth_error =
    SessionNotFound
  | SessionExpiredErr
  | SessionRevoked
  | PolicyDenied string
  | MfaRequired
  | ReauthRequired
  | NotFound string
  | Conflict string
  | StoreError string
  | Internal string

section \<open>The trait\<close>

record 's session_store_ops =
  so_create :: "session_record \<Rightarrow> 's \<Rightarrow> (auth_error, unit) result \<times> 's"
  so_find :: "u64 \<Rightarrow> string \<Rightarrow> 's \<Rightarrow> session_record option"
  so_touch :: "u64 \<Rightarrow> string \<Rightarrow> u64 \<Rightarrow> 's \<Rightarrow> (auth_error, unit) result \<times> 's"
  so_mark_mfa_verified :: "u64 \<Rightarrow> string \<Rightarrow> 's \<Rightarrow> 's"
  so_revoke :: "u64 \<Rightarrow> string \<Rightarrow> 's \<Rightarrow> 's"
  so_revoke_all_for_user :: "u64 \<Rightarrow> string \<Rightarrow> 's \<Rightarrow> nat \<times> 's"
  so_list_by_user :: "string \<Rightarrow> 's \<Rightarrow> session_record list"
  so_count_active :: "u64 \<Rightarrow> string \<Rightarrow> 's \<Rightarrow> nat"
  so_cleanup_expired :: "u64 \<Rightarrow> 's \<Rightarrow> nat \<times> 's"

section \<open>In memory\<close>

text \<open>The hash map as an association list without repeated keys; its order stands for the iteration order.\<close>

type_synonym memory_store = "(string \<times> session_record) list"

definition al_update :: "'k \<Rightarrow> ('v \<Rightarrow> 'v) \<Rightarrow> ('k \<times> 'v) list \<Rightarrow> ('k \<times> 'v) list" where
  "al_update k f m = map (\<lambda>(k', v). (k', if k' = k then f v else v)) m"

definition mem_create :: "session_record \<Rightarrow> memory_store \<Rightarrow> (auth_error, unit) result \<times> memory_store" where
  "mem_create r m = (Inr (), al_insert (sr_session_id r) r m)"

definition mem_find :: "u64 \<Rightarrow> string \<Rightarrow> memory_store \<Rightarrow> session_record option" where
  "mem_find now sid m = opt_filter (\<lambda>r. is_valid_at r now) (map_of m sid)"

definition mem_touch :: "u64 \<Rightarrow> string \<Rightarrow> u64 \<Rightarrow> memory_store \<Rightarrow> (auth_error, unit) result \<times> memory_store" where
  "mem_touch now sid new_expires_at m =
     (case opt_filter (\<lambda>r. is_valid_at r now) (map_of m sid) of
        None \<Rightarrow> (Inl SessionNotFound, m)
      | Some _ \<Rightarrow>
          (Inr (), al_update sid (\<lambda>r. r \<lparr> sr_last_active_at := now, sr_expires_at := max (sr_expires_at r) new_expires_at \<rparr>) m))"

definition mem_mark_mfa_verified :: "u64 \<Rightarrow> string \<Rightarrow> memory_store \<Rightarrow> memory_store" where
  "mem_mark_mfa_verified now sid m = al_update sid (\<lambda>r. r \<lparr> sr_mfa_verified_at := Some now \<rparr>) m"

definition mem_revoke :: "u64 \<Rightarrow> string \<Rightarrow> memory_store \<Rightarrow> memory_store" where
  "mem_revoke now sid m = al_update sid (\<lambda>r. r \<lparr> sr_invalidated_at := Some now \<rparr>) m"

definition mem_revoke_all_for_user :: "u64 \<Rightarrow> string \<Rightarrow> memory_store \<Rightarrow> nat \<times> memory_store" where
  "mem_revoke_all_for_user now uid m =
     (length (filter (\<lambda>(_, r). sr_user_id r = uid \<and> sr_invalidated_at r = None) m),
      map (\<lambda>(k, r). (k, if sr_user_id r = uid \<and> sr_invalidated_at r = None then r \<lparr> sr_invalidated_at := Some now \<rparr> else r)) m)"

definition mem_list_by_user :: "string \<Rightarrow> memory_store \<Rightarrow> session_record list" where
  "mem_list_by_user uid m = filter (\<lambda>r. sr_user_id r = uid) (map snd m)"

definition mem_count_active :: "u64 \<Rightarrow> string \<Rightarrow> memory_store \<Rightarrow> nat" where
  "mem_count_active now uid m = length (filter (\<lambda>r. sr_user_id r = uid \<and> is_valid_at r now) (map snd m))"

definition mem_cleanup_expired :: "u64 \<Rightarrow> memory_store \<Rightarrow> nat \<times> memory_store" where
  "mem_cleanup_expired now m =
     (let kept = filter (\<lambda>(_, r). is_valid_at r now) m in (length m - length kept, kept))"

definition memory_ops :: "memory_store session_store_ops" where
  "memory_ops =
     \<lparr> so_create = mem_create, so_find = mem_find, so_touch = mem_touch, so_mark_mfa_verified = mem_mark_mfa_verified,
       so_revoke = mem_revoke, so_revoke_all_for_user = mem_revoke_all_for_user, so_list_by_user = mem_list_by_user,
       so_count_active = mem_count_active, so_cleanup_expired = mem_cleanup_expired \<rparr>"

section \<open>In the database\<close>

text \<open>A row of the \<open>sessions\<close> table: times are \<open>BIGINT\<close>, roles a comma-separated text.\<close>

record session_row =
  row_id :: string
  row_user_id :: string
  row_tenant_id :: string
  row_return_to :: "string option"
  row_created_at :: int
  row_last_active_at :: int
  row_expires_at :: int
  row_invalidated_at :: "int option"
  row_mfa_verified_at :: "int option"
  row_ip_address :: "string option"
  row_user_agent :: "string option"
  row_csrf_token :: "string option"
  row_email :: "string option"
  row_tenant_slug :: "string option"
  row_roles :: "string option"
  row_display_name :: "string option"

abbreviation as_i64 :: "u64 \<Rightarrow> int" where "as_i64 \<equiv> sint"
abbreviation as_u64 :: "int \<Rightarrow> u64" where "as_u64 \<equiv> word_of_int"

definition from_row :: "session_row \<Rightarrow> session_record" where
  "from_row r =
     \<lparr> sr_session_id = row_id r, sr_user_id = row_user_id r, sr_tenant_id = row_tenant_id r,
       sr_return_to = row_return_to r, sr_created_at = as_u64 (row_created_at r),
       sr_last_active_at = as_u64 (row_last_active_at r), sr_expires_at = as_u64 (row_expires_at r),
       sr_invalidated_at = map_option as_u64 (row_invalidated_at r),
       sr_mfa_verified_at = map_option as_u64 (row_mfa_verified_at r),
       sr_ip_address = row_ip_address r, sr_user_agent = row_user_agent r, sr_csrf_token = row_csrf_token r,
       sr_email = row_email r, sr_tenant_slug = row_tenant_slug r,
       sr_roles = (case row_roles r of None \<Rightarrow> [] | Some s \<Rightarrow> filter (\<lambda>p. p \<noteq> []) (split_on CHR '','' s)),
       sr_display_name = row_display_name r \<rparr>"

definition to_row :: "session_record \<Rightarrow> session_row" where
  "to_row r =
     \<lparr> row_id = sr_session_id r, row_user_id = sr_user_id r, row_tenant_id = sr_tenant_id r,
       row_return_to = sr_return_to r, row_created_at = as_i64 (sr_created_at r),
       row_last_active_at = as_i64 (sr_last_active_at r), row_expires_at = as_i64 (sr_expires_at r),
       row_invalidated_at = map_option as_i64 (sr_invalidated_at r),
       row_mfa_verified_at = map_option as_i64 (sr_mfa_verified_at r),
       row_ip_address = sr_ip_address r, row_user_agent = sr_user_agent r, row_csrf_token = sr_csrf_token r,
       row_email = sr_email r, row_tenant_slug = sr_tenant_slug r,
       row_roles = Some (join '','' (sr_roles r)), row_display_name = sr_display_name r \<rparr>"

type_synonym session_table = "session_row list"

definition pg_create :: "session_record \<Rightarrow> session_table \<Rightarrow> (auth_error, unit) result \<times> session_table" where
  "pg_create r t =
     (if sr_session_id r \<in> set (map row_id t) then (Inl (Conflict ''duplicate key''), t)
      else (Inr (), t @ [to_row r]))"

definition row_live :: "int \<Rightarrow> session_row \<Rightarrow> bool" where
  "row_live now row \<longleftrightarrow> row_invalidated_at row = None \<and> now < row_expires_at row"

definition pg_find :: "u64 \<Rightarrow> string \<Rightarrow> session_table \<Rightarrow> session_record option" where
  "pg_find now sid t = map_option from_row (find (\<lambda>row. row_id row = sid \<and> row_live (as_i64 now) row) t)"

definition pg_touch :: "u64 \<Rightarrow> string \<Rightarrow> u64 \<Rightarrow> session_table \<Rightarrow> (auth_error, unit) result \<times> session_table" where
  "pg_touch now sid new_expires_at t =
     (let hit = (\<lambda>row. row_id row = sid \<and> row_live (as_i64 now) row);
          t' = map (\<lambda>row. if hit row
                 then row \<lparr> row_last_active_at := as_i64 now,
                            row_expires_at := max (row_expires_at row) (as_i64 new_expires_at) \<rparr>
                 else row) t
      in if filter hit t = [] then (Inl SessionNotFound, t') else (Inr (), t'))"

definition pg_mark_mfa_verified :: "u64 \<Rightarrow> string \<Rightarrow> session_table \<Rightarrow> session_table" where
  "pg_mark_mfa_verified now sid t =
     map (\<lambda>row. if row_id row = sid then row \<lparr> row_mfa_verified_at := Some (as_i64 now) \<rparr> else row) t"

definition pg_revoke :: "u64 \<Rightarrow> string \<Rightarrow> session_table \<Rightarrow> session_table" where
  "pg_revoke now sid t =
     map (\<lambda>row. if row_id row = sid then row \<lparr> row_invalidated_at := Some (as_i64 now) \<rparr> else row) t"

definition pg_revoke_all_for_user :: "u64 \<Rightarrow> string \<Rightarrow> session_table \<Rightarrow> nat \<times> session_table" where
  "pg_revoke_all_for_user now uid t =
     (let hit = (\<lambda>row. row_user_id row = uid \<and> row_invalidated_at row = None)
      in (length (filter hit t), map (\<lambda>row. if hit row then row \<lparr> row_invalidated_at := Some (as_i64 now) \<rparr> else row) t))"

definition pg_list_by_user :: "string \<Rightarrow> session_table \<Rightarrow> session_record list" where
  "pg_list_by_user uid t =
     map from_row (sort_key (\<lambda>row. - row_created_at row) (filter (\<lambda>row. row_user_id row = uid) t))"

definition pg_count_active :: "u64 \<Rightarrow> string \<Rightarrow> session_table \<Rightarrow> nat" where
  "pg_count_active now uid t = length (filter (\<lambda>row. row_user_id row = uid \<and> row_live (as_i64 now) row) t)"

definition pg_cleanup_expired :: "u64 \<Rightarrow> session_table \<Rightarrow> nat \<times> session_table" where
  "pg_cleanup_expired now t =
     (length (filter (\<lambda>row. row_expires_at row < as_i64 now) t), filter (\<lambda>row. \<not> row_expires_at row < as_i64 now) t)"

definition pg_ops :: "session_table session_store_ops" where
  "pg_ops =
     \<lparr> so_create = pg_create, so_find = pg_find, so_touch = pg_touch, so_mark_mfa_verified = pg_mark_mfa_verified,
       so_revoke = pg_revoke, so_revoke_all_for_user = pg_revoke_all_for_user, so_list_by_user = pg_list_by_user,
       so_count_active = pg_count_active, so_cleanup_expired = pg_cleanup_expired \<rparr>"

section \<open>What callers rely on\<close>

definition touched :: "u64 \<Rightarrow> u64 \<Rightarrow> session_record \<Rightarrow> session_record" where
  "touched now e r = r \<lparr> sr_last_active_at := now, sr_expires_at := max (sr_expires_at r) e \<rparr>"

definition killed :: "u64 \<Rightarrow> session_record \<Rightarrow> session_record" where
  "killed now r = r \<lparr> sr_invalidated_at := Some now \<rparr>"

definition sweep :: "string \<Rightarrow> u64 \<Rightarrow> session_record \<Rightarrow> session_record" where
  "sweep uid now r = (if sr_user_id r = uid \<and> sr_invalidated_at r = None then killed now r else r)"

lemmas record_update_defs = touched_def killed_def sweep_def

datatype session_op =
    OpCreate session_record
  | OpTouch u64 string u64
  | OpMarkMfa u64 string
  | OpRevoke u64 string
  | OpRevokeAll u64 string
  | OpCleanup u64

fun apply_op :: "'s session_store_ops \<Rightarrow> session_op \<Rightarrow> 's \<Rightarrow> 's" where
  "apply_op ops (OpCreate r) s = snd (so_create ops r s)"
| "apply_op ops (OpTouch now sid e) s = snd (so_touch ops now sid e s)"
| "apply_op ops (OpMarkMfa now sid) s = so_mark_mfa_verified ops now sid s"
| "apply_op ops (OpRevoke now sid) s = so_revoke ops now sid s"
| "apply_op ops (OpRevokeAll now uid) s = snd (so_revoke_all_for_user ops now uid s)"
| "apply_op ops (OpCleanup now) s = snd (so_cleanup_expired ops now s)"

text \<open>Operations that happen at or after \<open>t\<close>, with values the store can hold, none creating session \<open>sid\<close> anew.\<close>

fun later_op :: "(u64 \<Rightarrow> bool) \<Rightarrow> (session_record \<Rightarrow> bool) \<Rightarrow> u64 \<Rightarrow> string \<Rightarrow> session_op \<Rightarrow> bool" where
  "later_op fits storable t sid (OpCreate r) \<longleftrightarrow> storable r \<and> sr_session_id r \<noteq> sid"
| "later_op fits storable t sid (OpTouch now _ e) \<longleftrightarrow> t \<le> now \<and> fits now \<and> fits e"
| "later_op fits storable t sid (OpMarkMfa now _) \<longleftrightarrow> t \<le> now \<and> fits now"
| "later_op fits storable t sid (OpRevoke now _) \<longleftrightarrow> t \<le> now \<and> fits now"
| "later_op fits storable t sid (OpRevokeAll now _) \<longleftrightarrow> t \<le> now \<and> fits now"
| "later_op fits storable t sid (OpCleanup now) \<longleftrightarrow> t \<le> now \<and> fits now"

locale session_store =
  fixes ops :: "'s session_store_ops"
    and abs :: "'s \<Rightarrow> string \<Rightarrow> session_record option"
    and invar :: "'s \<Rightarrow> bool"
    and fits :: "u64 \<Rightarrow> bool"
    and storable :: "session_record \<Rightarrow> bool"
  assumes find_abs: "invar s \<Longrightarrow> fits now \<Longrightarrow> so_find ops now sid s = opt_filter (\<lambda>r. is_valid_at r now) (abs s sid)"
    and create_abs: "invar s \<Longrightarrow> storable r \<Longrightarrow> so_create ops r s = (res, s') \<Longrightarrow>
      invar s' \<and> (case res of Inl _ \<Rightarrow> s' = s \<and> abs s (sr_session_id r) \<noteq> None
                    | Inr _ \<Rightarrow> abs s' = (abs s)(sr_session_id r \<mapsto> r))"
    and touch_abs: "invar s \<Longrightarrow> fits now \<Longrightarrow> fits e \<Longrightarrow> so_touch ops now sid e s = (res, s') \<Longrightarrow>
      invar s' \<and> (case opt_filter (\<lambda>r. is_valid_at r now) (abs s sid) of
                      None \<Rightarrow> res = Inl SessionNotFound \<and> abs s' = abs s
                    | Some r \<Rightarrow> res = Inr () \<and> abs s' = (abs s)(sid \<mapsto> touched now e r))"
    and mark_abs: "invar s \<Longrightarrow> fits now \<Longrightarrow> invar (so_mark_mfa_verified ops now sid s) \<and>
      abs (so_mark_mfa_verified ops now sid s) =
        (abs s)(sid := map_option (\<lambda>r. r \<lparr> sr_mfa_verified_at := Some now \<rparr>) (abs s sid))"
    and revoke_abs: "invar s \<Longrightarrow> fits now \<Longrightarrow> invar (so_revoke ops now sid s) \<and>
      abs (so_revoke ops now sid s) = (abs s)(sid := map_option (killed now) (abs s sid))"
    and revoke_all_abs: "invar s \<Longrightarrow> fits now \<Longrightarrow> invar (snd (so_revoke_all_for_user ops now uid s)) \<and>
      abs (snd (so_revoke_all_for_user ops now uid s)) = (\<lambda>k. map_option (sweep uid now) (abs s k))"
    and cleanup_abs: "invar s \<Longrightarrow> fits now \<Longrightarrow> invar (snd (so_cleanup_expired ops now s)) \<and>
      (\<forall>k. abs (snd (so_cleanup_expired ops now s)) k = abs s k \<or>
        abs (snd (so_cleanup_expired ops now s)) k = None \<and> (\<forall>r. abs s k = Some r \<longrightarrow> \<not> is_valid_at r now))"
begin

definition dead :: "u64 \<Rightarrow> string \<Rightarrow> 's \<Rightarrow> bool" where
  "dead t sid s \<longleftrightarrow> (\<forall>r. abs s sid = Some r \<longrightarrow> \<not> is_valid_at r t)"

lemma dead_later: "dead t sid s \<Longrightarrow> t \<le> now \<Longrightarrow> dead now sid s"
  by (auto simp: dead_def is_valid_at_def)

lemma dead_find: "invar s \<Longrightarrow> fits now \<Longrightarrow> dead now sid s \<longleftrightarrow> so_find ops now sid s = None"
  by (auto simp: dead_def find_abs opt_filter_def split: option.splits)

lemma revoke_dead: "invar s \<Longrightarrow> fits now \<Longrightarrow> dead t sid (so_revoke ops now sid s)"
  using revoke_abs by (auto simp: dead_def killed_def is_valid_at_def)

lemma revoke_all_dead:
  "invar s \<Longrightarrow> fits now \<Longrightarrow> abs s sid = Some r \<Longrightarrow> sr_user_id r = uid \<Longrightarrow>
   dead t sid (snd (so_revoke_all_for_user ops now uid s))"
  using revoke_all_abs by (auto simp: dead_def sweep_def killed_def is_valid_at_def)

lemma apply_op_dead:
  assumes "invar s" and "dead t sid s" and "later_op fits storable t sid op"
  shows "invar (apply_op ops op s) \<and> dead t sid (apply_op ops op s)"
proof (cases op)
  case (OpCreate r)
  obtain res s' where c: "so_create ops r s = (res, s')" by fastforce
  from create_abs [OF assms(1) _ c] assms OpCreate show ?thesis by (cases res) (auto simp: c dead_def)
next
  case (OpTouch now sid' e)
  obtain res s' where c: "so_touch ops now sid' e s = (res, s')" by fastforce
  have "dead now sid s" using assms(2, 3) OpTouch dead_later by auto
  then have "abs s' sid = abs s sid" and "invar s'"
    using touch_abs [OF assms(1) _ _ c] assms(3) OpTouch
    by (auto simp: dead_def opt_filter_def split: option.splits if_splits)
  with assms(2) OpTouch show ?thesis by (auto simp: c dead_def)
next
  case (OpMarkMfa now sid')
  with mark_abs [OF assms(1), of now sid'] assms(2, 3) show ?thesis by (auto simp: dead_def is_valid_at_def)
next
  case (OpRevoke now sid')
  with revoke_abs [OF assms(1), of now sid'] assms(2, 3) show ?thesis by (auto simp: dead_def is_valid_at_def killed_def)
next
  case (OpRevokeAll now uid)
  with revoke_all_abs [OF assms(1), of now uid] assms(2, 3) show ?thesis
    by (auto simp: dead_def is_valid_at_def sweep_def killed_def)
next
  case (OpCleanup now)
  with cleanup_abs [OF assms(1), of now] assms(2, 3) show ?thesis by (auto simp: dead_def) (metis option.distinct(1))
qed

lemma run_dead:
  assumes "invar s" and "dead t sid s" and "list_all (later_op fits storable t sid) os"
  shows "invar (fold (apply_op ops) os s) \<and> dead t sid (fold (apply_op ops) os s)"
  using assms by (induction os arbitrary: s) (auto dest: apply_op_dead)

lemma dead_forever:
  assumes "invar s" and "dead t sid s" and "list_all (later_op fits storable t sid) os" and "t \<le> now" and "fits now"
  shows "so_find ops now sid (fold (apply_op ops) os s) = None"
  using run_dead [OF assms(1-3)] dead_later [OF _ assms(4)] dead_find [OF _ assms(5)] by blast

end

section \<open>Both stores provide it\<close>

definition mem_inv :: "memory_store \<Rightarrow> bool" where
  "mem_inv m \<longleftrightarrow> distinct (map fst m) \<and> (\<forall>(k, r) \<in> set m. sr_session_id r = k)"

lemma map_of_al_update [simp]: "map_of (al_update k f m) = (map_of m)(k := map_option f (map_of m k))"
  by (induction m) (auto simp: al_update_def fun_eq_iff)

lemma map_of_map_values: "map_of (map (\<lambda>(k, v). (k, f v)) m) k = map_option f (map_of m k)"
  by (induction m) auto

lemma mem_inv_map: "mem_inv m \<Longrightarrow> (\<And>r. sr_session_id (f r) = sr_session_id r) \<Longrightarrow> mem_inv (map (\<lambda>(k, r). (k, f r)) m)"
  by (auto simp: mem_inv_def comp_def case_prod_beta)

lemma mem_inv_al_update: "mem_inv m \<Longrightarrow> (\<And>r. sr_session_id (f r) = sr_session_id r) \<Longrightarrow> mem_inv (al_update k f m)"
  by (auto simp: mem_inv_def al_update_def comp_def case_prod_beta)

interpretation mem: session_store memory_ops map_of mem_inv "\<lambda>_. True" "\<lambda>_. True"
proof (unfold_locales, goal_cases)
  case (1 s now sid)
  show ?case by (simp add: memory_ops_def mem_find_def)
next
  case (2 s r res s')
  then have "mem_inv (al_insert (sr_session_id r) r s)" by (auto simp: mem_inv_def al_insert_def al_remove_def distinct_map_filter)
  with 2 show ?case by (auto simp: memory_ops_def mem_create_def)
next
  case (3 s now e sid res s')
  then show ?case
    by (auto simp: memory_ops_def mem_touch_def touched_def opt_filter_def intro!: mem_inv_al_update split: option.splits if_splits)
next
  case (4 s now sid)
  then show ?case by (auto simp: memory_ops_def mem_mark_mfa_verified_def intro!: mem_inv_al_update)
next
  case (5 s now sid)
  then show ?case by (auto simp: memory_ops_def mem_revoke_def killed_def [abs_def] intro!: mem_inv_al_update)
next
  case (6 s now uid)
  have "snd (mem_revoke_all_for_user now uid s) = map (\<lambda>(k, r). (k, sweep uid now r)) s"
    by (auto simp: mem_revoke_all_for_user_def sweep_def killed_def)
  moreover have "sr_session_id (sweep uid now r) = sr_session_id r" for r by (simp add: record_update_defs)
  ultimately show ?case using 6 mem_inv_map [of s "sweep uid now"] by (auto simp: memory_ops_def map_of_map_values)
next
  case (7 s now)
  have "map_of (filter (\<lambda>(_, r). is_valid_at r now) s) k =
      (case map_of s k of Some r \<Rightarrow> (if is_valid_at r now then Some r else None) | None \<Rightarrow> None)" for k
    using 7(1)
  proof (induction s)
    case (Cons kr s)
    obtain k' r where kr: "kr = (k', r)" by fastforce
    have "map_of s k' = None" using Cons.prems by (simp add: mem_inv_def kr map_of_eq_None_iff)
    with Cons show ?case by (auto simp: kr mem_inv_def split: option.splits)
  qed simp
  then show ?case using 7
    by (auto simp: memory_ops_def mem_cleanup_expired_def mem_inv_def Let_def distinct_map_filter split: option.splits if_splits
        simp del: not_None_eq) (metis map_of_is_SomeI option.inject)+
qed

definition pg_abs :: "session_table \<Rightarrow> string \<Rightarrow> session_record option" where
  "pg_abs t sid = map_option from_row (find (\<lambda>row. row_id row = sid) t)"

abbreviation i64_ok :: "int \<Rightarrow> bool" where "i64_ok i \<equiv> 0 \<le> i \<and> i < 2 ^ 63"

definition pg_inv :: "session_table \<Rightarrow> bool" where
  "pg_inv t \<longleftrightarrow> distinct (map row_id t) \<and> (\<forall>row \<in> set t. i64_ok (row_expires_at row))"

definition pg_fits :: "u64 \<Rightarrow> bool" where
  "pg_fits t \<longleftrightarrow> unat t < 2 ^ 63"

definition pg_storable :: "session_record \<Rightarrow> bool" where
  "pg_storable r \<longleftrightarrow> pg_fits (sr_expires_at r) \<and> list_all (\<lambda>p. p \<noteq> [] \<and> CHR '','' \<notin> set p) (sr_roles r)"

lemma fits_sint: "pg_fits t \<Longrightarrow> as_i64 t = uint t"
proof -
  assume "pg_fits t"
  then have "uint t < 2 ^ 63" by (simp add: pg_fits_def nat_less_iff flip: nat_uint_eq)
  moreover have "- (2 ^ 63) \<le> uint t" by (rule order_trans [OF _ uint_ge_0]) simp
  ultimately have "signed_take_bit 63 (uint t) = uint t" by (rule signed_take_bit_int_eq_self [rotated])
  then show ?thesis by (simp add: sint_uint)
qed

lemma u64_uint: "i64_ok i \<Longrightarrow> uint (as_u64 i) = i"
  by (simp add: uint_word_of_int)

lemma u64_less: "i64_ok i \<Longrightarrow> pg_fits t \<Longrightarrow> t < as_u64 i \<longleftrightarrow> as_i64 t < i"
  by (simp add: fits_sint word_less_def u64_uint)

lemma u64_max: "i64_ok i \<Longrightarrow> pg_fits e \<Longrightarrow> as_u64 (max i (as_i64 e)) = max (as_u64 i) e"
  by (simp add: fits_sint max_def word_le_def u64_uint)

lemma fits_i64_ok: "pg_fits t \<Longrightarrow> i64_ok (as_i64 t)"
  by (simp add: fits_sint pg_fits_def nat_less_iff flip: nat_uint_eq)

lemma row_live_iff: "i64_ok (row_expires_at row) \<Longrightarrow> pg_fits now \<Longrightarrow> row_live (as_i64 now) row \<longleftrightarrow> is_valid_at (from_row row) now"
  by (auto simp: row_live_def is_valid_at_def from_row_def u64_less)

lemma from_row_id [simp]: "sr_session_id (from_row row) = row_id row"
  by (simp add: from_row_def)

lemma pg_abs_map:
  assumes "\<And>row. row_id (f row) = row_id row"
  shows "pg_abs (map f t) sid = map_option (\<lambda>row. from_row (f row)) (find (\<lambda>row. row_id row = sid) t)"
  by (induction t) (simp_all add: pg_abs_def assms)

lemma pg_inv_map:
  assumes "pg_inv t" and "\<And>row. row_id (f row) = row_id row" and "\<And>row. row \<in> set t \<Longrightarrow> i64_ok (row_expires_at (f row))"
  shows "pg_inv (map f t)"
  using assms by (auto simp: pg_inv_def comp_def)

lemma pg_abs_Some:
  assumes "pg_inv t"
  shows "find (\<lambda>row. row_id row = sid) t = Some row \<longleftrightarrow> row \<in> set t \<and> row_id row = sid"
  using assms by (induction t) (auto simp: pg_inv_def)

lemma split_on_Cons_sep: "c \<notin> set p \<Longrightarrow> split_on c (p @ c # s) = p # split_on c s"
  by (induction p) auto

lemma split_on_none: "c \<notin> set p \<Longrightarrow> split_on c p = [p]"
  by (induction p) auto

lemma split_join: "ps \<noteq> [] \<Longrightarrow> list_all (\<lambda>p. c \<notin> set p) ps \<Longrightarrow> split_on c (join [c] ps) = ps"
  by (induction "[c]" ps rule: join.induct) (simp_all add: split_on_none split_on_Cons_sep)

lemma roles_roundtrip:
  assumes "list_all (\<lambda>p. p \<noteq> [] \<and> CHR '','' \<notin> set p) ps"
  shows "filter (\<lambda>p. p \<noteq> []) (split_on CHR '','' (join '','' ps)) = ps"
proof (cases "ps = []")
  case False
  then have "split_on CHR '','' (join '','' ps) = ps" using assms by (intro split_join) (auto simp: list_all_iff)
  then show ?thesis using assms by (simp add: list_all_iff)
qed simp

lemma from_to_row:
  assumes "pg_storable r"
  shows "from_row (to_row r) = r"
proof -
  have "map_option as_u64 (map_option as_i64 x) = x" for x :: "u64 option" by (cases x) simp_all
  then show ?thesis using roles_roundtrip assms by (simp add: from_row_def to_row_def pg_storable_def)
qed

lemma pg_find_live:
  assumes "pg_inv t" and "pg_fits now"
  shows "map_option from_row (find (\<lambda>row. row_id row = sid \<and> row_live (as_i64 now) row) t) =
    opt_filter (\<lambda>r. is_valid_at r now) (pg_abs t sid)"
  using assms(1)
proof (induction t)
  case (Cons row t)
  have "pg_inv t" and e: "i64_ok (row_expires_at row)" using Cons.prems by (auto simp: pg_inv_def)
  moreover have "find (\<lambda>row'. row_id row' = row_id row \<and> row_live (as_i64 now) row') t = None"
    using Cons.prems by (auto simp: pg_inv_def find_None_iff image_iff)
  ultimately show ?case using Cons.IH by (auto simp: pg_abs_def row_live_iff [OF e assms(2)] opt_filter_def)
qed (simp add: pg_abs_def)

lemma pg_touch_hit:
  assumes "pg_inv t" and "pg_fits now"
  shows "filter (\<lambda>row. row_id row = sid \<and> row_live (as_i64 now) row) t = [] \<longleftrightarrow>
    opt_filter (\<lambda>r. is_valid_at r now) (pg_abs t sid) = None"
  unfolding pg_find_live [OF assms, symmetric] by (auto simp: filter_empty_conv find_None_iff)

lemma pg_touch_abs:
  assumes "pg_inv t" and "pg_fits now" and "pg_fits e"
  shows "pg_abs (snd (pg_touch now sid e t)) =
    (case opt_filter (\<lambda>r. is_valid_at r now) (pg_abs t sid) of
       None \<Rightarrow> pg_abs t | Some r \<Rightarrow> (pg_abs t)(sid \<mapsto> touched now e r))"
proof
  fix k
  let ?f = "\<lambda>row. if row_id row = sid \<and> row_live (as_i64 now) row
      then row \<lparr> row_last_active_at := as_i64 now, row_expires_at := max (row_expires_at row) (as_i64 e) \<rparr> else row"
  have t: "snd (pg_touch now sid e t) = map ?f t" by (simp add: pg_touch_def Let_def)
  have f: "from_row (?f row) = (if k = sid \<and> is_valid_at (from_row row) now then touched now e (from_row row) else from_row row)"
    if "find (\<lambda>row. row_id row = k) t = Some row" for row
  proof -
    have "row_id row = k" and ok: "i64_ok (row_expires_at row)"
      using that assms(1) by (auto simp: pg_abs_Some [OF assms(1)] pg_inv_def)
    moreover note row_live_iff [OF ok assms(2)] u64_max [OF ok assms(3)]
    ultimately show ?thesis by (auto simp: touched_def from_row_def)
  qed
  have "pg_abs (map ?f t) k = map_option (\<lambda>row. from_row (?f row)) (find (\<lambda>row. row_id row = k) t)"
    by (rule pg_abs_map) simp
  with f show "pg_abs (snd (pg_touch now sid e t)) k =
      (case opt_filter (\<lambda>r. is_valid_at r now) (pg_abs t sid) of
         None \<Rightarrow> pg_abs t | Some r \<Rightarrow> (pg_abs t)(sid \<mapsto> touched now e r)) k"
    unfolding t by (cases "find (\<lambda>row. row_id row = k) t") (auto simp: pg_abs_def opt_filter_def split: option.splits)
qed

lemma pg_touch_inv:
  assumes "pg_inv t" and "pg_fits e"
  shows "pg_inv (snd (pg_touch now sid e t))"
proof -
  let ?f = "\<lambda>row. if row_id row = sid \<and> row_live (as_i64 now) row
      then row \<lparr> row_last_active_at := as_i64 now, row_expires_at := max (row_expires_at row) (as_i64 e) \<rparr> else row"
  have "snd (pg_touch now sid e t) = map ?f t" by (simp add: pg_touch_def Let_def)
  moreover have "pg_inv (map ?f t)"
    by (rule pg_inv_map [OF assms(1)]) (use assms(1) fits_i64_ok [OF assms(2)] in \<open>auto simp: pg_inv_def\<close>)
  ultimately show ?thesis by simp
qed

lemma pg_update_abs:
  assumes "\<And>row. row_id (f row) = row_id row" and "\<And>row. from_row (f row) = g (from_row row)"
  shows "pg_abs (map f t) = (\<lambda>k. map_option g (pg_abs t k))"
  by (rule ext, unfold pg_abs_map [OF assms(1)]) (simp add: assms(2) pg_abs_def option.map_comp comp_def)

lemma pg_update_one_abs:
  assumes "\<And>row. row_id (f row) = row_id row" and "\<And>row. from_row (f row) = g (from_row row)"
  shows "pg_abs (map (\<lambda>row. if row_id row = sid then f row else row) t) = (pg_abs t)(sid := map_option g (pg_abs t sid))"
proof
  fix k
  have "pg_abs (map (\<lambda>row. if row_id row = sid then f row else row) t) k =
      map_option (\<lambda>row. from_row (if row_id row = sid then f row else row)) (find (\<lambda>row. row_id row = k) t)"
    by (rule pg_abs_map) (simp add: assms(1))
  also have "\<dots> = ((pg_abs t)(sid := map_option g (pg_abs t sid))) k"
  proof (cases "find (\<lambda>row. row_id row = k) t")
    case (Some row)
    then have "row_id row = k" by (auto simp: find_Some_iff)
    with Some show ?thesis by (auto simp: pg_abs_def assms(2))
  qed (auto simp: pg_abs_def)
  finally show "pg_abs (map (\<lambda>row. if row_id row = sid then f row else row) t) k =
      ((pg_abs t)(sid := map_option g (pg_abs t sid))) k" .
qed

lemma pg_cleanup_abs:
  assumes "pg_inv t"
  shows "pg_abs (filter P t) k = (case find (\<lambda>row. row_id row = k) t of Some row \<Rightarrow> (if P row then Some (from_row row) else None) | None \<Rightarrow> None)"
  using assms
proof (induction t)
  case (Cons row t)
  have "find (\<lambda>row'. row_id row' = row_id row) t = None" using Cons.prems by (auto simp: pg_inv_def find_None_iff image_iff)
  moreover have "pg_inv t" using Cons.prems by (simp add: pg_inv_def)
  ultimately show ?case using Cons.IH by (auto simp: pg_abs_def split: option.splits)
qed (simp add: pg_abs_def)

lemma find_append: "find P (xs @ ys) = (case find P xs of Some x \<Rightarrow> Some x | None \<Rightarrow> find P ys)"
  by (induction xs) auto

lemma to_row_id [simp]: "row_id (to_row r) = sr_session_id r"
  by (simp add: to_row_def)

lemma pg_abs_new:
  assumes "pg_storable r" and "sr_session_id r \<notin> set (map row_id t)"
  shows "pg_abs (t @ [to_row r]) = (pg_abs t)(sr_session_id r \<mapsto> r)"
proof
  fix k
  have "find (\<lambda>row. row_id row = sr_session_id r) t = None" using assms(2) by (force simp: find_None_iff)
  then show "pg_abs (t @ [to_row r]) k = ((pg_abs t)(sr_session_id r \<mapsto> r)) k"
    using from_to_row [OF assms(1)] by (auto simp: pg_abs_def find_append split: option.splits)
qed

interpretation pg: session_store pg_ops pg_abs pg_inv pg_fits pg_storable
proof (unfold_locales, goal_cases)
  case (1 s now sid)
  then show ?case by (simp add: pg_ops_def pg_find_def pg_find_live)
next
  case (2 s r res s')
  note new = pg_abs_new [OF 2(2), of s]
  have "i64_ok (as_i64 (sr_expires_at r))" using 2(2) by (intro fits_i64_ok) (simp add: pg_storable_def)
  then have "pg_inv (s @ [to_row r])" if "sr_session_id r \<notin> set (map row_id s)"
    using that 2(1) by (auto simp: pg_inv_def to_row_def)
  with new 2 show ?case
    by (auto simp: pg_ops_def pg_create_def pg_abs_def find_None_iff split: if_splits)
next
  case (3 s now e sid res s')
  then have s': "s' = snd (pg_touch now sid e s)" and res: "res = fst (pg_touch now sid e s)" by (simp_all add: pg_ops_def)
  have "res = (if opt_filter (\<lambda>r. is_valid_at r now) (pg_abs s sid) = None then Inl SessionNotFound else Inr ())"
    unfolding res pg_touch_hit [OF 3(1, 2), symmetric] by (simp add: pg_touch_def Let_def)
  with pg_touch_abs [OF 3(1-3), of sid] pg_touch_inv [OF 3(1, 3)] show ?case
    unfolding s' by (auto split: option.splits)
next
  case (4 s now sid)
  have "pg_abs (pg_mark_mfa_verified now sid s) = (pg_abs s)(sid := map_option (\<lambda>r. r \<lparr> sr_mfa_verified_at := Some now \<rparr>) (pg_abs s sid))"
    unfolding pg_mark_mfa_verified_def by (rule pg_update_one_abs) (simp_all add: from_row_def)
  moreover have "pg_inv (pg_mark_mfa_verified now sid s)"
    unfolding pg_mark_mfa_verified_def by (rule pg_inv_map [OF 4(1)]) (use 4(1) in \<open>auto simp: pg_inv_def\<close>)
  ultimately show ?case by (simp add: pg_ops_def)
next
  case (5 s now sid)
  have "pg_abs (pg_revoke now sid s) = (pg_abs s)(sid := map_option (killed now) (pg_abs s sid))"
    unfolding pg_revoke_def by (rule pg_update_one_abs) (simp_all add: from_row_def killed_def)
  moreover have "pg_inv (pg_revoke now sid s)"
    unfolding pg_revoke_def by (rule pg_inv_map [OF 5(1)]) (use 5(1) in \<open>auto simp: pg_inv_def\<close>)
  ultimately show ?case by (simp add: pg_ops_def)
next
  case (6 s now uid)
  have "pg_abs (snd (pg_revoke_all_for_user now uid s)) = (\<lambda>k. map_option (sweep uid now) (pg_abs s k))"
    unfolding pg_revoke_all_for_user_def Let_def snd_conv
    by (rule pg_update_abs) (simp_all add: from_row_def record_update_defs)
  moreover have "pg_inv (snd (pg_revoke_all_for_user now uid s))"
    unfolding pg_revoke_all_for_user_def Let_def snd_conv
    by (rule pg_inv_map [OF 6(1)]) (use 6(1) in \<open>auto simp: pg_inv_def\<close>)
  ultimately show ?case by (simp add: pg_ops_def)
next
  case (7 s now)
  have gone: "\<not> is_valid_at (from_row row) now" if "row \<in> set s" "row_expires_at row < as_i64 now" for row
    using that 7 row_live_iff [of row now] by (auto simp: pg_inv_def row_live_def)
  have "pg_inv (snd (pg_cleanup_expired now s))"
    using 7(1) by (auto simp: pg_cleanup_expired_def pg_inv_def distinct_map_filter)
  moreover have "pg_abs (snd (pg_cleanup_expired now s)) k = pg_abs s k \<or>
      pg_abs (snd (pg_cleanup_expired now s)) k = None \<and> (\<forall>r. pg_abs s k = Some r \<longrightarrow> \<not> is_valid_at r now)" for k
  proof (cases "find (\<lambda>row. row_id row = k) s")
    case (Some row)
    then have "row \<in> set s" by (simp add: pg_abs_Some [OF 7(1)])
    with Some gone [of row] show ?thesis
      unfolding pg_cleanup_expired_def snd_conv pg_cleanup_abs [OF 7(1)] by (auto simp: pg_abs_def)
  qed (simp add: pg_cleanup_expired_def pg_abs_def, auto simp: find_None_iff)
  ultimately show ?case by (simp add: pg_ops_def)
qed

text \<open>
  C32: once a session is revoked, or has expired, in the database, nothing brings it back: after any
  later operations, among them touching it and creating other sessions, looking it up finds nothing.
\<close>

theorem revoked_session_stays_dead:
  assumes "pg_inv t" and "pg_fits now0" and "list_all (later_op pg_fits pg_storable now0 sid) os"
    and "now0 \<le> now" and "pg_fits now"
  shows "pg_find now sid (fold (apply_op pg_ops) os (pg_revoke now0 sid t)) = None \<and>
    (pg_find now0 sid t = None \<longrightarrow> pg_find now sid (fold (apply_op pg_ops) os t) = None)"
proof -
  have "pg.dead now0 sid (pg_revoke now0 sid t)" and i: "pg_inv (pg_revoke now0 sid t)"
    using pg.revoke_dead [OF assms(1, 2)] pg.revoke_abs [OF assms(1, 2)] by (simp_all add: pg_ops_def)
  from pg.dead_forever [OF i this(1) assms(3-5)] have "pg_find now sid (fold (apply_op pg_ops) os (pg_revoke now0 sid t)) = None"
    by (simp add: pg_ops_def)
  moreover have "pg_find now sid (fold (apply_op pg_ops) os t) = None" if "pg_find now0 sid t = None"
  proof -
    have "pg.dead now0 sid t" using that pg.dead_find [OF assms(1, 2)] by (simp add: pg_ops_def)
    from pg.dead_forever [OF assms(1) this assms(3-5)] show ?thesis by (simp add: pg_ops_def)
  qed
  ultimately show ?thesis by blast
qed

lemma mem_revoked_session_stays_dead:
  assumes "mem_inv m" and "list_all (later_op (\<lambda>_. True) (\<lambda>_. True) now0 sid) os" and "now0 \<le> now"
  shows "mem_find now sid (fold (apply_op memory_ops) os (mem_revoke now0 sid m)) = None"
proof -
  have "mem.dead now0 sid (mem_revoke now0 sid m)" and i: "mem_inv (mem_revoke now0 sid m)"
    using mem.revoke_dead [OF assms(1)] mem.revoke_abs [OF assms(1)] by (simp_all add: memory_ops_def)
  from mem.dead_forever [OF i this(1) assms(2, 3)] show ?thesis by (simp add: memory_ops_def)
qed

text \<open>
  C33: the table implements the session store the rest of the program is written against. Seen
  through the records its rows stand for, a lookup returns the record if it is neither revoked nor
  expired, a new session is stored as given and refused if its id is taken, touching a live session
  moves its expiry only forward, and revoking marks exactly the sessions it names.
\<close>

theorem pg_sessions_refine:
  assumes "pg_inv t" and "pg_fits now" and "pg_fits e" and "pg_storable r"
  shows "pg_find now sid t = opt_filter (\<lambda>r. is_valid_at r now) (pg_abs t sid) \<and>
    (case pg_create r t of (Inl _, t') \<Rightarrow> t' = t \<and> pg_abs t (sr_session_id r) \<noteq> None
       | (Inr _, t') \<Rightarrow> pg_inv t' \<and> pg_abs t' = (pg_abs t)(sr_session_id r \<mapsto> r)) \<and>
    (case pg_touch now sid e t of (res, t') \<Rightarrow> pg_inv t' \<and>
       (case pg_find now sid t of None \<Rightarrow> res = Inl SessionNotFound \<and> pg_abs t' = pg_abs t
          | Some s \<Rightarrow> res = Inr () \<and> pg_abs t' = (pg_abs t)(sid \<mapsto> touched now e s))) \<and>
    pg_abs (pg_revoke now sid t) = (pg_abs t)(sid := map_option (killed now) (pg_abs t sid)) \<and>
    pg_abs (snd (pg_revoke_all_for_user now uid t)) = (\<lambda>k. map_option (sweep uid now) (pg_abs t k))"
proof -
  have f: "pg_find now sid t = opt_filter (\<lambda>r. is_valid_at r now) (pg_abs t sid)"
    using pg.find_abs [OF assms(1, 2)] by (simp add: pg_ops_def)
  moreover have "case pg_create r t of (Inl _, t') \<Rightarrow> t' = t \<and> pg_abs t (sr_session_id r) \<noteq> None
      | (Inr _, t') \<Rightarrow> pg_inv t' \<and> pg_abs t' = (pg_abs t)(sr_session_id r \<mapsto> r)"
    using pg.create_abs [OF assms(1, 4)] by (fastforce simp: pg_ops_def split: prod.splits sum.splits)
  moreover have "case pg_touch now sid e t of (res, t') \<Rightarrow> pg_inv t' \<and>
      (case pg_find now sid t of None \<Rightarrow> res = Inl SessionNotFound \<and> pg_abs t' = pg_abs t
         | Some s \<Rightarrow> res = Inr () \<and> pg_abs t' = (pg_abs t)(sid \<mapsto> touched now e s))"
    using pg.touch_abs [OF assms(1-3), of sid] unfolding f by (simp add: pg_ops_def split: prod.splits)
  ultimately show ?thesis
    using pg.revoke_abs [OF assms(1, 2), of sid] pg.revoke_all_abs [OF assms(1, 2), of uid] by (simp add: pg_ops_def)
qed

section \<open>A concrete table\<close>

definition demo_session :: "string \<Rightarrow> session_record" where
  "demo_session sid =
     \<lparr> sr_session_id = sid, sr_user_id = ''u1'', sr_tenant_id = ''t1'', sr_return_to = None, sr_created_at = 1,
       sr_last_active_at = 1, sr_expires_at = 90, sr_invalidated_at = None, sr_mfa_verified_at = None,
       sr_ip_address = None, sr_user_agent = None, sr_csrf_token = None, sr_email = Some ''a@b'',
       sr_tenant_slug = None, sr_roles = [''ADMIN'', ''MEMBER''], sr_display_name = None \<rparr>"

definition demo_table :: session_table where
  "demo_table = [to_row (demo_session ''s1''), to_row (demo_session ''s2'')]"

lemma demo_table_inv: "pg_inv demo_table"
  by (simp add: demo_table_def pg_inv_def to_row_def demo_session_def)

theorem revoked_session_stays_dead_witness:
  "pg_find 20 ''s1'' (fold (apply_op pg_ops)
     [OpTouch 12 ''s1'' 200, OpCreate (demo_session ''s3''), OpRevokeAll 13 ''u2''] (pg_revoke 10 ''s1'' demo_table)) = None"
  by (rule revoked_session_stays_dead [OF demo_table_inv, THEN conjunct1])
    (simp_all add: pg_fits_def pg_storable_def demo_session_def)

theorem pg_sessions_refine_witness:
  "pg_find 10 ''s1'' demo_table = Some (demo_session ''s1'')"
proof -
  have "pg_storable (demo_session ''s1'')" by (simp add: pg_fits_def pg_storable_def demo_session_def)
  from pg_sessions_refine [OF demo_table_inv _ _ this, of 10 20 "''s1''"]
  have "pg_find 10 ''s1'' demo_table = opt_filter (\<lambda>r. is_valid_at r 10) (pg_abs demo_table ''s1'')" by (simp add: pg_fits_def)
  moreover have "pg_abs demo_table ''s1'' = Some (demo_session ''s1'')"
    using from_to_row [OF \<open>pg_storable (demo_session ''s1'')\<close>] by (simp add: pg_abs_def demo_table_def, simp add: demo_session_def)
  ultimately show ?thesis by (simp add: is_valid_at_def demo_session_def)
qed

end
