(* ===== verification/Mfa.thy ===== *)
theory Mfa
  imports Session_Store "HOL-Library.Signed_Division"
begin

text \<open>
  Second factors: TOTP codes (\<open>auth-core/src/totp.rs\<close>), the tables \<open>user_mfa\<close> and
  \<open>mfa_recovery_codes\<close> with the statements of \<open>PgStore\<close> on them, and the handlers of
  \<open>auth-server/src/handlers/mfa.rs\<close>. The hash, the HMAC-based code function and the parser of UUIDs are
  packages, hence parameters; random secrets and codes are arguments. Ids and creation times that
  the database generates and nothing reads are left out.
\<close>

type_synonym uuid = "128 word"

record mfa_env =
  me_sha256_hex :: "string \<Rightarrow> string"
  me_totp :: "u64 \<Rightarrow> string \<Rightarrow> u64 \<Rightarrow> string"
  me_parse_uuid :: "string \<Rightarrow> uuid option"

section \<open>Codes\<close>

definition totp_time :: "u64 \<Rightarrow> u64 \<Rightarrow> int \<Rightarrow> u64" where
  "totp_time now time_step offset = as_u64 ((as_i64 now sdiv as_i64 time_step) + offset)"

definition verify_totp :: "mfa_env \<Rightarrow> u64 \<Rightarrow> string \<Rightarrow> string \<Rightarrow> u64 \<Rightarrow> bool" where
  "verify_totp e now secret code time_step =
     list_ex (\<lambda>offset. me_totp e time_step secret (totp_time now time_step offset) = code) [- 1, 0, 1]"

definition BASE32 :: string where
  "BASE32 = ''ABCDEFGHIJKLMNOPQRSTUVWXYZ234567''"

text \<open>The accumulator \<open>bits\<close> is a \<open>u32\<close>, shifted left by eight for every byte.\<close>

function base32_drain :: "u32 \<Rightarrow> nat \<Rightarrow> string \<Rightarrow> nat \<times> string" where
  "base32_drain bits bit_count result =
     (if bit_count \<ge> 5
      then base32_drain bits (bit_count - 5) (result @ [BASE32 ! unat (and (drop_bit (bit_count - 5) bits) 0x1F)])
      else (bit_count, result))"
  by pat_completeness auto

termination
  by (relation "measure (\<lambda>(_, n, _). n)") auto

declare base32_drain.simps [simp del]

fun base32_loop :: "u8 list \<Rightarrow> u32 \<Rightarrow> nat \<Rightarrow> string \<Rightarrow> u32 \<times> nat \<times> string" where
  "base32_loop [] bits bit_count result = (bits, bit_count, result)"
| "base32_loop (b # bs) bits bit_count result =
     (let bits' = or (push_bit 8 bits) (ucast b)
      in case base32_drain bits' (bit_count + 8) result of
           (bit_count', result') \<Rightarrow> base32_loop bs bits' bit_count' result')"

definition base32_encode :: "u8 list \<Rightarrow> string" where
  "base32_encode data =
     (case base32_loop data 0 0 [] of
        (bits, bit_count, result) \<Rightarrow>
          (if bit_count > 0 then result @ [BASE32 ! unat (and (push_bit (5 - bit_count) bits) 0x1F)] else result))"

text \<open>\<open>generate_secret\<close>, with the 20 random bytes as an argument.\<close>

definition generate_secret :: "u8 list \<Rightarrow> string" where
  "generate_secret bytes = base32_encode bytes"

section \<open>Tables\<close>

record mfa_record =
  mf_user_id :: uuid
  mf_type :: string
  mf_secret :: string
  mf_is_active :: bool

record recovery_code_record =
  rc_user_id :: uuid
  rc_code_hash :: string
  rc_used_at :: "u64 option"

record mfa_db =
  db_sessions :: session_table
  db_mfa :: "mfa_record list"
  db_recovery :: "recovery_code_record list"

abbreviation is_mfa :: "uuid \<Rightarrow> string \<Rightarrow> mfa_record \<Rightarrow> bool" where
  "is_mfa uid ty m \<equiv> mf_user_id m = uid \<and> mf_type m = ty"

definition mfa_put :: "bool \<Rightarrow> uuid \<Rightarrow> string \<Rightarrow> string \<Rightarrow> mfa_record list \<Rightarrow> mfa_record list" where
  "mfa_put active uid ty secret t =
     (if list_ex (is_mfa uid ty) t
      then map (\<lambda>m. if is_mfa uid ty m then m \<lparr> mf_secret := secret, mf_is_active := active \<rparr> else m) t
      else t @ [\<lparr> mf_user_id = uid, mf_type = ty, mf_secret = secret, mf_is_active = active \<rparr>])"

definition mfa_upsert :: "uuid \<Rightarrow> string \<Rightarrow> string \<Rightarrow> mfa_record list \<Rightarrow> mfa_record list" where
  "mfa_upsert = mfa_put True"

definition mfa_upsert_pending :: "uuid \<Rightarrow> string \<Rightarrow> string \<Rightarrow> mfa_record list \<Rightarrow> mfa_record list" where
  "mfa_upsert_pending = mfa_put False"

definition mfa_find :: "uuid \<Rightarrow> string \<Rightarrow> mfa_record list \<Rightarrow> mfa_record option" where
  "mfa_find uid ty t = find (\<lambda>m. is_mfa uid ty m \<and> mf_is_active m) t"

definition mfa_find_any :: "uuid \<Rightarrow> string \<Rightarrow> mfa_record list \<Rightarrow> mfa_record option" where
  "mfa_find_any uid ty t = find (is_mfa uid ty) t"

definition mfa_has_active :: "uuid \<Rightarrow> mfa_record list \<Rightarrow> bool" where
  "mfa_has_active uid t \<longleftrightarrow> 0 < length (filter (\<lambda>m. mf_user_id m = uid \<and> mf_is_active m) t)"

definition mfa_set_active :: "bool \<Rightarrow> uuid \<Rightarrow> string \<Rightarrow> mfa_record list \<Rightarrow> mfa_record list" where
  "mfa_set_active active uid ty t = map (\<lambda>m. if is_mfa uid ty m then m \<lparr> mf_is_active := active \<rparr> else m) t"

definition mfa_deactivate :: "uuid \<Rightarrow> string \<Rightarrow> mfa_record list \<Rightarrow> mfa_record list" where
  "mfa_deactivate = mfa_set_active False"

definition mfa_activate :: "uuid \<Rightarrow> string \<Rightarrow> mfa_record list \<Rightarrow> mfa_record list" where
  "mfa_activate = mfa_set_active True"

text \<open>One transaction: a repeated hash violates the table's unique key, and everything is rolled back.\<close>

definition recovery_replace_all ::
    "uuid \<Rightarrow> string list \<Rightarrow> recovery_code_record list \<Rightarrow> (auth_error, unit) result \<times> recovery_code_record list" where
  "recovery_replace_all uid hashes t =
     (if distinct hashes
      then (Inr (), filter (\<lambda>r. rc_user_id r \<noteq> uid) t @
                    map (\<lambda>h. \<lparr> rc_user_id = uid, rc_code_hash = h, rc_used_at = None \<rparr>) hashes)
      else (Inl (Conflict ''duplicate key''), t))"

abbreviation is_unused :: "uuid \<Rightarrow> string \<Rightarrow> recovery_code_record \<Rightarrow> bool" where
  "is_unused uid h r \<equiv> rc_user_id r = uid \<and> rc_code_hash r = h \<and> rc_used_at r = None"

definition recovery_consume :: "u64 \<Rightarrow> uuid \<Rightarrow> string \<Rightarrow> recovery_code_record list \<Rightarrow> bool \<times> recovery_code_record list" where
  "recovery_consume now uid h t =
     (0 < length (filter (is_unused uid h) t), map (\<lambda>r. if is_unused uid h r then r \<lparr> rc_used_at := Some now \<rparr> else r) t)"

definition recovery_count_unused :: "uuid \<Rightarrow> recovery_code_record list \<Rightarrow> nat" where
  "recovery_count_unused uid t = length (filter (\<lambda>r. rc_user_id r = uid \<and> rc_used_at r = None) t)"

definition recovery_delete_all :: "uuid \<Rightarrow> recovery_code_record list \<Rightarrow> recovery_code_record list" where
  "recovery_delete_all uid t = filter (\<lambda>r. rc_user_id r \<noteq> uid) t"

section \<open>Handlers\<close>

text \<open>Errors by their code; the text shown to the user is not modelled.\<close>

datatype api_error = Unauthorized string | Forbidden string | BadRequest string | InternalError

definition verify_session :: "u64 \<Rightarrow> string option \<Rightarrow> mfa_db \<Rightarrow> (api_error, session_record) result" where
  "verify_session now cookie db =
     (case cookie of
        None \<Rightarrow> Inl (Unauthorized ''SESSION_EXPIRED'')
      | Some sid \<Rightarrow>
          (case pg_find now sid (db_sessions db) of
             None \<Rightarrow> Inl (Unauthorized ''SESSION_EXPIRED'')
           | Some s \<Rightarrow> Inr s))"

definition totp_setup ::
    "u64 \<Rightarrow> string option \<Rightarrow> uuid \<Rightarrow> string \<Rightarrow> mfa_db \<Rightarrow> (api_error, string) result \<times> mfa_db" where
  "totp_setup now cookie user_id secret db =
     (case verify_session now cookie db of
        Inl err \<Rightarrow> (Inl err, db)
      | Inr _ \<Rightarrow>
          (let t = mfa_upsert user_id ''totp'' secret (db_mfa db)
           in (Inr secret, db \<lparr> db_mfa := mfa_deactivate user_id ''totp'' t \<rparr>)))"

definition totp_verify_setup ::
    "mfa_env \<Rightarrow> u64 \<Rightarrow> string option \<Rightarrow> uuid \<Rightarrow> string \<Rightarrow> string list \<Rightarrow> mfa_db \<Rightarrow> (api_error, string list) result \<times> mfa_db" where
  "totp_verify_setup e now cookie user_id code codes db =
     (case verify_session now cookie db of
        Inl err \<Rightarrow> (Inl err, db)
      | Inr _ \<Rightarrow>
          (case mfa_find_any user_id ''totp'' (db_mfa db) of
             None \<Rightarrow> (Inl (BadRequest ''NOT_FOUND''), db)
           | Some m \<Rightarrow>
               (if \<not> verify_totp e now (mf_secret m) code 30 then (Inl (BadRequest ''INVALID_CODE''), db)
                else (let db' = db \<lparr> db_mfa := mfa_upsert user_id ''totp'' (mf_secret m) (db_mfa db) \<rparr>
                      in case recovery_replace_all user_id (map (me_sha256_hex e) codes) (db_recovery db') of
                           (Inl _, t) \<Rightarrow> (Inl InternalError, db' \<lparr> db_recovery := t \<rparr>)
                         | (Inr _, t) \<Rightarrow> (Inr codes, db' \<lparr> db_recovery := t \<rparr>)))))"

definition totp_disable :: "u64 \<Rightarrow> string option \<Rightarrow> uuid \<Rightarrow> mfa_db \<Rightarrow> (api_error, unit) result \<times> mfa_db" where
  "totp_disable now cookie user_id db =
     (case verify_session now cookie db of
        Inl err \<Rightarrow> (Inl err, db)
      | Inr _ \<Rightarrow>
          (Inr (), db \<lparr> db_mfa := mfa_deactivate user_id ''totp'' (db_mfa db),
                        db_recovery := recovery_delete_all user_id (db_recovery db) \<rparr>))"

definition mfa_status :: "mfa_env \<Rightarrow> u64 \<Rightarrow> string option \<Rightarrow> mfa_db \<Rightarrow> (api_error, bool \<times> string option \<times> nat) result" where
  "mfa_status e now cookie db =
     (case verify_session now cookie db of
        Inl err \<Rightarrow> Inl err
      | Inr s \<Rightarrow>
          (case me_parse_uuid e (sr_user_id s) of
             None \<Rightarrow> Inl InternalError
           | Some uid \<Rightarrow>
               (let has_mfa = mfa_has_active uid (db_mfa db)
                in Inr (has_mfa, if has_mfa then Some ''totp'' else None,
                        if has_mfa then recovery_count_unused uid (db_recovery db) else 0))))"

definition regenerate_recovery_codes ::
    "mfa_env \<Rightarrow> u64 \<Rightarrow> string option \<Rightarrow> uuid \<Rightarrow> string list \<Rightarrow> mfa_db \<Rightarrow> (api_error, string list) result \<times> mfa_db" where
  "regenerate_recovery_codes e now cookie user_id codes db =
     (case verify_session now cookie db of
        Inl err \<Rightarrow> (Inl err, db)
      | Inr _ \<Rightarrow>
          (case recovery_replace_all user_id (map (me_sha256_hex e) codes) (db_recovery db) of
             (Inl _, t) \<Rightarrow> (Inl InternalError, db \<lparr> db_recovery := t \<rparr>)
           | (Inr _, t) \<Rightarrow> (Inr codes, db \<lparr> db_recovery := t \<rparr>)))"

definition mfa_verify_login :: "mfa_env \<Rightarrow> u64 \<Rightarrow> string option \<Rightarrow> string \<Rightarrow> mfa_db \<Rightarrow> (api_error, unit) result \<times> mfa_db" where
  "mfa_verify_login e now cookie code db =
     (case cookie of
        None \<Rightarrow> (Inl (Unauthorized ''SESSION_EXPIRED''), db)
      | Some sid \<Rightarrow>
          (case pg_find now sid (db_sessions db) of
             None \<Rightarrow> (Inl (Unauthorized ''SESSION_EXPIRED''), db)
           | Some s \<Rightarrow>
               (case me_parse_uuid e (sr_user_id s) of
                  None \<Rightarrow> (Inl InternalError, db)
                | Some uid \<Rightarrow>
                    (case mfa_find uid ''totp'' (db_mfa db) of
                       None \<Rightarrow> (Inl (Unauthorized ''MFA_REQUIRED''), db)
                     | Some m \<Rightarrow>
                         (let accept = (\<lambda>db. (Inr (), db \<lparr> db_sessions := pg_mark_mfa_verified now sid (db_sessions db) \<rparr>))
                          in if verify_totp e now (mf_secret m) code 30 then accept db
                             else (case recovery_consume now uid (me_sha256_hex e code) (db_recovery db) of
                                     (consumed, t) \<Rightarrow>
                                       (if consumed then accept (db \<lparr> db_recovery := t \<rparr>)
                                        else (Inl (Unauthorized ''MFA_FAILED''), db \<lparr> db_recovery := t \<rparr>))))))))"

section \<open>Secrets\<close>

lemma base32_drain_length:
  "base32_drain bits n result = (m, r) \<Longrightarrow> m = n mod 5 \<and> length r = length result + n div 5"
proof (induction bits n result arbitrary: m r rule: base32_drain.induct)
  case (1 bits n result)
  show ?case
  proof (cases "5 \<le> n")
    case True
    with 1(2) have "base32_drain bits (n - 5) (result @ [BASE32 ! unat (and (drop_bit (n - 5) bits) 0x1F)]) = (m, r)"
      by (simp add: base32_drain.simps [of bits n])
    from 1(1) [OF True this] True show ?thesis by (simp add: le_div_geq le_mod_geq)
  qed (use 1(2) in \<open>simp add: base32_drain.simps [of bits n]\<close>)
qed

lemma base32_loop_length:
  "base32_loop bs bits n result = (bits', m, r) \<Longrightarrow> n < 5 \<Longrightarrow>
   m = (n + 8 * length bs) mod 5 \<and> length r = length result + (n + 8 * length bs) div 5"
proof (induction bs arbitrary: bits n result)
  case (Cons b bs)
  obtain n1 r1 where d: "base32_drain (or (push_bit 8 bits) (ucast b)) (n + 8) result = (n1, r1)" by fastforce
  note len = base32_drain_length [OF d]
  from Cons.prems(1) have "base32_loop bs (or (push_bit 8 bits) (ucast b)) n1 r1 = (bits', m, r)" by (simp add: d Let_def)
  from Cons.IH [OF this] len have "m = (n1 + 8 * length bs) mod 5" "length r = length r1 + (n1 + 8 * length bs) div 5" by auto
  moreover have split: "n + 8 * length (b # bs) = (n1 + 8 * length bs) + 5 * ((n + 8) div 5)"
    using len div_mult_mod_eq [of "n + 8" 5] by simp
  moreover have "(n + 8 * length (b # bs)) div 5 = (n + 8) div 5 + (n1 + 8 * length bs) div 5" unfolding split by simp
  moreover have "(n + 8 * length (b # bs)) mod 5 = (n1 + 8 * length bs) mod 5" unfolding split by simp
  ultimately show ?case using len by simp
qed simp

lemma generate_secret_length: "length bytes = 20 \<Longrightarrow> length (generate_secret bytes) = 32"
proof -
  assume b: "length bytes = 20"
  obtain bits m r where l: "base32_loop bytes 0 0 [] = (bits, m, r)" by (rule prod_cases3)
  from base32_loop_length [OF l] b show ?thesis by (simp add: generate_secret_def base32_encode_def l)
qed

section \<open>Logging in with a second factor\<close>

lemma recovery_consume_none: "fst (recovery_consume now uid h t) = False \<Longrightarrow> snd (recovery_consume now uid h t) = t"
  unfolding recovery_consume_def by (auto simp: filter_empty_conv intro!: map_idI)

lemma recovery_consume_twice: "fst (recovery_consume now' uid h (snd (recovery_consume now uid h t))) = False"
  by (auto simp: recovery_consume_def filter_empty_conv)


text \<open>
  A recovery code works once. After a login that used one, the same code opens no session of
  that user again, at any later time at which it is not also a current TOTP code.
\<close>

theorem recovery_code_works_once:
  assumes "mfa_verify_login e now (Some sid) code db = (Inr (), db')"
    and "pg_find now sid (db_sessions db) = Some s" and "me_parse_uuid e (sr_user_id s) = Some uid"
    and "\<And>m. mfa_find uid ''totp'' (db_mfa db) = Some m \<Longrightarrow> \<not> verify_totp e now (mf_secret m) code 30"
    and "pg_find now2 sid2 (db_sessions db') = Some s2" and "me_parse_uuid e (sr_user_id s2) = Some uid"
    and "\<And>m. mfa_find uid ''totp'' (db_mfa db) = Some m \<Longrightarrow> \<not> verify_totp e now2 (mf_secret m) code 30"
  shows "mfa_verify_login e now2 (Some sid2) code db' = (Inl (Unauthorized ''MFA_FAILED''), db')"
proof -
  obtain m where m: "mfa_find uid ''totp'' (db_mfa db) = Some m"
    using assms(1) unfolding mfa_verify_login_def by (simp add: assms(2, 3) split: option.splits)
  note fails = assms(4) [OF m] assms(7) [OF m]
  let ?h = "me_sha256_hex e code"
  have db': "db_recovery db' = snd (recovery_consume now uid ?h (db_recovery db))" "db_mfa db' = db_mfa db"
    using assms(1) by (auto simp: mfa_verify_login_def assms(2, 3) m fails Let_def case_prod_beta split: if_splits)
  then have c: "fst (recovery_consume now2 uid ?h (db_recovery db')) = False" by (simp add: recovery_consume_twice)
  from recovery_consume_none [OF this] c show ?thesis
    by (simp add: mfa_verify_login_def assms(5, 6) db'(2) m fails Let_def case_prod_beta)
qed

section \<open>Managing second factors\<close>

lemma mfa_deactivate_has_active:
  assumes "\<And>m. m \<in> set t \<Longrightarrow> mf_user_id m = uid \<Longrightarrow> mf_type m = ''totp''"
  shows "\<not> mfa_has_active uid (mfa_deactivate uid ''totp'' t)"
  using assms by (auto simp: mfa_has_active_def mfa_deactivate_def mfa_set_active_def filter_empty_conv)

text \<open>
  Whoever has a live session, of whichever user, can switch off the second factor of any user: the
  handlers check that there is a session and never compare its user with the one in the path.
\<close>

theorem any_session_disables_mfa:
  assumes "pg_find now sid (db_sessions db) = Some s"
    and "\<And>m. m \<in> set (db_mfa db) \<Longrightarrow> mf_user_id m = victim \<Longrightarrow> mf_type m = ''totp''"
  shows "fst (totp_disable now (Some sid) victim db) = Inr () \<and>
    \<not> mfa_has_active victim (db_mfa (snd (totp_disable now (Some sid) victim db))) \<and>
    recovery_count_unused victim (db_recovery (snd (totp_disable now (Some sid) victim db))) = 0"
  using mfa_deactivate_has_active [OF assms(2)] assms(1)
  by (simp add: totp_disable_def verify_session_def recovery_count_unused_def recovery_delete_all_def filter_empty_conv)

lemma mfa_put_own:
  "\<exists>m. mfa_find_any uid ty (mfa_put a uid ty secret t) = Some m \<and> mf_secret m = secret \<and> mf_is_active m = a \<and> is_mfa uid ty m"
proof (cases "list_ex (is_mfa uid ty) t")
  case True
  then have "\<exists>m. find (is_mfa uid ty) (map (\<lambda>m. if is_mfa uid ty m then m \<lparr> mf_secret := secret, mf_is_active := a \<rparr> else m) t) = Some m \<and>
      mf_secret m = secret \<and> mf_is_active m = a \<and> is_mfa uid ty m"
    by (induction t) auto
  with True show ?thesis by (simp add: mfa_find_any_def mfa_put_def)
next
  case False
  then have "find (is_mfa uid ty) t = None" by (auto simp: find_None_iff list_ex_iff)
  with False show ?thesis by (simp add: mfa_find_any_def mfa_put_def find_append)
qed

lemma mfa_put_active:
  "mfa_find uid ty (mfa_put True uid ty secret t) = mfa_find_any uid ty (mfa_put True uid ty secret t)"
proof (cases "list_ex (is_mfa uid ty) t")
  case True
  then show ?thesis by (induction t) (auto simp: mfa_find_def mfa_find_any_def mfa_put_def)
next
  case False
  then have "find (\<lambda>m. is_mfa uid ty m \<and> mf_is_active m) t = None" "find (is_mfa uid ty) t = None"
    by (auto simp: find_None_iff list_ex_iff)
  with False show ?thesis by (simp add: mfa_find_def mfa_find_any_def mfa_put_def find_append)
qed

lemma find_map_other:
  assumes "uid2 \<noteq> uid" and "\<And>m. mf_user_id (f m) = mf_user_id m"
  shows "find (\<lambda>m. is_mfa uid2 ty2 m \<and> mf_is_active m) (map (\<lambda>m. if is_mfa uid ty m then f m else m) t) =
    find (\<lambda>m. is_mfa uid2 ty2 m \<and> mf_is_active m) t"
proof (induction t)
  case (Cons m t)
  show ?case
  proof (cases "mf_user_id m = uid2")
    case True
    with assms(1) Cons show ?thesis by simp
  next
    case False
    with assms(1) Cons show ?thesis by (simp add: assms(2))
  qed
qed simp

lemmas find_map_other' = find_map_other [unfolded conj_assoc]

lemma mfa_put_other: "uid2 \<noteq> uid \<Longrightarrow> mfa_find uid2 ty2 (mfa_put a uid ty secret t) = mfa_find uid2 ty2 t"
  by (simp add: mfa_find_def mfa_put_def find_append find_map_other' split: option.splits)

lemma mfa_set_active_other: "uid2 \<noteq> uid \<Longrightarrow> mfa_find uid2 ty2 (mfa_set_active a uid ty t) = mfa_find uid2 ty2 t"
  by (simp add: mfa_find_def mfa_set_active_def find_map_other')

lemma mfa_deactivate_own: "mfa_find uid ty (mfa_deactivate uid ty t) = None"
  unfolding mfa_find_def mfa_deactivate_def mfa_set_active_def by (induction t) auto

lemma mfa_deactivate_any:
  "mfa_find_any uid ty (mfa_deactivate uid ty t) = map_option (\<lambda>m. m \<lparr> mf_is_active := False \<rparr>) (mfa_find_any uid ty t)"
  unfolding mfa_find_any_def mfa_deactivate_def mfa_set_active_def by (induction t) auto

lemma recovery_replace_counts:
  assumes "distinct hashes"
  shows "recovery_count_unused uid2 (snd (recovery_replace_all uid hashes t)) =
    (if uid2 = uid then length hashes else recovery_count_unused uid2 t)"
proof -
  have own: "filter (\<lambda>r. rc_user_id r = uid \<and> rc_used_at r = None) (map (\<lambda>h. \<lparr> rc_user_id = uid, rc_code_hash = h, rc_used_at = None \<rparr>) hashes) =
      map (\<lambda>h. \<lparr> rc_user_id = uid, rc_code_hash = h, rc_used_at = None \<rparr>) hashes"
    by (rule filter_True) auto
  have other: "filter (\<lambda>r. rc_user_id r = uid2 \<and> rc_used_at r = None) (filter (\<lambda>r. rc_user_id r \<noteq> uid) t) =
      (if uid2 = uid then [] else filter (\<lambda>r. rc_user_id r = uid2 \<and> rc_used_at r = None) t)"
    by (induction t) auto
  have "filter (\<lambda>r. rc_user_id r = uid2 \<and> rc_used_at r = None) (map (\<lambda>h. \<lparr> rc_user_id = uid, rc_code_hash = h, rc_used_at = None \<rparr>) hashes) = []"
    if "uid2 \<noteq> uid" using that by (auto simp: filter_empty_conv)
  with own other assms show ?thesis by (auto simp: recovery_count_unused_def recovery_replace_all_def)
qed

text \<open>
  Setting up a second factor has no effect before it is confirmed, and the handlers of one user's
  second factor leave every other user's factor and recovery codes alone. After the setup request the
  user has no active TOTP secret; confirming with a wrong code is refused and changes nothing;
  confirming with a right one activates the pending secret and replaces the recovery codes.
\<close>

theorem totp_setup_confirm:
  assumes "verify_session now cookie db = Inr s" and "totp_setup now cookie uid secret db = (r, db1)"
    and "totp_verify_setup e now2 cookie2 uid code codes db1 = (r2, db2)" and "verify_session now2 cookie2 db1 = Inr s2"
    and "distinct (map (me_sha256_hex e) codes)"
  shows "mfa_find uid ''totp'' (db_mfa db1) = None \<and>
    (if verify_totp e now2 secret code 30
     then r2 = Inr codes \<and> (\<exists>m. mfa_find uid ''totp'' (db_mfa db2) = Some m \<and> mf_secret m = secret) \<and>
       recovery_count_unused uid (db_recovery db2) = length codes
     else r2 = Inl (BadRequest ''INVALID_CODE'') \<and> db2 = db1) \<and>
    (\<forall>uid2 ty. uid2 \<noteq> uid \<longrightarrow> mfa_find uid2 ty (db_mfa db2) = mfa_find uid2 ty (db_mfa db) \<and>
       recovery_count_unused uid2 (db_recovery db2) = recovery_count_unused uid2 (db_recovery db))"
proof -
  have db1: "db1 = db \<lparr> db_mfa := mfa_deactivate uid ''totp'' (mfa_upsert uid ''totp'' secret (db_mfa db)) \<rparr>"
    using assms(1, 2) by (simp add: totp_setup_def)
  obtain m where m: "mfa_find_any uid ''totp'' (db_mfa db1) = Some m" "mf_secret m = secret"
    using mfa_put_own [of uid "''totp''" True secret "db_mfa db"] by (auto simp: db1 mfa_deactivate_any mfa_upsert_def)
  have others: "mfa_find uid2 ty (db_mfa db1) = mfa_find uid2 ty (db_mfa db)" if "uid2 \<noteq> uid" for uid2 ty
    using that by (simp add: db1 mfa_deactivate_def mfa_set_active_other mfa_upsert_def mfa_put_other)
  have none: "mfa_find uid ''totp'' (db_mfa db1) = None" by (simp add: db1 mfa_deactivate_own)
  show ?thesis
  proof (cases "verify_totp e now2 secret code 30")
    case False
    with assms(3, 4) m have "r2 = Inl (BadRequest ''INVALID_CODE'')" "db2 = db1" by (simp_all add: totp_verify_setup_def)
    moreover have "db_recovery db1 = db_recovery db" by (simp add: db1)
    ultimately show ?thesis using False others none by simp
  next
    case True
    let ?t = "snd (recovery_replace_all uid (map (me_sha256_hex e) codes) (db_recovery db1))"
    have "recovery_replace_all uid (map (me_sha256_hex e) codes) (db_recovery db1) = (Inr (), ?t)"
      using assms(5) by (simp add: recovery_replace_all_def)
    with assms(3, 4) m True have
      2: "r2 = Inr codes" "db2 = db1 \<lparr> db_mfa := mfa_upsert uid ''totp'' secret (db_mfa db1), db_recovery := ?t \<rparr>"
      by (simp_all add: totp_verify_setup_def Let_def split: prod.splits)
    have "\<exists>m. mfa_find uid ''totp'' (db_mfa db2) = Some m \<and> mf_secret m = secret"
      using mfa_put_own [of uid "''totp''" True secret "db_mfa db1"] by (auto simp: 2(2) mfa_upsert_def mfa_put_active)
    moreover have "recovery_count_unused uid2 (db_recovery db2) =
        (if uid2 = uid then length codes else recovery_count_unused uid2 (db_recovery db))" for uid2
      using recovery_replace_counts [OF assms(5), of uid2 uid] by (simp add: 2(2) db1)
    moreover have "mfa_find uid2 ty (db_mfa db2) = mfa_find uid2 ty (db_mfa db)" if "uid2 \<noteq> uid" for uid2 ty
      using others [OF that] that by (simp add: 2(2) mfa_upsert_def mfa_put_other)
    ultimately show ?thesis using True none 2(1) by simp
  qed
qed

section \<open>A concrete run\<close>

definition demo_mfa_env :: mfa_env where
  "demo_mfa_env =
     \<lparr> me_sha256_hex = (\<lambda>s. CHR ''#'' # s), me_totp = (\<lambda>step secret time. if time = 3 then ''123456'' else ''000000''),
       me_parse_uuid = (\<lambda>s. if s = ''u1'' then Some 1 else None) \<rparr>"

definition demo_mfa_db :: mfa_db where
  "demo_mfa_db =
     \<lparr> db_sessions = demo_table,
       db_mfa = [\<lparr> mf_user_id = 1, mf_type = ''totp'', mf_secret = ''K'', mf_is_active = True \<rparr>],
       db_recovery = [\<lparr> rc_user_id = 1, rc_code_hash = ''#rescue'', rc_used_at = None \<rparr>] \<rparr>"

definition demo_after :: mfa_db where
  "demo_after = demo_mfa_db \<lparr> db_sessions := pg_mark_mfa_verified 10 ''s1'' demo_table,
     db_recovery := [\<lparr> rc_user_id = 1, rc_code_hash = ''#rescue'', rc_used_at = Some 10 \<rparr>] \<rparr>"

lemma demo_login: "mfa_verify_login demo_mfa_env 10 (Some ''s1'') ''rescue'' demo_mfa_db = (Inr (), demo_after)"
  by code_simp


theorem recovery_code_works_once_witness:
  "mfa_verify_login demo_mfa_env 11 (Some ''s2'') ''rescue'' demo_after = (Inl (Unauthorized ''MFA_FAILED''), demo_after)"
proof -
  have f: "pg_find 10 ''s1'' (db_sessions demo_mfa_db) = Some (demo_session ''s1'')" by code_simp
  have f2: "pg_find 11 ''s2'' (db_sessions demo_after) = Some (demo_session ''s2'')" by code_simp
  have u: "me_parse_uuid demo_mfa_env (sr_user_id (demo_session sid)) = Some 1" for sid
    by (simp add: demo_mfa_env_def demo_session_def)
  have v: "\<not> verify_totp demo_mfa_env now secret ''rescue'' 30" for now secret
    by (simp add: verify_totp_def demo_mfa_env_def)
  show ?thesis by (rule recovery_code_works_once [OF demo_login f u v f2 u v])
qed

theorem totp_setup_confirm_witness:
  "\<exists>m. mfa_find 1 ''totp'' (db_mfa (snd (totp_verify_setup demo_mfa_env 91 (Some ''s1'') 1 ''123456'' [''a'', ''b'']
     (snd (totp_setup 10 (Some ''s1'') 1 ''K2'' (demo_mfa_db \<lparr> db_sessions := [to_row (demo_session ''s1'' \<lparr> sr_expires_at := 200 \<rparr>)] \<rparr>)))))) = Some m \<and>
     mf_secret m = ''K2''"
proof -
  let ?db = "demo_mfa_db \<lparr> db_sessions := [to_row (demo_session ''s1'' \<lparr> sr_expires_at := 200 \<rparr>)] \<rparr>"
  let ?s = "demo_session ''s1'' \<lparr> sr_expires_at := 200 \<rparr>"
  have s: "verify_session 10 (Some ''s1'') ?db = Inr ?s" by code_simp
  have s2: "verify_session 91 (Some ''s1'') (snd (totp_setup 10 (Some ''s1'') 1 ''K2'' ?db)) = Inr ?s" by code_simp
  have v: "verify_totp demo_mfa_env 91 ''K2'' ''123456'' 30" by code_simp
  have d: "distinct (map (me_sha256_hex demo_mfa_env) [''a'', ''b''])" by code_simp
  from totp_setup_confirm [OF s prod.collapse [symmetric] prod.collapse [symmetric] s2 d] v show ?thesis by simp
qed

end
