(* ===== verification/Registration.thy ===== *)
theory Registration
  imports Mfa
begin

text \<open>
  Passwordless registration, email verification, login codes and TOTP setup, as
  \<open>auth-core/src/runtime.rs\<close> drives them over the tables of \<open>PgStore\<close>: \<open>auth_flows\<close> with optimistic
  locking and its transition log, \<open>email_verification_tokens\<close>, \<open>notification_jobs\<close> and
  \<open>login_challenges\<close>. Times are microseconds. Fresh ids and random tokens are arguments; the hash and
  the text of a UUID are parameters.
\<close>

type_synonym time = int

definition secs :: "int \<Rightarrow> time" where
  "secs n = n * 1000000"

definition mins :: "int \<Rightarrow> time" where
  "mins n = secs (60 * n)"

section \<open>Tables\<close>

record flow_record =
  fr_id :: uuid
  fr_session_id :: string
  fr_flow_type :: string
  fr_current_state :: string
  fr_guard_failure_count :: int
  fr_version :: int
  fr_created_at :: time
  fr_updated_at :: time
  fr_expires_at :: time
  fr_completed_at :: "time option"
  fr_exit_state :: "string option"
  fr_summary :: "(string \<times> string) list option"

record flow_transition_record =
  ft_flow_id :: uuid
  ft_from_state :: "string option"
  ft_to_state :: string
  ft_trigger :: string
  ft_error_detail :: "string option"

record email_token_record =
  ev_id :: uuid
  ev_email :: string
  ev_token_hash :: string
  ev_flow_id :: "uuid option"
  ev_expires_at :: time
  ev_used_at :: "time option"
  ev_attempt_count :: int
  ev_resend_count :: int
  ev_last_sent_at :: "time option"
  ev_created_at :: time

record notification_job_record =
  nj_id :: uuid
  nj_channel :: string
  nj_recipient :: string
  nj_template_id :: string
  nj_payload :: "(string \<times> string) list"
  nj_correlation_id :: "string option"
  nj_status :: string
  nj_attempt_count :: int
  nj_next_attempt_at :: time
  nj_created_at :: time
  nj_sent_at :: "time option"
  nj_last_error :: "string option"

record login_challenge_record =
  lc_id :: uuid
  lc_user_id :: uuid
  lc_kind :: string
  lc_code_hash :: string
  lc_destination :: string
  lc_expires_at :: time
  lc_consumed_at :: "time option"
  lc_attempt_count :: int
  lc_max_attempts :: int
  lc_created_at :: time

record runtime_db =
  rt_flows :: "flow_record list"
  rt_transitions :: "flow_transition_record list"
  rt_tokens :: "email_token_record list"
  rt_jobs :: "notification_job_record list"
  rt_challenges :: "login_challenge_record list"
  rt_mfa :: "mfa_record list"
  rt_recovery :: "recovery_code_record list"

text \<open>A step on the database that may fail; a failure ends the operation, what was written before it stays.\<close>

type_synonym 'a dbop = "runtime_db \<Rightarrow> (auth_error, 'a) result \<times> runtime_db"

definition db_return :: "'a \<Rightarrow> 'a dbop" where
  "db_return a db = (Inr a, db)"

definition db_fail :: "auth_error \<Rightarrow> 'a dbop" where
  "db_fail err db = (Inl err, db)"

definition db_bind :: "'a dbop \<Rightarrow> ('a \<Rightarrow> 'b dbop) \<Rightarrow> 'b dbop" where
  "db_bind m f db = (case m db of (Inl err, db') \<Rightarrow> (Inl err, db') | (Inr a, db') \<Rightarrow> f a db')"

lemma db_bind_simps [simp]:
  "m db = (Inl err, db') \<Longrightarrow> db_bind m f db = (Inl err, db')"
  "m db = (Inr a, db') \<Longrightarrow> db_bind m f db = f a db'"
  by (simp_all add: db_bind_def)

lemma db_bind_ok: "db_bind m f db = (Inr b, db') \<longleftrightarrow> (\<exists>a db1. m db = (Inr a, db1) \<and> f a db1 = (Inr b, db'))"
  by (auto simp: db_bind_def split: prod.splits sum.splits)

section \<open>Flow records\<close>

definition flow_create :: "flow_record \<Rightarrow> unit dbop" where
  "flow_create r db =
     (if fr_id r \<in> set (map fr_id (rt_flows db)) then (Inl (Conflict ''duplicate key''), db)
      else (Inr (), db \<lparr> rt_flows := rt_flows db @ [r] \<rparr>))"

definition flow_find :: "uuid \<Rightarrow> (flow_record option) dbop" where
  "flow_find fid db = (Inr (find (\<lambda>f. fr_id f = fid) (rt_flows db)), db)"

definition flow_update_state :: "time \<Rightarrow> uuid \<Rightarrow> string \<Rightarrow> int \<Rightarrow> unit dbop" where
  "flow_update_state now fid state version db =
     (let hit = (\<lambda>f. fr_id f = fid \<and> fr_version f = version - 1)
      in if filter hit (rt_flows db) = [] then (Inl (Conflict ''flow version conflict (optimistic lock)''), db)
         else (Inr (), db \<lparr> rt_flows := map (\<lambda>f. if hit f
                 then f \<lparr> fr_current_state := state, fr_version := version, fr_updated_at := now \<rparr> else f) (rt_flows db) \<rparr>))"

definition flow_complete :: "time \<Rightarrow> uuid \<Rightarrow> string \<Rightarrow> (string \<times> string) list option \<Rightarrow> unit dbop" where
  "flow_complete now fid exit_state summary db =
     (Inr (), db \<lparr> rt_flows := map (\<lambda>f. if fr_id f = fid
        then f \<lparr> fr_exit_state := Some exit_state, fr_completed_at := Some now, fr_updated_at := now, fr_summary := summary \<rparr>
        else f) (rt_flows db) \<rparr>)"

definition flow_record_transition :: "uuid \<Rightarrow> string option \<Rightarrow> string \<Rightarrow> string \<Rightarrow> string option \<Rightarrow> unit dbop" where
  "flow_record_transition fid from to_state trigger error db =
     (Inr (), db \<lparr> rt_transitions := rt_transitions db @
        [\<lparr> ft_flow_id = fid, ft_from_state = from, ft_to_state = to_state, ft_trigger = trigger, ft_error_detail = error \<rparr>] \<rparr>)"

definition flow_find_active_by_session :: "time \<Rightarrow> string \<Rightarrow> (flow_record list) dbop" where
  "flow_find_active_by_session now sid db =
     (Inr (sort_key (\<lambda>f. - fr_created_at f)
        (filter (\<lambda>f. fr_session_id f = sid \<and> fr_completed_at f = None \<and> now < fr_expires_at f) (rt_flows db))), db)"

definition flow_cleanup_expired :: "time \<Rightarrow> nat dbop" where
  "flow_cleanup_expired now db =
     (let gone = (\<lambda>f. fr_expires_at f < now \<and> fr_completed_at f = None)
      in (Inr (length (filter gone (rt_flows db))), db \<lparr> rt_flows := filter (\<lambda>f. \<not> gone f) (rt_flows db) \<rparr>))"

section \<open>Verification tokens\<close>

definition token_issue :: "time \<Rightarrow> uuid \<Rightarrow> string \<Rightarrow> string \<Rightarrow> int \<Rightarrow> uuid option \<Rightarrow> uuid dbop" where
  "token_issue now new_id email token_hash ttl_minutes flow_id db =
     (if token_hash \<in> set (map ev_token_hash (rt_tokens db)) then (Inl (Conflict ''duplicate key''), db)
      else (Inr new_id, db \<lparr> rt_tokens := rt_tokens db @
        [\<lparr> ev_id = new_id, ev_email = email, ev_token_hash = token_hash, ev_flow_id = flow_id,
           ev_expires_at = now + mins ttl_minutes, ev_used_at = None, ev_attempt_count = 0, ev_resend_count = 0,
           ev_last_sent_at = Some now, ev_created_at = now \<rparr>] \<rparr>))"

definition token_live :: "time \<Rightarrow> string \<Rightarrow> email_token_record \<Rightarrow> bool" where
  "token_live now token_hash t \<longleftrightarrow> ev_token_hash t = token_hash \<and> ev_used_at t = None \<and> now < ev_expires_at t"

definition token_consume :: "time \<Rightarrow> string \<Rightarrow> (email_token_record option) dbop" where
  "token_consume now token_hash db =
     (Inr (map_option (\<lambda>t. t \<lparr> ev_used_at := Some now \<rparr>) (find (token_live now token_hash) (rt_tokens db))),
      db \<lparr> rt_tokens := map (\<lambda>t. if token_live now token_hash t then t \<lparr> ev_used_at := Some now \<rparr> else t) (rt_tokens db) \<rparr>)"

text \<open>The newest pending token of an address; equal creation times are resolved by the order of the rows.\<close>

definition newest_pending :: "string \<Rightarrow> email_token_record list \<Rightarrow> email_token_record option" where
  "newest_pending email ts =
     (case sort_key (\<lambda>t. - ev_created_at t) (filter (\<lambda>t. ev_email t = email \<and> ev_used_at t = None) ts) of
        [] \<Rightarrow> None | t # _ \<Rightarrow> Some t)"

definition token_try_mark_resent :: "time \<Rightarrow> string \<Rightarrow> int \<Rightarrow> bool dbop" where
  "token_try_mark_resent now email min_interval_secs db =
     (case newest_pending email (rt_tokens db) of
        None \<Rightarrow> (Inr False, db)
      | Some n \<Rightarrow>
          (let hit = (\<lambda>t. ev_id t = ev_id n \<and>
                 (case ev_last_sent_at t of None \<Rightarrow> True | Some s \<Rightarrow> s < now - secs min_interval_secs))
           in (Inr (filter hit (rt_tokens db) \<noteq> []),
               db \<lparr> rt_tokens := map (\<lambda>t. if hit t
                 then t \<lparr> ev_resend_count := ev_resend_count t + 1, ev_last_sent_at := Some now \<rparr> else t) (rt_tokens db) \<rparr>)))"

definition token_invalidate_pending :: "time \<Rightarrow> string \<Rightarrow> nat dbop" where
  "token_invalidate_pending now email db =
     (let hit = (\<lambda>t. ev_email t = email \<and> ev_used_at t = None)
      in (Inr (length (filter hit (rt_tokens db))),
          db \<lparr> rt_tokens := map (\<lambda>t. if hit t then t \<lparr> ev_used_at := Some now \<rparr> else t) (rt_tokens db) \<rparr>))"

section \<open>Notification jobs\<close>

definition job_enqueue ::
    "time \<Rightarrow> uuid \<Rightarrow> string \<Rightarrow> string \<Rightarrow> string \<Rightarrow> (string \<times> string) list \<Rightarrow> string option \<Rightarrow> uuid dbop" where
  "job_enqueue now new_id channel recipient template_id payload correlation_id db =
     (case (case correlation_id of
              None \<Rightarrow> None
            | Some c \<Rightarrow> find (\<lambda>j. nj_correlation_id j = Some c) (rt_jobs db)) of
        Some j \<Rightarrow> (Inr (nj_id j), db)
      | None \<Rightarrow>
          (Inr new_id, db \<lparr> rt_jobs := rt_jobs db @
             [\<lparr> nj_id = new_id, nj_channel = channel, nj_recipient = recipient, nj_template_id = template_id,
                nj_payload = payload, nj_correlation_id = correlation_id, nj_status = ''pending'', nj_attempt_count = 0,
                nj_next_attempt_at = now, nj_created_at = now, nj_sent_at = None, nj_last_error = None \<rparr>] \<rparr>))"

definition job_claim_pending :: "time \<Rightarrow> nat \<Rightarrow> (notification_job_record list) dbop" where
  "job_claim_pending now limit db =
     (Inr (take limit (sort_key nj_created_at
        (filter (\<lambda>j. nj_status j = ''pending'' \<and> nj_next_attempt_at j \<le> now) (rt_jobs db)))), db)"

definition job_update :: "uuid \<Rightarrow> (notification_job_record \<Rightarrow> notification_job_record) \<Rightarrow> unit dbop" where
  "job_update jid f db = (Inr (), db \<lparr> rt_jobs := map (\<lambda>j. if nj_id j = jid then f j else j) (rt_jobs db) \<rparr>)"

definition job_mark_sent :: "time \<Rightarrow> uuid \<Rightarrow> unit dbop" where
  "job_mark_sent now jid = job_update jid (\<lambda>j. j \<lparr> nj_status := ''sent'', nj_sent_at := Some now \<rparr>)"

definition job_mark_retry :: "time \<Rightarrow> uuid \<Rightarrow> int \<Rightarrow> string \<Rightarrow> unit dbop" where
  "job_mark_retry now jid attempt error =
     job_update jid (\<lambda>j. j \<lparr> nj_attempt_count := attempt, nj_last_error := Some error,
       nj_next_attempt_at := now + secs (attempt * 30) \<rparr>)"

definition job_mark_failed :: "uuid \<Rightarrow> string \<Rightarrow> unit dbop" where
  "job_mark_failed jid error = job_update jid (\<lambda>j. j \<lparr> nj_status := ''failed'', nj_last_error := Some error \<rparr>)"

section \<open>Login challenges\<close>

datatype challenge_outcome = Verified | WrongCode int | ChallengeExpired | TooManyAttempts | ChallengeNotFound

definition challenge_issue :: "time \<Rightarrow> uuid \<Rightarrow> uuid \<Rightarrow> string \<Rightarrow> string \<Rightarrow> string \<Rightarrow> int \<Rightarrow> int \<Rightarrow> uuid dbop" where
  "challenge_issue now new_id user_id kind code_hash destination ttl_minutes max_attempts db =
     (Inr new_id, db \<lparr> rt_challenges :=
        map (\<lambda>c. if lc_user_id c = user_id \<and> lc_consumed_at c = None then c \<lparr> lc_consumed_at := Some now \<rparr> else c) (rt_challenges db) @
        [\<lparr> lc_id = new_id, lc_user_id = user_id, lc_kind = kind, lc_code_hash = code_hash, lc_destination = destination,
           lc_expires_at = now + mins ttl_minutes, lc_consumed_at = None, lc_attempt_count = 0,
           lc_max_attempts = max_attempts, lc_created_at = now \<rparr>] \<rparr>)"

text \<open>The two halves of \<open>verify\<close>: the \<open>SELECT\<close>, and what is done with the row it returned. They are not one transaction.\<close>

definition challenge_select :: "uuid \<Rightarrow> runtime_db \<Rightarrow> login_challenge_record option" where
  "challenge_select user_id db =
     (case sort_key (\<lambda>c. - lc_created_at c) (filter (\<lambda>c. lc_user_id c = user_id \<and> lc_consumed_at c = None) (rt_challenges db)) of
        [] \<Rightarrow> None | c # _ \<Rightarrow> Some c)"

definition challenge_update :: "uuid \<Rightarrow> (login_challenge_record \<Rightarrow> login_challenge_record) \<Rightarrow> runtime_db \<Rightarrow> runtime_db" where
  "challenge_update cid f db = db \<lparr> rt_challenges := map (\<lambda>c. if lc_id c = cid then f c else c) (rt_challenges db) \<rparr>"

definition challenge_decide :: "time \<Rightarrow> string \<Rightarrow> login_challenge_record \<Rightarrow> runtime_db \<Rightarrow> challenge_outcome \<times> runtime_db" where
  "challenge_decide now code_hash rec db =
     (if lc_expires_at rec \<le> now then (ChallengeExpired, db)
      else if lc_attempt_count rec \<ge> lc_max_attempts rec then (TooManyAttempts, db)
      else if lc_code_hash rec = code_hash
        then (Verified, challenge_update (lc_id rec) (\<lambda>c. c \<lparr> lc_consumed_at := Some now \<rparr>) db)
      else (let new_attempts = lc_attempt_count rec + 1
            in (if new_attempts \<ge> lc_max_attempts rec then TooManyAttempts else WrongCode (lc_max_attempts rec - new_attempts),
                challenge_update (lc_id rec) (\<lambda>c. c \<lparr> lc_attempt_count := new_attempts \<rparr>) db)))"

definition challenge_verify :: "time \<Rightarrow> uuid \<Rightarrow> string \<Rightarrow> runtime_db \<Rightarrow> challenge_outcome \<times> runtime_db" where
  "challenge_verify now user_id code_hash db =
     (case challenge_select user_id db of
        None \<Rightarrow> (ChallengeNotFound, db)
      | Some rec \<Rightarrow> challenge_decide now code_hash rec db)"

section \<open>Registration\<close>

record runtime_env =
  re_sha256_hex :: "string \<Rightarrow> string"
  re_show_uuid :: "uuid \<Rightarrow> string"

record registration_outcome =
  ro_flow_id :: uuid
  ro_state :: string
  ro_next_actions :: "string list"

definition next_actions :: "string \<Rightarrow> string list" where
  "next_actions state =
     (if state = ''EmailVerificationPending'' then [''VERIFY_EMAIL'', ''RESEND_VERIFICATION'']
      else if state = ''EmailVerified'' then [''COMPLETE'']
      else if state = ''MfaSetupOptional'' then [''SETUP_MFA'', ''SKIP_MFA'']
      else [])"

definition outcome :: "uuid \<Rightarrow> string \<Rightarrow> registration_outcome" where
  "outcome fid state = \<lparr> ro_flow_id = fid, ro_state = state, ro_next_actions = next_actions state \<rparr>"

definition new_flow :: "time \<Rightarrow> uuid \<Rightarrow> string \<Rightarrow> string \<Rightarrow> string \<Rightarrow> time \<Rightarrow> flow_record" where
  "new_flow now fid session_id flow_type state ttl =
     \<lparr> fr_id = fid, fr_session_id = session_id, fr_flow_type = flow_type, fr_current_state = state,
       fr_guard_failure_count = 0, fr_version = 0, fr_created_at = now, fr_updated_at = now,
       fr_expires_at = now + ttl, fr_completed_at = None, fr_exit_state = None, fr_summary = None \<rparr>"

text \<open>
  \<open>start_registration\<close>, with the flow's id, the ids of the token and job rows and the raw token as
  arguments. The result carries the raw token when one was issued.
\<close>

definition start_registration ::
    "runtime_env \<Rightarrow> time \<Rightarrow> uuid \<Rightarrow> uuid \<Rightarrow> uuid \<Rightarrow> string \<Rightarrow> string \<Rightarrow> bool \<Rightarrow> string \<Rightarrow>
     (registration_outcome \<times> string option) dbop" where
  "start_registration e now fid tid jid raw email enabled channel =
     (let state = (if enabled then ''EmailVerificationPending'' else ''EmailVerified'')
      in db_bind (flow_create (new_flow now fid (''reg:'' @ re_show_uuid e fid) ''registration'' state (mins 60))) (\<lambda>_.
         if enabled
         then db_bind (token_issue now tid email (re_sha256_hex e raw) 15 (Some fid)) (\<lambda>_.
              db_bind (job_enqueue now jid channel email ''email-verification''
                 [(''flow_id'', re_show_uuid e fid), (''token'', raw)] (Some (re_show_uuid e fid @ '':verify-send''))) (\<lambda>_.
              db_bind (flow_record_transition fid (Some ''Start'') state ''RegIssueVerification'' None) (\<lambda>_.
              db_return (outcome fid state, Some raw))))
         else db_bind (flow_record_transition fid (Some ''Start'') state ''verification_disabled'' None) (\<lambda>_.
              db_return (outcome fid state, None))))"

definition verify_email :: "runtime_env \<Rightarrow> time \<Rightarrow> string \<Rightarrow> registration_outcome dbop" where
  "verify_email e now raw_token =
     db_bind (token_consume now (re_sha256_hex e raw_token)) (\<lambda>t.
     (case t of
        None \<Rightarrow> db_fail (NotFound ''invalid or expired verification token'')
      | Some rec \<Rightarrow>
          (case ev_flow_id rec of
             None \<Rightarrow> db_fail (Internal ''verification token has no flow'')
           | Some fid \<Rightarrow>
               db_bind (flow_find fid) (\<lambda>fl.
               (case fl of
                  None \<Rightarrow> db_fail (NotFound ''registration flow not found'')
                | Some flow \<Rightarrow>
                    db_bind (flow_update_state now fid ''Completed'' (fr_version flow + 1)) (\<lambda>_.
                    db_bind (flow_record_transition fid (Some (fr_current_state flow)) ''EmailVerified'' ''RegVerifyEmailGuard'' None) (\<lambda>_.
                    db_bind (flow_record_transition fid (Some ''EmailVerified'') ''Completed'' ''branch(skip)'' None) (\<lambda>_.
                    db_bind (flow_complete now fid ''Completed'' (Some [(''email'', ev_email rec)])) (\<lambda>_.
                    db_return (outcome fid ''Completed''))))))))))"

definition resend_verification :: "runtime_env \<Rightarrow> time \<Rightarrow> uuid \<Rightarrow> uuid \<Rightarrow> string \<Rightarrow> string \<Rightarrow> string \<Rightarrow> int \<Rightarrow> bool dbop" where
  "resend_verification e now tid jid raw email channel min_interval_secs =
     db_bind (token_try_mark_resent now email min_interval_secs) (\<lambda>marked.
     if \<not> marked then db_return False
     else db_bind (token_invalidate_pending now email) (\<lambda>_.
          db_bind (token_issue now tid email (re_sha256_hex e raw) 15 None) (\<lambda>_.
          db_bind (job_enqueue now jid channel email ''email-verification'' [(''token'', raw)] None) (\<lambda>_.
          db_return True))))"

section \<open>Login codes and TOTP setup\<close>

definition issue_login_otp ::
    "runtime_env \<Rightarrow> time \<Rightarrow> uuid \<Rightarrow> uuid \<Rightarrow> string \<Rightarrow> uuid \<Rightarrow> string \<Rightarrow> string \<Rightarrow> string \<Rightarrow> (uuid \<times> string) dbop" where
  "issue_login_otp e now cid jid code user_id kind destination channel =
     db_bind (challenge_issue now cid user_id kind (re_sha256_hex e code) destination 5 5) (\<lambda>i.
     db_bind (job_enqueue now jid channel destination ''mfa-code'' [(''code'', code)] (Some (''login-otp:'' @ re_show_uuid e i))) (\<lambda>_.
     db_return (i, code)))"

definition verify_login_otp :: "runtime_env \<Rightarrow> time \<Rightarrow> uuid \<Rightarrow> string \<Rightarrow> runtime_db \<Rightarrow> challenge_outcome \<times> runtime_db" where
  "verify_login_otp e now user_id raw_code db = challenge_verify now user_id (re_sha256_hex e raw_code) db"

definition start_mfa_setup :: "runtime_env \<Rightarrow> time \<Rightarrow> uuid \<Rightarrow> string \<Rightarrow> uuid \<Rightarrow> (uuid \<times> string) dbop" where
  "start_mfa_setup e now fid secret user_id =
     db_bind (flow_create (new_flow now fid (''mfa-setup:'' @ re_show_uuid e user_id) ''mfa_setup'' ''SecretIssued'' (mins 10))) (\<lambda>_.
     db_bind (\<lambda>db. (Inr (), db \<lparr> rt_mfa := mfa_upsert_pending user_id ''totp'' secret (rt_mfa db) \<rparr>)) (\<lambda>_.
     db_bind (flow_record_transition fid (Some ''SetupStarted'') ''SecretIssued'' ''MfaIssueSecret'' None) (\<lambda>_.
     db_return (fid, secret))))"

definition confirm_mfa_setup ::
    "mfa_env \<Rightarrow> runtime_env \<Rightarrow> u64 \<Rightarrow> time \<Rightarrow> uuid \<Rightarrow> uuid \<Rightarrow> string \<Rightarrow> string list \<Rightarrow> (string list) dbop" where
  "confirm_mfa_setup me e now_secs now user_id flow_id code codes =
     db_bind (\<lambda>db. (Inr (mfa_find_any user_id ''totp'' (rt_mfa db)), db)) (\<lambda>found.
     (case found of
        None \<Rightarrow> db_fail (NotFound ''no pending TOTP secret'')
      | Some m \<Rightarrow>
          if mf_is_active m then db_fail (Conflict ''MFA already enabled'')
          else if \<not> verify_totp me now_secs (mf_secret m) code 30 then db_fail (PolicyDenied ''invalid TOTP code'')
          else
            db_bind (\<lambda>db. (Inr (), db \<lparr> rt_mfa := mfa_activate user_id ''totp'' (rt_mfa db) \<rparr>)) (\<lambda>_.
            db_bind (\<lambda>db. case recovery_replace_all user_id (map (re_sha256_hex e) codes) (rt_recovery db) of
                             (r, t) \<Rightarrow> (r, db \<lparr> rt_recovery := t \<rparr>)) (\<lambda>_.
            db_bind (flow_find flow_id) (\<lambda>fl.
            db_bind
              (case fl of
                 None \<Rightarrow> db_return ()
               | Some f \<Rightarrow>
                   db_bind (flow_update_state now flow_id ''RecoveryCodesIssued'' (fr_version f + 1)) (\<lambda>_.
                   db_bind (flow_record_transition flow_id (Some ''ConfirmationPending'') ''Enabled'' ''MfaConfirmCodeGuard'' None) (\<lambda>_.
                   flow_complete now flow_id ''RecoveryCodesIssued'' (Some [(''user_id'', re_show_uuid e user_id)]))))
              (\<lambda>_. db_return codes))))))"


section \<open>Optimistic locking of flow records\<close>

text \<open>
  Two workers that read the same version of a flow and both write the next one do not both succeed:
  once an update to version \<open>v\<close> went through, a second update to \<open>v\<close> of the same flow is refused with a
  conflict and changes nothing, whatever state it wanted to write.
\<close>

theorem flow_update_conflict:
  assumes "flow_update_state now fid s v db = (Inr (), db')"
  shows "flow_update_state now' fid s' v db' = (Inl (Conflict ''flow version conflict (optimistic lock)''), db')"
  using assms by (auto simp: flow_update_state_def Let_def filter_empty_conv split: if_splits)

section \<open>What every operation keeps\<close>

text \<open>Relations on databases that each step of a composed operation respects, the composed operation respects.\<close>

definition keeps :: "(runtime_db \<Rightarrow> runtime_db \<Rightarrow> bool) \<Rightarrow> 'a dbop \<Rightarrow> bool" where
  "keeps R m \<longleftrightarrow> (\<forall>db. R db (snd (m db)))"

lemma keeps_bind:
  assumes "transp R" "keeps R m" "\<And>a. keeps R (f a)"
  shows "keeps R (db_bind m f)"
  unfolding keeps_def
proof
  fix db
  show "R db (snd (db_bind m f db))"
  proof (cases "m db")
    case (Pair r db')
    then have "R db db'" using assms(2) by (metis keeps_def snd_conv)
    moreover have "\<And>a. R db' (snd (f a db'))" using assms(3) by (simp add: keeps_def)
    ultimately show ?thesis using Pair assms(1)
      by (cases r) (auto simp: db_bind_def dest: transpD)
  qed
qed

definition spent :: "string \<Rightarrow> runtime_db \<Rightarrow> bool" where
  "spent h db \<longleftrightarrow> (\<exists>t \<in> set (rt_tokens db). ev_token_hash t = h \<and> ev_used_at t \<noteq> None)"

definition tokens_ok :: "runtime_db \<Rightarrow> bool" where
  "tokens_ok db \<longleftrightarrow> distinct (map ev_token_hash (rt_tokens db))"

definition spend_le :: "runtime_db \<Rightarrow> runtime_db \<Rightarrow> bool" where
  "spend_le db db' \<longleftrightarrow> (tokens_ok db \<longrightarrow> tokens_ok db' \<and> (\<forall>h. spent h db \<longrightarrow> spent h db'))"

lemma spend_le_trans: "transp spend_le"
  by (auto simp: spend_le_def transp_def)

lemma spend_le_same: "rt_tokens db' = rt_tokens db \<Longrightarrow> spend_le db db'"
  by (simp add: spend_le_def tokens_ok_def spent_def)

lemma spend_le_map:
  assumes hash: "\<And>t. ev_token_hash (g t) = ev_token_hash t"
    and used: "\<And>t. ev_used_at t \<noteq> None \<Longrightarrow> ev_used_at (g t) \<noteq> None"
  shows "spend_le db (db \<lparr> rt_tokens := map g (rt_tokens db) \<rparr>)"
proof -
  have "spent h (db \<lparr> rt_tokens := map g (rt_tokens db) \<rparr>)" if "spent h db" for h
    using that hash used unfolding spent_def by auto
  then show ?thesis by (simp add: spend_le_def tokens_ok_def hash comp_def)
qed

lemma spend_le_refl: "spend_le db db"
  by (rule spend_le_same) simp

lemmas keep_token_rules = keeps_bind [OF spend_le_trans]

lemma keeps_same: "(\<And>db. rt_tokens (snd (m db)) = rt_tokens db) \<Longrightarrow> keeps spend_le m"
  by (simp add: keeps_def spend_le_same)

lemma keeps_basic [intro]:
  "keeps spend_le (db_return res)" "keeps spend_le (db_fail err)"
  "keeps spend_le (flow_create r)" "keeps spend_le (flow_find fid)"
  "keeps spend_le (flow_update_state now fid s v)" "keeps spend_le (flow_complete now fid s x)"
  "keeps spend_le (flow_record_transition fid a b c d)" "keeps spend_le (flow_cleanup_expired now)"
  "keeps spend_le (job_enqueue now jid ch rcp tp pl cor)"
  "keeps spend_le (challenge_issue now cid u k h dest ttl mx)"
  by (rule keeps_same; simp add: db_return_def db_fail_def flow_create_def flow_find_def flow_update_state_def flow_complete_def
        flow_record_transition_def flow_cleanup_expired_def job_enqueue_def challenge_issue_def Let_def
        split: option.splits)+

lemma keeps_token_issue [intro]: "keeps spend_le (token_issue now tid em h ttl f)"
  by (auto simp: keeps_def token_issue_def spend_le_def tokens_ok_def spent_def)

lemma keeps_token_marks [intro]:
  "keeps spend_le (token_consume now h)"
  "keeps spend_le (token_invalidate_pending now em)"
  "keeps spend_le (token_try_mark_resent now em i)"
  by (auto simp: keeps_def token_consume_def token_invalidate_pending_def token_try_mark_resent_def Let_def
        intro!: spend_le_map spend_le_refl split: option.splits)

lemma keeps_mfa [intro]:
  "keeps spend_le (\<lambda>db. (Inr (mfa_find_any u k (rt_mfa db)), db))"
  "keeps spend_le (\<lambda>db. (Inr (), db \<lparr> rt_mfa := f (rt_mfa db) \<rparr>))"
  "keeps spend_le (\<lambda>db. case recovery_replace_all u hs (rt_recovery db) of (r, t) \<Rightarrow> (r, db \<lparr> rt_recovery := t \<rparr>))"
  by (rule keeps_same; simp split: prod.splits)+

lemma keeps_operations [intro]:
  "keeps spend_le (start_registration e now fid tid jid raw em en ch)"
  "keeps spend_le (verify_email e now raw)"
  "keeps spend_le (resend_verification e now tid jid raw em ch i)"
  "keeps spend_le (issue_login_otp e now cid jid code u k d ch)"
  "keeps spend_le (start_mfa_setup e now fid sec u)"
  "keeps spend_le (confirm_mfa_setup me e ns now u fid code codes)"
  by (auto simp: start_registration_def verify_email_def resend_verification_def issue_login_otp_def start_mfa_setup_def
        confirm_mfa_setup_def Let_def intro!: keep_token_rules keeps_basic keeps_token_issue keeps_token_marks keeps_mfa
        split: option.splits)

text \<open>The operations as steps on the shared database, in any order, by any number of clients and at any time.\<close>

inductive runtime_step :: "mfa_env \<Rightarrow> runtime_env \<Rightarrow> runtime_db \<Rightarrow> runtime_db \<Rightarrow> bool" for me e where
  step_start: "runtime_step me e db (snd (start_registration e now fid tid jid raw em en ch db))"
| step_verify: "runtime_step me e db (snd (verify_email e now raw db))"
| step_resend: "runtime_step me e db (snd (resend_verification e now tid jid raw em ch i db))"
| step_otp: "runtime_step me e db (snd (issue_login_otp e now cid jid code u k d ch db))"
| step_otp_verify: "runtime_step me e db (snd (verify_login_otp e now u code db))"
| step_mfa: "runtime_step me e db (snd (start_mfa_setup e now fid sec u db))"
| step_mfa_confirm: "runtime_step me e db (snd (confirm_mfa_setup me e ns now u fid code codes db))"
| step_flow_cleanup: "runtime_step me e db (snd (flow_cleanup_expired now db))"
| step_job_sent: "runtime_step me e db (snd (job_mark_sent now jid db))"
| step_job_retry: "runtime_step me e db (snd (job_mark_retry now jid n err db))"
| step_job_failed: "runtime_step me e db (snd (job_mark_failed jid err db))"

lemma challenge_verify_tokens [simp]: "rt_tokens (snd (challenge_verify now u h db)) = rt_tokens db"
  by (simp add: challenge_verify_def challenge_decide_def challenge_update_def Let_def split: option.splits)

lemma runtime_step_spend_le: "runtime_step me e db db' \<Longrightarrow> spend_le db db'"
proof (induction rule: runtime_step.induct)
  case (step_otp_verify db now u code)
  then show ?case by (simp add: verify_login_otp_def spend_le_same)
next
  case (step_job_sent db now jid)
  then show ?case by (simp add: job_mark_sent_def job_update_def spend_le_same)
next
  case (step_job_retry db now jid n err)
  then show ?case by (simp add: job_mark_retry_def job_update_def spend_le_same)
next
  case (step_job_failed db jid err)
  then show ?case by (simp add: job_mark_failed_def job_update_def spend_le_same)
qed (use keeps_operations keeps_basic in \<open>auto simp: keeps_def\<close>)

lemma runtime_steps_spend_le: "(runtime_step me e)\<^sup>*\<^sup>* db db' \<Longrightarrow> spend_le db db'"
  by (induction rule: rtranclp_induct)
     (auto simp: spend_le_same dest: runtime_step_spend_le intro: transpD [OF spend_le_trans])


section \<open>Registration: round trip and single use\<close>

lemma spent_not_consumed:
  assumes "tokens_ok db" "spent h db"
  shows "find (token_live now h) (rt_tokens db) = None"
proof -
  obtain t where t: "t \<in> set (rt_tokens db)" "ev_token_hash t = h" "ev_used_at t \<noteq> None"
    using assms(2) by (auto simp: spent_def)
  have "\<not> token_live now h x" if "x \<in> set (rt_tokens db)" for x
    using that t assms(1) unfolding tokens_ok_def token_live_def
    by (metis distinct_map inj_onD)
  then show ?thesis by (auto simp: find_None_iff)
qed

lemma spent_verify_fails:
  assumes "tokens_ok db" "spent (re_sha256_hex e raw) db"
  shows "fst (verify_email e now raw db) = Inl (NotFound ''invalid or expired verification token'')"
  using spent_not_consumed [OF assms] by (simp add: verify_email_def db_bind_def token_consume_def db_fail_def)

lemma consume_spends:
  assumes "token_consume now h db = (Inr (Some t), db')"
  shows "spent h db'"
proof -
  obtain t0 where "find (token_live now h) (rt_tokens db) = Some t0" using assms by (auto simp: token_consume_def)
  then have t0: "t0 \<in> set (rt_tokens db)" "token_live now h t0" by (auto simp: find_Some_iff)
  have "rt_tokens db' = map (\<lambda>t. if token_live now h t then t \<lparr> ev_used_at := Some now \<rparr> else t) (rt_tokens db)"
    using assms by (auto simp: token_consume_def)
  then have "t0 \<lparr> ev_used_at := Some now \<rparr> \<in> set (rt_tokens db')" using t0 by force
  moreover have "ev_token_hash (t0 \<lparr> ev_used_at := Some now \<rparr>) = h" using t0(2) by (simp add: token_live_def)
  ultimately show ?thesis unfolding spent_def by (metis email_token_record.select_convs(6) email_token_record.surjective email_token_record.update_convs(6) option.distinct(1))
qed

lemma verify_email_spends:
  assumes "verify_email e now raw db = (Inr out, db')" "tokens_ok db"
  shows "spent (re_sha256_hex e raw) db' \<and> tokens_ok db'"
proof -
  obtain t db1 where c: "token_consume now (re_sha256_hex e raw) db = (Inr (Some t), db1)"
    using assms(1)
    by (cases "find (token_live now (re_sha256_hex e raw)) (rt_tokens db)")
       (auto simp: verify_email_def db_bind_def token_consume_def db_fail_def)
  have "rt_tokens db' = rt_tokens db1"
    using assms(1) c
    by (auto simp: verify_email_def db_bind_def db_fail_def db_return_def flow_find_def flow_update_state_def
          flow_record_transition_def flow_complete_def Let_def split: option.splits if_splits)
  moreover have "tokens_ok db1"
    using keeps_token_marks(1) [of now "re_sha256_hex e raw"] c assms(2) by (metis keeps_def snd_conv spend_le_def)
  ultimately show ?thesis using consume_spends [OF c] by (simp add: spent_def tokens_ok_def)
qed

text \<open>
  A verification token works once. After an email was verified with a raw token, that token is
  refused as invalid in every later state of the database, whatever registrations, resends, login codes,
  MFA setups, clean-ups and deliveries happened in between and whatever the clock says.
\<close>

theorem verification_token_single_use:
  assumes "tokens_ok db" and "verify_email e now raw db = (Inr out, db1)" and "(runtime_step me e)\<^sup>*\<^sup>* db1 db2"
  shows "fst (verify_email e now' raw db2) = Inl (NotFound ''invalid or expired verification token'')"
proof -
  have "spent (re_sha256_hex e raw) db1" "tokens_ok db1" using verify_email_spends [OF assms(2,1)] by auto
  then have "spent (re_sha256_hex e raw) db2" "tokens_ok db2"
    using runtime_steps_spend_le [OF assms(3)] by (auto simp: spend_le_def)
  then show ?thesis by (simp add: spent_verify_fails)
qed

lemma job_enqueue_shape:
  obtains jid' js where "job_enqueue now jid ch rcp tpl pl cor db = (Inr jid', db \<lparr> rt_jobs := js \<rparr>)"
proof -
  let ?hit = "case cor of None \<Rightarrow> None | Some c \<Rightarrow> find (\<lambda>j. nj_correlation_id j = Some c) (rt_jobs db)"
  show thesis
  proof (cases ?hit)
    case None
    show thesis by (rule that) (simp add: job_enqueue_def None)
  next
    case (Some j)
    show thesis by (rule that [of "nj_id j" "rt_jobs db"]) (simp add: job_enqueue_def Some)
  qed
qed

lemma start_registration_ok:
  assumes "fid \<notin> fr_id ` set (rt_flows db)" "re_sha256_hex e raw \<notin> ev_token_hash ` set (rt_tokens db)"
  shows "\<exists>db'. start_registration e now fid tid jid raw email True channel db =
      (Inr (outcome fid ''EmailVerificationPending'', Some raw), db')
    \<and> rt_flows db' = rt_flows db @ [new_flow now fid (''reg:'' @ re_show_uuid e fid) ''registration'' ''EmailVerificationPending'' (mins 60)]
    \<and> (\<exists>t. rt_tokens db' = rt_tokens db @ [t] \<and> ev_token_hash t = re_sha256_hex e raw \<and> ev_flow_id t = Some fid
         \<and> ev_email t = email \<and> ev_used_at t = None \<and> ev_expires_at t = now + mins 15)"
proof -
  let ?fl = "new_flow now fid (''reg:'' @ re_show_uuid e fid) ''registration'' ''EmailVerificationPending'' (mins 60)"
  let ?t = "\<lparr> ev_id = tid, ev_email = email, ev_token_hash = re_sha256_hex e raw, ev_flow_id = Some fid,
    ev_expires_at = now + mins 15, ev_used_at = None, ev_attempt_count = 0, ev_resend_count = 0,
    ev_last_sent_at = Some now, ev_created_at = now \<rparr>"
  let ?db = "db \<lparr> rt_flows := rt_flows db @ [?fl], rt_tokens := rt_tokens db @ [?t] \<rparr>"
  obtain j js where "job_enqueue now jid channel email ''email-verification''
      [(''flow_id'', re_show_uuid e fid), (''token'', raw)] (Some (re_show_uuid e fid @ '':verify-send'')) ?db
    = (Inr j, ?db \<lparr> rt_jobs := js \<rparr>)" by (rule job_enqueue_shape)
  moreover have "flow_create ?fl db = (Inr (), db \<lparr> rt_flows := rt_flows db @ [?fl] \<rparr>)"
    using assms(1) by (simp add: flow_create_def new_flow_def)
  ultimately show ?thesis using assms(2)
    by (simp add: start_registration_def Let_def db_bind_def token_issue_def flow_record_transition_def db_return_def)
qed

text \<open>
  Registration completes. A registration started with a fresh flow id and a fresh token waits for
  email verification, and the raw token that was mailed, presented within its fifteen minutes, completes
  exactly that flow: the outcome is \<open>Completed\<close> with no further actions, the flow row carries the exit
  state and the verified address, and its version has moved from 0 to 1.
\<close>

theorem registration_completes:
  assumes "fid \<notin> fr_id ` set (rt_flows db)" "re_sha256_hex e raw \<notin> ev_token_hash ` set (rt_tokens db)"
    and "later < now + mins 15"
  shows "\<exists>db1 db2. start_registration e now fid tid jid raw email True channel db =
      (Inr (outcome fid ''EmailVerificationPending'', Some raw), db1)
    \<and> verify_email e later raw db1 = (Inr (outcome fid ''Completed''), db2)
    \<and> (\<exists>f. find (\<lambda>f. fr_id f = fid) (rt_flows db2) = Some f \<and> fr_current_state f = ''Completed'' \<and> fr_version f = 1
         \<and> fr_exit_state f = Some ''Completed'' \<and> fr_completed_at f = Some later \<and> fr_summary f = Some [(''email'', email)])"
proof -
  let ?h = "re_sha256_hex e raw"
  let ?f = "new_flow now fid (''reg:'' @ re_show_uuid e fid) ''registration'' ''EmailVerificationPending'' (mins 60)"
  obtain db1 t where s: "start_registration e now fid tid jid raw email True channel db =
      (Inr (outcome fid ''EmailVerificationPending'', Some raw), db1)"
    and fl: "rt_flows db1 = rt_flows db @ [?f]" and tk: "rt_tokens db1 = rt_tokens db @ [t]"
    and t: "ev_token_hash t = ?h" "ev_flow_id t = Some fid" "ev_email t = email" "ev_used_at t = None"
      "ev_expires_at t = now + mins 15"
    using start_registration_ok [OF assms(1,2)] by blast
  have none: "find (token_live later ?h) (rt_tokens db) = None" "find (\<lambda>f. fr_id f = fid) (rt_flows db) = None"
    using assms(1,2) by (auto simp: find_None_iff token_live_def image_iff)
  have "find (token_live later ?h) (rt_tokens db1) = Some t"
    using none(1) t assms(3) by (simp add: tk find_append token_live_def)
  moreover have "find (\<lambda>f. fr_id f = fid) (rt_flows db1) = Some ?f"
    using none(2) by (simp add: fl find_append new_flow_def)
  moreover have "map (\<lambda>f. if fr_id f = fid \<and> P f then g f else f) (rt_flows db) = rt_flows db"
      "map (\<lambda>f. if fr_id f = fid then g f else f) (rt_flows db) = rt_flows db" for P g
    using assms(1) by (auto intro!: map_idI simp: image_iff)
  ultimately show ?thesis
    using s none(2) t(2,3) by (auto simp: verify_email_def db_bind_def db_return_def token_consume_def flow_find_def flow_update_state_def
        flow_record_transition_def flow_complete_def Let_def fl find_append new_flow_def)
qed

text \<open>
  Re-sending strands the registration: the token a successful \<open>resend_verification\<close> issues carries no
  flow and every earlier pending one is invalidated, so no pending token of the address can complete a
  registration any more, and the mailed one is answered with an internal error.
\<close>

lemma token_issue_ok:
  assumes "token_issue now tid em h ttl f db = (Inr d, db')"
  shows "\<exists>t. rt_tokens db' = rt_tokens db @ [t] \<and> h \<notin> ev_token_hash ` set (rt_tokens db) \<and> ev_token_hash t = h
    \<and> ev_flow_id t = f \<and> ev_used_at t = None \<and> ev_expires_at t = now + mins ttl"
  using assms by (auto simp: token_issue_def split: if_splits)

lemma invalidated_used:
  "\<forall>x \<in> set (map (\<lambda>t. if ev_email t = em \<and> ev_used_at t = None then t \<lparr> ev_used_at := Some now \<rparr> else t) ts).
     ev_email x = em \<longrightarrow> ev_used_at x \<noteq> None"
proof -
  have "ev_email (if ev_email t = em \<and> ev_used_at t = None then t \<lparr> ev_used_at := Some now \<rparr> else t) = em \<longrightarrow>
    ev_used_at (if ev_email t = em \<and> ev_used_at t = None then t \<lparr> ev_used_at := Some now \<rparr> else t) \<noteq> None" for t
    by (cases "ev_email t = em \<and> ev_used_at t = None") simp_all
  then show ?thesis unfolding list.set_map by (rule_tac ballI) (erule imageE, simp only:)
qed

lemma pending_append:
  assumes "\<forall>x \<in> set ts. P x \<longrightarrow> g x \<noteq> None" "f t = None"
  shows "\<forall>x \<in> set (ts @ [t]). P x \<and> g x = None \<longrightarrow> f x = None"
  using assms by auto

lemma find_token_none: "h \<notin> ev_token_hash ` set ts \<Longrightarrow> find (token_live t h) ts = None"
  by (auto simp: find_None_iff token_live_def)

theorem resend_strands_registration:
  assumes "resend_verification e now tid jid raw email channel i db = (Inr True, db')" and "later < now + mins 15"
  shows "(\<forall>t \<in> set (rt_tokens db'). ev_email t = email \<and> ev_used_at t = None \<longrightarrow> ev_flow_id t = None)
    \<and> fst (verify_email e later raw db') = Inl (Internal ''verification token has no flow'')"
proof -
  obtain db1 d db3 j where db1: "token_try_mark_resent now email i db = (Inr True, db1)"
    and issue: "token_issue now tid email (re_sha256_hex e raw) 15 None (snd (token_invalidate_pending now email db1)) = (Inr d, db3)"
    and job: "job_enqueue now jid channel email ''email-verification'' [(''token'', raw)] None db3 = (Inr j, db')"
    using assms(1) unfolding resend_verification_def db_bind_ok
    by (fastforce simp add: db_return_def db_bind_ok simp del: db_bind_simps split: if_splits)
  have rest: "rt_tokens db' = rt_tokens db3" using job by (auto simp: job_enqueue_def)
  let ?ts = "map (\<lambda>t. if ev_email t = email \<and> ev_used_at t = None then t \<lparr> ev_used_at := Some now \<rparr> else t) (rt_tokens db1)"
  have inv: "rt_tokens (snd (token_invalidate_pending now email db1)) = ?ts" by (simp add: token_invalidate_pending_def Let_def)
  obtain t where ts: "rt_tokens db' = ?ts @ [t]" "re_sha256_hex e raw \<notin> ev_token_hash ` set ?ts"
    and t: "ev_token_hash t = re_sha256_hex e raw" "ev_flow_id t = None" "ev_used_at t = None" "ev_expires_at t = now + mins 15"
    using token_issue_ok [OF issue] unfolding rest inv by blast
  have "find (token_live later (re_sha256_hex e raw)) (rt_tokens db') = Some t"
    using t assms(2) find_token_none [OF ts(2)] by (simp add: ts(1) find_append token_live_def)
  then have "fst (verify_email e later raw db') = Inl (Internal ''verification token has no flow'')"
    using t(2) by (simp add: verify_email_def db_bind_def token_consume_def db_fail_def)
  moreover have "\<forall>x \<in> set (rt_tokens db'). ev_email x = email \<and> ev_used_at x = None \<longrightarrow> ev_flow_id x = None"
    unfolding ts(1) by (rule pending_append [where g = ev_used_at and f = ev_flow_id]) (rule invalidated_used, rule t(2))
  ultimately show ?thesis by (rule conjI [rotated])
qed

section \<open>Login codes: bounded guessing\<close>

definition open_challenges :: "uuid \<Rightarrow> runtime_db \<Rightarrow> login_challenge_record list" where
  "open_challenges user_id db = filter (\<lambda>c. lc_user_id c = user_id \<and> lc_consumed_at c = None) (rt_challenges db)"

lemma select_single: "open_challenges u db = [c] \<Longrightarrow> challenge_select u db = Some c"
  by (simp add: challenge_select_def open_challenges_def)

lemma select_none: "open_challenges u db = [] \<Longrightarrow> challenge_select u db = None"
  by (simp add: challenge_select_def open_challenges_def)

lemma open_attempts:
  "open_challenges u (challenge_update cid (\<lambda>c. c \<lparr> lc_attempt_count := n \<rparr>) db) =
   map (\<lambda>c. if lc_id c = cid then c \<lparr> lc_attempt_count := n \<rparr> else c) (open_challenges u db)"
  by (auto simp: open_challenges_def challenge_update_def filter_map comp_def intro: filter_cong arg_cong [where f = "map _"])

lemma open_consumed:
  "open_challenges u (challenge_update cid (\<lambda>c. c \<lparr> lc_consumed_at := Some t \<rparr>) db) =
   filter (\<lambda>c. lc_id c \<noteq> cid) (open_challenges u db)"
proof -
  have "filter (\<lambda>c. lc_user_id c = u \<and> lc_consumed_at c = None)
      (map (\<lambda>c. if lc_id c = cid then c \<lparr> lc_consumed_at := Some t \<rparr> else c) cs) =
    filter (\<lambda>c. lc_id c \<noteq> cid) (filter (\<lambda>c. lc_user_id c = u \<and> lc_consumed_at c = None) cs)" for cs
    by (induction cs) auto
  then show ?thesis by (simp add: open_challenges_def challenge_update_def)
qed

lemma issue_opens_one:
  "open_challenges u (snd (challenge_issue now cid u k h d ttl mx db)) =
   [\<lparr> lc_id = cid, lc_user_id = u, lc_kind = k, lc_code_hash = h, lc_destination = d, lc_expires_at = now + mins ttl,
      lc_consumed_at = None, lc_attempt_count = 0, lc_max_attempts = mx, lc_created_at = now \<rparr>]"
proof -
  have "filter (\<lambda>c. lc_user_id c = u \<and> lc_consumed_at c = None)
      (map (\<lambda>c. if lc_user_id c = u \<and> lc_consumed_at c = None then c \<lparr> lc_consumed_at := Some now \<rparr> else c) cs) = []" for cs
    by (induction cs) auto
  then show ?thesis by (simp add: open_challenges_def challenge_issue_def del: filter_map)
qed

text \<open>A sequence of submissions, each at its time, with the outcomes they get.\<close>

primrec submit_codes :: "runtime_env \<Rightarrow> uuid \<Rightarrow> (time \<times> string) list \<Rightarrow> runtime_db \<Rightarrow> challenge_outcome list" where
  "submit_codes e u [] db = []"
| "submit_codes e u (s # ss) db =
     (case verify_login_otp e (fst s) u (snd s) db of (r, db') \<Rightarrow> r # submit_codes e u ss db')"

lemma submit_codes_closed: "open_challenges u db = [] \<Longrightarrow> submit_codes e u ss db = replicate (length ss) ChallengeNotFound"
  by (induction ss) (simp_all add: verify_login_otp_def challenge_verify_def select_none)

lemma submit_codes_step:
  assumes "open_challenges u db = [c]"
  shows "submit_codes e u (s # ss) db =
    (if lc_expires_at c \<le> fst s then ChallengeExpired # submit_codes e u ss db
     else if lc_attempt_count c \<ge> lc_max_attempts c then TooManyAttempts # submit_codes e u ss db
     else if lc_code_hash c = re_sha256_hex e (snd s) then Verified # replicate (length ss) ChallengeNotFound
     else (if lc_attempt_count c + 1 \<ge> lc_max_attempts c then TooManyAttempts
           else WrongCode (lc_max_attempts c - (lc_attempt_count c + 1)))
          # submit_codes e u ss (challenge_update (lc_id c) (\<lambda>r. r \<lparr> lc_attempt_count := lc_attempt_count c + 1 \<rparr>) db))"
  using select_single [OF assms] assms
  by (simp add: verify_login_otp_def challenge_verify_def challenge_decide_def Let_def submit_codes_closed open_consumed)

lemma verified_position:
  assumes "open_challenges u db = [c]" "sorted (map fst ss)" "0 \<le> lc_attempt_count c"
    and "n < length ss" "submit_codes e u ss db ! n = Verified"
  shows "int n + lc_attempt_count c < lc_max_attempts c \<and> re_sha256_hex e (snd (ss ! n)) = lc_code_hash c
    \<and> fst (ss ! n) < lc_expires_at c
    \<and> (\<forall>m < length ss. n < m \<longrightarrow> submit_codes e u ss db ! m = ChallengeNotFound)"
  using assms
proof (induction ss arbitrary: db c n)
  case Nil
  then show ?case by simp
next
  case (Cons s ss)
  note step = submit_codes_step [OF Cons.prems(1)]
  have late: "lc_expires_at c \<le> fst s \<Longrightarrow> lc_expires_at c \<le> fst (ss ! k)" if "k < length ss" for k
    using Cons.prems(2) that by (auto dest: bspec [where x = "ss ! k"])
  show ?case
  proof (cases "lc_expires_at c \<le> fst s \<or> lc_attempt_count c \<ge> lc_max_attempts c")
    case True
    then obtain r where r: "submit_codes e u (s # ss) db = r # submit_codes e u ss db" "r \<noteq> Verified"
      using step by (metis challenge_outcome.distinct(3,5))
    then obtain k where k: "n = Suc k" using Cons.prems(5) by (cases n) auto
    have IH: "int k + lc_attempt_count c < lc_max_attempts c \<and> fst (ss ! k) < lc_expires_at c"
      using Cons.IH [OF Cons.prems(1) _ Cons.prems(3), of k] Cons.prems(2,4,5) r(1) k by auto
    then show ?thesis using True late [of k] Cons.prems(4) k by auto
  next
    case False
    then have open_now: "fst s < lc_expires_at c" "lc_attempt_count c < lc_max_attempts c" by auto
    show ?thesis
    proof (cases "lc_code_hash c = re_sha256_hex e (snd s)")
      case True
      then have sub: "submit_codes e u (s # ss) db = Verified # replicate (length ss) ChallengeNotFound" using step False by simp
      then have "n = 0" using Cons.prems(4,5) by (cases n) auto
      then show ?thesis using True open_now sub by (auto simp: nth_Cons')
    next
      case wrong: False
      let ?c = "c \<lparr> lc_attempt_count := lc_attempt_count c + 1 \<rparr>"
      let ?db = "challenge_update (lc_id c) (\<lambda>r. r \<lparr> lc_attempt_count := lc_attempt_count c + 1 \<rparr>) db"
      obtain r where r: "submit_codes e u (s # ss) db = r # submit_codes e u ss ?db" "r \<noteq> Verified"
        using step False wrong by (simp split: if_splits)
      then obtain k where k: "n = Suc k" using Cons.prems(5) by (cases n) auto
      have "open_challenges u ?db = [?c]" using Cons.prems(1) by (simp add: open_attempts)
      from Cons.IH [OF this, of k] Cons.prems(2-5) r(1) k
      have "int k + (lc_attempt_count c + 1) < lc_max_attempts c \<and> re_sha256_hex e (snd (ss ! k)) = lc_code_hash c
        \<and> fst (ss ! k) < lc_expires_at c \<and> (\<forall>m < length ss. k < m \<longrightarrow> submit_codes e u ss ?db ! m = ChallengeNotFound)"
        by auto
      then show ?thesis using k r(1) by (auto simp: nth_Cons')
    qed
  qed
qed

lemma right_code_accepted:
  assumes "open_challenges u db = [c]" "\<forall>s \<in> set ss. fst s < lc_expires_at c" "0 \<le> lc_attempt_count c"
    and "n < length ss" "int n + lc_attempt_count c < lc_max_attempts c"
    and "\<forall>m < n. re_sha256_hex e (snd (ss ! m)) \<noteq> lc_code_hash c" "re_sha256_hex e (snd (ss ! n)) = lc_code_hash c"
  shows "submit_codes e u ss db ! n = Verified"
  using assms
proof (induction ss arbitrary: db c n)
  case Nil
  then show ?case by simp
next
  case (Cons s ss)
  note step = submit_codes_step [OF Cons.prems(1)]
  show ?case
  proof (cases n)
    case 0
    then show ?thesis using Cons.prems step by (simp del: submit_codes.simps)
  next
    case (Suc k)
    let ?c = "c \<lparr> lc_attempt_count := lc_attempt_count c + 1 \<rparr>"
    let ?db = "challenge_update (lc_id c) (\<lambda>r. r \<lparr> lc_attempt_count := lc_attempt_count c + 1 \<rparr>) db"
    have "open_challenges u ?db = [?c]" using Cons.prems(1) by (simp add: open_attempts)
    moreover have "\<forall>m < k. re_sha256_hex e (snd (ss ! m)) \<noteq> lc_code_hash c" using Cons.prems(6) Suc by fastforce
    ultimately have "submit_codes e u ss ?db ! k = Verified"
      using Cons.prems Suc by (intro Cons.IH [of ?db ?c k]) auto
    moreover have "lc_code_hash c \<noteq> re_sha256_hex e (snd s)" using Cons.prems(6) Suc by fastforce
    ultimately show ?thesis using step Cons.prems Suc by (simp del: submit_codes.simps)
  qed
qed

text \<open>
  C34: Guessing a login code is bounded. After a code is issued to a user, in any sequence of submissions
  in time order a submission is accepted only as one of the first five, only within five minutes, and
  only when its hash is that of the issued code; every submission after the accepted one finds no
  challenge, so a code is accepted at most once. And the right code, presented as one of the first five
  in time and after wrong ones only, is accepted.
\<close>

theorem login_code_bounded:
  fixes ss :: "(time \<times> string) list"
  assumes "issue_login_otp e now cid jid code u kind dest ch db = (Inr r, db')" and "sorted (map fst ss)" and "n < length ss"
  shows "(submit_codes e u ss db' ! n = Verified \<longrightarrow>
      n < 5 \<and> re_sha256_hex e (snd (ss ! n)) = re_sha256_hex e code \<and> fst (ss ! n) < now + mins 5
      \<and> (\<forall>m < length ss. n < m \<longrightarrow> submit_codes e u ss db' ! m = ChallengeNotFound))
    \<and> (n < 5 \<and> (\<forall>s \<in> set ss. fst s < now + mins 5) \<and> re_sha256_hex e (snd (ss ! n)) = re_sha256_hex e code
       \<and> (\<forall>m < n. re_sha256_hex e (snd (ss ! m)) \<noteq> re_sha256_hex e code)
       \<longrightarrow> submit_codes e u ss db' ! n = Verified)"
proof -
  obtain db1 j where i: "challenge_issue now cid u kind (re_sha256_hex e code) dest 5 5 db = (Inr cid, db1)"
    and rest: "rt_challenges db' = rt_challenges db1"
    using assms(1) by (auto simp: issue_login_otp_def challenge_issue_def db_bind_ok db_return_def job_enqueue_def split: option.splits)
  define c where "c = \<lparr> lc_id = cid, lc_user_id = u, lc_kind = kind, lc_code_hash = re_sha256_hex e code, lc_destination = dest,
      lc_expires_at = now + mins 5, lc_consumed_at = None, lc_attempt_count = 0, lc_max_attempts = 5, lc_created_at = now \<rparr>"
  have c: "open_challenges u db' = [c]"
    using issue_opens_one [of u now cid kind "re_sha256_hex e code" dest 5 5 db] i rest
    by (simp add: open_challenges_def c_def)
  show ?thesis
    using verified_position [OF c assms(2) _ assms(3), where e = e] right_code_accepted [OF c _ _ assms(3), where e = e]
    by (simp add: c_def)
qed

text \<open>
  The bound is one of sequential submissions only. \<open>verify\<close> reads the challenge and writes it back in
  separate statements, so submissions that all read the row before any of them wrote it count as one
  attempt, however many they are, and the lock-out is not reached.
\<close>

theorem concurrent_guesses_count_once:
  assumes "open_challenges u db = [c]" "now < lc_expires_at c" "lc_attempt_count c < lc_max_attempts c"
    and "hs \<noteq> []" "lc_code_hash c \<notin> set hs"
  shows "open_challenges u (fold (\<lambda>h db. snd (challenge_decide now h c db)) hs db) =
    [c \<lparr> lc_attempt_count := lc_attempt_count c + 1 \<rparr>]"
proof -
  have step: "open_challenges u (snd (challenge_decide now h c db')) = [c \<lparr> lc_attempt_count := lc_attempt_count c + 1 \<rparr>]"
    if "h \<in> set hs" "open_challenges u db' = [c] \<or> open_challenges u db' = [c \<lparr> lc_attempt_count := lc_attempt_count c + 1 \<rparr>]"
    for h db'
    using that assms(2,3,5) by (auto simp: challenge_decide_def Let_def open_attempts)
  have "set xs \<subseteq> set hs \<Longrightarrow> xs \<noteq> [] \<Longrightarrow>
      open_challenges u db' = [c] \<or> open_challenges u db' = [c \<lparr> lc_attempt_count := lc_attempt_count c + 1 \<rparr>] \<Longrightarrow>
      open_challenges u (fold (\<lambda>h db. snd (challenge_decide now h c db)) xs db') = [c \<lparr> lc_attempt_count := lc_attempt_count c + 1 \<rparr>]"
    for xs db'
  proof (induction xs arbitrary: db')
    case (Cons x xs)
    then show ?case using step [of x db'] by (cases xs) auto
  qed simp
  then show ?thesis using assms(1,4) by blast
qed

section \<open>Instances\<close>

text \<open>The hash that marks its argument, ids printed as nothing, and an empty database.\<close>

definition demo_runtime :: runtime_env where
  "demo_runtime = \<lparr> re_sha256_hex = (\<lambda>s. CHR ''h'' # s), re_show_uuid = (\<lambda>_. []) \<rparr>"

definition empty_runtime :: runtime_db where
  "empty_runtime = \<lparr> rt_flows = [], rt_transitions = [], rt_tokens = [], rt_jobs = [], rt_challenges = [], rt_mfa = [], rt_recovery = [] \<rparr>"

definition demo_started :: runtime_db where
  "demo_started = snd (start_registration demo_runtime 0 7 8 9 ''tok'' ''a@b'' True ''log'' empty_runtime)"

lemmas demo_simps = demo_started_def demo_runtime_def empty_runtime_def start_registration_def verify_email_def
  resend_verification_def issue_login_otp_def db_bind_def db_return_def db_fail_def flow_create_def flow_find_def flow_update_state_def
  flow_record_transition_def flow_complete_def token_issue_def token_consume_def token_live_def token_try_mark_resent_def
  newest_pending_def token_invalidate_pending_def job_enqueue_def challenge_issue_def outcome_def new_flow_def
  secs_def mins_def Let_def

theorem flow_update_conflict_witness:
  "flow_update_state 6 7 ''B'' 1 (snd (flow_update_state 5 7 ''A'' 1 demo_started)) =
     (Inl (Conflict ''flow version conflict (optimistic lock)''), snd (flow_update_state 5 7 ''A'' 1 demo_started))"
  by (rule flow_update_conflict [of 5 7 "''A''" 1 demo_started]) (simp add: demo_simps)

theorem verification_token_single_use_witness:
  "fst (verify_email demo_runtime 20 ''tok'' (snd (verify_email demo_runtime 10 ''tok'' demo_started))) =
     Inl (NotFound ''invalid or expired verification token'')"
proof -
  obtain out db1 where v: "verify_email demo_runtime 10 ''tok'' demo_started = (Inr out, db1)" by (simp add: demo_simps)
  have "tokens_ok demo_started" by (simp add: demo_simps tokens_ok_def)
  from verification_token_single_use [OF this v rtranclp.rtrancl_refl [of "runtime_step undefined demo_runtime"], of 20]
  show ?thesis by (simp add: v)
qed

theorem registration_completes_witness:
  "\<exists>db1 db2. start_registration demo_runtime 0 7 8 9 ''tok'' ''a@b'' True ''log'' empty_runtime =
      (Inr (outcome 7 ''EmailVerificationPending'', Some ''tok''), db1)
    \<and> verify_email demo_runtime 10 ''tok'' db1 = (Inr (outcome 7 ''Completed''), db2)"
proof -
  have "7 \<notin> fr_id ` set (rt_flows empty_runtime)"
      "re_sha256_hex demo_runtime ''tok'' \<notin> ev_token_hash ` set (rt_tokens empty_runtime)" "(10::int) < 0 + mins 15"
    by (simp_all add: empty_runtime_def mins_def secs_def)
  from registration_completes [OF this] show ?thesis by blast
qed

theorem login_code_bounded_witness:
  "submit_codes demo_runtime 3 [(1, ''000000''), (2, ''123456''), (3, ''123456'')]
     (snd (issue_login_otp demo_runtime 0 4 5 ''123456'' 3 ''email'' ''a@b'' ''log'' empty_runtime)) ! 1 = Verified"
proof -
  obtain r db' where i: "issue_login_otp demo_runtime 0 4 5 ''123456'' 3 ''email'' ''a@b'' ''log'' empty_runtime = (Inr r, db')"
    by (simp add: demo_simps)
  have "sorted (map fst [(1::int, ''000000''), (2, ''123456''), (3, ''123456'')])" by simp
  moreover have "re_sha256_hex demo_runtime s = CHR ''h'' # s" for s by (simp add: demo_runtime_def)
  ultimately show ?thesis using login_code_bounded [OF i, of "[(1, ''000000''), (2, ''123456''), (3, ''123456'')]" 1]
    unfolding i by (simp add: mins_def secs_def del: submit_codes.simps)
qed

theorem resend_strands_registration_witness:
  "fst (verify_email demo_runtime 61000001 ''new''
     (snd (resend_verification demo_runtime 61000000 10 11 ''new'' ''a@b'' ''log'' 60 demo_started))) =
   Inl (Internal ''verification token has no flow'')"
proof -
  obtain db' where "resend_verification demo_runtime 61000000 10 11 ''new'' ''a@b'' ''log'' 60 demo_started = (Inr True, db')"
    by (simp add: demo_simps)
  from resend_strands_registration [OF this, of 61000001] show ?thesis
    by (simp add: \<open>resend_verification _ _ _ _ _ _ _ _ _ = _\<close> mins_def secs_def)
qed

end
