(* ===== verification/OAuth_Store.thy ===== *)
theory OAuth_Store
  imports Registration
begin

text \<open>
  The tables behind the OpenID provider and the device grant: \<open>OAuthClientStore\<close>, \<open>AuthzCodeStore\<close>,
  \<open>RefreshTokenStore\<close>, \<open>OAuthConsentStore\<close>, \<open>DeviceGrantStore\<close>, \<open>UserIdentityStore\<close> and
  \<open>SigningKeyStore\<close> of \<open>auth-core/src/store/pg.rs\<close>, with the records of \<open>auth-core/src/record\<close>. A table is
  the list of its rows; a unique column refuses an insertion with a conflict. The database itself is
  taken to answer: its other failures are not modelled. Times are microseconds.
\<close>

fun show_auth_error :: "auth_error \<Rightarrow> string" where
  "show_auth_error SessionNotFound = ''session not found''"
| "show_auth_error SessionExpiredErr = ''session expired''"
| "show_auth_error SessionRevoked = ''session revoked''"
| "show_auth_error (PolicyDenied r) = ''policy denied: '' @ r"
| "show_auth_error MfaRequired = ''MFA required''"
| "show_auth_error ReauthRequired = ''re-authentication required''"
| "show_auth_error (NotFound e) = ''not found: '' @ e"
| "show_auth_error (Conflict e) = ''conflict: '' @ e"
| "show_auth_error (StoreError e) = ''store error: '' @ e"
| "show_auth_error (Internal e) = ''internal: '' @ e"

section \<open>Rows\<close>

record oauth_client =
  oc_client_id :: string
  oc_client_secret_hash :: "string option"
  oc_name :: string
  oc_redirect_uris :: "string list"
  oc_grant_types :: "string list"
  oc_scopes :: "string list"
  oc_is_confidential :: bool
  oc_backchannel_logout_uri :: "string option"
  oc_frontchannel_logout_uri :: "string option"
  oc_created_at :: time

definition allows_redirect :: "oauth_client \<Rightarrow> string \<Rightarrow> bool" where
  "allows_redirect c uri = list_ex (\<lambda>u. u = uri) (oc_redirect_uris c)"

definition allows_grant :: "oauth_client \<Rightarrow> string \<Rightarrow> bool" where
  "allows_grant c grant = list_ex (\<lambda>g. g = grant) (oc_grant_types c)"

lemma allows_iff [simp]:
  "allows_redirect c uri \<longleftrightarrow> uri \<in> set (oc_redirect_uris c)" "allows_grant c g \<longleftrightarrow> g \<in> set (oc_grant_types c)"
  by (auto simp: allows_redirect_def allows_grant_def list_ex_iff)

record authz_code =
  ac_code_hash :: string
  ac_client_id :: string
  ac_user_id :: uuid
  ac_tenant_id :: uuid
  ac_redirect_uri :: string
  ac_scope :: string
  ac_nonce :: "string option"
  ac_code_challenge :: "string option"
  ac_code_challenge_method :: "string option"
  ac_expires_at :: time
  ac_consumed_at :: "time option"

record refresh_token =
  rf_token_hash :: string
  rf_family_id :: uuid
  rf_client_id :: string
  rf_user_id :: uuid
  rf_tenant_id :: uuid
  rf_scope :: string
  rf_expires_at :: time
  rf_revoked_at :: "time option"

record oauth_consent =
  cs_user_id :: uuid
  cs_client_id :: string
  cs_scope :: string

record device_grant =
  dg_id :: uuid
  dg_device_code_hash :: string
  dg_user_code :: string
  dg_client_id :: string
  dg_scope :: "string option"
  dg_status :: string
  dg_user_id :: "uuid option"
  dg_tenant_id :: "uuid option"
  dg_interval_secs :: int
  dg_last_polled_at :: "time option"
  dg_expires_at :: time

record user_identity =
  ui_id :: uuid
  ui_user_id :: uuid
  ui_provider :: string
  ui_subject :: string
  ui_email :: "string option"
  ui_email_verified :: bool
  ui_created_at :: time

record signing_key =
  sk_kid :: string
  sk_public_key :: string
  sk_private_key :: string
  sk_status :: string
  sk_created_at :: time
  sk_rotated_at :: "time option"

section \<open>Clients\<close>

definition create_client_row :: "oauth_client \<Rightarrow> oauth_client list \<Rightarrow> (auth_error, unit) result \<times> oauth_client list" where
  "create_client_row r cs =
     (if oc_client_id r \<in> set (map oc_client_id cs) then (Inl (Conflict ''duplicate key''), cs) else (Inr (), cs @ [r]))"

definition find_client :: "string \<Rightarrow> oauth_client list \<Rightarrow> oauth_client option" where
  "find_client cid cs = find (\<lambda>c. oc_client_id c = cid) cs"

definition list_clients_rows :: "oauth_client list \<Rightarrow> oauth_client list" where
  "list_clients_rows cs = sort_key (\<lambda>c. - oc_created_at c) cs"

section \<open>Authorization codes\<close>

definition save_code :: "authz_code \<Rightarrow> authz_code list \<Rightarrow> (auth_error, unit) result \<times> authz_code list" where
  "save_code r cs =
     (if ac_code_hash r \<in> set (map ac_code_hash cs) then (Inl (Conflict ''duplicate key''), cs)
      else (Inr (), cs @ [r \<lparr> ac_consumed_at := None \<rparr>]))"

definition code_live :: "time \<Rightarrow> string \<Rightarrow> authz_code \<Rightarrow> bool" where
  "code_live now h c \<longleftrightarrow> ac_code_hash c = h \<and> ac_consumed_at c = None \<and> now < ac_expires_at c"

definition consume_code :: "time \<Rightarrow> string \<Rightarrow> authz_code list \<Rightarrow> authz_code option \<times> authz_code list" where
  "consume_code now h cs =
     (map_option (\<lambda>c. c \<lparr> ac_consumed_at := Some now \<rparr>) (find (code_live now h) cs),
      map (\<lambda>c. if code_live now h c then c \<lparr> ac_consumed_at := Some now \<rparr> else c) cs)"

section \<open>Refresh tokens\<close>

datatype refresh_outcome = Rotated refresh_token | Reused | RefreshExpired | RefreshNotFound

definition save_refresh :: "refresh_token \<Rightarrow> refresh_token list \<Rightarrow> (auth_error, unit) result \<times> refresh_token list" where
  "save_refresh r ts =
     (if rf_token_hash r \<in> set (map rf_token_hash ts) then (Inl (Conflict ''duplicate key''), ts)
      else (Inr (), ts @ [r \<lparr> rf_revoked_at := None \<rparr>]))"

definition revoke_where :: "time \<Rightarrow> (refresh_token \<Rightarrow> bool) \<Rightarrow> refresh_token list \<Rightarrow> refresh_token list" where
  "revoke_where now P ts = map (\<lambda>t. if P t \<and> rf_revoked_at t = None then t \<lparr> rf_revoked_at := Some now \<rparr> else t) ts"

definition rotate_refresh :: "time \<Rightarrow> string \<Rightarrow> refresh_token list \<Rightarrow> refresh_outcome \<times> refresh_token list" where
  "rotate_refresh now h ts =
     (case find (\<lambda>t. rf_token_hash t = h) ts of
        None \<Rightarrow> (RefreshNotFound, ts)
      | Some r \<Rightarrow>
          (if rf_revoked_at r \<noteq> None then (Reused, revoke_where now (\<lambda>t. rf_family_id t = rf_family_id r) ts)
           else if rf_expires_at r \<le> now then (RefreshExpired, ts)
           else (Rotated r, map (\<lambda>t. if rf_token_hash t = h then t \<lparr> rf_revoked_at := Some now \<rparr> else t) ts)))"

definition revoke_refresh :: "time \<Rightarrow> string \<Rightarrow> refresh_token list \<Rightarrow> refresh_token list" where
  "revoke_refresh now h = revoke_where now (\<lambda>t. rf_token_hash t = h)"

definition revoke_family :: "time \<Rightarrow> uuid \<Rightarrow> refresh_token list \<Rightarrow> refresh_token list" where
  "revoke_family now f = revoke_where now (\<lambda>t. rf_family_id t = f)"

section \<open>Consents\<close>

text \<open>\<open>str::split_whitespace\<close>.\<close>

definition split_ws :: "string \<Rightarrow> string list" where
  "split_ws s = filter (\<lambda>w. w \<noteq> []) (split_on CHR '' '' (map (\<lambda>c. if is_space c then CHR '' '' else c) s))"

definition scope_covers :: "string \<Rightarrow> string \<Rightarrow> bool" where
  "scope_covers granted scope = list_all (\<lambda>s. s \<in> set (split_ws granted)) (split_ws scope)"

definition has_consent :: "uuid \<Rightarrow> string \<Rightarrow> string \<Rightarrow> oauth_consent list \<Rightarrow> bool" where
  "has_consent uid cid scope cs =
     (case find (\<lambda>c. cs_user_id c = uid \<and> cs_client_id c = cid) cs of
        None \<Rightarrow> False
      | Some c \<Rightarrow> scope_covers (cs_scope c) scope)"

definition grant_consent :: "uuid \<Rightarrow> string \<Rightarrow> string \<Rightarrow> oauth_consent list \<Rightarrow> oauth_consent list" where
  "grant_consent uid cid scope cs =
     (if list_ex (\<lambda>c. cs_user_id c = uid \<and> cs_client_id c = cid) cs
      then map (\<lambda>c. if cs_user_id c = uid \<and> cs_client_id c = cid then c \<lparr> cs_scope := scope \<rparr> else c) cs
      else cs @ [\<lparr> cs_user_id = uid, cs_client_id = cid, cs_scope = scope \<rparr>])"

section \<open>Device grants\<close>

datatype device_poll_outcome =
    PollApproved uuid uuid "string option" | PollPending | PollSlowDown | PollDenied | PollExpired | PollNotFound

datatype device_decision_outcome = DecisionOk string "string option" | DecisionNotFound | DecisionExpired | AlreadyResolved

definition device_create :: "device_grant \<Rightarrow> device_grant list \<Rightarrow> (auth_error, unit) result \<times> device_grant list" where
  "device_create r gs =
     (if dg_id r \<in> set (map dg_id gs) \<or> dg_device_code_hash r \<in> set (map dg_device_code_hash gs) \<or>
         dg_user_code r \<in> set (map dg_user_code gs)
      then (Inl (Conflict ''duplicate key''), gs)
      else (Inr (), gs @ [r \<lparr> dg_status := ''pending'', dg_user_id := None, dg_tenant_id := None, dg_last_polled_at := None \<rparr>]))"

definition find_pending_by_user_code :: "time \<Rightarrow> string \<Rightarrow> device_grant list \<Rightarrow> device_grant option" where
  "find_pending_by_user_code now code gs = find (\<lambda>g. dg_user_code g = code \<and> dg_status g = ''pending'' \<and> now < dg_expires_at g) gs"

definition device_update :: "uuid \<Rightarrow> (device_grant \<Rightarrow> device_grant) \<Rightarrow> device_grant list \<Rightarrow> device_grant list" where
  "device_update gid f gs = map (\<lambda>g. if dg_id g = gid then f g else g) gs"

definition device_decide ::
    "time \<Rightarrow> string \<Rightarrow> bool \<Rightarrow> uuid \<Rightarrow> uuid \<Rightarrow> device_grant list \<Rightarrow> device_decision_outcome \<times> device_grant list" where
  "device_decide now code approve uid tid gs =
     (case find (\<lambda>g. dg_user_code g = code) gs of
        None \<Rightarrow> (DecisionNotFound, gs)
      | Some g \<Rightarrow>
          (if dg_expires_at g \<le> now then (DecisionExpired, gs)
           else if dg_status g \<noteq> ''pending'' then (AlreadyResolved, gs)
           else (DecisionOk (dg_client_id g) (dg_scope g),
                 device_update (dg_id g) (\<lambda>g. g \<lparr> dg_status := if approve then ''approved'' else ''denied'',
                   dg_user_id := Some uid, dg_tenant_id := Some tid \<rparr>) gs)))"

text \<open>\<open>num_seconds\<close> of a difference of times truncates toward zero.\<close>

definition num_seconds :: "time \<Rightarrow> int" where
  "num_seconds d = (if d < 0 then - ((- d) div 1000000) else d div 1000000)"

definition device_poll :: "time \<Rightarrow> string \<Rightarrow> device_grant list \<Rightarrow> device_poll_outcome \<times> device_grant list" where
  "device_poll now h gs =
     (case find (\<lambda>g. dg_device_code_hash g = h) gs of
        None \<Rightarrow> (PollNotFound, gs)
      | Some g \<Rightarrow>
          (if dg_expires_at g \<le> now then (PollExpired, gs)
           else if dg_status g = ''denied'' then (PollDenied, gs)
           else if dg_status g = ''approved''
             then (case (dg_user_id g, dg_tenant_id g) of
                     (Some uid, Some tid) \<Rightarrow> (PollApproved uid tid (dg_scope g), gs)
                   | _ \<Rightarrow> (PollPending, gs))
           else if (case dg_last_polled_at g of None \<Rightarrow> False | Some l \<Rightarrow> num_seconds (now - l) < dg_interval_secs g)
             then (PollSlowDown, gs)
           else (PollPending, device_update (dg_id g) (\<lambda>g. g \<lparr> dg_last_polled_at := Some now \<rparr>) gs)))"

definition device_consume :: "string \<Rightarrow> device_grant list \<Rightarrow> device_grant list" where
  "device_consume h gs = filter (\<lambda>g. dg_device_code_hash g \<noteq> h) gs"

definition device_delete_expired :: "time \<Rightarrow> device_grant list \<Rightarrow> nat \<times> device_grant list" where
  "device_delete_expired now gs =
     (length (filter (\<lambda>g. dg_expires_at g \<le> now) gs), filter (\<lambda>g. \<not> dg_expires_at g \<le> now) gs)"

section \<open>Linked identities\<close>

definition identity_find_by_subject :: "string \<Rightarrow> string \<Rightarrow> user_identity list \<Rightarrow> user_identity option" where
  "identity_find_by_subject p s idl = find (\<lambda>i. ui_provider i = p \<and> ui_subject i = s) idl"

definition identity_list_by_user :: "uuid \<Rightarrow> user_identity list \<Rightarrow> user_identity list" where
  "identity_list_by_user uid idl = sort_key ui_created_at (filter (\<lambda>i. ui_user_id i = uid) idl)"

definition identity_link :: "user_identity \<Rightarrow> user_identity list \<Rightarrow> (auth_error, unit) result \<times> user_identity list" where
  "identity_link r idl =
     (if list_ex (\<lambda>i. ui_provider i = ui_provider r \<and> ui_subject i = ui_subject r) idl
      then (Inr (), map (\<lambda>i. if ui_provider i = ui_provider r \<and> ui_subject i = ui_subject r
              then i \<lparr> ui_email := ui_email r, ui_email_verified := ui_email_verified r \<rparr> else i) idl)
      else if ui_id r \<in> set (map ui_id idl) then (Inl (Conflict ''duplicate key''), idl)
      else (Inr (), idl @ [r]))"

definition identity_unlink :: "uuid \<Rightarrow> uuid \<Rightarrow> user_identity list \<Rightarrow> bool \<times> user_identity list" where
  "identity_unlink uid iid idl =
     (list_ex (\<lambda>i. ui_id i = iid \<and> ui_user_id i = uid) idl, filter (\<lambda>i. \<not> (ui_id i = iid \<and> ui_user_id i = uid)) idl)"

definition identity_count_by_user :: "uuid \<Rightarrow> user_identity list \<Rightarrow> nat" where
  "identity_count_by_user uid idl = length (filter (\<lambda>i. ui_user_id i = uid) idl)"

section \<open>Signing keys\<close>

definition key_save :: "time \<Rightarrow> string \<Rightarrow> string \<Rightarrow> string \<Rightarrow> signing_key list \<Rightarrow> (auth_error, unit) result \<times> signing_key list" where
  "key_save now kid pub prv ks =
     (if kid \<in> set (map sk_kid ks) then (Inl (Conflict ''duplicate key''), ks)
      else (Inr (), ks @ [\<lparr> sk_kid = kid, sk_public_key = pub, sk_private_key = prv, sk_status = ''active'',
                             sk_created_at = now, sk_rotated_at = None \<rparr>]))"

definition key_list :: "signing_key list \<Rightarrow> signing_key list" where
  "key_list ks = sort_key (\<lambda>k. - sk_created_at k) ks"

definition key_load_active :: "signing_key list \<Rightarrow> signing_key option" where
  "key_load_active ks =
     (case key_list (filter (\<lambda>k. sk_status k = ''active'') ks) of [] \<Rightarrow> None | k # _ \<Rightarrow> Some k)"

definition key_set_status :: "time \<Rightarrow> string \<Rightarrow> string \<Rightarrow> signing_key list \<Rightarrow> signing_key list" where
  "key_set_status now status kid ks =
     map (\<lambda>k. if sk_kid k = kid then k \<lparr> sk_status := status, sk_rotated_at := Some now \<rparr> else k) ks"

text \<open>\<open>rotate\<close> is one transaction: a conflict on the new key leaves the table as it was.\<close>

definition key_rotate ::
    "time \<Rightarrow> string \<Rightarrow> string \<Rightarrow> string \<Rightarrow> string \<Rightarrow> signing_key list \<Rightarrow> (auth_error, unit) result \<times> signing_key list" where
  "key_rotate now old_kid new_kid pub prv ks =
     (case key_save now new_kid pub prv (key_set_status now ''retired'' old_kid ks) of
        (Inl err, _) \<Rightarrow> (Inl err, ks)
      | (Inr _, ks') \<Rightarrow> (Inr (), ks'))"

definition key_revoke :: "time \<Rightarrow> string \<Rightarrow> signing_key list \<Rightarrow> signing_key list" where
  "key_revoke now = key_set_status now ''revoked''"

end
