(* ===== verification/Accounts.thy ===== *)
theory Accounts
  imports Registration
begin

text \<open>
  Users, tenants, memberships, invitations, machine clients, identity-provider settings and passkeys: the
  tables of \<open>auth-core/src/store/pg.rs\<close> and the statements on them. The handlers over them are in
  \<open>Tenancy\<close>. A table is the list of its rows; unique columns refuse
  an insertion with a conflict; foreign keys are not modelled. Random ids and codes are arguments. Times
  are microseconds.
\<close>

section \<open>Rows\<close>

record user_record =
  us_id :: uuid
  us_email :: string
  us_display_name :: "string option"
  us_google_sub :: "string option"
  us_created_at :: time
  us_is_active :: bool
  us_locale :: "string option"
  us_deleted_at :: "time option"

record tenant_record =
  tn_id :: uuid
  tn_name :: string
  tn_slug :: string
  tn_email_domain :: "string option"
  tn_auto_join :: bool
  tn_created_by :: "uuid option"
  tn_created_at :: time
  tn_plan :: "string option"
  tn_max_members :: "int option"
  tn_is_active :: bool
  tn_mfa_required :: bool
  tn_mfa_grace_until :: "time option"

record membership_record =
  mb_id :: uuid
  mb_user_id :: uuid
  mb_tenant_id :: uuid
  mb_role :: string
  mb_joined_at :: time
  mb_invited_by :: "uuid option"
  mb_is_active :: bool

record invitation_record =
  iv_id :: uuid
  iv_tenant_id :: uuid
  iv_code :: string
  iv_email :: "string option"
  iv_role :: string
  iv_max_uses :: int
  iv_used_count :: int
  iv_created_by :: uuid
  iv_created_at :: time
  iv_expires_at :: time

definition is_usable_at :: "invitation_record \<Rightarrow> time \<Rightarrow> bool" where
  "is_usable_at i now \<longleftrightarrow> iv_used_count i < iv_max_uses i \<and> now < iv_expires_at i"

record m2m_client_record =
  mc_id :: uuid
  mc_tenant_id :: uuid
  mc_client_id :: string
  mc_client_secret_hash :: string
  mc_scopes :: string
  mc_is_active :: bool
  mc_created_at :: time

record idp_config_record =
  ip_id :: uuid
  ip_tenant_id :: uuid
  ip_provider_type :: string
  ip_metadata_url :: "string option"
  ip_issuer :: "string option"
  ip_client_id :: "string option"
  ip_client_secret :: "string option"
  ip_x509_cert :: "string option"
  ip_created_at :: time
  ip_is_active :: bool

record passkey_record =
  pk_id :: uuid
  pk_user_id :: uuid
  pk_credential_id :: string
  pk_public_key :: string
  pk_sign_count :: int
  pk_transports :: "string option"
  pk_name :: "string option"
  pk_aaguid :: "uuid option"
  pk_backup_eligible :: bool
  pk_backup_state :: bool
  pk_created_at :: time
  pk_last_used_at :: "time option"

record acct_db =
  ad_sessions :: session_table
  ad_users :: "user_record list"
  ad_tenants :: "tenant_record list"
  ad_members :: "membership_record list"
  ad_invitations :: "invitation_record list"
  ad_usages :: "(uuid \<times> uuid) list"
  ad_m2m :: "m2m_client_record list"
  ad_idps :: "idp_config_record list"
  ad_passkeys :: "passkey_record list"

section \<open>Users\<close>

definition user_find_by_id :: "uuid \<Rightarrow> user_record list \<Rightarrow> user_record option" where
  "user_find_by_id uid us = find (\<lambda>u. us_id u = uid) us"

definition user_find_by_email :: "string \<Rightarrow> user_record list \<Rightarrow> user_record option" where
  "user_find_by_email em us = find (\<lambda>u. us_email u = em) us"

definition user_find_by_google_sub :: "string \<Rightarrow> user_record list \<Rightarrow> user_record option" where
  "user_find_by_google_sub sub us = find (\<lambda>u. us_google_sub u = Some sub) us"

text \<open>The row of an address is updated in place, under its old id; otherwise the id and the Google subject must be new.\<close>

definition user_upsert :: "user_record \<Rightarrow> user_record list \<Rightarrow> (auth_error, user_record) result \<times> user_record list" where
  "user_upsert r us =
     (case user_find_by_email (us_email r) us of
        Some u \<Rightarrow>
          (if us_google_sub r \<noteq> None \<and> list_ex (\<lambda>x. us_email x \<noteq> us_email r \<and> us_google_sub x = us_google_sub r) us
           then (Inl (Conflict ''duplicate key''), us)
           else (let upd = (\<lambda>x. x \<lparr> us_display_name := us_display_name r, us_google_sub := us_google_sub r,
                                     us_is_active := us_is_active r, us_locale := us_locale r \<rparr>)
                 in (Inr (upd u), map (\<lambda>x. if us_email x = us_email r then upd x else x) us)))
      | None \<Rightarrow>
          (if us_id r \<in> set (map us_id us) \<or> us_google_sub r \<noteq> None \<and> us_google_sub r \<in> set (map us_google_sub us)
           then (Inl (Conflict ''duplicate key''), us)
           else (let new = r \<lparr> us_deleted_at := None \<rparr> in (Inr new, us @ [new]))))"

definition user_update_display_name :: "uuid \<Rightarrow> string \<Rightarrow> user_record list \<Rightarrow> user_record list" where
  "user_update_display_name uid name us = map (\<lambda>u. if us_id u = uid then u \<lparr> us_display_name := Some name \<rparr> else u) us"

definition user_soft_delete :: "time \<Rightarrow> uuid \<Rightarrow> user_record list \<Rightarrow> user_record list" where
  "user_soft_delete now uid us =
     map (\<lambda>u. if us_id u = uid \<and> us_deleted_at u = None then u \<lparr> us_deleted_at := Some now \<rparr> else u) us"

section \<open>Tenants and memberships\<close>

definition tenant_find_by_id :: "uuid \<Rightarrow> tenant_record list \<Rightarrow> tenant_record option" where
  "tenant_find_by_id tid ts = find (\<lambda>t. tn_id t = tid) ts"

definition tenant_find_by_slug :: "string \<Rightarrow> tenant_record list \<Rightarrow> tenant_record option" where
  "tenant_find_by_slug slug ts = find (\<lambda>t. tn_slug t = slug) ts"

definition tenant_find_by_user :: "uuid \<Rightarrow> membership_record list \<Rightarrow> tenant_record list \<Rightarrow> tenant_record list" where
  "tenant_find_by_user uid ms ts =
     concat (map (\<lambda>m. filter (\<lambda>t. tn_id t = mb_tenant_id m \<and> tn_is_active t) ts) (filter (\<lambda>m. mb_user_id m = uid \<and> mb_is_active m) ms))"

definition tenant_create :: "tenant_record \<Rightarrow> tenant_record list \<Rightarrow> (auth_error, tenant_record) result \<times> tenant_record list" where
  "tenant_create r ts =
     (if tn_id r \<in> set (map tn_id ts) \<or> tn_slug r \<in> set (map tn_slug ts) then (Inl (Conflict ''duplicate key''), ts)
      else (Inr r, ts @ [r]))"

definition member_find :: "uuid \<Rightarrow> uuid \<Rightarrow> membership_record list \<Rightarrow> membership_record option" where
  "member_find uid tid ms = find (\<lambda>m. mb_user_id m = uid \<and> mb_tenant_id m = tid) ms"

definition member_list_by_tenant :: "uuid \<Rightarrow> membership_record list \<Rightarrow> membership_record list" where
  "member_list_by_tenant tid ms = sort_key mb_joined_at (filter (\<lambda>m. mb_tenant_id m = tid \<and> mb_is_active m) ms)"

definition member_create :: "membership_record \<Rightarrow> membership_record list \<Rightarrow> (auth_error, unit) result \<times> membership_record list" where
  "member_create r ms =
     (if mb_id r \<in> set (map mb_id ms) \<or> (mb_user_id r, mb_tenant_id r) \<in> set (map (\<lambda>m. (mb_user_id m, mb_tenant_id m)) ms)
      then (Inl (Conflict ''duplicate key''), ms) else (Inr (), ms @ [r]))"

definition member_update_role :: "uuid \<Rightarrow> string \<Rightarrow> membership_record list \<Rightarrow> membership_record list" where
  "member_update_role mid role ms = map (\<lambda>m. if mb_id m = mid then m \<lparr> mb_role := role \<rparr> else m) ms"

definition member_deactivate :: "uuid \<Rightarrow> membership_record list \<Rightarrow> membership_record list" where
  "member_deactivate mid ms = map (\<lambda>m. if mb_id m = mid then m \<lparr> mb_is_active := False \<rparr> else m) ms"

definition is_owner_of :: "uuid \<Rightarrow> membership_record \<Rightarrow> bool" where
  "is_owner_of tid m \<longleftrightarrow> mb_tenant_id m = tid \<and> mb_role m = ''OWNER'' \<and> mb_is_active m"

definition count_active_owners :: "uuid \<Rightarrow> membership_record list \<Rightarrow> nat" where
  "count_active_owners tid ms = length (filter (is_owner_of tid) ms)"

text \<open>\<open>create_personal\<close> is one transaction: when the membership cannot be inserted, neither is the tenant.\<close>

definition tenant_create_personal ::
    "time \<Rightarrow> uuid \<Rightarrow> uuid \<Rightarrow> uuid \<Rightarrow> string \<Rightarrow> string \<Rightarrow> tenant_record list \<Rightarrow> membership_record list \<Rightarrow>
     (auth_error, tenant_record) result \<times> tenant_record list \<times> membership_record list" where
  "tenant_create_personal now tid mid uid name slug ts ms =
     (let t = \<lparr> tn_id = tid, tn_name = name, tn_slug = slug, tn_email_domain = None, tn_auto_join = False,
                tn_created_by = Some uid, tn_created_at = now, tn_plan = Some ''FREE'', tn_max_members = Some 1,
                tn_is_active = True, tn_mfa_required = False, tn_mfa_grace_until = None \<rparr>
      in case tenant_create t ts of
           (Inl err, _) \<Rightarrow> (Inl err, ts, ms)
         | (Inr _, ts') \<Rightarrow>
             (case member_create \<lparr> mb_id = mid, mb_user_id = uid, mb_tenant_id = tid, mb_role = ''OWNER'', mb_joined_at = now,
                      mb_invited_by = None, mb_is_active = True \<rparr> ms of
                (Inl err, _) \<Rightarrow> (Inl err, ts, ms)
              | (Inr _, ms') \<Rightarrow> (Inr t, ts', ms')))"

section \<open>Invitations\<close>

definition invitation_create :: "invitation_record \<Rightarrow> invitation_record list \<Rightarrow> (auth_error, unit) result \<times> invitation_record list" where
  "invitation_create r ivs =
     (if iv_id r \<in> set (map iv_id ivs) \<or> iv_code r \<in> set (map iv_code ivs) then (Inl (Conflict ''duplicate key''), ivs)
      else (Inr (), ivs @ [r]))"

definition invitation_find_by_code :: "string \<Rightarrow> invitation_record list \<Rightarrow> invitation_record option" where
  "invitation_find_by_code code ivs = find (\<lambda>i. iv_code i = code) ivs"

definition join_member :: "time \<Rightarrow> uuid \<Rightarrow> uuid \<Rightarrow> invitation_record \<Rightarrow> membership_record list \<Rightarrow> membership_record list" where
  "join_member now mid uid invt ms =
     (if list_ex (\<lambda>m. mb_user_id m = uid \<and> mb_tenant_id m = iv_tenant_id invt) ms
      then map (\<lambda>m. if mb_user_id m = uid \<and> mb_tenant_id m = iv_tenant_id invt
                 then m \<lparr> mb_role := iv_role invt, mb_is_active := True \<rparr> else m) ms
      else ms @ [\<lparr> mb_id = mid, mb_user_id = uid, mb_tenant_id = iv_tenant_id invt, mb_role = iv_role invt,
                   mb_joined_at = now, mb_invited_by = Some (iv_created_by invt), mb_is_active = True \<rparr>])"

definition invitation_accept :: "time \<Rightarrow> uuid \<Rightarrow> string \<Rightarrow> uuid \<Rightarrow> 'a acct_db_scheme \<Rightarrow> (auth_error, unit) result \<times> 'a acct_db_scheme" where
  "invitation_accept now mid code uid db =
     (case invitation_find_by_code code (ad_invitations db) of
        None \<Rightarrow> (Inl (NotFound (''invitation code='' @ code)), db)
      | Some invt \<Rightarrow>
          (if \<not> is_usable_at invt now then (Inl (Conflict ''invitation expired or fully used''), db)
           else (Inr (), db \<lparr> ad_invitations := map (\<lambda>i. if iv_id i = iv_id invt then i \<lparr> iv_used_count := iv_used_count i + 1 \<rparr> else i) (ad_invitations db),
                              ad_usages := ad_usages db @ [(iv_id invt, uid)],
                              ad_members := join_member now mid uid invt (ad_members db) \<rparr>)))"

definition invitation_list_by_tenant :: "uuid \<Rightarrow> invitation_record list \<Rightarrow> invitation_record list" where
  "invitation_list_by_tenant tid ivs = sort_key (\<lambda>i. - iv_created_at i) (filter (\<lambda>i. iv_tenant_id i = tid) ivs)"

definition invitation_cancel :: "uuid \<Rightarrow> invitation_record list \<Rightarrow> invitation_record list" where
  "invitation_cancel iid ivs = map (\<lambda>i. if iv_id i = iid then i \<lparr> iv_max_uses := 0 \<rparr> else i) ivs"

section \<open>Machine clients, identity providers, passkeys\<close>

definition m2m_create :: "m2m_client_record \<Rightarrow> m2m_client_record list \<Rightarrow> (auth_error, uuid) result \<times> m2m_client_record list" where
  "m2m_create r cs =
     (if mc_id r \<in> set (map mc_id cs) \<or> mc_client_id r \<in> set (map mc_client_id cs) then (Inl (Conflict ''duplicate key''), cs)
      else (Inr (mc_id r), cs @ [r \<lparr> mc_is_active := True \<rparr>]))"

definition m2m_find_by_client_id :: "string \<Rightarrow> m2m_client_record list \<Rightarrow> m2m_client_record option" where
  "m2m_find_by_client_id cid cs = find (\<lambda>c. mc_client_id c = cid \<and> mc_is_active c) cs"

definition m2m_list_by_tenant :: "uuid \<Rightarrow> m2m_client_record list \<Rightarrow> m2m_client_record list" where
  "m2m_list_by_tenant tid cs = sort_key mc_created_at (filter (\<lambda>c. mc_tenant_id c = tid \<and> mc_is_active c) cs)"

definition idp_upsert :: "idp_config_record \<Rightarrow> idp_config_record list \<Rightarrow> uuid \<times> idp_config_record list" where
  "idp_upsert r cs =
     (if ip_id r \<in> set (map ip_id cs)
      then (ip_id r, map (\<lambda>c. if ip_id c = ip_id r then c \<lparr> ip_metadata_url := ip_metadata_url r, ip_issuer := ip_issuer r,
              ip_client_id := ip_client_id r, ip_client_secret := ip_client_secret r, ip_x509_cert := ip_x509_cert r,
              ip_is_active := True \<rparr> else c) cs)
      else (ip_id r, cs @ [r \<lparr> ip_is_active := True \<rparr>]))"

definition idp_list_by_tenant :: "uuid \<Rightarrow> idp_config_record list \<Rightarrow> idp_config_record list" where
  "idp_list_by_tenant tid cs = sort_key ip_created_at (filter (\<lambda>c. ip_tenant_id c = tid \<and> ip_is_active c) cs)"

definition idp_find :: "uuid \<Rightarrow> string \<Rightarrow> idp_config_record list \<Rightarrow> idp_config_record option" where
  "idp_find tid ty cs = find (\<lambda>c. ip_tenant_id c = tid \<and> ip_provider_type c = ty \<and> ip_is_active c) cs"

definition passkey_create :: "passkey_record \<Rightarrow> passkey_record list \<Rightarrow> (auth_error, uuid) result \<times> passkey_record list" where
  "passkey_create r ps =
     (if pk_id r \<in> set (map pk_id ps) \<or> pk_credential_id r \<in> set (map pk_credential_id ps) then (Inl (Conflict ''duplicate key''), ps)
      else (Inr (pk_id r), ps @ [r \<lparr> pk_last_used_at := None \<rparr>]))"

definition passkey_list_by_user :: "uuid \<Rightarrow> passkey_record list \<Rightarrow> passkey_record list" where
  "passkey_list_by_user uid ps = sort_key pk_created_at (filter (\<lambda>p. pk_user_id p = uid) ps)"

definition passkey_find_by_credential_id :: "string \<Rightarrow> passkey_record list \<Rightarrow> passkey_record option" where
  "passkey_find_by_credential_id cid ps = find (\<lambda>p. pk_credential_id p = cid) ps"

definition passkey_update_counter :: "time \<Rightarrow> uuid \<Rightarrow> int \<Rightarrow> passkey_record list \<Rightarrow> bool \<times> passkey_record list" where
  "passkey_update_counter now pid n ps =
     (let hit = (\<lambda>p. pk_id p = pid \<and> pk_sign_count p < n)
      in (list_ex hit ps, map (\<lambda>p. if hit p then p \<lparr> pk_sign_count := n, pk_last_used_at := Some now \<rparr> else p) ps))"

definition passkey_delete :: "uuid \<Rightarrow> uuid \<Rightarrow> passkey_record list \<Rightarrow> passkey_record list" where
  "passkey_delete uid pid ps = filter (\<lambda>p. \<not> (pk_id p = pid \<and> pk_user_id p = uid)) ps"

definition passkey_count :: "uuid \<Rightarrow> passkey_record list \<Rightarrow> nat" where
  "passkey_count uid ps = length (filter (\<lambda>p. pk_user_id p = uid) ps)"

end
