(* ===== verification/Tenancy.thy ===== *)
theory Tenancy
  imports Accounts
begin

text \<open>
  Tenant management (\<open>auth-server/src/handlers/manage.rs\<close>): the permission gate, the rules for changing and
  removing members, invitations, machine clients, identity-provider settings, passkeys and users. The
  theorems: what a successful change implies about the caller, that a tenant keeps an owner, and how
  often an invitation can be used; and the ways around the gate.
\<close>

section \<open>Sessions and permissions\<close>

record tenancy_env =
  te_parse_uuid :: "string \<Rightarrow> uuid option"
  te_sha256_hex :: "string \<Rightarrow> string"

definition unix_secs :: "time \<Rightarrow> u64" where
  "unix_secs now = of_int (now div 1000000)"

definition auth :: "time \<Rightarrow> string option \<Rightarrow> 'a acct_db_scheme \<Rightarrow> (api_error, session_record) result" where
  "auth now cookie db =
     (case cookie of
        None \<Rightarrow> Inl (Unauthorized ''SESSION_EXPIRED'')
      | Some sid \<Rightarrow>
          (case pg_find (unix_secs now) sid (ad_sessions db) of
             None \<Rightarrow> Inl (Unauthorized ''SESSION_EXPIRED'')
           | Some s \<Rightarrow> Inr s))"

definition auth_uid :: "tenancy_env \<Rightarrow> time \<Rightarrow> string option \<Rightarrow> 'a acct_db_scheme \<Rightarrow> (api_error, uuid) result" where
  "auth_uid e now cookie db =
     (case auth now cookie db of
        Inl err \<Rightarrow> Inl err
      | Inr s \<Rightarrow> (case te_parse_uuid e (sr_user_id s) of None \<Rightarrow> Inl InternalError | Some uid \<Rightarrow> Inr uid))"

definition require_tenant_permission ::
    "tenancy_env \<Rightarrow> time \<Rightarrow> string option \<Rightarrow> uuid \<Rightarrow> string \<Rightarrow> 'a acct_db_scheme \<Rightarrow> (api_error, string) result" where
  "require_tenant_permission e now cookie tid permission db =
     (case auth_uid e now cookie db of
        Inl err \<Rightarrow> Inl err
      | Inr uid \<Rightarrow>
          (case opt_filter mb_is_active (member_find uid tid (ad_members db)) of
             None \<Rightarrow> Inl (Forbidden ''FORBIDDEN'')
           | Some m \<Rightarrow>
               (if \<not> can default_policy (to_upper (mb_role m)) permission then Inl (Forbidden ''FORBIDDEN'')
                else Inr (to_upper (mb_role m)))))"

definition member_in_tenant :: "uuid \<Rightarrow> uuid \<Rightarrow> 'a acct_db_scheme \<Rightarrow> (api_error, membership_record) result" where
  "member_in_tenant tid mid db =
     (case find (\<lambda>m. mb_id m = mid \<and> mb_is_active m) (member_list_by_tenant tid (ad_members db)) of
        None \<Rightarrow> Inl (Forbidden ''FORBIDDEN'') | Some m \<Rightarrow> Inr m)"

definition authorize_role_change :: "string \<Rightarrow> string \<Rightarrow> string \<Rightarrow> nat \<Rightarrow> (api_error, unit) result" where
  "authorize_role_change caller_role target_role new_role owner_count =
     (let caller = to_upper caller_role; target = to_upper target_role
      in if \<not> is_known_role default_policy new_role then Inl (BadRequest ''INVALID_ROLE'')
         else if \<not> is_at_least default_policy caller new_role then Inl (Forbidden ''FORBIDDEN'')
         else if \<not> is_at_least default_policy caller target then Inl (Forbidden ''FORBIDDEN'')
         else if target = ''OWNER'' \<and> new_role \<noteq> ''OWNER'' \<and> owner_count \<le> 1 then Inl (BadRequest ''LAST_OWNER'')
         else Inr ())"

definition authorize_member_removal :: "string \<Rightarrow> string \<Rightarrow> nat \<Rightarrow> (api_error, unit) result" where
  "authorize_member_removal caller_role target_role owner_count =
     (let caller = to_upper caller_role; target = to_upper target_role
      in if \<not> is_at_least default_policy caller target then Inl (Forbidden ''FORBIDDEN'')
         else if target = ''OWNER'' \<and> owner_count \<le> 1 then Inl (BadRequest ''LAST_OWNER'')
         else Inr ())"

definition owner_count_for :: "uuid \<Rightarrow> membership_record \<Rightarrow> 'a acct_db_scheme \<Rightarrow> nat" where
  "owner_count_for tid target db =
     (if eq_ignore_case (mb_role target) ''OWNER'' then count_active_owners tid (ad_members db) else usize_max)"

section \<open>Members\<close>

text \<open>The checks of a handler and its update are separate statements; the checks alone decide.\<close>

definition patch_member_check ::
    "tenancy_env \<Rightarrow> time \<Rightarrow> string option \<Rightarrow> uuid \<Rightarrow> uuid \<Rightarrow> string \<Rightarrow> 'a acct_db_scheme \<Rightarrow> (api_error, string) result" where
  "patch_member_check e now cookie tid mid role db =
     (case require_tenant_permission e now cookie tid ''change_member_role'' db of
        Inl err \<Rightarrow> Inl err
      | Inr caller_role \<Rightarrow>
          (case member_in_tenant tid mid db of
             Inl err \<Rightarrow> Inl err
           | Inr target \<Rightarrow>
               (let new_role = to_upper (trim role)
                in case authorize_role_change caller_role (mb_role target) new_role (owner_count_for tid target db) of
                     Inl err \<Rightarrow> Inl err | Inr _ \<Rightarrow> Inr new_role)))"

definition patch_member ::
    "tenancy_env \<Rightarrow> time \<Rightarrow> string option \<Rightarrow> uuid \<Rightarrow> uuid \<Rightarrow> string \<Rightarrow> 'a acct_db_scheme \<Rightarrow> (api_error, string) result \<times> 'a acct_db_scheme" where
  "patch_member e now cookie tid mid role db =
     (case patch_member_check e now cookie tid mid role db of
        Inl err \<Rightarrow> (Inl err, db)
      | Inr new_role \<Rightarrow> (Inr new_role, db \<lparr> ad_members := member_update_role mid new_role (ad_members db) \<rparr>))"

definition delete_member_check :: "tenancy_env \<Rightarrow> time \<Rightarrow> string option \<Rightarrow> uuid \<Rightarrow> uuid \<Rightarrow> 'a acct_db_scheme \<Rightarrow> (api_error, unit) result" where
  "delete_member_check e now cookie tid mid db =
     (case require_tenant_permission e now cookie tid ''remove_members'' db of
        Inl err \<Rightarrow> Inl err
      | Inr caller_role \<Rightarrow>
          (case member_in_tenant tid mid db of
             Inl err \<Rightarrow> Inl err
           | Inr target \<Rightarrow> authorize_member_removal caller_role (mb_role target) (owner_count_for tid target db)))"

definition delete_member :: "tenancy_env \<Rightarrow> time \<Rightarrow> string option \<Rightarrow> uuid \<Rightarrow> uuid \<Rightarrow> 'a acct_db_scheme \<Rightarrow> (api_error, unit) result \<times> 'a acct_db_scheme" where
  "delete_member e now cookie tid mid db =
     (case delete_member_check e now cookie tid mid db of
        Inl err \<Rightarrow> (Inl err, db)
      | Inr _ \<Rightarrow> (Inr (), db \<lparr> ad_members := member_deactivate mid (ad_members db) \<rparr>))"

section \<open>Tenants, invitations, machine clients, users\<close>

definition create_tenant ::
    "tenancy_env \<Rightarrow> time \<Rightarrow> string option \<Rightarrow> uuid \<Rightarrow> uuid \<Rightarrow> string \<Rightarrow> string \<Rightarrow> 'a acct_db_scheme \<Rightarrow> (api_error, uuid \<times> string) result \<times> 'a acct_db_scheme" where
  "create_tenant e now cookie tid mid name slug db =
     (case auth_uid e now cookie db of
        Inl err \<Rightarrow> (Inl err, db)
      | Inr uid \<Rightarrow>
          (case tenant_create \<lparr> tn_id = tid, tn_name = name, tn_slug = slug, tn_email_domain = None, tn_auto_join = False,
                  tn_created_by = Some uid, tn_created_at = now, tn_plan = Some ''FREE'', tn_max_members = Some 50,
                  tn_is_active = True, tn_mfa_required = False, tn_mfa_grace_until = None \<rparr> (ad_tenants db) of
             (Inl _, _) \<Rightarrow> (Inl InternalError, db)
           | (Inr t, ts) \<Rightarrow>
               (let db' = db \<lparr> ad_tenants := ts \<rparr>
                in case member_create \<lparr> mb_id = mid, mb_user_id = uid, mb_tenant_id = tn_id t, mb_role = ''OWNER'',
                          mb_joined_at = now, mb_invited_by = None, mb_is_active = True \<rparr> (ad_members db') of
                     (Inl _, _) \<Rightarrow> (Inl InternalError, db')
                   | (Inr _, ms) \<Rightarrow> (Inr (tn_id t, tn_slug t), db' \<lparr> ad_members := ms \<rparr>))))"

definition get_tenant :: "time \<Rightarrow> string option \<Rightarrow> uuid \<Rightarrow> 'a acct_db_scheme \<Rightarrow> (api_error, tenant_record) result" where
  "get_tenant now cookie tid db =
     (case auth now cookie db of
        Inl err \<Rightarrow> Inl err
      | Inr _ \<Rightarrow> (case tenant_find_by_id tid (ad_tenants db) of None \<Rightarrow> Inl (BadRequest ''NOT_FOUND'') | Some t \<Rightarrow> Inr t))"

definition patch_tenant :: "time \<Rightarrow> string option \<Rightarrow> uuid \<Rightarrow> 'a acct_db_scheme \<Rightarrow> (api_error, uuid) result" where
  "patch_tenant now cookie tid db = map_sum id tn_id (get_tenant now cookie tid db)"

definition create_invitation ::
    "tenancy_env \<Rightarrow> time \<Rightarrow> string option \<Rightarrow> uuid \<Rightarrow> string \<Rightarrow> uuid \<Rightarrow> string option \<Rightarrow> string option \<Rightarrow> 'a acct_db_scheme \<Rightarrow>
     (api_error, string) result \<times> 'a acct_db_scheme" where
  "create_invitation e now cookie iid code tid email role db =
     (case auth_uid e now cookie db of
        Inl err \<Rightarrow> (Inl err, db)
      | Inr uid \<Rightarrow>
          (case invitation_create \<lparr> iv_id = iid, iv_tenant_id = tid, iv_code = code, iv_email = email,
                  iv_role = unwrap_or ''MEMBER'' role, iv_max_uses = 1, iv_used_count = 0, iv_created_by = uid,
                  iv_created_at = now, iv_expires_at = now + secs (7 * 86400) \<rparr> (ad_invitations db) of
             (Inl _, _) \<Rightarrow> (Inl InternalError, db)
           | (Inr _, ivs) \<Rightarrow> (Inr code, db \<lparr> ad_invitations := ivs \<rparr>)))"

definition cancel_invitation :: "time \<Rightarrow> string option \<Rightarrow> uuid \<Rightarrow> uuid \<Rightarrow> 'a acct_db_scheme \<Rightarrow> (api_error, unit) result \<times> 'a acct_db_scheme" where
  "cancel_invitation now cookie tid iid db =
     (case auth now cookie db of
        Inl err \<Rightarrow> (Inl err, db)
      | Inr _ \<Rightarrow> (Inr (), db \<lparr> ad_invitations := invitation_cancel iid (ad_invitations db) \<rparr>))"

fun api_of_auth_error :: "auth_error \<Rightarrow> api_error" where
  "api_of_auth_error SessionNotFound = Unauthorized ''SESSION_EXPIRED''"
| "api_of_auth_error SessionExpiredErr = Unauthorized ''SESSION_EXPIRED''"
| "api_of_auth_error SessionRevoked = Unauthorized ''SESSION_EXPIRED''"
| "api_of_auth_error (PolicyDenied m) = Forbidden ''TENANT_ACCESS_DENIED''"
| "api_of_auth_error MfaRequired = Unauthorized ''MFA_REQUIRED''"
| "api_of_auth_error (NotFound m) = BadRequest ''NOT_FOUND''"
| "api_of_auth_error (Conflict m) = BadRequest ''CONFLICT''"
| "api_of_auth_error ReauthRequired = InternalError"
| "api_of_auth_error (StoreError m) = InternalError"
| "api_of_auth_error (Internal m) = InternalError"

definition accept_invite ::
    "tenancy_env \<Rightarrow> time \<Rightarrow> string option \<Rightarrow> uuid \<Rightarrow> string \<Rightarrow> 'a acct_db_scheme \<Rightarrow> (api_error, unit) result \<times> 'a acct_db_scheme" where
  "accept_invite e now cookie mid code db =
     (case auth_uid e now cookie db of
        Inl err \<Rightarrow> (Inl err, db)
      | Inr uid \<Rightarrow>
          (case invitation_accept now mid code uid db of
             (Inl err, db') \<Rightarrow> (Inl (api_of_auth_error err), db')
           | (Inr _, db') \<Rightarrow> (Inr (), db')))"

definition upsert_idp_config ::
    "time \<Rightarrow> string option \<Rightarrow> uuid \<Rightarrow> uuid \<Rightarrow> string \<Rightarrow> string option \<Rightarrow> string option \<Rightarrow> string option \<Rightarrow> string option \<Rightarrow>
     'a acct_db_scheme \<Rightarrow> (api_error, uuid) result \<times> 'a acct_db_scheme" where
  "upsert_idp_config now cookie iid tid ty client_id client_secret issuer metadata_url db =
     (case auth now cookie db of
        Inl err \<Rightarrow> (Inl err, db)
      | Inr _ \<Rightarrow>
          (case idp_upsert \<lparr> ip_id = iid, ip_tenant_id = tid, ip_provider_type = ty, ip_metadata_url = metadata_url,
                  ip_issuer = issuer, ip_client_id = client_id, ip_client_secret = client_secret, ip_x509_cert = None,
                  ip_created_at = now, ip_is_active = True \<rparr> (ad_idps db) of
             (i, cs) \<Rightarrow> (Inr i, db \<lparr> ad_idps := cs \<rparr>)))"

definition create_m2m_client ::
    "tenancy_env \<Rightarrow> time \<Rightarrow> string option \<Rightarrow> uuid \<Rightarrow> string \<Rightarrow> string \<Rightarrow> uuid \<Rightarrow> string option \<Rightarrow> 'a acct_db_scheme \<Rightarrow>
     (api_error, string \<times> string) result \<times> 'a acct_db_scheme" where
  "create_m2m_client e now cookie i suffix secret tid scopes db =
     (case auth now cookie db of
        Inl err \<Rightarrow> (Inl err, db)
      | Inr _ \<Rightarrow>
          (let cid = ''m2m_'' @ take 8 suffix
           in case m2m_create \<lparr> mc_id = i, mc_tenant_id = tid, mc_client_id = cid, mc_client_secret_hash = te_sha256_hex e secret,
                     mc_scopes = unwrap_or [] scopes, mc_is_active = True, mc_created_at = now \<rparr> (ad_m2m db) of
                (Inl _, _) \<Rightarrow> (Inl InternalError, db)
              | (Inr _, cs) \<Rightarrow> (Inr (cid, secret), db \<lparr> ad_m2m := cs \<rparr>)))"

definition delete_passkey :: "time \<Rightarrow> string option \<Rightarrow> uuid \<Rightarrow> uuid \<Rightarrow> 'a acct_db_scheme \<Rightarrow> (api_error, unit) result \<times> 'a acct_db_scheme" where
  "delete_passkey now cookie uid pid db =
     (case auth now cookie db of
        Inl err \<Rightarrow> (Inl err, db)
      | Inr _ \<Rightarrow> (Inr (), db \<lparr> ad_passkeys := passkey_delete uid pid (ad_passkeys db) \<rparr>))"

definition patch_user :: "time \<Rightarrow> string option \<Rightarrow> uuid \<Rightarrow> string option \<Rightarrow> 'a acct_db_scheme \<Rightarrow> (api_error, unit) result \<times> 'a acct_db_scheme" where
  "patch_user now cookie uid display_name db =
     (case auth now cookie db of
        Inl err \<Rightarrow> (Inl err, db)
      | Inr _ \<Rightarrow>
          (Inr (), case display_name of None \<Rightarrow> db
                   | Some name \<Rightarrow> db \<lparr> ad_users := user_update_display_name uid name (ad_users db) \<rparr>))"

definition delete_user :: "tenancy_env \<Rightarrow> time \<Rightarrow> string option \<Rightarrow> 'a acct_db_scheme \<Rightarrow> (api_error, unit) result \<times> 'a acct_db_scheme" where
  "delete_user e now cookie db =
     (case auth_uid e now cookie db of
        Inl err \<Rightarrow> (Inl err, db)
      | Inr uid \<Rightarrow> (Inr (), db \<lparr> ad_users := user_soft_delete now uid (ad_users db) \<rparr>))"

section \<open>What a change of members implies\<close>

lemma require_permission_ok:
  assumes "require_tenant_permission e now cookie tid p db = Inr caller"
  obtains uid m where "auth_uid e now cookie db = Inr uid" "member_find uid tid (ad_members db) = Some m" "mb_is_active m"
    "caller = to_upper (mb_role m)" "can default_policy caller p"
  using assms by (auto simp: require_tenant_permission_def opt_filter_Some_iff split: sum.splits option.splits if_splits)

lemma member_in_tenant_ok:
  "member_in_tenant tid mid db = Inr m \<Longrightarrow>
   m \<in> set (ad_members db) \<and> mb_tenant_id m = tid \<and> mb_id m = mid \<and> mb_is_active m"
proof -
  assume "member_in_tenant tid mid db = Inr m"
  then have "find (\<lambda>m. mb_id m = mid \<and> mb_is_active m) (member_list_by_tenant tid (ad_members db)) = Some m"
    by (simp add: member_in_tenant_def split: option.splits)
  then have "m \<in> set (member_list_by_tenant tid (ad_members db))" "mb_id m = mid"
    by (auto simp: find_Some_iff simp del: length_sort)
  then show ?thesis by (simp add: member_list_by_tenant_def)
qed

lemma ascii_upper_idem: "ascii_upper (ascii_upper c) = ascii_upper c"
proof -
  have "97 \<le> n \<Longrightarrow> n \<le> 122 \<Longrightarrow> of_char (char_of (n - 32 :: nat)) = n - 32" for n :: nat by simp
  then show ?thesis by (auto simp: ascii_upper_def Let_def)
qed

lemma to_upper_idem [simp]: "to_upper (to_upper s) = to_upper s"
  by (simp add: to_upper_def ascii_upper_idem)

text \<open>
  C29: A member's role is changed only by someone entitled to: the caller has a live session, is an active
  member of that tenant whose role carries the permission to change roles, the changed row is an active
  membership of the same tenant, and neither the member's old role nor the new one ranks above the
  caller's. The new role is one the policy knows, and nothing but that row's role changes.
\<close>

theorem role_change_authorised:
  assumes "patch_member e now cookie tid mid role db = (Inr new_role, db')"
  shows "\<exists>uid caller target. auth_uid e now cookie db = Inr uid
    \<and> member_find uid tid (ad_members db) = Some caller \<and> mb_is_active caller
    \<and> can default_policy (to_upper (mb_role caller)) ''change_member_role''
    \<and> target \<in> set (ad_members db) \<and> mb_id target = mid \<and> mb_tenant_id target = tid \<and> mb_is_active target
    \<and> is_known_role default_policy new_role
    \<and> is_at_least default_policy (to_upper (mb_role caller)) new_role
    \<and> is_at_least default_policy (to_upper (mb_role caller)) (to_upper (mb_role target))
    \<and> db' = db \<lparr> ad_members := member_update_role mid new_role (ad_members db) \<rparr>"
proof -
  obtain cr target where cr: "require_tenant_permission e now cookie tid ''change_member_role'' db = Inr cr"
    and t: "member_in_tenant tid mid db = Inr target"
    and a: "authorize_role_change cr (mb_role target) new_role (owner_count_for tid target db) = Inr ()"
    and db': "db' = db \<lparr> ad_members := member_update_role mid new_role (ad_members db) \<rparr>"
    using assms by (auto simp: patch_member_def patch_member_check_def Let_def split: sum.splits)
  obtain uid m where m: "auth_uid e now cookie db = Inr uid" "member_find uid tid (ad_members db) = Some m" "mb_is_active m"
    "cr = to_upper (mb_role m)" "can default_policy cr ''change_member_role''"
    using cr by (rule require_permission_ok)
  have "is_known_role default_policy new_role" "is_at_least default_policy cr new_role"
    "is_at_least default_policy cr (to_upper (mb_role target))"
    using a m(4) by (auto simp: authorize_role_change_def Let_def to_upper_idem split: if_splits)
  then show ?thesis using m member_in_tenant_ok [OF t] db' by blast
qed

section \<open>A tenant keeps an owner\<close>

definition member_ids_ok :: "'a acct_db_scheme \<Rightarrow> bool" where
  "member_ids_ok db \<longleftrightarrow> distinct (map mb_id (ad_members db))"

inductive member_step :: "tenancy_env \<Rightarrow> 'a acct_db_scheme \<Rightarrow> 'a acct_db_scheme \<Rightarrow> bool" for e where
  change: "member_step e db (snd (patch_member e now cookie tid mid role db))"
| remove: "member_step e db (snd (delete_member e now cookie tid mid db))"

lemma count_update:
  assumes "distinct (map mb_id ms)" "m \<in> set ms" "\<And>x. mb_id (f x) = mb_id x"
  shows "count_active_owners tid (map (\<lambda>x. if mb_id x = mb_id m then f x else x) ms) + (if is_owner_of tid m then 1 else 0)
    = count_active_owners tid ms + (if is_owner_of tid (f m) then 1 else 0)"
  using assms
proof (induction ms)
  case Nil
  then show ?case by simp
next
  case (Cons a ms)
  show ?case
  proof (cases "a = m")
    case True
    then have "\<forall>x \<in> set ms. mb_id x \<noteq> mb_id m" using Cons.prems(1) by (auto simp: image_iff)
    then have "map (\<lambda>x. if mb_id x = mb_id m then f x else x) ms = ms" by (auto intro: map_idI)
    then show ?thesis using True by (simp add: count_active_owners_def)
  next
    case False
    then have "m \<in> set ms" "mb_id a \<noteq> mb_id m" using Cons.prems(1,2) by (auto simp: image_iff)
    then show ?thesis using Cons by (simp add: count_active_owners_def)
  qed
qed


lemma eq_ignore_case_refl: "eq_ignore_case s s"
  by (simp add: eq_ignore_case_def)

lemma upper_owner [simp]: "to_upper ''OWNER'' = ''OWNER''"
  by code_simp

lemma owner_target_counted:
  assumes "mb_role m = ''OWNER''"
  shows "to_upper (mb_role m) = ''OWNER''" "owner_count_for tid m db = count_active_owners tid (ad_members db)"
  using assms by (simp_all add: owner_count_for_def eq_ignore_case_refl)

lemma patch_keeps_owner:
  assumes "member_ids_ok db" "0 < count_active_owners t (ad_members db)"
  shows "0 < count_active_owners t (ad_members (snd (patch_member e now cookie tid mid role db)))"
proof (cases "patch_member e now cookie tid mid role db")
  case (Pair r db')
  show ?thesis
  proof (cases r)
    case (Inl err)
    then show ?thesis using Pair assms(2) by (auto simp: patch_member_def split: sum.splits)
  next
    case (Inr new_role)
    then obtain cr target where t: "member_in_tenant tid mid db = Inr target"
      and a: "authorize_role_change cr (mb_role target) new_role (owner_count_for tid target db) = Inr ()"
      and db': "ad_members db' = member_update_role mid new_role (ad_members db)"
      using Pair by (auto simp: patch_member_def patch_member_check_def Let_def split: sum.splits)
    note mt = member_in_tenant_ok [OF t]
    have eq: "ad_members db' = map (\<lambda>x. if mb_id x = mb_id target then x \<lparr> mb_role := new_role \<rparr> else x) (ad_members db)"
      using db' mt by (simp add: member_update_role_def)
    from count_update [of "ad_members db" target "\<lambda>x. x \<lparr> mb_role := new_role \<rparr>" t] mt assms(1)
    have c: "count_active_owners t (ad_members db') + (if is_owner_of t target then 1 else 0)
      = count_active_owners t (ad_members db) + (if is_owner_of t (target \<lparr> mb_role := new_role \<rparr>) then 1 else 0)"
      by (simp add: eq member_ids_ok_def)
    show ?thesis
    proof (cases "is_owner_of t target \<and> new_role \<noteq> ''OWNER''")
      case True
      then have o: "mb_role target = ''OWNER''" "t = tid" using mt by (auto simp: is_owner_of_def)
      then have "\<not> count_active_owners t (ad_members db) \<le> 1"
        using a True by (auto simp: authorize_role_change_def Let_def owner_target_counted split: if_splits)
      then show ?thesis using c Pair by (auto split: if_splits)
    next
      case False
      then show ?thesis using c Pair assms(2) by (auto simp: is_owner_of_def split: if_splits)
    qed
  qed
qed

lemma delete_keeps_owner:
  assumes "member_ids_ok db" "0 < count_active_owners t (ad_members db)"
  shows "0 < count_active_owners t (ad_members (snd (delete_member e now cookie tid mid db)))"
proof (cases "delete_member e now cookie tid mid db")
  case (Pair r db')
  show ?thesis
  proof (cases r)
    case (Inl err)
    then show ?thesis using Pair assms(2) by (auto simp: delete_member_def split: sum.splits)
  next
    case (Inr u)
    then obtain cr target where t: "member_in_tenant tid mid db = Inr target"
      and a: "authorize_member_removal cr (mb_role target) (owner_count_for tid target db) = Inr ()"
      and db': "ad_members db' = member_deactivate mid (ad_members db)"
      using Pair by (auto simp: delete_member_def delete_member_check_def split: sum.splits)
    note mt = member_in_tenant_ok [OF t]
    have eq: "ad_members db' = map (\<lambda>x. if mb_id x = mb_id target then x \<lparr> mb_is_active := False \<rparr> else x) (ad_members db)"
      using db' mt by (simp add: member_deactivate_def)
    from count_update [of "ad_members db" target "\<lambda>x. x \<lparr> mb_is_active := False \<rparr>" t] mt assms(1)
    have c: "count_active_owners t (ad_members db') + (if is_owner_of t target then 1 else 0) = count_active_owners t (ad_members db)"
      by (simp add: eq member_ids_ok_def is_owner_of_def)
    show ?thesis
    proof (cases "is_owner_of t target")
      case True
      then have "mb_role target = ''OWNER''" "t = tid" using mt by (auto simp: is_owner_of_def)
      then have "\<not> count_active_owners t (ad_members db) \<le> 1"
        using a by (auto simp: authorize_member_removal_def Let_def owner_target_counted split: if_splits)
      then show ?thesis using c Pair by (auto split: if_splits)
    next
      case False
      then show ?thesis using c Pair assms(2) by auto
    qed
  qed
qed

lemma member_step_ids: "member_step e db db' \<Longrightarrow> member_ids_ok db \<Longrightarrow> member_ids_ok db'"
proof -
  have "map mb_id (member_update_role mid role ms) = map mb_id ms" "map mb_id (member_deactivate mid ms) = map mb_id ms"
    for mid role ms by (simp_all add: member_update_role_def member_deactivate_def comp_def)
  then show "member_step e db db' \<Longrightarrow> member_ids_ok db \<Longrightarrow> member_ids_ok db'"
    by (auto simp: member_ids_ok_def patch_member_def delete_member_def elim!: member_step.cases split: sum.splits)
qed

text \<open>
  C30: A tenant that has an active owner keeps one, whoever changes roles and removes members in whatever
  order: the last owner can neither be demoted nor removed.
\<close>

theorem tenant_keeps_an_owner:
  assumes "(member_step e)\<^sup>*\<^sup>* db db'" "member_ids_ok db" "0 < count_active_owners t (ad_members db)"
  shows "0 < count_active_owners t (ad_members db')"
proof -
  from assms have "member_ids_ok db' \<and> 0 < count_active_owners t (ad_members db')"
  proof (induction rule: rtranclp_induct)
    case (step y z)
    then have "member_ids_ok z" by (blast intro: member_step_ids)
    moreover have "0 < count_active_owners t (ad_members z)"
      using step by (auto intro: patch_keeps_owner delete_keeps_owner elim!: member_step.cases)
    ultimately show ?case ..
  qed auto
  then show ?thesis ..
qed


text \<open>The bound on owners is one of requests one after the other: two demotions that are checked before either writes leave no owner.\<close>

definition demo_tenancy :: tenancy_env where
  "demo_tenancy = \<lparr> te_parse_uuid = (\<lambda>s. if s = ''u1'' then Some 1 else if s = ''u2'' then Some 2 else None), te_sha256_hex = (\<lambda>s. CHR ''h'' # s) \<rparr>"

definition demo_member :: "uuid \<Rightarrow> uuid \<Rightarrow> uuid \<Rightarrow> string \<Rightarrow> membership_record" where
  "demo_member mid uid tid role = \<lparr> mb_id = mid, mb_user_id = uid, mb_tenant_id = tid, mb_role = role, mb_joined_at = 0,
     mb_invited_by = None, mb_is_active = True \<rparr>"

definition demo_user_session :: "string \<Rightarrow> string \<Rightarrow> session_record" where
  "demo_user_session sid uid =
     \<lparr> sr_session_id = sid, sr_user_id = uid, sr_tenant_id = ''t1'', sr_return_to = None, sr_created_at = 0, sr_last_active_at = 0,
       sr_expires_at = 100, sr_invalidated_at = None, sr_mfa_verified_at = None, sr_ip_address = None, sr_user_agent = None,
       sr_csrf_token = None, sr_email = None, sr_tenant_slug = None, sr_roles = [''MEMBER''], sr_display_name = None \<rparr>"

definition demo_acct :: "membership_record list \<Rightarrow> acct_db" where
  "demo_acct ms = \<lparr> ad_sessions = [to_row (demo_user_session ''s1'' ''u1''), to_row (demo_user_session ''s2'' ''u2'')], ad_users = [],
     ad_tenants = [], ad_members = ms, ad_invitations = [], ad_usages = [], ad_m2m = [], ad_idps = [], ad_passkeys = [] \<rparr>"

definition two_owners :: acct_db where
  "two_owners = demo_acct [demo_member 11 1 7 ''OWNER'', demo_member 12 2 7 ''OWNER'']"

theorem concurrent_demotions_leave_no_owner:
  "patch_member_check demo_tenancy 0 (Some ''s1'') 7 12 ''member'' two_owners = Inr ''MEMBER'' \<and>
   patch_member_check demo_tenancy 0 (Some ''s2'') 7 11 ''member'' two_owners = Inr ''MEMBER'' \<and>
   count_active_owners 7 (member_update_role 12 ''MEMBER'' (member_update_role 11 ''MEMBER'' (ad_members two_owners))) = 0"
  by code_simp

theorem tenant_keeps_an_owner_witness:
  "0 < count_active_owners 7 (ad_members (snd (patch_member demo_tenancy 0 (Some ''s1'') 7 12 ''member'' two_owners)))"
proof -
  have "(member_step demo_tenancy)\<^sup>*\<^sup>* two_owners (snd (patch_member demo_tenancy 0 (Some ''s1'') 7 12 ''member'' two_owners))"
    by (rule r_into_rtranclp) (rule member_step.change)
  then show ?thesis
    by (rule tenant_keeps_an_owner)
      (simp_all add: two_owners_def demo_acct_def demo_member_def member_ids_ok_def count_active_owners_def is_owner_of_def)
qed

theorem role_change_authorised_witness:
  "is_at_least default_policy ''OWNER'' ''MEMBER'' \<and>
   fst (patch_member demo_tenancy 0 (Some ''s1'') 7 12 ''member'' two_owners) = Inr ''MEMBER''"
proof -
  have p: "fst (patch_member demo_tenancy 0 (Some ''s1'') 7 12 ''member'' two_owners) = Inr ''MEMBER''" by code_simp
  then obtain db' where "patch_member demo_tenancy 0 (Some ''s1'') 7 12 ''member'' two_owners = (Inr ''MEMBER'', db')"
    by (metis prod.collapse)
  from role_change_authorised [OF this] obtain uid caller where
    "auth_uid demo_tenancy 0 (Some ''s1'') two_owners = Inr uid" "member_find uid 7 (ad_members two_owners) = Some caller"
    "is_at_least default_policy (to_upper (mb_role caller)) ''MEMBER''" by blast
  moreover have "auth_uid demo_tenancy 0 (Some ''s1'') two_owners = Inr 1" by code_simp
  ultimately show ?thesis using p
    by (auto simp: two_owners_def demo_acct_def demo_member_def member_find_def)
qed

section \<open>Invitations\<close>

definition uses_of :: "uuid \<Rightarrow> 'a acct_db_scheme \<Rightarrow> nat" where
  "uses_of iid db = length (filter (\<lambda>u. fst u = iid) (ad_usages db))"

definition invitations_ok :: "'a acct_db_scheme \<Rightarrow> bool" where
  "invitations_ok db \<longleftrightarrow> distinct (map iv_id (ad_invitations db))
     \<and> (\<forall>i \<in> set (ad_invitations db). iv_max_uses i \<le> 1 \<and> iv_used_count i = int (uses_of (iv_id i) db) \<and> uses_of (iv_id i) db \<le> 1)
     \<and> (\<forall>u \<in> set (ad_usages db). fst u \<in> iv_id ` set (ad_invitations db))"

inductive invitation_step :: "tenancy_env \<Rightarrow> 'a acct_db_scheme \<Rightarrow> 'a acct_db_scheme \<Rightarrow> bool" for e where
  invite: "invitation_step e db (snd (create_invitation e now cookie iid code tid email role db))"
| cancel: "invitation_step e db (snd (cancel_invitation now cookie tid iid db))"
| accept: "invitation_step e db (snd (accept_invite e now cookie mid code db))"
| change_role: "invitation_step e db (snd (patch_member e now cookie tid mid role db))"
| remove_member: "invitation_step e db (snd (delete_member e now cookie tid mid db))"

lemma invitations_ok_create:
  assumes "invitations_ok db"
  shows "invitations_ok (snd (create_invitation e now cookie iid code tid email role db))"
proof -
  have "uses_of iid db = 0" if "iid \<notin> iv_id ` set (ad_invitations db)"
    using assms that by (auto simp: invitations_ok_def uses_of_def filter_empty_conv)
  then show ?thesis using assms
    by (auto simp: create_invitation_def invitation_create_def invitations_ok_def uses_of_def split: sum.splits)
qed

lemma invitations_ok_cancel:
  assumes "invitations_ok db"
  shows "invitations_ok (snd (cancel_invitation now cookie tid iid db))"
proof (cases "auth now cookie db")
  case (Inl err)
  then show ?thesis using assms by (simp add: cancel_invitation_def)
next
  case (Inr s)
  have "map iv_id (invitation_cancel iid ivs) = map iv_id ivs" for ivs
    by (simp add: invitation_cancel_def comp_def)
  moreover from this have "iv_id ` set (invitation_cancel iid ivs) = iv_id ` set ivs" for ivs
    by (metis list.set_map)
  ultimately show ?thesis using assms Inr
    by (auto simp: cancel_invitation_def invitations_ok_def uses_of_def) (auto simp: invitation_cancel_def)
qed

lemma invitations_ok_accept:
  assumes "invitations_ok db"
  shows "invitations_ok (snd (invitation_accept now mid code uid db))"
proof (cases "invitation_find_by_code code (ad_invitations db)")
  case None
  then show ?thesis using assms by (simp add: invitation_accept_def)
next
  case (Some v)
  show ?thesis
  proof (cases "is_usable_at v now")
    case False
    then show ?thesis using Some assms by (simp add: invitation_accept_def)
  next
    case True
    let ?g = "\<lambda>i. if iv_id i = iv_id v then i \<lparr> iv_used_count := iv_used_count i + 1 \<rparr> else i"
    let ?db = "snd (invitation_accept now mid code uid db)"
    have v: "v \<in> set (ad_invitations db)" using Some by (auto simp: invitation_find_by_code_def find_Some_iff)
    then have z: "uses_of (iv_id v) db = 0" using True assms unfolding invitations_ok_def is_usable_at_def by fastforce
    have inv: "ad_invitations ?db = map ?g (ad_invitations db)" and us: "ad_usages ?db = ad_usages db @ [(iv_id v, uid)]"
      using Some True by (simp_all add: invitation_accept_def)
    have ids: "map iv_id (ad_invitations ?db) = map iv_id (ad_invitations db)" by (simp add: inv comp_def)
    then have idset: "iv_id ` set (ad_invitations ?db) = iv_id ` set (ad_invitations db)" by (metis list.set_map)
    have cnt: "uses_of iid ?db = uses_of iid db + (if iid = iv_id v then 1 else 0)" for iid
      by (simp add: uses_of_def us)
    have "iv_max_uses (?g i) \<le> 1 \<and> iv_used_count (?g i) = int (uses_of (iv_id (?g i)) ?db) \<and> uses_of (iv_id (?g i)) ?db \<le> 1"
      if "i \<in> set (ad_invitations db)" for i
      using that assms z by (cases "iv_id i = iv_id v") (auto simp: cnt invitations_ok_def)
    then have "\<forall>i \<in> set (ad_invitations ?db). iv_max_uses i \<le> 1 \<and> iv_used_count i = int (uses_of (iv_id i) ?db) \<and> uses_of (iv_id i) ?db \<le> 1"
      unfolding inv list.set_map by (intro ballI) (erule imageE, simp only:)
    then show ?thesis using assms v unfolding invitations_ok_def ids idset us by simp
  qed
qed

lemma invitations_ok_members:
  "invitations_ok (db \<lparr> ad_members := ms \<rparr>) = invitations_ok db"
  by (simp add: invitations_ok_def uses_of_def)

lemma invitation_step_ok: "invitation_step e db db' \<Longrightarrow> invitations_ok db \<Longrightarrow> invitations_ok db'"
proof (induction rule: invitation_step.induct)
  case (accept db now cookie mid code)
  then show ?case
    by (auto simp: accept_invite_def split: sum.splits prod.splits dest: invitations_ok_accept [of db now mid code])
       (metis invitations_ok_accept snd_conv)+
qed (auto simp: invitations_ok_create invitations_ok_cancel patch_member_def delete_member_def invitations_ok_members split: sum.splits)

text \<open>
  An invitation admits one user. However invitations are created, cancelled and accepted, by whomever
  and in whatever order, and whatever happens to memberships meanwhile, no invitation is used twice.
\<close>

theorem invitation_used_once:
  assumes "(invitation_step e)\<^sup>*\<^sup>* db db'" "ad_invitations db = []" "ad_usages db = []"
  shows "uses_of iid db' \<le> 1"
proof -
  have "invitations_ok db'"
    using assms(1) by (induction rule: rtranclp_induct)
      (auto simp: assms(2,3) invitations_ok_def [of db] intro: invitation_step_ok)
  then have used: "\<forall>i \<in> set (ad_invitations db'). uses_of (iv_id i) db' \<le> 1"
    and known: "\<forall>u \<in> set (ad_usages db'). fst u \<in> iv_id ` set (ad_invitations db')"
    by (simp_all add: invitations_ok_def)
  show ?thesis
  proof (cases "iid \<in> iv_id ` set (ad_invitations db')")
    case True
    then show ?thesis using used by auto
  next
    case False
    then have "filter (\<lambda>u. fst u = iid) (ad_usages db') = []" using known by (auto simp: filter_empty_conv)
    then show ?thesis by (simp add: uses_of_def)
  qed
qed

lemma join_member_finds:
  "\<exists>m. member_find uid (iv_tenant_id invt) (join_member now mid uid invt ms) = Some m \<and> mb_role m = iv_role invt \<and> mb_is_active m"
proof (cases "list_ex (\<lambda>m. mb_user_id m = uid \<and> mb_tenant_id m = iv_tenant_id invt) ms")
  case True
  then have "\<exists>m. find (\<lambda>m. mb_user_id m = uid \<and> mb_tenant_id m = iv_tenant_id invt)
      (map (\<lambda>m. if mb_user_id m = uid \<and> mb_tenant_id m = iv_tenant_id invt
             then m \<lparr> mb_role := iv_role invt, mb_is_active := True \<rparr> else m) ms) = Some m
    \<and> mb_role m = iv_role invt \<and> mb_is_active m" by (induction ms) auto
  then show ?thesis using True by (simp add: join_member_def member_find_def)
next
  case False
  then have "find (\<lambda>m. mb_user_id m = uid \<and> mb_tenant_id m = iv_tenant_id invt) ms = None" by (auto simp: find_None_iff list_ex_iff)
  then show ?thesis using False by (simp add: join_member_def member_find_def find_append)
qed

text \<open>
  The permission gate does not cover invitations: whoever is signed in can invite himself into any tenant
  as its owner.
\<close>

theorem anyone_becomes_owner:
  assumes "auth_uid e now cookie db = Inr uid"
    and "iid \<notin> iv_id ` set (ad_invitations db)" "code \<notin> iv_code ` set (ad_invitations db)"
  shows "\<exists>m. member_find uid tid
      (ad_members (snd (accept_invite e now cookie mid code (snd (create_invitation e now cookie iid code tid None (Some ''OWNER'') db))))) = Some m
    \<and> mb_role m = ''OWNER'' \<and> mb_is_active m"
proof -
  let ?iv = "\<lparr> iv_id = iid, iv_tenant_id = tid, iv_code = code, iv_email = None, iv_role = ''OWNER'', iv_max_uses = 1,
    iv_used_count = 0, iv_created_by = uid, iv_created_at = now, iv_expires_at = now + secs (7 * 86400) \<rparr>"
  let ?db = "db \<lparr> ad_invitations := ad_invitations db @ [?iv] \<rparr>"
  have c: "snd (create_invitation e now cookie iid code tid None (Some ''OWNER'') db) = ?db"
    using assms by (simp add: create_invitation_def invitation_create_def)
  have "auth_uid e now cookie ?db = auth_uid e now cookie db" by (cases cookie) (simp_all add: auth_uid_def auth_def)
  then have "auth_uid e now cookie ?db = Inr uid" using assms(1) by simp
  moreover have "find (\<lambda>i. iv_code i = code) (ad_invitations db) = None" using assms(3) by (auto simp: find_None_iff image_iff)
  then have f: "invitation_find_by_code code (ad_invitations ?db) = Some ?iv"
    by (simp add: invitation_find_by_code_def find_append)
  ultimately have a: "ad_members (snd (accept_invite e now cookie mid code ?db)) = join_member now mid uid ?iv (ad_members db)"
    by (simp add: accept_invite_def invitation_accept_def is_usable_at_def secs_def)
  from join_member_finds [of uid ?iv now mid "ad_members db"] show ?thesis unfolding c a by simp
qed

text \<open>Accepting an invitation overwrites the role of a member, so the only owner can lose the tenant by accepting one.\<close>

theorem accepting_demotes_the_last_owner:
  "count_active_owners 7 (ad_members (demo_acct [demo_member 11 1 7 ''OWNER''])) = 1 \<and>
   count_active_owners 7 (ad_members (snd (accept_invite demo_tenancy 0 (Some ''s1'') 13 ''c''
     (snd (create_invitation demo_tenancy 0 (Some ''s2'') 21 ''c'' 7 None None (demo_acct [demo_member 11 1 7 ''OWNER'']))))) ) = 0"
  by code_simp

theorem invitation_used_once_witness:
  "uses_of 21 (snd (accept_invite demo_tenancy 0 (Some ''s1'') 13 ''c''
     (snd (create_invitation demo_tenancy 0 (Some ''s2'') 21 ''c'' 7 None None (demo_acct []))))) \<le> 1"
proof (rule invitation_used_once)
  let ?db = "snd (create_invitation demo_tenancy 0 (Some ''s2'') 21 ''c'' 7 None None (demo_acct []))"
  have "invitation_step demo_tenancy (demo_acct []) ?db" by (rule invitation_step.invite)
  moreover have "invitation_step demo_tenancy ?db (snd (accept_invite demo_tenancy 0 (Some ''s1'') 13 ''c'' ?db))"
    by (rule invitation_step.accept)
  ultimately show "(invitation_step demo_tenancy)\<^sup>*\<^sup>* (demo_acct []) (snd (accept_invite demo_tenancy 0 (Some ''s1'') 13 ''c'' ?db))"
    by (meson r_into_rtranclp rtranclp.rtrancl_into_rtrancl)
qed (simp_all add: demo_acct_def)

end
