(* ===== verification/Dpop.thy ===== *)
theory Dpop
  imports Session_Jwt
begin

text \<open>
  Proofs of possession (\<open>auth-core/src/dpop.rs\<close>): the checks on a \<open>DPoP\<close> proof and the thumbprint of its
  key. Parsing and signature checking are the \<open>jsonwebtoken\<close> crate's, hashing and base64 are those of
  \<open>sha2\<close> and \<open>base64\<close>: \<open>dpop_ops\<close> has the calls made of them. The clock is a 64-bit number of seconds.
\<close>

datatype jwk = EllipticCurve "string option" string string | RsaJwk string string | OtherJwk

datatype dpop_alg = DpopES256 | DpopRS256 | DpopOther

record dpop_header =
  dh_typ :: "string option"
  dh_alg :: dpop_alg
  dh_jwk :: "jwk option"

record proof_claims =
  pc_jti :: string
  pc_htm :: string
  pc_htu :: string
  pc_iat :: u64
  pc_ath :: "string option"

record verified_proof =
  vp_jkt :: string
  vp_jti :: string

datatype dpop_error = Malformed string | BadSignature | ClaimMismatch string

record dpop_ops =
  dp_decode_header :: "string \<Rightarrow> (string, dpop_header) result"
  dp_from_jwk :: "jwk \<Rightarrow> (string, string) result"
  dp_decode :: "string \<Rightarrow> string \<Rightarrow> dpop_alg \<Rightarrow> proof_claims option"
  dp_sha256_base64url :: "string \<Rightarrow> string"

definition IAT_WINDOW_SECS :: u64 where
  "IAT_WINDOW_SECS = 300"

definition dq :: "string \<Rightarrow> string" where
  "dq s = CHR 0x22 # s @ [CHR 0x22]"

definition jwk_thumbprint :: "dpop_ops \<Rightarrow> jwk \<Rightarrow> (dpop_error, string) result" where
  "jwk_thumbprint ops k =
     (case k of
        EllipticCurve None x y \<Rightarrow> Inl (Malformed ''bad curve'')
      | EllipticCurve (Some crv) x y \<Rightarrow>
          Inr (dp_sha256_base64url ops
            (''{'' @ dq ''crv'' @ '':'' @ dq crv @ '','' @ dq ''kty'' @ '':'' @ dq ''EC'' @ '','' @
             dq ''x'' @ '':'' @ dq x @ '','' @ dq ''y'' @ '':'' @ dq y @ ''}''))
      | RsaJwk e n \<Rightarrow>
          Inr (dp_sha256_base64url ops
            (''{'' @ dq ''e'' @ '':'' @ dq e @ '','' @ dq ''kty'' @ '':'' @ dq ''RSA'' @ '','' @
             dq ''n'' @ '':'' @ dq n @ ''}''))
      | OtherJwk \<Rightarrow> Inl (Malformed ''unsupported JWK key type''))"

definition access_token_hash :: "dpop_ops \<Rightarrow> string \<Rightarrow> string" where
  "access_token_hash ops token = dp_sha256_base64url ops token"

definition htu_base :: "string \<Rightarrow> string" where
  "htu_base htu = takeWhile (\<lambda>c. c \<noteq> CHR ''?'' \<and> c \<noteq> CHR ''#'') htu"

definition iat_out_of_window :: "u64 \<Rightarrow> u64 \<Rightarrow> bool" where
  "iat_out_of_window iat now \<longleftrightarrow> iat > now + IAT_WINDOW_SECS \<or> iat + IAT_WINDOW_SECS < now"

definition check_ath :: "dpop_ops \<Rightarrow> string option \<Rightarrow> string option \<Rightarrow> (dpop_error, unit) result" where
  "check_ath ops access_token ath =
     (case (access_token, ath) of
        (Some tok, Some a) \<Rightarrow>
          (if access_token_hash ops tok \<noteq> a then Inl (ClaimMismatch ''ath does not match access token'') else Inr ())
      | (Some _, None) \<Rightarrow> Inl (ClaimMismatch ''ath required at resource'')
      | (None, _) \<Rightarrow> Inr ())"

definition check_claims ::
    "dpop_ops \<Rightarrow> proof_claims \<Rightarrow> string \<Rightarrow> string \<Rightarrow> string option \<Rightarrow> u64 \<Rightarrow> (dpop_error, unit) result" where
  "check_claims ops c htm htu access_token now =
     (if \<not> eq_ignore_case (pc_htm c) htm then Inl (ClaimMismatch (''htm '' @ pc_htm c @ '' != '' @ htm))
      else if htu_base (pc_htu c) \<noteq> htu then Inl (ClaimMismatch (''htu '' @ htu_base (pc_htu c) @ '' != '' @ htu))
      else if iat_out_of_window (pc_iat c) now then Inl (ClaimMismatch ''iat outside acceptance window'')
      else check_ath ops access_token (pc_ath c))"

definition verify_proof ::
    "dpop_ops \<Rightarrow> string \<Rightarrow> string \<Rightarrow> string \<Rightarrow> string option \<Rightarrow> u64 \<Rightarrow> (dpop_error, verified_proof) result" where
  "verify_proof ops proof htm htu access_token now =
     (case dp_decode_header ops proof of
        Inl e \<Rightarrow> Inl (Malformed e)
      | Inr h \<Rightarrow>
          (if dh_typ h \<noteq> Some ''dpop+jwt'' then Inl (Malformed ''typ must be dpop+jwt'')
           else if dh_alg h = DpopOther then Inl (Malformed ''alg must be ES256 or RS256'')
           else (case dh_jwk h of
                   None \<Rightarrow> Inl (Malformed ''missing jwk header'')
                 | Some k \<Rightarrow>
                     (case dp_from_jwk ops k of
                        Inl e \<Rightarrow> Inl (Malformed (''bad jwk: '' @ e))
                      | Inr key \<Rightarrow>
                          (case dp_decode ops proof key (dh_alg h) of
                             None \<Rightarrow> Inl BadSignature
                           | Some c \<Rightarrow>
                               (case check_claims ops c htm htu access_token now of
                                  Inl e \<Rightarrow> Inl e
                                | Inr _ \<Rightarrow>
                                    (case jwk_thumbprint ops k of
                                       Inl e \<Rightarrow> Inl e
                                     | Inr jkt \<Rightarrow> Inr \<lparr> vp_jkt = jkt, vp_jti = pc_jti c \<rparr>)))))))"

section \<open>The acceptance window\<close>

text \<open>The additions do not wrap: an issue time that could make the second one wrap is refused by the first.\<close>

lemma iat_window_exact:
  assumes "unat now + 600 < 2 ^ 64"
  shows "iat_out_of_window iat now \<longleftrightarrow> unat now + 300 < unat iat \<or> unat iat + 300 < unat now"
proof -
  have n: "unat (now + IAT_WINDOW_SECS) = unat now + 300"
    using assms by (simp add: IAT_WINDOW_SECS_def unat_word_ariths)
  show ?thesis
  proof (cases "unat now + 300 < unat iat")
    case True
    then show ?thesis using n by (simp add: iat_out_of_window_def word_less_nat_alt)
  next
    case False
    then have "unat iat + 300 < 2 ^ 64" using assms by simp
    then have "unat (iat + IAT_WINDOW_SECS) = unat iat + 300"
      by (simp add: IAT_WINDOW_SECS_def unat_word_ariths)
    then show ?thesis using n by (simp add: iat_out_of_window_def word_less_nat_alt)
  qed
qed

text \<open>
  C28: A proof is accepted only when it is what it claims: a \<open>dpop+jwt\<close> signed with ES256 or RS256 under the
  key it carries, for this method and this URI, issued within five minutes of now either way, and, where
  an access token is presented, bound to that token by its hash. The thumbprint returned is that of the
  key that verified it. Times near the end of the 64-bit range do not defeat the window.
\<close>

theorem verify_proof_sound:
  assumes "verify_proof ops proof htm htu access_token now = Inr v" "unat now + 600 < 2 ^ 64"
  shows "\<exists>h k key c. dp_decode_header ops proof = Inr h \<and> dh_typ h = Some ''dpop+jwt'' \<and> dh_alg h \<in> {DpopES256, DpopRS256}
    \<and> dh_jwk h = Some k \<and> dp_from_jwk ops k = Inr key \<and> dp_decode ops proof key (dh_alg h) = Some c
    \<and> eq_ignore_case (pc_htm c) htm \<and> htu_base (pc_htu c) = htu
    \<and> unat (pc_iat c) \<le> unat now + 300 \<and> unat now \<le> unat (pc_iat c) + 300
    \<and> (\<forall>tok. access_token = Some tok \<longrightarrow> pc_ath c = Some (access_token_hash ops tok))
    \<and> jwk_thumbprint ops k = Inr (vp_jkt v) \<and> vp_jti v = pc_jti c"
proof -
  obtain h where h: "dp_decode_header ops proof = Inr h" "dh_typ h = Some ''dpop+jwt''" "dh_alg h \<noteq> DpopOther"
    using assms(1) by (auto simp: verify_proof_def split: sum.splits if_splits)
  then obtain k key c where k: "dh_jwk h = Some k" "dp_from_jwk ops k = Inr key" "dp_decode ops proof key (dh_alg h) = Some c"
    and cc: "check_claims ops c htm htu access_token now = Inr ()" "jwk_thumbprint ops k = Inr (vp_jkt v)" "vp_jti v = pc_jti c"
    using assms(1) by (auto simp: verify_proof_def split: sum.splits option.splits)
  from h(3) have "dh_alg h \<in> {DpopES256, DpopRS256}" by (cases "dh_alg h") auto
  moreover have "\<not> iat_out_of_window (pc_iat c) now" "eq_ignore_case (pc_htm c) htm" "htu_base (pc_htu c) = htu"
    "\<forall>tok. access_token = Some tok \<longrightarrow> pc_ath c = Some (access_token_hash ops tok)"
    using cc(1) by (auto simp: check_claims_def check_ath_def split: if_splits option.splits)
  ultimately show ?thesis using h k cc iat_window_exact [OF assms(2), of "pc_iat c"] by auto
qed

section \<open>Instance\<close>

definition demo_dpop :: dpop_ops where
  "demo_dpop = \<lparr> dp_decode_header = (\<lambda>_. Inr \<lparr> dh_typ = Some ''dpop+jwt'', dh_alg = DpopES256, dh_jwk = Some (RsaJwk ''AQAB'' ''n'') \<rparr>),
     dp_from_jwk = (\<lambda>_. Inr ''key''),
     dp_decode = (\<lambda>p key a. if key = ''key'' then Some \<lparr> pc_jti = p, pc_htm = ''POST'', pc_htu = ''https://a/t?x'', pc_iat = 990, pc_ath = None \<rparr> else None),
     dp_sha256_base64url = (\<lambda>s. ''h'') \<rparr>"

theorem verify_proof_sound_witness:
  "\<exists>c. dp_decode demo_dpop ''j'' ''key'' DpopES256 = Some c \<and> htu_base (pc_htu c) = ''https://a/t''
     \<and> unat (pc_iat c) \<le> 1300"
proof -
  have v: "verify_proof demo_dpop ''j'' ''post'' ''https://a/t'' None 1000 = Inr \<lparr> vp_jkt = ''h'', vp_jti = ''j'' \<rparr>"
    by code_simp
  have n: "unat (1000 :: u64) + 600 < 2 ^ 64" by simp
  from verify_proof_sound [OF v n] show ?thesis by (auto simp: demo_dpop_def)
qed

end
