(* ===== verification/OAuth_Provider.thy ===== *)
theory OAuth_Provider
  imports OAuth_Store Tenancy Dpop Headers
begin

text \<open>
  The OpenID provider (\<open>auth-server/src/handlers/op.rs\<close>), the device grant
  (\<open>auth-server/src/handlers/device.rs\<close>), the token endpoint that dispatches between them
  (\<open>oauth_token\<close> of \<open>auth-server/src/handlers/manage.rs\<close>) and key rotation
  (\<open>auth-server/src/handlers/signing_key.rs\<close>). Random values are arguments of the handlers. Signing,
  hashing, UUID text and JSON decoding of a token payload are parameters. Pages are kept by the data
  they show, error bodies by status, code and description.
\<close>

section \<open>State and surroundings\<close>

record access_claims =
  at_iss :: string
  at_sub :: string
  at_scope :: string
  at_client_id :: string
  at_iat :: nat
  at_exp :: nat
  at_cnf_jkt :: "string option"
  at_act :: "string option"
  at_aud :: "string option"

record id_claims =
  it_iss :: string
  it_sub :: string
  it_aud :: string
  it_iat :: nat
  it_exp :: nat
  it_nonce :: "string option"
  it_user :: "(string \<times> string option) option"

record logout_claims =
  lg_iss :: string
  lg_aud :: string
  lg_sub :: string
  lg_iat :: nat
  lg_jti :: string

datatype op_claims = AccessToken access_claims | IdToken id_claims | LogoutToken logout_claims

record token_payload =
  tp_scope :: "string option"
  tp_cnf_jkt :: "string option"

record op_env =
  oe_base_url :: string
  oe_sha256_hex :: "string \<Rightarrow> string"
  oe_sha256_base64url :: "string \<Rightarrow> string"
  oe_show_uuid :: "uuid \<Rightarrow> string"
  oe_parse_uuid :: "string \<Rightarrow> uuid option"
  oe_op_issuer :: "(op_claims \<Rightarrow> (string, string) result) option"
  oe_jwt :: jwt_ops
  oe_rsa_pem_ok :: "string \<Rightarrow> bool"
  oe_payload :: "string \<Rightarrow> token_payload option"
  oe_dpop :: dpop_ops
  oe_session_issuer :: jwt_issuer
  oe_session_ttl_secs :: u64

record op_db = acct_db +
  op_clients :: "oauth_client list"
  op_codes :: "authz_code list"
  op_refresh :: "refresh_token list"
  op_consents :: "oauth_consent list"
  op_devices :: "device_grant list"
  op_identities :: "user_identity list"
  op_keys :: "signing_key list"

record token_body =
  tb_access_token :: string
  tb_token_type :: string
  tb_scope :: "string option"
  tb_id_token :: "string option"
  tb_refresh_token :: "string option"

datatype op_response =
    PageErr nat string string
  | OauthErr nat string string
  | ApiErr api_error
  | RedirectTo string
  | ConsentPage string "string option list" "(string \<times> string) list"
  | Tokens token_body
  | Userinfo string "(string \<times> string option) option"
  | Introspection "string option"
  | LogoutPage "string list" string
  | Created string "string option"
  | DeviceCodes string string string string int
  | DevicePage "string option" "(string \<times> string option) option"
  | Decided bool
  | RevokedOk
  | OkTrue

section \<open>Helpers\<close>

text \<open>The UTF-8 bytes of the dash in an error text.\<close>

definition em_dash :: string where
  "em_dash = [CHR 0xE2, CHR 0x80, CHR 0x94]"

definition now_unix :: "time \<Rightarrow> nat" where
  "now_unix now = nat (now div 1000000)"

definition replace_char :: "char \<Rightarrow> string \<Rightarrow> string \<Rightarrow> string" where
  "replace_char c r s = concat (map (\<lambda>x. if x = c then r else [x]) s)"

definition html_escape :: "string \<Rightarrow> string" where
  "html_escape s =
     replace_char CHR 0x27 ''&#39;'' (replace_char CHR 0x22 ''&quot;'' (replace_char CHR ''>'' ''&gt;''
       (replace_char CHR ''<'' ''&lt;'' (replace_char CHR ''&'' ''&amp;'' s))))"

definition unreserved :: "char \<Rightarrow> bool" where
  "unreserved c \<longleftrightarrow> (let b = of_char c :: nat in
     65 \<le> b \<and> b \<le> 90 \<or> 97 \<le> b \<and> b \<le> 122 \<or> 48 \<le> b \<and> b \<le> 57 \<or> c \<in> {CHR ''-'', CHR ''_'', CHR ''.'', CHR ''~''})"

definition hex_upper :: "nat \<Rightarrow> char" where
  "hex_upper n = ''0123456789ABCDEF'' ! n"

definition pct_char :: "char \<Rightarrow> string" where
  "pct_char c = (if unreserved c then [c] else let b = of_char c :: nat in [CHR ''%'', hex_upper (b div 16), hex_upper (b mod 16)])"

definition pct :: "string \<Rightarrow> string" where
  "pct s = concat (map pct_char s)"

definition scope_has :: "string \<Rightarrow> string \<Rightarrow> bool" where
  "scope_has scope want = list_ex (\<lambda>s. s = want) (split_ws scope)"

fun add_params :: "char \<Rightarrow> (string \<times> string) list \<Rightarrow> string \<Rightarrow> string" where
  "add_params sep [] url = url"
| "add_params sep ((k, v) # ps) url = add_params CHR ''&'' ps (url @ [sep] @ k @ ''='' @ pct v)"

definition redirect_with :: "string \<Rightarrow> (string \<times> string) list \<Rightarrow> op_response" where
  "redirect_with redirect_uri params =
     RedirectTo (add_params (if CHR ''?'' \<in> set redirect_uri then CHR ''&'' else CHR ''?'') params redirect_uri)"

definition require_session :: "time \<Rightarrow> string option \<Rightarrow> op_db \<Rightarrow> (api_error, session_record) result" where
  "require_session now cookie db =
     (case cookie of
        None \<Rightarrow> Inl (Unauthorized ''SESSION_EXPIRED'')
      | Some sid \<Rightarrow>
          (case pg_find (of_nat (now_unix now)) sid (ad_sessions db) of
             None \<Rightarrow> Inl (Unauthorized ''SESSION_EXPIRED'')
           | Some s \<Rightarrow> Inr s))"

definition verify_dpop :: "op_env \<Rightarrow> time \<Rightarrow> header_map \<Rightarrow> string \<Rightarrow> string \<Rightarrow> string option \<Rightarrow> (op_response, string option) result" where
  "verify_dpop e now headers htm htu access_token =
     (case h_str headers ''dpop'' of
        None \<Rightarrow> Inr None
      | Some p \<Rightarrow>
          (if p = [] then Inr None
           else (case verify_proof (oe_dpop e) p htm htu access_token (of_nat (now_unix now)) of
                   Inr v \<Rightarrow> Inr (Some (vp_jkt v))
                 | Inl _ \<Rightarrow> Inl (OauthErr 400 ''invalid_dpop_proof'' ''DPoP proof verification failed''))))"

definition token_dpop_jkt :: "op_env \<Rightarrow> time \<Rightarrow> header_map \<Rightarrow> (op_response, string option) result" where
  "token_dpop_jkt e now headers = verify_dpop e now headers ''POST'' (oe_base_url e @ ''/oauth/token'') None"

section \<open>Authorization\<close>

record authorize_query =
  aq_response_type :: "string option"
  aq_client_id :: "string option"
  aq_redirect_uri :: "string option"
  aq_scope :: "string option"
  aq_state :: "string option"
  aq_nonce :: "string option"
  aq_code_challenge :: "string option"
  aq_code_challenge_method :: "string option"
  aq_prompt :: "string option"

definition CODE_TTL_SECS :: int where
  "CODE_TTL_SECS = 120"

definition issue_code ::
    "op_env \<Rightarrow> time \<Rightarrow> string \<Rightarrow> string \<Rightarrow> uuid \<Rightarrow> uuid \<Rightarrow> string \<Rightarrow> string \<Rightarrow> string option \<Rightarrow> string \<Rightarrow> string \<Rightarrow> string \<Rightarrow>
     op_db \<Rightarrow> op_response \<times> op_db" where
  "issue_code e now code client_id uid tid redirect_uri scope nonce challenge ccm st db =
     (let rec = \<lparr> ac_code_hash = oe_sha256_hex e code, ac_client_id = client_id, ac_user_id = uid, ac_tenant_id = tid,
                  ac_redirect_uri = redirect_uri, ac_scope = scope, ac_nonce = nonce, ac_code_challenge = Some challenge,
                  ac_code_challenge_method = Some ccm, ac_expires_at = now + secs CODE_TTL_SECS, ac_consumed_at = None \<rparr>
      in case save_code rec (op_codes db) of
           (Inl err, _) \<Rightarrow>
             (redirect_with redirect_uri [(''error'', ''server_error''), (''error_description'', show_auth_error err), (''state'', st)], db)
         | (Inr _, cs) \<Rightarrow>
             (redirect_with redirect_uri ((''code'', code) # (if st = [] then [] else [(''state'', st)])), db \<lparr> op_codes := cs \<rparr>))"

text \<open>The label of a scope on the consent page: a fixed text for the four known scopes, the escaped name otherwise.\<close>

definition scope_label :: "string \<Rightarrow> string option" where
  "scope_label sc = (if sc \<in> {''openid'', ''email'', ''profile'', ''offline_access''} then None else Some (html_escape sc))"

definition consent_screen :: "oauth_client \<Rightarrow> string \<Rightarrow> string \<Rightarrow> authorize_query \<Rightarrow> string \<Rightarrow> string \<Rightarrow> op_response" where
  "consent_screen client scope redirect_uri q challenge ccm =
     ConsentPage (html_escape (oc_name client)) (map scope_label (split_ws scope))
       (map (\<lambda>(k, v). (k, html_escape v))
         [(''client_id'', oc_client_id client), (''redirect_uri'', redirect_uri), (''scope'', scope),
          (''state'', unwrap_or [] (aq_state q)), (''nonce'', unwrap_or [] (aq_nonce q)),
          (''code_challenge'', challenge), (''code_challenge_method'', ccm)])"

definition authorize_session ::
    "op_env \<Rightarrow> time \<Rightarrow> string \<Rightarrow> string option \<Rightarrow> authorize_query \<Rightarrow> string option \<Rightarrow> oauth_client \<Rightarrow> string \<Rightarrow> string \<Rightarrow>
     op_db \<Rightarrow> op_response \<times> op_db" where
  "authorize_session e now code cookie q raw client redirect_uri challenge db =
     (let st = unwrap_or [] (aq_state q); prompt = unwrap_or [] (aq_prompt q); scope = unwrap_or ''openid'' (aq_scope q)
      in case require_session now cookie db of
           Inl _ \<Rightarrow>
             (if prompt = ''none'' then (redirect_with redirect_uri [(''error'', ''login_required''), (''state'', st)], db)
              else (RedirectTo (oe_base_url e @ ''/login?return_to='' @
                      pct (oe_base_url e @ ''/authorize?'' @ unwrap_or [] raw)), db))
         | Inr session \<Rightarrow>
             (case oe_parse_uuid e (sr_user_id session) of
                None \<Rightarrow> (redirect_with redirect_uri [(''error'', ''server_error''), (''state'', st)], db)
              | Some uid \<Rightarrow>
                  (let tid = unwrap_or 0 (oe_parse_uuid e (sr_tenant_id session));
                       consented = has_consent uid (oc_client_id client) scope (op_consents db)
                   in if prompt = ''consent'' \<or> \<not> consented
                      then (if prompt = ''none'' then (redirect_with redirect_uri [(''error'', ''consent_required''), (''state'', st)], db)
                            else (consent_screen client scope redirect_uri q challenge ''S256'', db))
                      else issue_code e now code (oc_client_id client) uid tid redirect_uri scope (aq_nonce q) challenge ''S256'' st db)))"

definition authorize ::
    "op_env \<Rightarrow> time \<Rightarrow> string \<Rightarrow> string option \<Rightarrow> authorize_query \<Rightarrow> string option \<Rightarrow> op_db \<Rightarrow> op_response \<times> op_db" where
  "authorize e now code cookie q raw db =
     (case opt_filter (\<lambda>c. c \<noteq> []) (aq_client_id q) of
        None \<Rightarrow> (PageErr 400 ''invalid_request'' ''client_id is required'', db)
      | Some client_id \<Rightarrow>
          (case find_client client_id (op_clients db) of
             None \<Rightarrow> (PageErr 400 ''invalid_client'' ''unknown client_id'', db)
           | Some client \<Rightarrow>
               (case opt_filter (allows_redirect client) (aq_redirect_uri q) of
                  None \<Rightarrow> (PageErr 400 ''invalid_request'' ''redirect_uri is not registered for this client'', db)
                | Some redirect_uri \<Rightarrow>
                    (let st = unwrap_or [] (aq_state q)
                     in if aq_response_type q \<noteq> Some ''code''
                        then (redirect_with redirect_uri [(''error'', ''unsupported_response_type''), (''state'', st)], db)
                        else (case (opt_filter (\<lambda>c. c \<noteq> []) (aq_code_challenge q), aq_code_challenge_method q = Some ''S256'') of
                                (Some challenge, True) \<Rightarrow> authorize_session e now code cookie q raw client redirect_uri challenge db
                              | _ \<Rightarrow> (redirect_with redirect_uri [(''error'', ''invalid_request''),
                                       (''error_description'', ''PKCE S256 required''), (''state'', st)], db))))))"

record consent_form =
  cf_client_id :: string
  cf_redirect_uri :: string
  cf_scope :: string
  cf_state :: "string option"
  cf_nonce :: "string option"
  cf_code_challenge :: string
  cf_code_challenge_method :: string
  cf_decision :: string

definition authorize_consent :: "op_env \<Rightarrow> time \<Rightarrow> string \<Rightarrow> string option \<Rightarrow> consent_form \<Rightarrow> op_db \<Rightarrow> op_response \<times> op_db" where
  "authorize_consent e now code cookie f db =
     (case require_session now cookie db of
        Inl _ \<Rightarrow> (RedirectTo (oe_base_url e @ ''/login''), db)
      | Inr session \<Rightarrow>
          (case opt_filter (\<lambda>c. allows_redirect c (cf_redirect_uri f)) (find_client (cf_client_id f) (op_clients db)) of
             None \<Rightarrow> (PageErr 400 ''invalid_request'' ''invalid client/redirect'', db)
           | Some client \<Rightarrow>
               (let st = unwrap_or [] (cf_state f)
                in if cf_decision f \<noteq> ''allow''
                   then (redirect_with (cf_redirect_uri f) [(''error'', ''access_denied''), (''state'', st)], db)
                   else (case oe_parse_uuid e (sr_user_id session) of
                           None \<Rightarrow> (redirect_with (cf_redirect_uri f) [(''error'', ''server_error''), (''state'', st)], db)
                         | Some uid \<Rightarrow>
                             issue_code e now code (cf_client_id f) uid (unwrap_or 0 (oe_parse_uuid e (sr_tenant_id session)))
                               (cf_redirect_uri f) (cf_scope f) (opt_filter (\<lambda>n. n \<noteq> []) (cf_nonce f))
                               (cf_code_challenge f) (cf_code_challenge_method f) st
                               (db \<lparr> op_consents := grant_consent uid (cf_client_id f) (cf_scope f) (op_consents db) \<rparr>)))))"

section \<open>Token endpoint\<close>

definition AT_TTL_SECS :: nat where
  "AT_TTL_SECS = 3600"

definition RT_TTL_DAYS :: int where
  "RT_TTL_DAYS = 30"

definition days :: "int \<Rightarrow> time" where
  "days n = secs (86400 * n)"

definition authenticate_client :: "op_env \<Rightarrow> oauth_client \<Rightarrow> string option \<Rightarrow> bool" where
  "authenticate_client e client secret =
     (case oc_client_secret_hash client of
        Some hash \<Rightarrow> (case secret of Some s \<Rightarrow> oe_sha256_hex e s = hash | None \<Rightarrow> False)
      | None \<Rightarrow> True)"

definition id_claims_for :: "op_env \<Rightarrow> nat \<Rightarrow> oauth_client \<Rightarrow> uuid \<Rightarrow> string option \<Rightarrow> user_record option \<Rightarrow> id_claims" where
  "id_claims_for e t client uid nonce user =
     \<lparr> it_iss = oe_base_url e, it_sub = oe_show_uuid e uid, it_aud = oc_client_id client, it_iat = t, it_exp = t + AT_TTL_SECS,
       it_nonce = nonce, it_user = map_option (\<lambda>u. (us_email u, us_display_name u)) user \<rparr>"

text \<open>The refresh token of a grant: stored by its hash; not handed out when it could not be stored.\<close>

definition mint_refresh ::
    "op_env \<Rightarrow> time \<Rightarrow> string \<Rightarrow> uuid \<Rightarrow> oauth_client \<Rightarrow> uuid \<Rightarrow> uuid \<Rightarrow> string \<Rightarrow> uuid option \<Rightarrow> op_db \<Rightarrow> string option \<times> op_db" where
  "mint_refresh e now rt fresh_family client uid tid scope family db =
     (if allows_grant client ''refresh_token''
      then (case save_refresh \<lparr> rf_token_hash = oe_sha256_hex e rt, rf_family_id = unwrap_or fresh_family family,
                    rf_client_id = oc_client_id client, rf_user_id = uid, rf_tenant_id = tid, rf_scope = scope,
                    rf_expires_at = now + days RT_TTL_DAYS, rf_revoked_at = None \<rparr> (op_refresh db) of
              (Inl _, _) \<Rightarrow> (None, db)
            | (Inr _, ts) \<Rightarrow> (Some rt, db \<lparr> op_refresh := ts \<rparr>))
      else (None, db))"

definition issue_tokens ::
    "op_env \<Rightarrow> time \<Rightarrow> string \<Rightarrow> uuid \<Rightarrow> oauth_client \<Rightarrow> uuid \<Rightarrow> uuid \<Rightarrow> string \<Rightarrow> string option \<Rightarrow> uuid option \<Rightarrow> string option \<Rightarrow>
     op_db \<Rightarrow> op_response \<times> op_db" where
  "issue_tokens e now rt fresh_family client uid tid scope nonce family dpop_jkt db =
     (case oe_op_issuer e of
        None \<Rightarrow> (OauthErr 500 ''server_error'' ''OP signing key unavailable'', db)
      | Some sign \<Rightarrow>
          (let t = now_unix now
           in case sign (AccessToken \<lparr> at_iss = oe_base_url e, at_sub = oe_show_uuid e uid, at_scope = scope,
                    at_client_id = oc_client_id client, at_iat = t, at_exp = t + AT_TTL_SECS, at_cnf_jkt = dpop_jkt,
                    at_act = None, at_aud = None \<rparr>) of
                Inl err \<Rightarrow> (OauthErr 500 ''server_error'' err, db)
              | Inr access_token \<Rightarrow>
                  (case (if scope_has scope ''openid''
                         then map_sum id Some (sign (IdToken (id_claims_for e t client uid nonce (user_find_by_id uid (ad_users db)))))
                         else Inr None) of
                     Inl err \<Rightarrow> (OauthErr 500 ''server_error'' err, db)
                   | Inr id_token \<Rightarrow>
                       (case mint_refresh e now rt fresh_family client uid tid scope family db of
                          (refresh, db') \<Rightarrow>
                            (Tokens \<lparr> tb_access_token = access_token,
                               tb_token_type = (if dpop_jkt = None then ''Bearer'' else ''DPoP''), tb_scope = Some scope,
                               tb_id_token = id_token, tb_refresh_token = refresh \<rparr>, db')))))"

definition pkce_check :: "op_env \<Rightarrow> authz_code \<Rightarrow> string option \<Rightarrow> op_response option" where
  "pkce_check e rec verifier =
     (case (ac_code_challenge rec, ac_code_challenge_method rec = Some ''S256'') of
        (Some challenge, True) \<Rightarrow>
          (case opt_filter (\<lambda>v. v \<noteq> []) verifier of
             None \<Rightarrow> Some (OauthErr 400 ''invalid_grant'' ''code_verifier required'')
           | Some v \<Rightarrow>
               (if oe_sha256_base64url e v \<noteq> challenge then Some (OauthErr 400 ''invalid_grant'' ''PKCE verification failed'') else None))
      | _ \<Rightarrow> Some (OauthErr 400 ''invalid_grant'' ''missing PKCE challenge''))"

definition checked_client :: "op_env \<Rightarrow> string \<Rightarrow> string option \<Rightarrow> op_db \<Rightarrow> (op_response, oauth_client) result" where
  "checked_client e client_id secret db =
     (case find_client client_id (op_clients db) of
        None \<Rightarrow> Inl (OauthErr 401 ''invalid_client'' ''unknown client'')
      | Some client \<Rightarrow>
          (if \<not> authenticate_client e client secret then Inl (OauthErr 401 ''invalid_client'' ''client authentication failed'')
           else Inr client))"

definition token_authorization_code ::
    "op_env \<Rightarrow> time \<Rightarrow> string \<Rightarrow> uuid \<Rightarrow> string \<Rightarrow> string option \<Rightarrow> string \<Rightarrow> string \<Rightarrow> string option \<Rightarrow> string option \<Rightarrow>
     op_db \<Rightarrow> op_response \<times> op_db" where
  "token_authorization_code e now rt fresh_family client_id secret code redirect_uri verifier dpop_jkt db =
     (case checked_client e client_id secret db of
        Inl resp \<Rightarrow> (resp, db)
      | Inr client \<Rightarrow>
          (if \<not> allows_grant client ''authorization_code'' then (OauthErr 400 ''unauthorized_client'' ''grant not allowed'', db)
           else (case consume_code now (oe_sha256_hex e code) (op_codes db) of
                   (None, cs) \<Rightarrow> (OauthErr 400 ''invalid_grant'' ''code invalid, expired or already used'', db \<lparr> op_codes := cs \<rparr>)
                 | (Some rec, cs) \<Rightarrow>
                     (let db' = db \<lparr> op_codes := cs \<rparr>
                      in if ac_client_id rec \<noteq> client_id \<or> ac_redirect_uri rec \<noteq> redirect_uri
                         then (OauthErr 400 ''invalid_grant'' ''code/redirect_uri mismatch'', db')
                         else (case pkce_check e rec verifier of
                                 Some resp \<Rightarrow> (resp, db')
                               | None \<Rightarrow>
                                   issue_tokens e now rt fresh_family client (ac_user_id rec) (ac_tenant_id rec) (ac_scope rec)
                                     (ac_nonce rec) None dpop_jkt db')))))"

definition token_refresh ::
    "op_env \<Rightarrow> time \<Rightarrow> string \<Rightarrow> uuid \<Rightarrow> string \<Rightarrow> string option \<Rightarrow> string \<Rightarrow> string option \<Rightarrow> op_db \<Rightarrow> op_response \<times> op_db" where
  "token_refresh e now rt fresh_family client_id secret refresh dpop_jkt db =
     (case checked_client e client_id secret db of
        Inl resp \<Rightarrow> (resp, db)
      | Inr client \<Rightarrow>
          (case rotate_refresh now (oe_sha256_hex e refresh) (op_refresh db) of
             (res, ts) \<Rightarrow>
               (let db' = db \<lparr> op_refresh := ts \<rparr>
                in case res of
                     Rotated old \<Rightarrow>
                       (if rf_client_id old \<noteq> client_id then (OauthErr 400 ''invalid_grant'' ''client mismatch'', db')
                        else issue_tokens e now rt fresh_family client (rf_user_id old) (rf_tenant_id old) (rf_scope old) None
                               (Some (rf_family_id old)) dpop_jkt db')
                   | Reused \<Rightarrow> (OauthErr 400 ''invalid_grant'' (''refresh token reuse detected '' @ em_dash @ '' session revoked''), db')
                   | RefreshExpired \<Rightarrow> (OauthErr 400 ''invalid_grant'' ''refresh token expired'', db')
                   | RefreshNotFound \<Rightarrow> (OauthErr 400 ''invalid_grant'' ''unknown refresh token'', db'))))"

definition op_verifier :: "op_env \<Rightarrow> op_db \<Rightarrow> string option" where
  "op_verifier e db = opt_filter (oe_rsa_pem_ok e) (map_option sk_public_key (key_load_active (op_keys db)))"

definition op_verify :: "op_env \<Rightarrow> string \<Rightarrow> string \<Rightarrow> (jwt_error, volta_claims) result" where
  "op_verify e key token = verify_key (oe_jwt e) token key \<lparr> jc_alg = RS256, jc_issuer = None, jc_audience = None \<rparr>"

definition ACCESS_TOKEN_TYPE :: string where
  "ACCESS_TOKEN_TYPE = ''urn:ietf:params:oauth:token-type:access_token''"

definition exchange_base_scope :: "op_env \<Rightarrow> string \<Rightarrow> string" where
  "exchange_base_scope e subject_token =
     (let s = unwrap_or [] (Option.bind (oe_payload e subject_token) tp_scope) in if s = [] then ''openid'' else s)"

definition exchange_scope :: "op_env \<Rightarrow> string \<Rightarrow> string option \<Rightarrow> string option" where
  "exchange_scope e subject_token requested =
     (case opt_filter (\<lambda>r. r \<noteq> []) requested of
        Some req \<Rightarrow> (if scope_covers (exchange_base_scope e subject_token) req then Some req else None)
      | None \<Rightarrow> Some (exchange_base_scope e subject_token))"

definition token_exchange ::
    "op_env \<Rightarrow> time \<Rightarrow> string \<Rightarrow> string option \<Rightarrow> string \<Rightarrow> string option \<Rightarrow> string option \<Rightarrow> string option \<Rightarrow> op_db \<Rightarrow> op_response" where
  "token_exchange e now client_id secret subject_token subject_token_type requested audience db =
     (case checked_client e client_id secret db of
        Inl resp \<Rightarrow> resp
      | Inr client \<Rightarrow>
          (if (case subject_token_type of None \<Rightarrow> False | Some t \<Rightarrow> t \<noteq> ACCESS_TOKEN_TYPE)
           then OauthErr 400 ''invalid_request'' ''only access_token subject_token_type is supported''
           else (case op_verifier e db of
                   None \<Rightarrow> OauthErr 500 ''server_error'' ''no OP key''
                 | Some key \<Rightarrow>
                     (case op_verify e key subject_token of
                        Inl _ \<Rightarrow> OauthErr 400 ''invalid_grant'' ''subject_token invalid or expired''
                      | Inr claims \<Rightarrow>
                          (if oe_parse_uuid e (cl_sub claims) = None then OauthErr 400 ''invalid_grant'' ''bad subject''
                           else (case oe_op_issuer e of
                                   None \<Rightarrow> OauthErr 500 ''server_error'' ''OP signing key unavailable''
                                 | Some sign \<Rightarrow>
                                     (case exchange_scope e subject_token requested of
                                        None \<Rightarrow> OauthErr 400 ''invalid_scope'' ''requested scope exceeds subject token scope''
                                      | Some scope \<Rightarrow>
                                          (let t = now_unix now
                                           in case sign (AccessToken \<lparr> at_iss = oe_base_url e, at_sub = cl_sub claims, at_scope = scope,
                                                    at_client_id = oc_client_id client, at_iat = t, at_exp = t + AT_TTL_SECS,
                                                    at_cnf_jkt = None, at_act = Some (oc_client_id client), at_aud = audience \<rparr>) of
                                                Inl err \<Rightarrow> OauthErr 500 ''server_error'' err
                                              | Inr token \<Rightarrow>
                                                  Tokens \<lparr> tb_access_token = token, tb_token_type = ''Bearer'', tb_scope = Some scope,
                                                    tb_id_token = None, tb_refresh_token = None \<rparr>))))))))"

section \<open>Resources, introspection, revocation\<close>

definition bearer :: "header_map \<Rightarrow> string option" where
  "bearer headers =
     Option.bind (h_str headers ''authorization'') (\<lambda>v.
     Option.bind (split_once CHR '' '' v) (\<lambda>(scheme, token).
       if eq_ignore_case scheme ''bearer'' \<or> eq_ignore_case scheme ''dpop'' then Some (trim token) else None))"

definition dpop_binding :: "op_env \<Rightarrow> time \<Rightarrow> header_map \<Rightarrow> string \<Rightarrow> op_response option" where
  "dpop_binding e now headers token =
     (case Option.bind (oe_payload e token) tp_cnf_jkt of
        None \<Rightarrow> None
      | Some bound \<Rightarrow>
          (case verify_dpop e now headers ''GET'' (oe_base_url e @ ''/userinfo'') (Some token) of
             Inr (Some jkt) \<Rightarrow>
               (if jkt = bound then None else Some (OauthErr 401 ''invalid_token'' ''DPoP key does not match token binding''))
           | Inr None \<Rightarrow> Some (OauthErr 401 ''invalid_token'' ''DPoP proof required for this token'')
           | Inl resp \<Rightarrow> Some resp))"

definition userinfo :: "op_env \<Rightarrow> time \<Rightarrow> header_map \<Rightarrow> op_db \<Rightarrow> op_response" where
  "userinfo e now headers db =
     (case bearer headers of
        None \<Rightarrow> OauthErr 401 ''invalid_token'' ''missing bearer token''
      | Some token \<Rightarrow>
          (case op_verifier e db of
             None \<Rightarrow> OauthErr 500 ''server_error'' ''no OP key''
           | Some key \<Rightarrow>
               (case op_verify e key token of
                  Inl _ \<Rightarrow> OauthErr 401 ''invalid_token'' ''token invalid or expired''
                | Inr claims \<Rightarrow>
                    (case dpop_binding e now headers token of
                       Some resp \<Rightarrow> resp
                     | None \<Rightarrow>
                         (case oe_parse_uuid e (cl_sub claims) of
                            None \<Rightarrow> OauthErr 401 ''invalid_token'' ''bad subject''
                          | Some uid \<Rightarrow>
                              Userinfo (cl_sub claims)
                                (map_option (\<lambda>u. (us_email u, us_display_name u)) (user_find_by_id uid (ad_users db))))))))"

definition introspect :: "op_env \<Rightarrow> string \<Rightarrow> string option \<Rightarrow> string option \<Rightarrow> op_db \<Rightarrow> op_response" where
  "introspect e token client_id secret db =
     (case client_id of
        None \<Rightarrow> OauthErr 401 ''invalid_client'' ''client_id required''
      | Some cid \<Rightarrow>
          (case find_client cid (op_clients db) of
             None \<Rightarrow> OauthErr 401 ''invalid_client'' ''client auth failed''
           | Some c \<Rightarrow>
               (if \<not> authenticate_client e c secret then OauthErr 401 ''invalid_client'' ''client auth failed''
                else (case op_verifier e db of
                        None \<Rightarrow> Introspection None
                      | Some key \<Rightarrow>
                          (case op_verify e key token of Inl _ \<Rightarrow> Introspection None | Inr c \<Rightarrow> Introspection (Some (cl_sub c)))))))"

definition revoke :: "op_env \<Rightarrow> time \<Rightarrow> string \<Rightarrow> op_db \<Rightarrow> op_response \<times> op_db" where
  "revoke e now token db = (RevokedOk, db \<lparr> op_refresh := revoke_refresh now (oe_sha256_hex e token) (op_refresh db) \<rparr>)"

section \<open>Logout\<close>

definition build_logout_token :: "op_env \<Rightarrow> time \<Rightarrow> string \<Rightarrow> string \<Rightarrow> string \<Rightarrow> string option" where
  "build_logout_token e now jti aud sub =
     Option.bind (oe_op_issuer e) (\<lambda>sign.
       case sign (LogoutToken \<lparr> lg_iss = oe_base_url e, lg_aud = aud, lg_sub = sub, lg_iat = now_unix now, lg_jti = jti \<rparr>) of
         Inl _ \<Rightarrow> None | Inr t \<Rightarrow> Some t)"

definition logout_target :: "op_env \<Rightarrow> string option \<Rightarrow> string option \<Rightarrow> string" where
  "logout_target e post_logout st =
     (case opt_filter (\<lambda>uri. starts_with uri (oe_base_url e)) post_logout of
        Some uri \<Rightarrow>
          (case opt_filter (\<lambda>s. s \<noteq> []) st of
             Some s \<Rightarrow> uri @ [if CHR ''?'' \<in> set uri then CHR ''&'' else CHR ''?''] @ ''state='' @ pct s
           | None \<Rightarrow> uri)
      | None \<Rightarrow> oe_base_url e @ ''/login'')"

definition session_subject :: "time \<Rightarrow> string option \<Rightarrow> op_db \<Rightarrow> string option" where
  "session_subject now cookie db =
     Option.bind cookie (\<lambda>sid. map_option sr_user_id (pg_find (of_nat (now_unix now)) sid (ad_sessions db)))"

text \<open>The page or redirect, and the logout tokens posted to the clients that registered for them.\<close>

definition end_session ::
    "op_env \<Rightarrow> time \<Rightarrow> (string \<Rightarrow> string) \<Rightarrow> string option \<Rightarrow> string option \<Rightarrow> string option \<Rightarrow> op_db \<Rightarrow> op_response \<times> (string \<times> string) list" where
  "end_session e now jti_for cookie post_logout st db =
     (let target = logout_target e post_logout st;
          clients = (if session_subject now cookie db = None then [] else list_clients_rows (op_clients db));
          sub = unwrap_or [] (session_subject now cookie db);
          posts = concat (map (\<lambda>c. case oc_backchannel_logout_uri c of
                     None \<Rightarrow> []
                   | Some uri \<Rightarrow> (case build_logout_token e now (jti_for (oc_client_id c)) (oc_client_id c) sub of
                                    None \<Rightarrow> [] | Some t \<Rightarrow> [(uri, t)])) clients);
          frames = List.map_filter (\<lambda>c. map_option (\<lambda>uri. uri @ [if CHR ''?'' \<in> set uri then CHR ''&'' else CHR ''?''] @ ''iss='' @
                     pct (oe_base_url e)) (oc_frontchannel_logout_uri c)) clients
      in (if frames = [] then RedirectTo target else LogoutPage (map html_escape frames) target, posts))"

section \<open>Client registration and linked identities\<close>

definition enforce_admin_role :: "string list \<Rightarrow> (api_error, unit) result" where
  "enforce_admin_role roles =
     (if list_ex (\<lambda>r. to_upper r = ''ADMIN'' \<or> to_upper r = ''OWNER'') roles then Inr () else Inl (Forbidden ''INSUFFICIENT_SCOPE''))"

definition require_admin :: "time \<Rightarrow> string option \<Rightarrow> op_db \<Rightarrow> (api_error, session_record) result" where
  "require_admin now cookie db =
     (case require_session now cookie db of
        Inl err \<Rightarrow> Inl err
      | Inr s \<Rightarrow> (case enforce_admin_role (sr_roles s) of Inl err \<Rightarrow> Inl err | Inr _ \<Rightarrow> Inr s))"

record create_client_req =
  cr_name :: string
  cr_redirect_uris :: "string list"
  cr_scopes :: "string list"
  cr_grant_types :: "string list"
  cr_confidential :: bool
  cr_backchannel_logout_uri :: "string option"
  cr_frontchannel_logout_uri :: "string option"

definition create_client ::
    "op_env \<Rightarrow> time \<Rightarrow> string \<Rightarrow> string \<Rightarrow> string option \<Rightarrow> create_client_req \<Rightarrow> op_db \<Rightarrow> op_response \<times> op_db" where
  "create_client e now suffix sec cookie b db =
     (case require_admin now cookie db of
        Inl err \<Rightarrow> (ApiErr err, db)
      | Inr _ \<Rightarrow>
          (let cid = ''volta-'' @ take 16 suffix;
               rec = \<lparr> oc_client_id = cid, oc_client_secret_hash = (if cr_confidential b then Some (oe_sha256_hex e sec) else None),
                       oc_name = cr_name b, oc_redirect_uris = cr_redirect_uris b,
                       oc_grant_types = (if cr_grant_types b = [] then [''authorization_code'', ''refresh_token''] else cr_grant_types b),
                       oc_scopes = (if cr_scopes b = [] then [''openid'', ''email'', ''profile''] else cr_scopes b),
                       oc_is_confidential = cr_confidential b,
                       oc_backchannel_logout_uri = opt_filter (\<lambda>u. u \<noteq> []) (cr_backchannel_logout_uri b),
                       oc_frontchannel_logout_uri = opt_filter (\<lambda>u. u \<noteq> []) (cr_frontchannel_logout_uri b),
                       oc_created_at = now \<rparr>
           in case create_client_row rec (op_clients db) of
                (Inl _, _) \<Rightarrow> (ApiErr InternalError, db)
              | (Inr _, cs) \<Rightarrow> (Created cid (if cr_confidential b then Some sec else None), db \<lparr> op_clients := cs \<rparr>)))"

definition unlink_identity :: "op_env \<Rightarrow> time \<Rightarrow> string option \<Rightarrow> uuid \<Rightarrow> op_db \<Rightarrow> op_response \<times> op_db" where
  "unlink_identity e now cookie iid db =
     (case require_session now cookie db of
        Inl err \<Rightarrow> (ApiErr err, db)
      | Inr s \<Rightarrow>
          (case oe_parse_uuid e (sr_user_id s) of
             None \<Rightarrow> (ApiErr InternalError, db)
           | Some uid \<Rightarrow>
               (if identity_count_by_user uid (op_identities db) \<le> 1 then (ApiErr (BadRequest ''LAST_IDENTITY''), db)
                else (case identity_unlink uid iid (op_identities db) of
                        (removed, idl) \<Rightarrow>
                          (if removed then OkTrue else ApiErr (BadRequest ''NOT_FOUND''), db \<lparr> op_identities := idl \<rparr>)))))"

section \<open>Signing keys\<close>

definition rotate_key :: "op_env \<Rightarrow> time \<Rightarrow> string \<Rightarrow> string \<times> string \<Rightarrow> string option \<Rightarrow> op_db \<Rightarrow> op_response \<times> op_db" where
  "rotate_key e now new_kid pem cookie db =
     (case require_admin now cookie db of
        Inl err \<Rightarrow> (ApiErr err, db)
      | Inr _ \<Rightarrow>
          (case (case key_load_active (op_keys db) of
                   Some old \<Rightarrow> key_rotate now (sk_kid old) new_kid (fst pem) (snd pem) (op_keys db)
                 | None \<Rightarrow> key_save now new_kid (fst pem) (snd pem) (op_keys db)) of
             (Inl _, _) \<Rightarrow> (ApiErr InternalError, db)
           | (Inr _, ks) \<Rightarrow> (Created new_kid None, db \<lparr> op_keys := ks \<rparr>)))"

definition revoke_key :: "op_env \<Rightarrow> time \<Rightarrow> string \<Rightarrow> string option \<Rightarrow> op_db \<Rightarrow> op_response \<times> op_db" where
  "revoke_key e now kid cookie db =
     (case require_admin now cookie db of
        Inl err \<Rightarrow> (ApiErr err, db)
      | Inr _ \<Rightarrow> (OkTrue, db \<lparr> op_keys := key_revoke now kid (op_keys db) \<rparr>))"

section \<open>Device grant\<close>

definition DEVICE_CODE_GRANT :: string where
  "DEVICE_CODE_GRANT = ''urn:ietf:params:oauth:grant-type:device_code''"

definition device_ttl_secs :: "op_env \<Rightarrow> int option \<Rightarrow> int" where
  "device_ttl_secs e env = min (max (unwrap_or 600 env) 60) (sint (oe_session_ttl_secs e))"

definition device_authorization ::
    "op_env \<Rightarrow> time \<Rightarrow> int option \<Rightarrow> uuid \<Rightarrow> string \<Rightarrow> string \<Rightarrow> string \<Rightarrow> string option \<Rightarrow> op_db \<Rightarrow> op_response \<times> op_db" where
  "device_authorization e now env gid device_code user_code client_id scope db =
     (if trim client_id = [] then (ApiErr (BadRequest ''invalid_request''), db)
      else (let ttl = device_ttl_secs e env
            in case device_create \<lparr> dg_id = gid, dg_device_code_hash = oe_sha256_hex e device_code, dg_user_code = user_code,
                      dg_client_id = client_id, dg_scope = opt_filter (\<lambda>s. s \<noteq> []) scope, dg_status = ''pending'', dg_user_id = None,
                      dg_tenant_id = None, dg_interval_secs = 5, dg_last_polled_at = None, dg_expires_at = now + secs ttl \<rparr> (op_devices db) of
                 (Inl _, _) \<Rightarrow> (ApiErr InternalError, db)
               | (Inr _, gs) \<Rightarrow>
                   (DeviceCodes device_code user_code (oe_base_url e @ ''/device'')
                      (oe_base_url e @ ''/device?user_code='' @ user_code) ttl, db \<lparr> op_devices := gs \<rparr>)))"

definition urlencode_char :: "char \<Rightarrow> string" where
  "urlencode_char c = (if c = CHR ''/'' then [c] else pct_char c)"

definition urlencode :: "string \<Rightarrow> string" where
  "urlencode s = concat (map urlencode_char s)"

definition device_verification_page :: "op_env \<Rightarrow> time \<Rightarrow> string option \<Rightarrow> string option \<Rightarrow> op_db \<Rightarrow> op_response" where
  "device_verification_page e now cookie user_code db =
     (case require_session now cookie db of
        Inl _ \<Rightarrow>
          RedirectTo (oe_base_url e @ ''/login?return_to='' @
            urlencode (case user_code of Some c \<Rightarrow> ''/device?user_code='' @ c | None \<Rightarrow> ''/device''))
      | Inr _ \<Rightarrow>
          DevicePage (map_option html_escape user_code)
            (Option.bind user_code (\<lambda>c.
               map_option (\<lambda>g. (html_escape (dg_client_id g), map_option html_escape (dg_scope g)))
                 (find_pending_by_user_code now (to_upper c) (op_devices db)))))"

definition decide_device :: "op_env \<Rightarrow> time \<Rightarrow> string option \<Rightarrow> string \<Rightarrow> bool \<Rightarrow> op_db \<Rightarrow> op_response \<times> op_db" where
  "decide_device e now cookie user_code approve db =
     (case require_session now cookie db of
        Inl err \<Rightarrow> (ApiErr err, db)
      | Inr s \<Rightarrow>
          (case (oe_parse_uuid e (sr_user_id s), oe_parse_uuid e (sr_tenant_id s)) of
             (Some uid, Some tid) \<Rightarrow>
               (case device_decide now (to_upper (trim user_code)) approve uid tid (op_devices db) of
                  (res, gs) \<Rightarrow>
                    (case res of
                       DecisionOk _ _ \<Rightarrow> Decided approve
                     | DecisionNotFound \<Rightarrow> ApiErr (BadRequest ''invalid_user_code'')
                     | DecisionExpired \<Rightarrow> ApiErr (BadRequest ''expired_user_code'')
                     | AlreadyResolved \<Rightarrow> ApiErr (BadRequest ''already_resolved''),
                     db \<lparr> op_devices := gs \<rparr>))
           | _ \<Rightarrow> (ApiErr InternalError, db)))"

text \<open>Polling and consuming are two statements; the first half decides, the second runs after the token is signed.\<close>

definition device_claims :: "op_env \<Rightarrow> uuid \<Rightarrow> uuid \<Rightarrow> op_db \<Rightarrow> volta_claims" where
  "device_claims e uid tid db =
     (let user = user_find_by_id uid (ad_users db)
      in \<lparr> cl_sub = oe_show_uuid e uid, cl_email = map_option us_email user, cl_tenant_id = Some (oe_show_uuid e tid),
           cl_tenant_slug = None, cl_roles = map_option mb_role (member_find uid tid (ad_members db)),
           cl_name = Option.bind user us_display_name, cl_app_id = None, cl_iat = None, cl_exp = None, cl_jti = None, cl_aud = None,
           cl_scope = None \<rparr>)"

definition device_token_poll :: "op_env \<Rightarrow> time \<Rightarrow> string \<Rightarrow> op_db \<Rightarrow> (op_response, token_body) result \<times> op_db" where
  "device_token_poll e now device_code db =
     (case device_poll now (oe_sha256_hex e device_code) (op_devices db) of
        (res, gs) \<Rightarrow>
          (let db' = db \<lparr> op_devices := gs \<rparr>
           in case res of
                PollApproved uid tid scope \<Rightarrow>
                  (case jwt_issue (oe_session_issuer e) (unix_secs now) (device_claims e uid tid db') of
                     Inl err \<Rightarrow> (Inl (OauthErr 500 ''server_error'' (show_jwt_error err)), db')
                   | Inr jwt \<Rightarrow>
                       (Inr \<lparr> tb_access_token = jwt, tb_token_type = ''Bearer'', tb_scope = scope, tb_id_token = None,
                              tb_refresh_token = None \<rparr>, db'))
              | PollPending \<Rightarrow> (Inl (OauthErr 400 ''authorization_pending'' []), db')
              | PollSlowDown \<Rightarrow> (Inl (OauthErr 400 ''slow_down'' []), db')
              | PollDenied \<Rightarrow> (Inl (OauthErr 400 ''access_denied'' []), db')
              | PollExpired \<Rightarrow> (Inl (OauthErr 400 ''expired_token'' []), db')
              | PollNotFound \<Rightarrow> (Inl (OauthErr 400 ''invalid_grant'' []), db')))"

definition device_token_consume :: "op_env \<Rightarrow> string \<Rightarrow> op_db \<Rightarrow> op_db" where
  "device_token_consume e device_code db = db \<lparr> op_devices := device_consume (oe_sha256_hex e device_code) (op_devices db) \<rparr>"

definition device_token_grant :: "op_env \<Rightarrow> time \<Rightarrow> string \<Rightarrow> op_db \<Rightarrow> op_response \<times> op_db" where
  "device_token_grant e now device_code db =
     (case device_token_poll e now device_code db of
        (Inl resp, db') \<Rightarrow> (resp, db')
      | (Inr body, db') \<Rightarrow> (Tokens body, device_token_consume e device_code db'))"

section \<open>Dispatch\<close>

record token_req =
  tr_grant_type :: string
  tr_client_id :: string
  tr_client_secret :: "string option"
  tr_device_code :: "string option"
  tr_code :: "string option"
  tr_redirect_uri :: "string option"
  tr_code_verifier :: "string option"
  tr_refresh_token :: "string option"
  tr_subject_token :: "string option"
  tr_subject_token_type :: "string option"
  tr_scope :: "string option"
  tr_audience :: "string option"

definition TOKEN_EXCHANGE_GRANT :: string where
  "TOKEN_EXCHANGE_GRANT = ''urn:ietf:params:oauth:grant-type:token-exchange''"

definition nonempty :: "string option \<Rightarrow> string option" where
  "nonempty = opt_filter (\<lambda>c. c \<noteq> [])"

definition client_credentials :: "op_env \<Rightarrow> time \<Rightarrow> token_req \<Rightarrow> op_db \<Rightarrow> op_response" where
  "client_credentials e now b db =
     (case m2m_find_by_client_id (tr_client_id b) (ad_m2m db) of
        None \<Rightarrow> ApiErr (Unauthorized ''INVALID_CLIENT'')
      | Some c \<Rightarrow>
          (if oe_sha256_hex e (unwrap_or [] (tr_client_secret b)) \<noteq> mc_client_secret_hash c then ApiErr (Unauthorized ''INVALID_CLIENT'')
           else (case jwt_issue (oe_session_issuer e) (unix_secs now) \<lparr> cl_sub = mc_client_id c, cl_email = None,
                    cl_tenant_id = Some (oe_show_uuid e (mc_tenant_id c)), cl_tenant_slug = None, cl_roles = Some (mc_scopes c),
                    cl_name = None, cl_app_id = None, cl_iat = None, cl_exp = None, cl_jti = None, cl_aud = None, cl_scope = None \<rparr> of
                   Inl _ \<Rightarrow> ApiErr InternalError
                 | Inr jwt \<Rightarrow> Tokens \<lparr> tb_access_token = jwt, tb_token_type = ''Bearer'', tb_scope = None, tb_id_token = None,
                                       tb_refresh_token = None \<rparr>)))"

definition oauth_token :: "op_env \<Rightarrow> time \<Rightarrow> string \<Rightarrow> uuid \<Rightarrow> header_map \<Rightarrow> token_req \<Rightarrow> op_db \<Rightarrow> op_response \<times> op_db" where
  "oauth_token e now rt fresh_family headers b db =
     (if tr_grant_type b = DEVICE_CODE_GRANT
      then (case nonempty (tr_device_code b) of
              None \<Rightarrow> (ApiErr (BadRequest ''invalid_request''), db)
            | Some code \<Rightarrow> device_token_grant e now code db)
      else (case token_dpop_jkt e now headers of
              Inl resp \<Rightarrow> (resp, db)
            | Inr jkt \<Rightarrow>
                (if tr_grant_type b = ''authorization_code''
                 then (case nonempty (tr_code b) of
                         None \<Rightarrow> (ApiErr (BadRequest ''invalid_request''), db)
                       | Some code \<Rightarrow>
                           token_authorization_code e now rt fresh_family (tr_client_id b) (tr_client_secret b) code
                             (unwrap_or [] (tr_redirect_uri b)) (tr_code_verifier b) jkt db)
                 else if tr_grant_type b = ''refresh_token''
                 then (case nonempty (tr_refresh_token b) of
                         None \<Rightarrow> (ApiErr (BadRequest ''invalid_request''), db)
                       | Some r \<Rightarrow> token_refresh e now rt fresh_family (tr_client_id b) (tr_client_secret b) r jkt db)
                 else if tr_grant_type b = TOKEN_EXCHANGE_GRANT
                 then (case nonempty (tr_subject_token b) of
                         None \<Rightarrow> (ApiErr (BadRequest ''invalid_request''), db)
                       | Some t \<Rightarrow> (token_exchange e now (tr_client_id b) (tr_client_secret b) t (tr_subject_token_type b) (tr_scope b)
                                     (tr_audience b) db, db))
                 else if tr_grant_type b \<noteq> ''client_credentials'' then (ApiErr (BadRequest ''UNSUPPORTED_GRANT''), db)
                 else (client_credentials e now b db, db))))"

end
