(* ===== verification/One_Time.thy ===== *)
theory One_Time
  imports Rust_Prelude
begin

text \<open>
  Values that work once: the contract the single-use tables of the auth server share. The authorization
  codes and magic links are marked when they are used, the login flows are deleted; \<open>one_time\<close> is
  interpreted on each of them.
\<close>

locale one_time =
  fixes wf :: "'t \<Rightarrow> bool"
    and spent :: "'k \<Rightarrow> 't \<Rightarrow> bool"
    and consume :: "'n \<Rightarrow> 'k \<Rightarrow> 't \<Rightarrow> 'r option \<times> 't"
    and key :: "'i \<Rightarrow> 'k"
    and insert :: "'i \<Rightarrow> 't \<Rightarrow> 't"
  assumes spent_refused: "spent k t \<Longrightarrow> fst (consume now k t) = None"
    and consumed_spent: "wf t \<Longrightarrow> consume now k t = (Some r, t') \<Longrightarrow> spent k t'"
    and consume_keeps: "spent k t \<Longrightarrow> spent k (snd (consume now j t))"
    and insert_keeps: "spent k t \<Longrightarrow> key i \<noteq> k \<Longrightarrow> spent k (insert i t)"
begin

fun run :: "('i + 'n \<times> 'k) list \<Rightarrow> 't \<Rightarrow> 't" where
  "run [] t = t"
| "run (Inl i # ops) t = run ops (insert i t)"
| "run (Inr (now, j) # ops) t = run ops (snd (consume now j t))"

lemma run_keeps: "spent k t \<Longrightarrow> \<forall>i. Inl i \<in> set ops \<longrightarrow> key i \<noteq> k \<Longrightarrow> spent k (run ops t)"
  by (induction ops t rule: run.induct) (auto simp: consume_keeps insert_keeps)

lemma works_once:
  assumes "wf t" "consume now k t = (Some r, t')" "\<forall>i. Inl i \<in> set ops \<longrightarrow> key i \<noteq> k"
  shows "fst (consume now' k (run ops t')) = None"
  using assms by (blast intro: spent_refused run_keeps consumed_spent)

end

section \<open>Rows deleted when used\<close>

text \<open>\<open>DELETE ... RETURNING\<close> on a condition that identifies at most one row.\<close>

definition take_row :: "('r \<Rightarrow> bool) \<Rightarrow> 'r list \<Rightarrow> 'r option \<times> 'r list" where
  "take_row P rs = (find P rs, filter (\<lambda>r. \<not> P r) rs)"

lemma take_row_Some: "take_row P rs = (Some r, rs') \<Longrightarrow> r \<in> set rs \<and> P r \<and> rs' = filter (\<lambda>r. \<not> P r) rs"
  by (auto simp: take_row_def find_Some_iff)

lemma take_row_None: "fst (take_row P rs) = None \<longleftrightarrow> (\<forall>r \<in> set rs. \<not> P r)"
  by (simp add: take_row_def find_None_iff Ball_def)

definition taken :: "('r \<Rightarrow> 'k) \<Rightarrow> 'k \<Rightarrow> 'r list \<Rightarrow> bool" where
  "taken key k rs \<longleftrightarrow> k \<notin> key ` set rs"

definition take_live :: "('r \<Rightarrow> 'k) \<Rightarrow> ('n \<Rightarrow> 'r \<Rightarrow> bool) \<Rightarrow> 'n \<Rightarrow> 'k \<Rightarrow> 'r list \<Rightarrow> 'r option \<times> 'r list" where
  "take_live key live now k rs = take_row (\<lambda>r. key r = k \<and> live now r) rs"

lemma take_live_taken:
  assumes "distinct (map key rs)" "take_live key live now k rs = (Some r, rs')"
  shows "taken key k rs'"
proof -
  have r: "r \<in> set rs" "key r = k" "live now r" and rs': "rs' = filter (\<lambda>x. \<not> (key x = k \<and> live now x)) rs"
    using take_row_Some [of "\<lambda>x. key x = k \<and> live now x" rs r rs'] assms(2) by (auto simp: take_live_def)
  have "x = r" if "x \<in> set rs" "key x = k" for x
    using inj_onD [of key "set rs" x r] assms(1) that r(1,2) by (simp add: distinct_map)
  then show ?thesis using r(2,3) unfolding taken_def rs' by auto
qed

lemma take_live_keeps: "taken key k rs \<Longrightarrow> taken key k (snd (take_live key live now j rs))"
  by (auto simp: taken_def take_live_def take_row_def)

lemma taken_refused: "taken key k rs \<Longrightarrow> fst (take_live key live now k rs) = None"
  by (auto simp: taken_def take_live_def take_row_None)

end
