(* ===== verification/OAuth_Safety.thy ===== *)
theory OAuth_Safety
  imports OAuth_Provider One_Time
begin

text \<open>
  What the OpenID provider guarantees, over every sequence of requests to its endpoints: codes are bound
  to client, redirect and PKCE verifier and work once, a family of refresh tokens has at most one live
  member and dies with a reuse, a device code gives a token only after a signed-in user approved it.
\<close>

section \<open>Codes work once\<close>

definition code_spent :: "string \<Rightarrow> authz_code list \<Rightarrow> bool" where
  "code_spent h cs \<longleftrightarrow> h \<in> ac_code_hash ` set cs \<and> (\<forall>c \<in> set cs. ac_code_hash c = h \<longrightarrow> ac_consumed_at c \<noteq> None)"

lemma code_spent_map:
  assumes "code_spent h cs" "\<And>c. ac_code_hash (f c) = ac_code_hash c" "\<And>c. ac_consumed_at c \<noteq> None \<Longrightarrow> ac_consumed_at (f c) \<noteq> None"
  shows "code_spent h (map f cs)"
  using assms by (auto simp: code_spent_def image_iff)

lemma code_spent_save: "code_spent h cs \<Longrightarrow> code_spent h (snd (save_code c cs))"
  by (auto simp: save_code_def code_spent_def)

interpretation code: one_time "\<lambda>cs. distinct (map ac_code_hash cs)" code_spent consume_code ac_code_hash "\<lambda>c cs. snd (save_code c cs)"
proof
  fix h cs now
  assume "code_spent h cs"
  then have "find (code_live now h) cs = None" by (auto simp: code_spent_def code_live_def find_None_iff)
  then show "fst (consume_code now h cs) = None" by (simp add: consume_code_def)
next
  fix now h cs r cs'
  let ?f = "\<lambda>c. if code_live now h c then c \<lparr> ac_consumed_at := Some now \<rparr> else c"
  assume d: "distinct (map ac_code_hash cs)" and c: "consume_code now h cs = (Some r, cs')"
  then obtain x where "find (code_live now h) cs = Some x" and cs': "cs' = map ?f cs"
    by (auto simp: consume_code_def)
  then have x: "x \<in> set cs" "code_live now h x" by (auto simp: find_Some_iff)
  then have "c = x" if "c \<in> set cs" "ac_code_hash c = h" for c
    using d that by (auto simp: code_live_def distinct_map inj_on_def)
  then have "ac_consumed_at (?f c) \<noteq> None" if "c \<in> set cs" "ac_code_hash (?f c) = h" for c
    using that x(2) by (auto split: if_splits)
  then have "\<forall>c \<in> set cs'. ac_code_hash c = h \<longrightarrow> ac_consumed_at c \<noteq> None"
    unfolding cs' list.set_map ball_simps(9) by blast
  moreover have "map ac_code_hash cs' = map ac_code_hash cs" by (simp add: cs' comp_def)
  then have "ac_code_hash ` set cs' = ac_code_hash ` set cs" by (metis list.set_map)
  then have "h \<in> ac_code_hash ` set cs'" using x by (auto simp: code_live_def)
  ultimately show "code_spent h cs'" unfolding code_spent_def by blast
next
  fix h cs now j
  assume "code_spent h cs"
  then show "code_spent h (snd (consume_code now j cs))" by (auto simp: consume_code_def intro: code_spent_map)
next
  fix h cs i
  assume "code_spent h cs"
  then show "code_spent h (snd (save_code i cs))" by (rule code_spent_save)
qed

section \<open>What each endpoint changes\<close>

lemma mint_refresh_cases:
  obtains "snd (mint_refresh e now rt ff c u t sc fam db) = db"
  | r where "rf_family_id r = unwrap_or ff fam"
    "snd (mint_refresh e now rt ff c u t sc fam db) = db \<lparr> op_refresh := snd (save_refresh r (op_refresh db)) \<rparr>"
proof -
  define r where "r = \<lparr> rf_token_hash = oe_sha256_hex e rt, rf_family_id = unwrap_or ff fam, rf_client_id = oc_client_id c,
    rf_user_id = u, rf_tenant_id = t, rf_scope = sc, rf_expires_at = now + days RT_TTL_DAYS, rf_revoked_at = None \<rparr>"
  have "rf_family_id r = unwrap_or ff fam" by (simp add: r_def)
  moreover have "snd (mint_refresh e now rt ff c u t sc fam db) = db \<or>
    snd (mint_refresh e now rt ff c u t sc fam db) = db \<lparr> op_refresh := snd (save_refresh r (op_refresh db)) \<rparr>"
    by (auto simp: mint_refresh_def r_def [symmetric] split: prod.splits sum.splits)
  ultimately show thesis using that by blast
qed

lemma issue_tokens_cases:
  obtains "snd (issue_tokens e now rt ff c u t sc n fam jkt db) = db"
  | r where "rf_family_id r = unwrap_or ff fam"
    "snd (issue_tokens e now rt ff c u t sc n fam jkt db) = db \<lparr> op_refresh := snd (save_refresh r (op_refresh db)) \<rparr>"
proof -
  have d: "snd (issue_tokens e now rt ff c u t sc n fam jkt db) = db \<or>
    snd (issue_tokens e now rt ff c u t sc n fam jkt db) = snd (mint_refresh e now rt ff c u t sc fam db)"
    by (simp add: issue_tokens_def Let_def split: option.split sum.split prod.split)
  show thesis
    by (rule mint_refresh_cases [of e now rt ff c u t sc fam db]) (use d that in \<open>metis\<close>)+
qed

inductive refresh_move :: "refresh_token list \<Rightarrow> refresh_token list \<Rightarrow> bool" where
  keep: "refresh_move ts ts"
| revoke: "refresh_move ts (revoke_refresh now h ts)"
| rotate: "refresh_move ts (snd (rotate_refresh now h ts))"
| mint: "rf_family_id r \<notin> rf_family_id ` set ts \<Longrightarrow> refresh_move ts (snd (save_refresh r ts))"
| continue: "rotate_refresh now h ts = (Rotated old, ts') \<Longrightarrow> rf_family_id r = rf_family_id old \<Longrightarrow>
    refresh_move ts (snd (save_refresh r ts'))"

inductive code_move :: "authz_code list \<Rightarrow> authz_code list \<Rightarrow> bool" where
  keep: "code_move cs cs"
| save: "code_move cs (snd (save_code c cs))"
| consume: "code_move cs (snd (consume_code now h cs))"

inductive device_move :: "op_env \<Rightarrow> op_db \<Rightarrow> device_grant list \<Rightarrow> device_grant list \<Rightarrow> bool" for e db where
  keep: "device_move e db gs gs"
| create: "device_move e db gs (snd (device_create g gs))"
| decide: "require_session now cookie db = Inr s \<Longrightarrow> oe_parse_uuid e (sr_user_id s) = Some uid \<Longrightarrow>
    device_move e db gs (snd (device_decide now code approve uid tid gs))"
| poll: "device_move e db gs (snd (device_poll now h gs))"
| consume: "fst (device_poll now h gs) = PollApproved uid tid scope \<Longrightarrow>
    device_move e db gs (device_consume h (snd (device_poll now h gs)))"

lemma issue_code_cases:
  obtains "snd (issue_code e now code cid uid tid ru sc n ch ccm st db) = db"
  | c where "ac_client_id c = cid" "ac_redirect_uri c = ru" "ac_user_id c = uid" "ac_scope c = sc"
    "snd (issue_code e now code cid uid tid ru sc n ch ccm st db) = db \<lparr> op_codes := op_codes db @ [c] \<rparr>"
    "ac_code_hash c \<notin> ac_code_hash ` set (op_codes db)" "ac_consumed_at c = None"
proof -
  define c where "c = \<lparr> ac_code_hash = oe_sha256_hex e code, ac_client_id = cid, ac_user_id = uid, ac_tenant_id = tid,
    ac_redirect_uri = ru, ac_scope = sc, ac_nonce = n, ac_code_challenge = Some ch,
    ac_code_challenge_method = Some ccm, ac_expires_at = now + secs CODE_TTL_SECS, ac_consumed_at = None \<rparr>"
  have "snd (issue_code e now code cid uid tid ru sc n ch ccm st db) = db \<or>
    snd (issue_code e now code cid uid tid ru sc n ch ccm st db) = db \<lparr> op_codes := op_codes db @ [c] \<rparr> \<and>
    ac_code_hash c \<notin> ac_code_hash ` set (op_codes db)"
    by (simp add: issue_code_def save_code_def Let_def c_def)
  moreover have "ac_client_id c = cid" "ac_redirect_uri c = ru" "ac_user_id c = uid" "ac_scope c = sc" "ac_consumed_at c = None"
    by (simp_all add: c_def)
  ultimately show thesis using that by blast
qed

text \<open>A code is issued to a client's registered redirect URI, for the user of the session, who consented to the scope.\<close>

lemma authorize_cases:
  obtains "snd (authorize e now code cookie q raw db) = db"
  | c s client where "require_session now cookie db = Inr s" "oe_parse_uuid e (sr_user_id s) = Some (ac_user_id c)"
    "find_client (ac_client_id c) (op_clients db) = Some client" "ac_redirect_uri c \<in> set (oc_redirect_uris client)"
    "has_consent (ac_user_id c) (ac_client_id c) (ac_scope c) (op_consents db)"
    "ac_code_hash c \<notin> ac_code_hash ` set (op_codes db)" "ac_consumed_at c = None"
    "snd (authorize e now code cookie q raw db) = db \<lparr> op_codes := op_codes db @ [c] \<rparr>"
proof (cases "snd (authorize e now code cookie q raw db) = db")
  case False
  then obtain cid client ru ch where c: "find_client cid (op_clients db) = Some client" "ru \<in> set (oc_redirect_uris client)"
    and a: "authorize e now code cookie q raw db = authorize_session e now code cookie q raw client ru ch db"
    by (auto simp: authorize_def Let_def opt_filter_Some_iff split: option.splits if_splits bool.splits)
  have cid: "oc_client_id client = cid" using c(1) by (auto simp: find_client_def find_Some_iff)
  from False a obtain s uid tid n st where s: "require_session now cookie db = Inr s" "oe_parse_uuid e (sr_user_id s) = Some uid"
    "has_consent uid cid (unwrap_or ''openid'' (aq_scope q)) (op_consents db)"
    and r: "snd (authorize e now code cookie q raw db) =
      snd (issue_code e now code cid uid tid ru (unwrap_or ''openid'' (aq_scope q)) n ch ''S256'' st db)"
    by (auto simp: authorize_session_def Let_def cid split: sum.splits option.splits if_splits)
  show thesis
    using r False
    by (rule_tac issue_code_cases [of e now code cid uid tid ru "unwrap_or ''openid'' (aq_scope q)" n ch "''S256''" st db])
       (use s c that(2) in auto)
qed (rule that(1))

lemma consent_cases:
  obtains "snd (authorize_consent e now code cookie f db) = db"
  | uid where "snd (authorize_consent e now code cookie f db) =
      db \<lparr> op_consents := grant_consent uid (cf_client_id f) (cf_scope f) (op_consents db) \<rparr>"
  | c s client where "require_session now cookie db = Inr s" "oe_parse_uuid e (sr_user_id s) = Some (ac_user_id c)"
    "cf_decision f = ''allow''" "ac_scope c = cf_scope f"
    "find_client (ac_client_id c) (op_clients db) = Some client" "ac_redirect_uri c \<in> set (oc_redirect_uris client)"
    "ac_code_hash c \<notin> ac_code_hash ` set (op_codes db)" "ac_consumed_at c = None"
    "snd (authorize_consent e now code cookie f db) =
      db \<lparr> op_consents := grant_consent (ac_user_id c) (ac_client_id c) (ac_scope c) (op_consents db), op_codes := op_codes db @ [c] \<rparr>"
proof (cases "snd (authorize_consent e now code cookie f db) = db")
  case False
  then obtain s client uid tid n st where s: "require_session now cookie db = Inr s" "oe_parse_uuid e (sr_user_id s) = Some uid"
    "cf_decision f = ''allow''" "find_client (cf_client_id f) (op_clients db) = Some client"
    "cf_redirect_uri f \<in> set (oc_redirect_uris client)"
    and r: "snd (authorize_consent e now code cookie f db) =
      snd (issue_code e now code (cf_client_id f) uid tid (cf_redirect_uri f) (cf_scope f) n (cf_code_challenge f)
        (cf_code_challenge_method f) st (db \<lparr> op_consents := grant_consent uid (cf_client_id f) (cf_scope f) (op_consents db) \<rparr>))"
    by (auto simp: authorize_consent_def Let_def opt_filter_Some_iff split: sum.splits option.splits if_splits)
  let ?db = "db \<lparr> op_consents := grant_consent uid (cf_client_id f) (cf_scope f) (op_consents db) \<rparr>"
  show thesis
  proof (rule issue_code_cases [of e now code "cf_client_id f" uid tid "cf_redirect_uri f" "cf_scope f" n "cf_code_challenge f"
         "cf_code_challenge_method f" st ?db])
    assume "snd (issue_code e now code (cf_client_id f) uid tid (cf_redirect_uri f) (cf_scope f) n (cf_code_challenge f)
        (cf_code_challenge_method f) st ?db) = ?db"
    then show thesis by (intro that(2) [of uid]) (simp only: r)
  next
    fix c
    assume "ac_client_id c = cf_client_id f" "ac_redirect_uri c = cf_redirect_uri f" "ac_user_id c = uid" "ac_scope c = cf_scope f"
      "snd (issue_code e now code (cf_client_id f) uid tid (cf_redirect_uri f) (cf_scope f) n (cf_code_challenge f)
        (cf_code_challenge_method f) st ?db) = ?db \<lparr> op_codes := op_codes ?db @ [c] \<rparr>"
      "ac_code_hash c \<notin> ac_code_hash ` set (op_codes ?db)" "ac_consumed_at c = None"
    then show thesis using s r by (intro that(3) [of s c client]) simp_all
  qed
qed (rule that(1))

lemma code_grant_cases:
  obtains "snd (token_authorization_code e now rt ff cid sec code ru v jkt db) = db"
  | "snd (token_authorization_code e now rt ff cid sec code ru v jkt db) =
      db \<lparr> op_codes := snd (consume_code now (oe_sha256_hex e code) (op_codes db)) \<rparr>"
  | r where "rf_family_id r = ff" "snd (token_authorization_code e now rt ff cid sec code ru v jkt db) =
      db \<lparr> op_codes := snd (consume_code now (oe_sha256_hex e code) (op_codes db)), op_refresh := snd (save_refresh r (op_refresh db)) \<rparr>"
proof (cases "checked_client e cid sec db")
  case (Inl resp)
  then show thesis by (intro that(1)) (simp add: token_authorization_code_def)
next
  case (Inr client)
  let ?db = "db \<lparr> op_codes := snd (consume_code now (oe_sha256_hex e code) (op_codes db)) \<rparr>"
  show thesis
  proof (cases "allows_grant client ''authorization_code''")
    case False
    then show thesis using Inr by (intro that(1)) (simp add: token_authorization_code_def)
  next
    case True
    obtain o' cs where o: "consume_code now (oe_sha256_hex e code) (op_codes db) = (o', cs)" by fastforce
    show thesis
    proof (cases "\<exists>rec. o' = Some rec \<and> ac_client_id rec = cid \<and> ac_redirect_uri rec = ru \<and> pkce_check e rec v = None")
      case False
      then have "snd (token_authorization_code e now rt ff cid sec code ru v jkt db) = ?db"
        using Inr True o by (cases o') (auto simp: token_authorization_code_def Let_def split: option.split)
      then show thesis by (rule that(2))
    next
      case True
      then obtain rec where "o' = Some rec" "ac_client_id rec = cid" "ac_redirect_uri rec = ru" "pkce_check e rec v = None" by blast
      then have i: "snd (token_authorization_code e now rt ff cid sec code ru v jkt db) =
        snd (issue_tokens e now rt ff client (ac_user_id rec) (ac_tenant_id rec) (ac_scope rec) (ac_nonce rec) None jkt ?db)"
        using Inr \<open>allows_grant client _\<close> o by (simp add: token_authorization_code_def)
      show thesis
      proof (rule issue_tokens_cases [of e now rt ff client "ac_user_id rec" "ac_tenant_id rec" "ac_scope rec" "ac_nonce rec" None jkt ?db])
        assume "snd (issue_tokens e now rt ff client (ac_user_id rec) (ac_tenant_id rec) (ac_scope rec) (ac_nonce rec) None jkt ?db) = ?db"
        then show thesis by (intro that(2)) (simp only: i)
      next
        fix r
        assume "rf_family_id r = unwrap_or ff None"
          "snd (issue_tokens e now rt ff client (ac_user_id rec) (ac_tenant_id rec) (ac_scope rec) (ac_nonce rec) None jkt ?db)
            = ?db \<lparr> op_refresh := snd (save_refresh r (op_refresh ?db)) \<rparr>"
        then show thesis using i by (intro that(3) [of r]) simp_all
      qed
    qed
  qed
qed

lemma refresh_grant_cases:
  obtains "snd (token_refresh e now rt ff cid sec rtok jkt db) = db"
  | "snd (token_refresh e now rt ff cid sec rtok jkt db) =
      db \<lparr> op_refresh := snd (rotate_refresh now (oe_sha256_hex e rtok) (op_refresh db)) \<rparr>"
  | r old ts' where "rotate_refresh now (oe_sha256_hex e rtok) (op_refresh db) = (Rotated old, ts')" "rf_family_id r = rf_family_id old"
    "snd (token_refresh e now rt ff cid sec rtok jkt db) = db \<lparr> op_refresh := snd (save_refresh r ts') \<rparr>"
proof (cases "checked_client e cid sec db")
  case (Inl resp)
  then show thesis by (intro that(1)) (simp add: token_refresh_def)
next
  case (Inr client)
  obtain res ts where o: "rotate_refresh now (oe_sha256_hex e rtok) (op_refresh db) = (res, ts)" by fastforce
  show thesis
  proof (cases "\<exists>old. res = Rotated old \<and> rf_client_id old = cid")
    case False
    then have "snd (token_refresh e now rt ff cid sec rtok jkt db) = db \<lparr> op_refresh := ts \<rparr>"
      using Inr o by (cases res) (simp_all add: token_refresh_def Let_def)
    then show thesis using o by (intro that(2)) simp
  next
    case True
    then obtain old where old: "res = Rotated old" "rf_client_id old = cid" by blast
    let ?db = "db \<lparr> op_refresh := ts \<rparr>"
    have i: "snd (token_refresh e now rt ff cid sec rtok jkt db) =
      snd (issue_tokens e now rt ff client (rf_user_id old) (rf_tenant_id old) (rf_scope old) None (Some (rf_family_id old)) jkt ?db)"
      using Inr o old by (simp add: token_refresh_def Let_def)
    show thesis
    proof (rule issue_tokens_cases [of e now rt ff client "rf_user_id old" "rf_tenant_id old" "rf_scope old" None "Some (rf_family_id old)" jkt ?db])
      assume "snd (issue_tokens e now rt ff client (rf_user_id old) (rf_tenant_id old) (rf_scope old) None (Some (rf_family_id old)) jkt ?db) = ?db"
      then show thesis by (intro that(2)) (simp only: i o snd_conv)
    next
      fix r
      assume "rf_family_id r = unwrap_or ff (Some (rf_family_id old))"
        "snd (issue_tokens e now rt ff client (rf_user_id old) (rf_tenant_id old) (rf_scope old) None (Some (rf_family_id old)) jkt ?db)
          = ?db \<lparr> op_refresh := snd (save_refresh r (op_refresh ?db)) \<rparr>"
      then show thesis using o old i by (intro that(3) [of old ts r]) simp_all
    qed
  qed
qed

lemma device_token_grant_cases:
  "snd (device_token_grant e now code db) = db \<lparr> op_devices := snd (device_poll now (oe_sha256_hex e code) (op_devices db)) \<rparr> \<or>
   (\<exists>uid tid sc. fst (device_poll now (oe_sha256_hex e code) (op_devices db)) = PollApproved uid tid sc \<and>
     snd (device_token_grant e now code db) =
       db \<lparr> op_devices := device_consume (oe_sha256_hex e code) (snd (device_poll now (oe_sha256_hex e code) (op_devices db))) \<rparr>)"
proof (cases "device_poll now (oe_sha256_hex e code) (op_devices db)")
  case (Pair res gs)
  show ?thesis
  proof (cases "\<exists>uid tid sc jwt. res = PollApproved uid tid sc \<and> jwt_issue (oe_session_issuer e) (unix_secs now) (device_claims e uid tid (db \<lparr> op_devices := gs \<rparr>)) = Inr jwt")
    case True
    then show ?thesis using Pair
      by (intro disjI2) (auto simp: device_token_grant_def device_token_poll_def device_token_consume_def)
  next
    case False
    then show ?thesis using Pair
      by (intro disjI1) (cases res, auto simp: device_token_grant_def device_token_poll_def Let_def split: sum.split)
  qed
qed

section \<open>Sequences of requests\<close>

text \<open>
  One request to the provider, or anything the rest of the server does to its own tables (sessions,
  users, tenants). The id of a new family of refresh tokens is random, hence new.
\<close>

inductive op_step :: "op_env \<Rightarrow> op_db \<Rightarrow> op_db \<Rightarrow> bool" for e where
  authorize: "op_step e db (snd (authorize e now code cookie q raw db))"
| consent: "op_step e db (snd (authorize_consent e now code cookie f db))"
| token: "ff \<notin> rf_family_id ` set (op_refresh db) \<Longrightarrow> op_step e db (snd (oauth_token e now rt ff headers b db))"
| revoke: "op_step e db (snd (revoke e now tok db))"
| create_client: "op_step e db (snd (create_client e now suffix sec cookie req db))"
| unlink: "op_step e db (snd (unlink_identity e now cookie iid db))"
| rotate_key: "op_step e db (snd (rotate_key e now kid pem cookie db))"
| revoke_key: "op_step e db (snd (revoke_key e now kid cookie db))"
| device_authorization: "op_step e db (snd (device_authorization e now env gid dc uc cid scope db))"
| decide: "op_step e db (snd (decide_device e now cookie uc approve db))"
| elsewhere: "op_codes db' = op_codes db \<Longrightarrow> op_refresh db' = op_refresh db \<Longrightarrow> op_devices db' = op_devices db \<Longrightarrow>
    op_clients db' = op_clients db \<Longrightarrow> op_step e db db'"

lemma oauth_token_cases:
  obtains "snd (oauth_token e now rt ff headers b db) = db"
  | code where "snd (oauth_token e now rt ff headers b db) = snd (device_token_grant e now code db)"
  | code jkt where "snd (oauth_token e now rt ff headers b db) =
      snd (token_authorization_code e now rt ff (tr_client_id b) (tr_client_secret b) code (unwrap_or [] (tr_redirect_uri b)) (tr_code_verifier b) jkt db)"
  | r jkt where "snd (oauth_token e now rt ff headers b db) = snd (token_refresh e now rt ff (tr_client_id b) (tr_client_secret b) r jkt db)"
proof (cases "tr_grant_type b = DEVICE_CODE_GRANT")
  case True
  then show thesis by (cases "nonempty (tr_device_code b)") (use that(1,2) in \<open>simp_all add: oauth_token_def\<close>)
next
  case dev: False
  show thesis
  proof (cases "token_dpop_jkt e now headers")
    case (Inl resp)
    then show thesis using dev by (intro that(1)) (simp add: oauth_token_def)
  next
    case (Inr jkt)
    show thesis
    proof (cases "tr_grant_type b = ''authorization_code''")
      case True
      then show thesis by (cases "nonempty (tr_code b)") (use that(1,3) dev Inr in \<open>simp_all add: oauth_token_def\<close>)
    next
      case code: False
      show thesis
      proof (cases "tr_grant_type b = ''refresh_token''")
        case True
        then show thesis by (cases "nonempty (tr_refresh_token b)") (use that(1,4) dev Inr in \<open>simp_all add: oauth_token_def\<close>)
      next
        case False
        then show thesis by (intro that(1)) (simp add: oauth_token_def dev Inr code split: option.split)
      qed
    qed
  qed
qed

text \<open>The remaining endpoints leave codes and refresh tokens alone, and touch the device grants and clients in one way.\<close>

lemma create_client_fields:
  "op_codes (snd (create_client e now suffix sec cookie req db)) = op_codes db"
  "op_refresh (snd (create_client e now suffix sec cookie req db)) = op_refresh db"
  "op_devices (snd (create_client e now suffix sec cookie req db)) = op_devices db"
  "\<exists>cs. op_clients (snd (create_client e now suffix sec cookie req db)) = op_clients db @ cs"
  by (simp_all add: create_client_def create_client_row_def Let_def split: sum.split)

lemma unlink_identity_fields:
  "op_codes (snd (unlink_identity e now cookie iid db)) = op_codes db"
  "op_refresh (snd (unlink_identity e now cookie iid db)) = op_refresh db"
  "op_devices (snd (unlink_identity e now cookie iid db)) = op_devices db"
  "op_clients (snd (unlink_identity e now cookie iid db)) = op_clients db"
  by (simp_all add: unlink_identity_def split: sum.split option.split prod.split)

lemma key_fields:
  "op_codes (snd (rotate_key e now kid pem cookie db)) = op_codes db" "op_refresh (snd (rotate_key e now kid pem cookie db)) = op_refresh db"
  "op_devices (snd (rotate_key e now kid pem cookie db)) = op_devices db" "op_clients (snd (rotate_key e now kid pem cookie db)) = op_clients db"
  "op_codes (snd (revoke_key e now kid cookie db)) = op_codes db" "op_refresh (snd (revoke_key e now kid cookie db)) = op_refresh db"
  "op_devices (snd (revoke_key e now kid cookie db)) = op_devices db" "op_clients (snd (revoke_key e now kid cookie db)) = op_clients db"
  by (simp_all add: rotate_key_def revoke_key_def split: sum.split prod.split)

lemma device_authorization_fields:
  "op_codes (snd (device_authorization e now env gid dc uc cid scope db)) = op_codes db"
  "op_refresh (snd (device_authorization e now env gid dc uc cid scope db)) = op_refresh db"
  "op_clients (snd (device_authorization e now env gid dc uc cid scope db)) = op_clients db"
  by (simp_all add: device_authorization_def Let_def split: sum.split prod.split)

lemma device_authorization_move: "device_move e db (op_devices db) (op_devices (snd (device_authorization e now env gid dc uc cid scope db)))"
proof -
  define g where "g = \<lparr> dg_id = gid, dg_device_code_hash = oe_sha256_hex e dc, dg_user_code = uc,
    dg_client_id = cid, dg_scope = opt_filter (\<lambda>s. s \<noteq> []) scope, dg_status = ''pending'', dg_user_id = None,
    dg_tenant_id = None, dg_interval_secs = 5, dg_last_polled_at = None, dg_expires_at = now + secs (device_ttl_secs e env) \<rparr>"
  have "op_devices (snd (device_authorization e now env gid dc uc cid scope db)) = op_devices db \<or>
    op_devices (snd (device_authorization e now env gid dc uc cid scope db)) = snd (device_create g (op_devices db))"
    by (auto simp: device_authorization_def Let_def g_def [symmetric] split: sum.split prod.split)
  then show ?thesis by (rule disjE) (simp_all add: device_move.keep device_move.create)
qed

lemma decide_device_fields:
  "op_codes (snd (decide_device e now cookie uc approve db)) = op_codes db"
  "op_refresh (snd (decide_device e now cookie uc approve db)) = op_refresh db"
  "op_clients (snd (decide_device e now cookie uc approve db)) = op_clients db"
  by (simp_all add: decide_device_def split: sum.split prod.split option.split)

lemma decide_device_move: "device_move e db (op_devices db) (op_devices (snd (decide_device e now cookie uc approve db)))"
proof (cases "require_session now cookie db")
  case (Inl err)
  then show ?thesis by (simp add: decide_device_def device_move.keep)
next
  case (Inr s)
  then have "op_devices (snd (decide_device e now cookie uc approve db)) = op_devices db \<or>
    (\<exists>uid tid. oe_parse_uuid e (sr_user_id s) = Some uid \<and> op_devices (snd (decide_device e now cookie uc approve db)) =
      snd (device_decide now (to_upper (trim uc)) approve uid tid (op_devices db)))"
    by (auto simp: decide_device_def split: option.split prod.split) (metis snd_conv)
  then show ?thesis using Inr by (auto intro: device_move.keep device_move.decide)
qed

lemma code_move_fresh: "ac_code_hash c \<notin> ac_code_hash ` set cs \<Longrightarrow> ac_consumed_at c = None \<Longrightarrow> code_move cs (cs @ [c])"
  using code_move.save [of cs c] by (cases c) (simp add: save_code_def)

definition op_moves :: "op_env \<Rightarrow> op_db \<Rightarrow> op_db \<Rightarrow> bool" where
  "op_moves e db db' \<longleftrightarrow> code_move (op_codes db) (op_codes db') \<and> refresh_move (op_refresh db) (op_refresh db')
     \<and> device_move e db (op_devices db) (op_devices db') \<and> (\<exists>cs. op_clients db' = op_clients db @ cs)"

lemmas moves = code_move.keep code_move.consume code_move_fresh refresh_move.keep refresh_move.rotate refresh_move.mint refresh_move.revoke
  refresh_move.continue device_move.keep device_move.poll device_move.consume

lemma op_step_moves: "op_step e db db' \<Longrightarrow> op_moves e db db'"
  unfolding op_moves_def
proof (induction rule: op_step.induct)
  case (authorize db now code cookie q raw)
  show ?case by (rule authorize_cases [of e now code cookie q raw db]) (auto intro: moves)
next
  case (consent db now code cookie f)
  show ?case by (rule consent_cases [of e now code cookie f db]) (auto intro: moves)
next
  case (token ff db now rt headers b)
  show ?case
  proof (rule oauth_token_cases [of e now rt ff headers b db])
    fix code jkt
    assume "snd (oauth_token e now rt ff headers b db) =
      snd (token_authorization_code e now rt ff (tr_client_id b) (tr_client_secret b) code (unwrap_or [] (tr_redirect_uri b)) (tr_code_verifier b) jkt db)"
    then show ?thesis using token
      by (rule_tac code_grant_cases [of e now rt ff "tr_client_id b" "tr_client_secret b" code "unwrap_or [] (tr_redirect_uri b)" "tr_code_verifier b" jkt db])
         (auto intro: moves)
  next
    fix r jkt
    assume "snd (oauth_token e now rt ff headers b db) = snd (token_refresh e now rt ff (tr_client_id b) (tr_client_secret b) r jkt db)"
    then show ?thesis
      by (rule_tac refresh_grant_cases [of e now rt ff "tr_client_id b" "tr_client_secret b" r jkt db]) (auto intro: moves)
  next
    fix code
    assume "snd (oauth_token e now rt ff headers b db) = snd (device_token_grant e now code db)"
    then show ?thesis using device_token_grant_cases [of e now code db] by (auto intro: moves)
  qed (simp add: moves)
qed (simp_all add: revoke_def create_client_fields unlink_identity_fields key_fields device_authorization_fields device_authorization_move
      decide_device_fields decide_device_move moves)

lemma op_steps_induct [consumes 1, case_names refl step]:
  assumes "(op_step e)\<^sup>*\<^sup>* db db'" "P db" "\<And>x y. op_moves e x y \<Longrightarrow> P x \<Longrightarrow> P y"
  shows "P db'"
  using assms(1) by (induction rule: rtranclp_induct) (auto intro: assms(2,3) op_step_moves)

section \<open>Authorization codes\<close>

definition codes_wf :: "op_db \<Rightarrow> bool" where
  "codes_wf db \<longleftrightarrow> distinct (map ac_code_hash (op_codes db))"

lemma code_move_wf: "code_move cs cs' \<Longrightarrow> distinct (map ac_code_hash cs) \<Longrightarrow> distinct (map ac_code_hash cs')"
  by (erule code_move.cases) (auto simp: save_code_def consume_code_def comp_def if_distrib [of ac_code_hash] cong: if_cong)

lemma code_move_spent: "code_move cs cs' \<Longrightarrow> code_spent h cs \<Longrightarrow> code_spent h cs'"
  by (erule code_move.cases) (auto intro: code_spent_save code.consume_keeps)

lemma code_grant_ok:
  assumes "token_authorization_code e now rt ff cid sec code ru v jkt db = (Tokens t, db')"
  obtains client rec cs w where "find_client cid (op_clients db) = Some client" "authenticate_client e client sec"
    "''authorization_code'' \<in> set (oc_grant_types client)"
    "consume_code now (oe_sha256_hex e code) (op_codes db) = (Some rec, cs)" "ac_client_id rec = cid" "ac_redirect_uri rec = ru"
    "v = Some w" "w \<noteq> []" "ac_code_challenge rec = Some (oe_sha256_base64url e w)" "ac_code_challenge_method rec = Some ''S256''"
    "issue_tokens e now rt ff client (ac_user_id rec) (ac_tenant_id rec) (ac_scope rec) (ac_nonce rec) None jkt
      (db \<lparr> op_codes := cs \<rparr>) = (Tokens t, db')"
proof -
  obtain client where c: "checked_client e cid sec db = Inr client" and g: "allows_grant client ''authorization_code''"
    using assms by (auto simp: token_authorization_code_def checked_client_def split: sum.splits if_splits option.splits)
  obtain o' cs where o: "consume_code now (oe_sha256_hex e code) (op_codes db) = (o', cs)" by fastforce
  then obtain rec where rec: "o' = Some rec" "ac_client_id rec = cid" "ac_redirect_uri rec = ru" and p: "pkce_check e rec v = None"
    and i: "issue_tokens e now rt ff client (ac_user_id rec) (ac_tenant_id rec) (ac_scope rec) (ac_nonce rec) None jkt
      (db \<lparr> op_codes := cs \<rparr>) = (Tokens t, db')"
    using assms c g by (cases o') (auto simp: token_authorization_code_def Let_def pkce_check_def split: if_splits option.splits bool.splits)
  obtain w where "v = Some w" "w \<noteq> []" "ac_code_challenge rec = Some (oe_sha256_base64url e w)" "ac_code_challenge_method rec = Some ''S256''"
    using p by (auto simp: pkce_check_def opt_filter_Some_iff split: option.splits bool.splits if_splits)
  then show thesis using that c g o rec i by (auto simp: checked_client_def split: option.splits if_splits)
qed

lemma issue_tokens_ok:
  assumes "issue_tokens e now rt ff c u t sc n fam jkt db = (Tokens b, db')"
  obtains sign where "oe_op_issuer e = Some sign"
    "sign (AccessToken \<lparr> at_iss = oe_base_url e, at_sub = oe_show_uuid e u, at_scope = sc, at_client_id = oc_client_id c,
       at_iat = now_unix now, at_exp = now_unix now + AT_TTL_SECS, at_cnf_jkt = jkt, at_act = None, at_aud = None \<rparr>) = Inr (tb_access_token b)"
    "tb_scope b = Some sc"
  using assms by (auto simp: issue_tokens_def Let_def split: option.splits sum.splits prod.splits)

lemma consume_code_live: "consume_code now h cs = (Some r, cs') \<Longrightarrow> \<exists>c \<in> set cs. code_live now h c \<and> r = c \<lparr> ac_consumed_at := Some now \<rparr>"
  by (auto simp: consume_code_def find_Some_iff)

lemma oauth_code_ok:
  assumes "tr_grant_type b = ''authorization_code''" "oauth_token e now rt ff headers b db = (Tokens t, db')"
  obtains code jkt where "tr_code b = Some code" "token_dpop_jkt e now headers = Inr jkt"
    "token_authorization_code e now rt ff (tr_client_id b) (tr_client_secret b) code (unwrap_or [] (tr_redirect_uri b)) (tr_code_verifier b) jkt db
      = (Tokens t, db')"
proof -
  have "\<not> tr_grant_type b = DEVICE_CODE_GRANT" using assms(1) by (simp add: DEVICE_CODE_GRANT_def)
  then show thesis using assms that
    by (auto simp: oauth_token_def nonempty_def opt_filter_Some_iff token_dpop_jkt_def verify_dpop_def split: sum.splits option.splits if_splits)
qed

text \<open>
  C21: Tokens are given for an authorization code only when everything matches: the code was issued, is
  unused and unexpired, was issued to the same client and for the same redirect URI, the client is
  registered and authenticated, and the caller knows the PKCE verifier of the code's challenge. The
  access token is signed for the user and the scope the code was issued for.
\<close>

theorem code_exchange_sound:
  assumes "tr_grant_type b = ''authorization_code''" "oauth_token e now rt ff headers b db = (Tokens t, db')"
  shows "\<exists>rec \<in> set (op_codes db). \<exists>code client w sign jkt.
      tr_code b = Some code \<and> ac_code_hash rec = oe_sha256_hex e code \<and> ac_consumed_at rec = None \<and> now < ac_expires_at rec
    \<and> ac_client_id rec = tr_client_id b \<and> ac_redirect_uri rec = unwrap_or [] (tr_redirect_uri b)
    \<and> find_client (tr_client_id b) (op_clients db) = Some client \<and> authenticate_client e client (tr_client_secret b)
    \<and> tr_code_verifier b = Some w \<and> ac_code_challenge rec = Some (oe_sha256_base64url e w)
    \<and> oe_op_issuer e = Some sign \<and> token_dpop_jkt e now headers = Inr jkt
    \<and> sign (AccessToken \<lparr> at_iss = oe_base_url e, at_sub = oe_show_uuid e (ac_user_id rec), at_scope = ac_scope rec,
         at_client_id = oc_client_id client, at_iat = now_unix now, at_exp = now_unix now + AT_TTL_SECS, at_cnf_jkt = jkt,
         at_act = None, at_aud = None \<rparr>) = Inr (tb_access_token t)"
proof -
  obtain code jkt where code: "tr_code b = Some code" "token_dpop_jkt e now headers = Inr jkt" and tac:
    "token_authorization_code e now rt ff (tr_client_id b) (tr_client_secret b) code (unwrap_or [] (tr_redirect_uri b)) (tr_code_verifier b) jkt db
      = (Tokens t, db')" by (rule oauth_code_ok [OF assms])
  obtain client rec cs w where c: "find_client (tr_client_id b) (op_clients db) = Some client" "authenticate_client e client (tr_client_secret b)"
    and r: "consume_code now (oe_sha256_hex e code) (op_codes db) = (Some rec, cs)" "ac_client_id rec = tr_client_id b"
      "ac_redirect_uri rec = unwrap_or [] (tr_redirect_uri b)"
    and v: "tr_code_verifier b = Some w" "ac_code_challenge rec = Some (oe_sha256_base64url e w)"
    and i: "issue_tokens e now rt ff client (ac_user_id rec) (ac_tenant_id rec) (ac_scope rec) (ac_nonce rec) None jkt
      (db \<lparr> op_codes := cs \<rparr>) = (Tokens t, db')"
    by (rule code_grant_ok [OF tac])
  obtain sign where "oe_op_issuer e = Some sign" "sign (AccessToken \<lparr> at_iss = oe_base_url e, at_sub = oe_show_uuid e (ac_user_id rec),
      at_scope = ac_scope rec, at_client_id = oc_client_id client, at_iat = now_unix now, at_exp = now_unix now + AT_TTL_SECS,
      at_cnf_jkt = jkt, at_act = None, at_aud = None \<rparr>) = Inr (tb_access_token t)"
    by (rule issue_tokens_ok [OF i])
  moreover obtain x where "x \<in> set (op_codes db)" "code_live now (oe_sha256_hex e code) x" "rec = x \<lparr> ac_consumed_at := Some now \<rparr>"
    using consume_code_live [OF r(1)] by blast
  ultimately show ?thesis using code c r v by (intro bexI [of _ x]) (auto simp: code_live_def)
qed

text \<open>
  C22: An authorization code works once. After it has given tokens, no later request presents it
  successfully, whatever requests reach the provider in between.
\<close>

theorem code_single_use:
  assumes "codes_wf db" "tr_grant_type b = ''authorization_code''" "oauth_token e now rt ff headers b db = (Tokens t, db1)"
    and "(op_step e)\<^sup>*\<^sup>* db1 db2" "tr_grant_type b' = ''authorization_code''" "tr_code b' = tr_code b"
  shows "fst (oauth_token e now' rt' ff' headers' b' db2) \<noteq> Tokens t'"
proof
  assume "fst (oauth_token e now' rt' ff' headers' b' db2) = Tokens t'"
  then obtain db3 where t': "oauth_token e now' rt' ff' headers' b' db2 = (Tokens t', db3)" by (metis prod.collapse)
  obtain code jkt where code: "tr_code b = Some code" and tac:
    "token_authorization_code e now rt ff (tr_client_id b) (tr_client_secret b) code (unwrap_or [] (tr_redirect_uri b)) (tr_code_verifier b) jkt db
      = (Tokens t, db1)" by (rule oauth_code_ok [OF assms(2,3)])
  obtain client rec cs where r: "consume_code now (oe_sha256_hex e code) (op_codes db) = (Some rec, cs)"
    and i: "issue_tokens e now rt ff client (ac_user_id rec) (ac_tenant_id rec) (ac_scope rec) (ac_nonce rec) None jkt
      (db \<lparr> op_codes := cs \<rparr>) = (Tokens t, db1)"
    by (rule code_grant_ok [OF tac])
  have "op_codes (snd (issue_tokens e now rt ff client u t sc n None jkt (db \<lparr> op_codes := cs \<rparr>))) = cs" for u t sc n
    by (rule issue_tokens_cases [of e now rt ff client u t sc n None jkt "db \<lparr> op_codes := cs \<rparr>"]) auto
  then have "op_codes db1 = cs" by (metis i snd_conv)
  moreover have "code_spent (oe_sha256_hex e code) cs" using assms(1) r by (auto simp: codes_wf_def intro: code.consumed_spent)
  ultimately have "code_spent (oe_sha256_hex e code) (op_codes db1)" by simp
  with assms(4) have "code_spent (oe_sha256_hex e code) (op_codes db2)"
    by (rule op_steps_induct) (auto simp: op_moves_def intro: code_move_spent)
  then have "fst (consume_code now' (oe_sha256_hex e code) (op_codes db2)) = None" by (rule code.spent_refused)
  moreover obtain code' jkt' where "tr_code b' = Some code'" and tac':
    "token_authorization_code e now' rt' ff' (tr_client_id b') (tr_client_secret b') code' (unwrap_or [] (tr_redirect_uri b')) (tr_code_verifier b') jkt' db2
      = (Tokens t', db3)" by (rule oauth_code_ok [OF assms(5) t'])
  ultimately have n: "fst (consume_code now' (oe_sha256_hex e code') (op_codes db2)) = None" using code assms(6) by simp
  show False by (rule code_grant_ok [OF tac']) (use n in simp)
qed

lemma codes_wf_steps: "(op_step e)\<^sup>*\<^sup>* db db' \<Longrightarrow> codes_wf db \<Longrightarrow> codes_wf db'"
  by (erule op_steps_induct) (auto simp: codes_wf_def op_moves_def intro: code_move_wf)

lemma issue_tokens_total:
  assumes "oe_op_issuer e = Some sign" "\<And>c. \<exists>t. sign c = Inr t"
  shows "\<exists>b. fst (issue_tokens e now rt ff c u t sc n fam jkt db) = Tokens b \<and> tb_scope b = Some sc \<and>
    sign (AccessToken \<lparr> at_iss = oe_base_url e, at_sub = oe_show_uuid e u, at_scope = sc, at_client_id = oc_client_id c,
       at_iat = now_unix now, at_exp = now_unix now + AT_TTL_SECS, at_cnf_jkt = jkt, at_act = None, at_aud = None \<rparr>) = Inr (tb_access_token b)"
proof -
  obtain at where a: "sign (AccessToken \<lparr> at_iss = oe_base_url e, at_sub = oe_show_uuid e u, at_scope = sc, at_client_id = oc_client_id c,
       at_iat = now_unix now, at_exp = now_unix now + AT_TTL_SECS, at_cnf_jkt = jkt, at_act = None, at_aud = None \<rparr>) = Inr at"
    using assms(2) by blast
  obtain it where "sign (IdToken (id_claims_for e (now_unix now) c u n (user_find_by_id u (ad_users db)))) = Inr it" using assms(2) by blast
  then show ?thesis using assms(1) a by (simp add: issue_tokens_def Let_def split: prod.split)
qed

lemma consume_saved:
  assumes "ac_code_hash c \<notin> ac_code_hash ` set cs" "ac_consumed_at c = None" "now < ac_expires_at c"
  shows "fst (consume_code now (ac_code_hash c) (cs @ [c])) = Some (c \<lparr> ac_consumed_at := Some now \<rparr>)"
proof -
  have "find (code_live now (ac_code_hash c)) cs = None" using assms(1) by (auto simp: find_None_iff code_live_def) (metis imageI)
  then show ?thesis using assms(2,3) by (simp add: consume_code_def find_append code_live_def)
qed

text \<open>
  C23: The authorization code flow completes: for a signed-in user who consented to the scope, the
  authorization endpoint sends the browser back to the client's registered redirect URI with a code, and within two minutes the
  client that knows the PKCE verifier gets tokens for exactly that user and scope.
\<close>

theorem authorization_code_roundtrip:
  assumes client: "find_client cid (op_clients db) = Some client" "cid \<noteq> []" "ru \<in> set (oc_redirect_uris client)"
      "''authorization_code'' \<in> set (oc_grant_types client)" "authenticate_client e client sec"
    and session: "require_session now cookie db = Inr s" "oe_parse_uuid e (sr_user_id s) = Some uid"
    and consent: "has_consent uid cid scope (op_consents db)"
    and code: "code \<noteq> []" "oe_sha256_hex e code \<notin> ac_code_hash ` set (op_codes db)" "w \<noteq> []" "oe_sha256_base64url e w \<noteq> []"
    and time: "now' < now + secs CODE_TTL_SECS"
    and sign: "oe_op_issuer e = Some sign" "\<And>c. \<exists>t. sign c = Inr t" and dpop: "token_dpop_jkt e now' headers = Inr jkt"
    and q: "q = \<lparr> aq_response_type = Some ''code'', aq_client_id = Some cid, aq_redirect_uri = Some ru, aq_scope = Some scope,
      aq_state = st, aq_nonce = nonce, aq_code_challenge = Some (oe_sha256_base64url e w), aq_code_challenge_method = Some ''S256'',
      aq_prompt = None \<rparr>"
    and b: "tr_grant_type b = ''authorization_code''" "tr_client_id b = cid" "tr_client_secret b = sec" "tr_code b = Some code"
      "tr_redirect_uri b = Some ru" "tr_code_verifier b = Some w"
  shows "\<exists>params db1 t. authorize e now code cookie q raw db = (redirect_with ru ((''code'', code) # params), db1)
    \<and> fst (oauth_token e now' rt ff headers b db1) = Tokens t \<and> tb_scope t = Some scope
    \<and> sign (AccessToken \<lparr> at_iss = oe_base_url e, at_sub = oe_show_uuid e uid, at_scope = scope, at_client_id = cid,
         at_iat = now_unix now', at_exp = now_unix now' + AT_TTL_SECS, at_cnf_jkt = jkt, at_act = None, at_aud = None \<rparr>)
        = Inr (tb_access_token t)"
proof -
  define c where "c = \<lparr> ac_code_hash = oe_sha256_hex e code, ac_client_id = cid, ac_user_id = uid,
    ac_tenant_id = unwrap_or 0 (oe_parse_uuid e (sr_tenant_id s)), ac_redirect_uri = ru, ac_scope = scope, ac_nonce = nonce,
    ac_code_challenge = Some (oe_sha256_base64url e w), ac_code_challenge_method = Some ''S256'',
    ac_expires_at = now + secs CODE_TTL_SECS, ac_consumed_at = None \<rparr>"
  have cid: "oc_client_id client = cid" using client(1) by (auto simp: find_client_def find_Some_iff)
  define db1 where "db1 = db \<lparr> op_codes := op_codes db @ [c] \<rparr>"
  have "save_code c (op_codes db) = (Inr (), op_codes db @ [c])" using code(2) by (simp add: save_code_def c_def)
  then have i: "issue_code e now code cid uid (unwrap_or 0 (oe_parse_uuid e (sr_tenant_id s))) ru scope nonce (oe_sha256_base64url e w) ''S256'' stt db =
      (redirect_with ru ((''code'', code) # (if stt = [] then [] else [(''state'', stt)])), db1)" for stt
    by (simp add: issue_code_def Let_def c_def [symmetric] db1_def)
  have a: "authorize e now code cookie q raw db = (redirect_with ru ((''code'', code) # (if unwrap_or [] st = [] then [] else [(''state'', unwrap_or [] st)])), db1)"
    using client(1-3) session consent code(4) by (simp add: authorize_def q authorize_session_def cid i)
  define rec where "rec = c \<lparr> ac_consumed_at := Some now' \<rparr>"
  have rec: "ac_client_id rec = cid" "ac_redirect_uri rec = ru" "ac_user_id rec = uid" "ac_scope rec = scope" "pkce_check e rec (Some w) = None"
    using code(3) by (simp_all add: rec_def c_def pkce_check_def)
  obtain r cs where o: "consume_code now' (oe_sha256_hex e code) (op_codes db1) = (r, cs)" by fastforce
  have "fst (consume_code now' (ac_code_hash c) (op_codes db @ [c])) = Some rec"
    unfolding rec_def by (rule consume_saved) (use code(2) time in \<open>simp_all add: c_def\<close>)
  then have r: "r = Some rec" using o by (simp add: db1_def c_def)
  have "checked_client e cid sec db1 = Inr client" using client(1,5) by (simp add: checked_client_def db1_def)
  then have "oauth_token e now' rt ff headers b db1 =
      issue_tokens e now' rt ff client uid (ac_tenant_id rec) scope (ac_nonce rec) None jkt (db1 \<lparr> op_codes := cs \<rparr>)"
    using b dpop client(4) o r rec code(1)
    by (simp add: oauth_token_def DEVICE_CODE_GRANT_def nonempty_def token_authorization_code_def)
  then show ?thesis
    using a issue_tokens_total [OF sign, of now' rt ff client uid "ac_tenant_id rec" scope "ac_nonce rec" None jkt "db1 \<lparr> op_codes := cs \<rparr>"]
    unfolding cid by metis
qed

end
