(* ===== verification/OAuth_Refresh.thy ===== *)
theory OAuth_Refresh
  imports OAuth_Safety
begin

text \<open>
  Refresh tokens of the OpenID provider: each update of the table only revokes or adds (\<open>only_revokes\<close>,
  \<open>refresh_move\<close>), so that a family keeps at most one live token and a dead family stays dead.
\<close>

section \<open>Refresh tokens\<close>

lemma map_eq_image: "map f xs = map f ys \<Longrightarrow> f ` set xs = f ` set ys"
  by (metis list.set_map)

definition refresh_live :: "uuid \<Rightarrow> refresh_token \<Rightarrow> bool" where
  "refresh_live f t \<longleftrightarrow> rf_family_id t = f \<and> rf_revoked_at t = None"

definition refresh_wf :: "refresh_token list \<Rightarrow> bool" where
  "refresh_wf ts \<longleftrightarrow> distinct (map rf_token_hash ts)
     \<and> (\<forall>f. \<forall>x \<in> set ts. \<forall>y \<in> set ts. refresh_live f x \<and> refresh_live f y \<longrightarrow> rf_token_hash x = rf_token_hash y)"

definition family_dead :: "uuid \<Rightarrow> refresh_token list \<Rightarrow> bool" where
  "family_dead f ts \<longleftrightarrow> f \<in> rf_family_id ` set ts \<and> \<not> list_ex (refresh_live f) ts"

text \<open>Updates that only revoke.\<close>

definition only_revokes :: "refresh_token list \<Rightarrow> refresh_token list \<Rightarrow> bool" where
  "only_revokes ts ts' \<longleftrightarrow> (\<exists>g. ts' = map g ts \<and> (\<forall>t. rf_token_hash (g t) = rf_token_hash t \<and> rf_family_id (g t) = rf_family_id t
     \<and> (rf_revoked_at t \<noteq> None \<longrightarrow> rf_revoked_at (g t) \<noteq> None)))"

lemma only_revokes_wf: "only_revokes ts ts' \<Longrightarrow> refresh_wf ts \<Longrightarrow> refresh_wf ts'"
proof -
  assume "only_revokes ts ts'" and w: "refresh_wf ts"
  then obtain g where ts': "ts' = map g ts" and g: "\<And>t. rf_token_hash (g t) = rf_token_hash t" "\<And>t. rf_family_id (g t) = rf_family_id t"
    "\<And>t. rf_revoked_at t \<noteq> None \<Longrightarrow> rf_revoked_at (g t) \<noteq> None" unfolding only_revokes_def by metis
  have "refresh_live f t" if "refresh_live f (g t)" for f t using that g(2,3) unfolding refresh_live_def by metis
  then show "refresh_wf ts'" using w unfolding refresh_wf_def ts' list.map_comp comp_def g list.set_map ball_simps(9) by blast
qed

lemma only_revokes_dead: "only_revokes ts ts' \<Longrightarrow> family_dead f ts \<Longrightarrow> family_dead f ts'"
  by (force simp: only_revokes_def family_dead_def list_ex_iff refresh_live_def image_iff)

lemma only_revokes_where: "only_revokes ts (revoke_where now P ts)"
  unfolding only_revokes_def revoke_where_def
  by (rule exI [of _ "\<lambda>t. if P t \<and> rf_revoked_at t = None then t \<lparr> rf_revoked_at := Some now \<rparr> else t"]) simp

lemma only_revokes_rotate: "only_revokes ts (snd (rotate_refresh now h ts))"
proof -
  have "only_revokes ts ts" by (auto simp: only_revokes_def intro: exI [of _ id])
  moreover have "only_revokes ts (map (\<lambda>t. if rf_token_hash t = h then t \<lparr> rf_revoked_at := Some now \<rparr> else t) ts)"
    unfolding only_revokes_def
    by (rule exI [of _ "\<lambda>t. if rf_token_hash t = h then t \<lparr> rf_revoked_at := Some now \<rparr> else t"]) simp
  ultimately show ?thesis by (auto simp: rotate_refresh_def only_revokes_where split: option.split)
qed

lemma rotated_ends_family:
  assumes "refresh_wf ts" "rotate_refresh now h ts = (Rotated old, ts')"
  shows "family_dead (rf_family_id old) ts'" "old \<in> set ts" "rf_revoked_at old = None" "rf_token_hash old = h" "now < rf_expires_at old"
proof -
  let ?g = "\<lambda>t. if rf_token_hash t = h then t \<lparr> rf_revoked_at := Some now \<rparr> else t"
  have f: "find (\<lambda>t. rf_token_hash t = h) ts = Some old" and l: "rf_revoked_at old = None" "now < rf_expires_at old" and ts': "ts' = map ?g ts"
    using assms(2) by (auto simp: rotate_refresh_def split: option.splits if_splits)
  show o: "old \<in> set ts" "rf_token_hash old = h" using f by (auto simp: find_Some_iff)
  show "rf_revoked_at old = None" "now < rf_expires_at old" by (rule l)+
  have "\<not> refresh_live (rf_family_id old) (?g t)" if "t \<in> set ts" for t
  proof
    assume a: "refresh_live (rf_family_id old) (?g t)"
    then have "rf_token_hash t \<noteq> h" by (auto simp: refresh_live_def)
    moreover from a have "refresh_live (rf_family_id old) t" by (auto simp: refresh_live_def split: if_splits)
    ultimately show False using assms(1) that o l unfolding refresh_wf_def refresh_live_def by blast
  qed
  then have "\<not> list_ex (refresh_live (rf_family_id old)) ts'" unfolding list_ex_iff ts' list.set_map bex_simps by blast
  moreover have "map rf_family_id ts' = map rf_family_id ts" by (simp add: ts' comp_def if_distrib [of rf_family_id] cong: if_cong)
  then have "rf_family_id ` set ts' = rf_family_id ` set ts" by (metis list.set_map)
  ultimately show "family_dead (rf_family_id old) ts'" using o(1) unfolding family_dead_def by blast
qed

lemma save_refresh_wf:
  assumes "refresh_wf ts" "\<not> list_ex (refresh_live (rf_family_id r)) ts"
  shows "refresh_wf (snd (save_refresh r ts))"
proof (cases "rf_token_hash r \<in> set (map rf_token_hash ts)")
  case False
  define r' where "r' = r \<lparr> rf_revoked_at := None \<rparr>"
  have r': "rf_token_hash r' = rf_token_hash r" "refresh_live f r' \<longleftrightarrow> f = rf_family_id r" for f by (auto simp: r'_def refresh_live_def)
  have "snd (save_refresh r ts) = ts @ [r']" using False by (simp add: save_refresh_def r'_def)
  moreover have "refresh_wf (ts @ [r'])" using assms False r' unfolding refresh_wf_def list_ex_iff by auto
  ultimately show ?thesis by simp
qed (use assms in \<open>simp add: save_refresh_def\<close>)

lemma save_refresh_dead:
  assumes "family_dead f ts" "rf_family_id r \<noteq> f"
  shows "family_dead f (snd (save_refresh r ts))"
  using assms by (auto simp: save_refresh_def family_dead_def list_ex_iff refresh_live_def)

lemma refresh_move_wf: "refresh_move ts ts' \<Longrightarrow> refresh_wf ts \<Longrightarrow> refresh_wf ts'"
proof (induction rule: refresh_move.induct)
  case (mint r ts)
  then show ?case by (intro save_refresh_wf) (auto simp: list_ex_iff refresh_live_def image_iff)
next
  case (continue now h ts old ts' r)
  then have "refresh_wf ts'" "family_dead (rf_family_id old) ts'"
    using only_revokes_rotate [of ts now h] by (auto intro: only_revokes_wf rotated_ends_family)
  then show ?case using continue(2) by (intro save_refresh_wf) (auto simp: family_dead_def)
qed (auto simp: revoke_refresh_def intro: only_revokes_wf only_revokes_where only_revokes_rotate)

lemma refresh_move_dead: "refresh_move ts ts' \<Longrightarrow> family_dead f ts \<Longrightarrow> refresh_wf ts \<Longrightarrow> family_dead f ts'"
proof (induction rule: refresh_move.induct)
  case (mint r ts)
  then show ?case by (intro save_refresh_dead) (auto simp: family_dead_def)
next
  case (continue now h ts old ts' r)
  note old = rotated_ends_family [OF continue(4,1)]
  then have "rf_family_id old \<noteq> f" using continue(3) by (auto simp: family_dead_def list_ex_iff refresh_live_def)
  moreover have "family_dead f ts'" using continue only_revokes_rotate [of ts now h] by (auto intro: only_revokes_dead)
  ultimately show ?case using continue(2) by (intro save_refresh_dead) auto
qed (auto simp: revoke_refresh_def intro: only_revokes_dead only_revokes_where only_revokes_rotate)

lemma refresh_wf_steps: "(op_step e)\<^sup>*\<^sup>* db db' \<Longrightarrow> op_refresh db = [] \<Longrightarrow> refresh_wf (op_refresh db')"
  by (erule op_steps_induct) (auto simp: refresh_wf_def [of "[]"] op_moves_def intro: refresh_move_wf)

text \<open>
  C24: Refresh tokens rotate in line: whatever requests the provider serves, in whatever order, a family of
  refresh tokens never has two live members. A token that is presented is replaced, never copied.
\<close>

theorem refresh_family_linear:
  assumes "(op_step e)\<^sup>*\<^sup>* db db'" "op_refresh db = []"
  shows "length (filter (\<lambda>t. rf_family_id t = f \<and> rf_revoked_at t = None) (op_refresh db')) \<le> 1"
proof -
  have wf: "refresh_wf (op_refresh db')" using assms by (rule refresh_wf_steps)
  define ts where "ts = filter (refresh_live f) (op_refresh db')"
  have d: "distinct (map rf_token_hash ts)" using wf unfolding refresh_wf_def ts_def by (blast intro: distinct_map_filter)
  have eq: "rf_token_hash x = rf_token_hash y" if "x \<in> set ts" "y \<in> set ts" for x y
  proof -
    have "x \<in> set (op_refresh db')" "y \<in> set (op_refresh db')" "refresh_live f x" "refresh_live f y" using that by (simp_all add: ts_def)
    then show ?thesis using wf unfolding refresh_wf_def by blast
  qed
  have "length ts \<le> 1"
  proof (rule ccontr)
    assume "\<not> length ts \<le> 1"
    then obtain x y zs where ts: "ts = x # y # zs" by (cases ts; cases "tl ts") auto
    have "rf_token_hash x = rf_token_hash y" by (rule eq) (simp_all add: ts)
    then show False using d ts by simp
  qed
  then show ?thesis by (simp add: ts_def refresh_live_def [abs_def])
qed

lemma oauth_refresh_ok:
  assumes "tr_grant_type b = ''refresh_token''" "oauth_token e now rt ff headers b db = (Tokens t, db')"
  obtains tok client old ts jkt where "tr_refresh_token b = Some tok" "find_client (tr_client_id b) (op_clients db) = Some client"
    "authenticate_client e client (tr_client_secret b)"
    "rotate_refresh now (oe_sha256_hex e tok) (op_refresh db) = (Rotated old, ts)" "rf_client_id old = tr_client_id b"
    "issue_tokens e now rt ff client (rf_user_id old) (rf_tenant_id old) (rf_scope old) None (Some (rf_family_id old)) jkt
      (db \<lparr> op_refresh := ts \<rparr>) = (Tokens t, db')"
proof -
  have "\<not> tr_grant_type b = DEVICE_CODE_GRANT" using assms(1) by (simp add: DEVICE_CODE_GRANT_def)
  then obtain tok jkt where tok: "tr_refresh_token b = Some tok"
    and tr: "token_refresh e now rt ff (tr_client_id b) (tr_client_secret b) tok jkt db = (Tokens t, db')"
    using assms
    by (auto simp: oauth_token_def nonempty_def opt_filter_Some_iff token_dpop_jkt_def verify_dpop_def split: sum.splits option.splits if_splits)
  then obtain client where c: "checked_client e (tr_client_id b) (tr_client_secret b) db = Inr client"
    by (auto simp: token_refresh_def checked_client_def split: sum.splits if_splits option.splits)
  obtain res ts where o: "rotate_refresh now (oe_sha256_hex e tok) (op_refresh db) = (res, ts)" by fastforce
  then obtain old where "res = Rotated old" "rf_client_id old = tr_client_id b"
    "issue_tokens e now rt ff client (rf_user_id old) (rf_tenant_id old) (rf_scope old) None (Some (rf_family_id old)) jkt
      (db \<lparr> op_refresh := ts \<rparr>) = (Tokens t, db')"
    using tr c by (cases res) (auto simp: token_refresh_def Let_def split: if_splits)
  then show thesis using that tok c o by (auto simp: checked_client_def split: option.splits if_splits)
qed

lemma reuse_ends_family:
  assumes "find (\<lambda>t. rf_token_hash t = h) ts = Some r" "rf_revoked_at r \<noteq> None"
  shows "family_dead (rf_family_id r) (snd (rotate_refresh now h ts))"
proof -
  let ?g = "\<lambda>t. if rf_family_id t = rf_family_id r \<and> rf_revoked_at t = None then t \<lparr> rf_revoked_at := Some now \<rparr> else t"
  have "r \<in> set ts" using assms(1) by (auto simp: find_Some_iff)
  moreover have "map rf_family_id (map ?g ts) = map rf_family_id ts" by (simp add: comp_def if_distrib [of rf_family_id] cong: if_cong)
  then have "rf_family_id ` set (map ?g ts) = rf_family_id ` set ts" by (rule map_eq_image)
  moreover have "\<not> refresh_live (rf_family_id r) (?g t)" for t by (simp add: refresh_live_def)
  then have "\<not> list_ex (refresh_live (rf_family_id r)) (map ?g ts)" unfolding list_ex_iff list.set_map bex_simps by blast
  moreover have eq: "snd (rotate_refresh now h ts) = map ?g ts" using assms by (simp add: rotate_refresh_def revoke_where_def)
  ultimately show ?thesis unfolding family_dead_def eq by blast
qed


end
