(* ===== verification/OAuth_Devices.thy ===== *)
theory OAuth_Devices
  imports OAuth_Refresh
begin

text \<open>
  Consent, the device grant and token exchange of the OpenID provider, and the well-formedness of its
  tables as an invariant of every request.
\<close>

section \<open>Consent\<close>

lemma has_consent_granted: "has_consent uid cid scope (grant_consent uid cid scope cs)"
proof (cases "list_ex (\<lambda>c. cs_user_id c = uid \<and> cs_client_id c = cid) cs")
  case True
  then have "\<exists>c. find (\<lambda>c. cs_user_id c = uid \<and> cs_client_id c = cid)
      (map (\<lambda>c. if cs_user_id c = uid \<and> cs_client_id c = cid then c \<lparr> cs_scope := scope \<rparr> else c) cs) = Some c \<and> cs_scope c = scope"
    by (induction cs) auto
  then show ?thesis using True by (auto simp: has_consent_def grant_consent_def scope_covers_def list_all_iff)
next
  case False
  then have "find (\<lambda>c. cs_user_id c = uid \<and> cs_client_id c = cid) cs = None" by (auto simp: find_None_iff list_ex_iff)
  then show ?thesis using False by (simp add: has_consent_def grant_consent_def find_append scope_covers_def list_all_iff)
qed

lemma consume_code_hashes: "map ac_code_hash (snd (consume_code now h cs)) = map ac_code_hash cs"
  by (simp add: consume_code_def comp_def if_distrib [of ac_code_hash] cong: if_cong)

lemma oauth_token_hashes:
  "ac_code_hash ` set (op_codes (snd (oauth_token e now rt ff headers b db))) = ac_code_hash ` set (op_codes db)"
proof (rule oauth_token_cases [of e now rt ff headers b db])
  fix code jkt
  assume "snd (oauth_token e now rt ff headers b db) =
    snd (token_authorization_code e now rt ff (tr_client_id b) (tr_client_secret b) code (unwrap_or [] (tr_redirect_uri b)) (tr_code_verifier b) jkt db)"
  then show ?thesis
    by (rule_tac code_grant_cases [of e now rt ff "tr_client_id b" "tr_client_secret b" code "unwrap_or [] (tr_redirect_uri b)" "tr_code_verifier b" jkt db])
       (simp_all add: map_eq_image [OF consume_code_hashes])
next
  fix r jkt
  assume "snd (oauth_token e now rt ff headers b db) = snd (token_refresh e now rt ff (tr_client_id b) (tr_client_secret b) r jkt db)"
  then show ?thesis by (rule_tac refresh_grant_cases [of e now rt ff "tr_client_id b" "tr_client_secret b" r jkt db]) auto
next
  fix code
  assume "snd (oauth_token e now rt ff headers b db) = snd (device_token_grant e now code db)"
  then show ?thesis using device_token_grant_cases [of e now code db] by auto
qed simp

lemma new_code_consented:
  assumes "op_step e db db'" "c \<in> set (op_codes db')" "ac_code_hash c \<notin> ac_code_hash ` set (op_codes db)"
  shows "\<exists>now cookie s client. require_session now cookie db = Inr s \<and> oe_parse_uuid e (sr_user_id s) = Some (ac_user_id c)
    \<and> find_client (ac_client_id c) (op_clients db) = Some client \<and> ac_redirect_uri c \<in> set (oc_redirect_uris client)
    \<and> has_consent (ac_user_id c) (ac_client_id c) (ac_scope c) (op_consents db')"
  using assms
proof (induction rule: op_step.induct)
  case (authorize db now code cookie q raw)
  then have "c \<notin> set (op_codes db)" by blast
  then show ?case using authorize by (rule_tac authorize_cases [of e now code cookie q raw db]) auto
next
  case (consent db now code cookie f)
  then have "c \<notin> set (op_codes db)" by blast
  then show ?case using consent by (rule_tac consent_cases [of e now code cookie f db]) (auto simp: has_consent_granted)
next
  case (token ff db now rt headers b)
  then show ?case using oauth_token_hashes [of e now rt ff headers b db] by blast
qed (auto simp: revoke_def create_client_fields unlink_identity_fields key_fields device_authorization_fields decide_device_fields)


section \<open>Device grants\<close>

definition devices_wf :: "device_grant list \<Rightarrow> bool" where
  "devices_wf gs \<longleftrightarrow> distinct (map dg_id gs) \<and> distinct (map dg_device_code_hash gs)"

lemma map_device_update:
  "(\<And>g. p (f g) = p g) \<Longrightarrow> map p (device_update i f gs) = map p gs"
  by (simp add: device_update_def if_distrib [of p] cong: if_cong)

lemma device_update_set: "g' \<in> set (device_update i f gs) \<Longrightarrow> \<exists>g \<in> set gs. g' = g \<and> dg_id g \<noteq> i \<or> g' = f g \<and> dg_id g = i"
  by (auto simp: device_update_def)

lemma device_move_wf: "device_move e db gs gs' \<Longrightarrow> devices_wf gs \<Longrightarrow> devices_wf gs'"
proof (induction rule: device_move.induct)
  case (consume now h gs uid tid scope)
  then have "snd (device_poll now h gs) = gs" by (auto simp: device_poll_def split: option.splits if_splits)
  then show ?case using consume by (simp add: device_consume_def devices_wf_def distinct_map_filter)
qed (auto simp: devices_wf_def device_create_def device_decide_def device_poll_def map_device_update split: option.split)

text \<open>Where the approval of a grant comes from: it was there before, or a signed-in user just gave it.\<close>

lemma device_move_approved:
  assumes "device_move e db gs gs'" "g' \<in> set gs'" "dg_status g' = ''approved''"
  shows "(\<exists>g \<in> set gs. dg_status g = ''approved'' \<and> dg_user_id g = dg_user_id g') \<or>
    (\<exists>now cookie s uid. require_session now cookie db = Inr s \<and> oe_parse_uuid e (sr_user_id s) = Some uid \<and> dg_user_id g' = Some uid)"
  using assms
proof (induction rule: device_move.induct)
  case (create gs g)
  then show ?case by (auto simp: device_create_def split: if_splits)
next
  case (decide now cookie s uid gs code approve tid)
  show ?case
  proof (cases "g' \<in> set gs")
    case False
    then have "dg_user_id g' = Some uid"
      using decide(3) by (auto simp: device_decide_def dest!: device_update_set split: option.splits if_splits)
    then show ?thesis using decide(1,2) by blast
  qed (use decide in blast)
next
  case (poll now h gs)
  then show ?case by (auto simp: device_poll_def dest!: device_update_set split: option.splits if_splits)
next
  case (consume now h gs uid tid scope)
  then have "snd (device_poll now h gs) = gs" by (auto simp: device_poll_def split: option.splits if_splits)
  then show ?case using consume by (auto simp: device_consume_def)
qed blast

lemma device_poll_approved:
  assumes "device_poll now h gs = (PollApproved uid tid scope, gs')"
  obtains g where "find (\<lambda>g. dg_device_code_hash g = h) gs = Some g" "dg_status g = ''approved''" "dg_user_id g = Some uid" "now < dg_expires_at g" "gs' = gs"
  using assms by (auto simp: device_poll_def split: option.splits if_splits)

lemma device_token_ok:
  assumes "fst (device_token_grant e now code db) = Tokens t"
  obtains uid tid scope where "device_poll now (oe_sha256_hex e code) (op_devices db) = (PollApproved uid tid scope, op_devices db)"
    "jwt_issue (oe_session_issuer e) (unix_secs now) (device_claims e uid tid db) = Inr (tb_access_token t)" "tb_scope t = scope"
proof -
  obtain res gs where p: "device_poll now (oe_sha256_hex e code) (op_devices db) = (res, gs)" by fastforce
  then obtain uid tid scope where r: "res = PollApproved uid tid scope"
    using assms by (cases res) (auto simp: device_token_grant_def device_token_poll_def Let_def)
  then have "gs = op_devices db" using p by (auto elim: device_poll_approved)
  then have "db \<lparr> op_devices := gs \<rparr> = db" by simp
  then show thesis using that assms p r \<open>gs = op_devices db\<close>
    by (auto simp: device_token_grant_def device_token_poll_def Let_def split: sum.splits)
qed

text \<open>
  A device gets a token only for someone who approved it: in any run of the server from a state without
  device grants, a device code that yields a token was approved, earlier in the run, by a request with a
  live session, and the token is signed for the user of that session.
\<close>

theorem device_token_needs_approval:
  assumes "(op_step e)\<^sup>*\<^sup>* db db'" "op_devices db = []" "fst (device_token_grant e now code db') = Tokens t"
  shows "\<exists>dbm now0 cookie s uid tid. (op_step e)\<^sup>*\<^sup>* db dbm \<and> (op_step e)\<^sup>*\<^sup>* dbm db'
    \<and> require_session now0 cookie dbm = Inr s \<and> oe_parse_uuid e (sr_user_id s) = Some uid
    \<and> jwt_issue (oe_session_issuer e) (unix_secs now) (device_claims e uid tid db') = Inr (tb_access_token t)"
proof -
  have a: "\<exists>dbm now0 cookie s uid. (op_step e)\<^sup>*\<^sup>* db dbm \<and> (op_step e)\<^sup>*\<^sup>* dbm db' \<and> require_session now0 cookie dbm = Inr s
      \<and> oe_parse_uuid e (sr_user_id s) = Some uid \<and> dg_user_id g = Some uid"
    if "g \<in> set (op_devices db')" "dg_status g = ''approved''" for g
    using assms(1) that
  proof (induction arbitrary: g rule: rtranclp_induct)
    case base
    then show ?case using assms(2) by simp
  next
    case (step y z)
    have "device_move e y (op_devices y) (op_devices z)" using op_step_moves [OF step(2)] by (simp add: op_moves_def)
    from device_move_approved [OF this step(4,5)] show ?case
    proof
      assume "\<exists>g' \<in> set (op_devices y). dg_status g' = ''approved'' \<and> dg_user_id g' = dg_user_id g"
      then obtain g' where g': "g' \<in> set (op_devices y)" "dg_status g' = ''approved''" "dg_user_id g' = dg_user_id g" by blast
      show ?thesis using step(3) [OF g'(1,2)] g'(3) step(2) by (metis rtranclp.rtrancl_into_rtrancl)
    next
      assume "\<exists>now cookie s uid. require_session now cookie y = Inr s \<and> oe_parse_uuid e (sr_user_id s) = Some uid \<and> dg_user_id g = Some uid"
      then show ?thesis using step(1,2) by (metis r_into_rtranclp)
    qed
  qed
  obtain uid tid sc where p: "device_poll now (oe_sha256_hex e code) (op_devices db') = (PollApproved uid tid sc, op_devices db')"
    and i: "jwt_issue (oe_session_issuer e) (unix_secs now) (device_claims e uid tid db') = Inr (tb_access_token t)" by (rule device_token_ok [OF assms(3)])
  obtain g where g: "find (\<lambda>g. dg_device_code_hash g = oe_sha256_hex e code) (op_devices db') = Some g" "dg_status g = ''approved''"
    "dg_user_id g = Some uid" by (rule device_poll_approved [OF p])
  then have "g \<in> set (op_devices db')" by (auto simp: find_Some_iff)
  from a [OF this g(2)] show ?thesis using g(3) i by (metis option.inject)
qed

definition device_denied :: "string \<Rightarrow> device_grant list \<Rightarrow> bool" where
  "device_denied h gs \<longleftrightarrow> devices_wf gs \<and> (\<exists>g \<in> set gs. dg_device_code_hash g = h \<and> dg_status g = ''denied'')"

lemma device_denied_poll: "device_denied h gs \<Longrightarrow> fst (device_poll now h gs) \<in> {PollDenied, PollExpired}"
proof -
  assume "device_denied h gs"
  then obtain g where g: "g \<in> set gs" "dg_device_code_hash g = h" "dg_status g = ''denied''" and w: "devices_wf gs"
    by (auto simp: device_denied_def)
  obtain g' where g': "find (\<lambda>g. dg_device_code_hash g = h) gs = Some g'"
    using g by (cases "find (\<lambda>g. dg_device_code_hash g = h) gs") (auto simp: find_None_iff)
  then have "g' \<in> set gs" "dg_device_code_hash g' = h" by (auto simp: find_Some_iff)
  then have "g' = g" using w g by (auto simp: devices_wf_def distinct_map inj_on_def)
  then show ?thesis using g' g by (simp add: device_poll_def)
qed

lemma device_update_keeps:
  "g \<in> set gs \<Longrightarrow> dg_id g \<noteq> i \<Longrightarrow> g \<in> set (device_update i f gs)"
  by (force simp: device_update_def image_iff)

lemma device_move_denied: "device_move e db gs gs' \<Longrightarrow> device_denied h gs \<Longrightarrow> device_denied h gs'"
proof -
  assume m: "device_move e db gs gs'" and d: "device_denied h gs"
  then obtain g where g: "g \<in> set gs" "dg_device_code_hash g = h" "dg_status g = ''denied''" and w: "devices_wf gs"
    by (auto simp: device_denied_def)
  have "\<exists>g' \<in> set gs'. dg_device_code_hash g' = h \<and> dg_status g' = ''denied''"
    using m
  proof cases
    case (decide now cookie s uid code approve tid)
    have "g \<in> set gs'"
    proof (cases "find (\<lambda>g. dg_user_code g = code) gs")
      case (Some x)
      then have "x \<in> set gs" by (auto simp: find_Some_iff)
      then have "dg_id x \<noteq> dg_id g" if "dg_status x = ''pending''" using g w that by (auto simp: devices_wf_def distinct_map inj_on_def)
      then show ?thesis using Some decide(1) g(1) by (auto simp: device_decide_def intro: device_update_keeps)
    qed (use decide(1) g(1) in \<open>simp add: device_decide_def\<close>)
    then show ?thesis using g by blast
  next
    case (poll now h')
    have "\<exists>g' \<in> set (device_update i (\<lambda>g. g \<lparr> dg_last_polled_at := l \<rparr>) gs). dg_device_code_hash g' = h \<and> dg_status g' = ''denied''" for i l
      unfolding device_update_def list.set_map
      by (rule bexI [of _ "if dg_id g = i then g \<lparr> dg_last_polled_at := l \<rparr> else g"]) (use g in simp_all)
    then show ?thesis using poll g by (auto simp: device_poll_def split: option.split)
  next
    case (consume now h' uid tid scope)
    then have "h' \<noteq> h" using device_denied_poll [OF d, of now] by auto
    moreover have "snd (device_poll now h' gs) = gs" using consume(2) by (auto simp: device_poll_def split: option.splits if_splits)
    ultimately show ?thesis using consume(1) g by (auto simp: device_consume_def)
  qed (use g in \<open>auto simp: device_create_def\<close>)
  then show "device_denied h gs'" using device_move_wf [OF m w] by (simp add: device_denied_def)
qed

text \<open>
  A denial is final: once a device grant has been denied, nothing that happens to the server makes its
  device code yield a token.
\<close>

theorem device_denial_final:
  assumes "device_denied (oe_sha256_hex e code) (op_devices db)" "(op_step e)\<^sup>*\<^sup>* db db'"
  shows "fst (device_token_grant e now code db') \<noteq> Tokens t"
proof
  assume t: "fst (device_token_grant e now code db') = Tokens t"
  have "device_denied (oe_sha256_hex e code) (op_devices db')"
    using assms(2,1) by (rule op_steps_induct) (auto simp: op_moves_def intro: device_move_denied)
  then have "fst (device_poll now (oe_sha256_hex e code) (op_devices db')) \<in> {PollDenied, PollExpired}" by (rule device_denied_poll)
  then show False by - (rule device_token_ok [OF t], simp)
qed

section \<open>Token exchange and pages\<close>

text \<open>
  Token exchange only narrows: the new token names the same subject as the presented one, which verified
  under the provider's key, and each of its scopes was among the presented token's.
\<close>

theorem token_exchange_narrows:
  assumes "token_exchange e now cid sec tok ty req aud db = Tokens t"
  shows "\<exists>key claims client scope sign. op_verifier e db = Some key \<and> op_verify e key tok = Inr claims
    \<and> find_client cid (op_clients db) = Some client \<and> authenticate_client e client sec
    \<and> set (split_ws scope) \<subseteq> set (split_ws (exchange_base_scope e tok)) \<and> tb_scope t = Some scope
    \<and> oe_op_issuer e = Some sign
    \<and> sign (AccessToken \<lparr> at_iss = oe_base_url e, at_sub = cl_sub claims, at_scope = scope, at_client_id = oc_client_id client,
         at_iat = now_unix now, at_exp = now_unix now + AT_TTL_SECS, at_cnf_jkt = None, at_act = Some (oc_client_id client), at_aud = aud \<rparr>)
        = Inr (tb_access_token t)"
proof -
  have "set (split_ws scope) \<subseteq> set (split_ws (exchange_base_scope e tok))" if "exchange_scope e tok req = Some scope" for scope
    using that by (auto simp: exchange_scope_def scope_covers_def list_all_iff split: option.splits if_splits)
  then show ?thesis using assms
    by (auto simp: token_exchange_def checked_client_def Let_def split: sum.splits option.splits if_splits)
qed

lemma set_replace_char: "set (replace_char c r s) = (set s - {c}) \<union> (if c \<in> set s then set r else {})"
  by (auto simp: replace_char_def split: if_splits)

lemma html_escape_safe: "set (html_escape s) \<inter> {CHR ''<'', CHR ''>'', CHR 0x22, CHR 0x27} = {}"
  by (auto simp: html_escape_def set_replace_char split: if_splits)

section \<open>Well-formed provider state\<close>

definition code_registered :: "oauth_client list \<Rightarrow> authz_code \<Rightarrow> bool" where
  "code_registered cls c \<longleftrightarrow>
     (case find_client (ac_client_id c) cls of None \<Rightarrow> False | Some client \<Rightarrow> ac_redirect_uri c \<in> set (oc_redirect_uris client))"

definition device_typed :: "device_grant \<Rightarrow> bool" where
  "device_typed g \<longleftrightarrow> dg_status g = ''pending'' \<and> dg_user_id g = None \<or>
     dg_status g \<in> {''approved'', ''denied''} \<and> dg_user_id g \<noteq> None \<and> dg_tenant_id g \<noteq> None"

definition op_wf :: "op_db \<Rightarrow> bool" where
  "op_wf db \<longleftrightarrow> codes_wf db \<and> list_all (code_registered (op_clients db)) (op_codes db) \<and> refresh_wf (op_refresh db)
     \<and> devices_wf (op_devices db) \<and> list_all device_typed (op_devices db)"

lemma code_registered_append: "code_registered cls c \<Longrightarrow> code_registered (cls @ cls') c"
  by (auto simp: code_registered_def find_client_def find_append split: option.splits)

lemma code_move_old:
  assumes "code_move cs cs'" "c \<in> set cs'" "ac_code_hash c \<in> ac_code_hash ` set cs"
  shows "\<exists>c0 \<in> set cs. ac_client_id c0 = ac_client_id c \<and> ac_redirect_uri c0 = ac_redirect_uri c"
  using assms(1)
proof cases
  case (save c1)
  then show ?thesis using assms(2,3) by (auto simp: save_code_def split: if_splits)
next
  case (consume now h)
  then obtain c0 where "c0 \<in> set cs" "c = (if code_live now h c0 then c0 \<lparr> ac_consumed_at := Some now \<rparr> else c0)"
    using assms(2) unfolding consume_code_def by auto
  then show ?thesis by (auto split: if_splits)
qed (use assms(2) in blast)

lemma device_move_typed:
  assumes "device_move e db gs gs'" "\<forall>g \<in> set gs. device_typed g"
  shows "\<forall>g \<in> set gs'. device_typed g"
  using assms
proof (induction rule: device_move.induct)
  case (create gs g)
  then show ?case by (auto simp: device_create_def device_typed_def)
next
  case (decide now cookie s uid gs code approve tid)
  then show ?case
    by (auto simp: device_decide_def split: option.split dest!: device_update_set) (auto simp: device_typed_def)
next
  case (poll now h gs)
  then show ?case
    by (auto simp: device_poll_def split: option.split dest!: device_update_set) (auto simp: device_typed_def)
next
  case (consume now h gs uid tid scope)
  then have "snd (device_poll now h gs) = gs" by (auto simp: device_poll_def split: option.splits if_splits)
  then show ?case using consume by (auto simp: device_consume_def)
qed

text \<open>
  C27: The provider's tables stay well formed, whatever requests it serves: code hashes are unique, every
  authorization code belongs to a registered client and a redirect URI that client registered, refresh
  token hashes are unique with at most one live token per family, device grants have unique ids and
  codes, and a device grant is pending without a user or decided with one.
\<close>

theorem op_state_well_formed:
  assumes "op_wf db" "(op_step e)\<^sup>*\<^sup>* db db'"
  shows "op_wf db'"
  using assms(2,1)
proof (induction rule: rtranclp_induct)
  case (step y z)
  then have wf: "op_wf y" by blast
  have m: "op_moves e y z" by (rule op_step_moves [OF step(2)])
  then obtain cls where cls: "op_clients z = op_clients y @ cls" and cm: "code_move (op_codes y) (op_codes z)"
    and rm: "refresh_move (op_refresh y) (op_refresh z)" and dm: "device_move e y (op_devices y) (op_devices z)"
    by (auto simp: op_moves_def)
  have "code_registered (op_clients z) c" if c: "c \<in> set (op_codes z)" for c
  proof (cases "ac_code_hash c \<in> ac_code_hash ` set (op_codes y)")
    case True
    then obtain c0 where "c0 \<in> set (op_codes y)" "ac_client_id c0 = ac_client_id c" "ac_redirect_uri c0 = ac_redirect_uri c"
      using code_move_old [OF cm c] by blast
    moreover from this(1) have "code_registered (op_clients y) c0" using wf by (simp add: op_wf_def list_all_iff)
    ultimately have "code_registered (op_clients y) c" by (auto simp: code_registered_def split: option.splits)
    then show ?thesis unfolding cls by (rule code_registered_append)
  next
    case False
    then have "code_registered (op_clients y) c" using new_code_consented [OF step(2) c] by (auto simp: code_registered_def)
    then show ?thesis unfolding cls by (rule code_registered_append)
  qed
  then show ?case using wf cm rm dm
    by (auto simp: op_wf_def codes_wf_def list_all_iff intro: code_move_wf refresh_move_wf device_move_wf
        dest: device_move_typed)
qed

end
