(* ===== verification/OAuth_Examples.thy ===== *)
theory OAuth_Examples
  imports OAuth_Devices
begin

text \<open>
  Concrete runs of the OpenID provider: the theorems about it applied, and runs that show where it does
  less than its comments and documents promise.
\<close>

section \<open>A small deployment\<close>

fun demo_sign :: "op_claims \<Rightarrow> (string, string) result" where
  "demo_sign (AccessToken a) = Inr (''at:'' @ at_sub a @ '':'' @ at_scope a)"
| "demo_sign (IdToken _) = Inr ''it''"
| "demo_sign (LogoutToken _) = Inr ''lt''"

fun is_tokens :: "op_response \<Rightarrow> bool" where
  "is_tokens (Tokens _) = True"
| "is_tokens _ = False"

lemma is_tokens_iff: "is_tokens r \<longleftrightarrow> (\<exists>t. r = Tokens t)"
  by (cases r) auto

definition demo_op :: op_env where
  "demo_op =
     \<lparr> oe_base_url = ''https://auth.example'', oe_sha256_hex = (\<lambda>s. CHR ''h'' # s), oe_sha256_base64url = (\<lambda>s. CHR ''b'' # s),
       oe_show_uuid = (\<lambda>u. if u = 1 then ''u1'' else if u = 2 then ''u2'' else ''x''),
       oe_parse_uuid = (\<lambda>s. if s = ''u1'' then Some 1 else if s = ''u2'' then Some 2 else if s = ''t1'' then Some 7 else None),
       oe_op_issuer = Some demo_sign,
       oe_jwt = \<lparr> decode_header = (\<lambda>_. None), jwt_decode = (\<lambda>t key ch. if t = ''tok'' \<and> key = ''PUB'' then
         Inr \<lparr> cl_sub = ''u1'', cl_email = None, cl_tenant_id = None, cl_tenant_slug = None, cl_roles = None, cl_name = None,
           cl_app_id = None, cl_iat = None, cl_exp = None, cl_jti = None, cl_aud = None, cl_scope = None \<rparr>
         else Inl ''InvalidSignature'') \<rparr>,
       oe_rsa_pem_ok = (\<lambda>_. True), oe_payload = (\<lambda>_. Some \<lparr> tp_scope = Some ''openid email'', tp_cnf_jkt = Some ''jkt'' \<rparr>), oe_dpop = demo_dpop,
       oe_session_issuer = \<lparr> ji_encode = (\<lambda>c. Inr (''jwt:'' @ cl_sub c @ '':'' @ unwrap_or [] (cl_roles c))), ji_ttl_secs = 3600 \<rparr>, oe_session_ttl_secs = 3600 \<rparr>"

definition demo_oauth_client :: oauth_client where
  "demo_oauth_client = \<lparr> oc_client_id = ''app'', oc_client_secret_hash = None, oc_name = ''App'', oc_redirect_uris = [''https://app/cb''],
     oc_grant_types = [''authorization_code'', ''refresh_token''], oc_scopes = [''openid''], oc_is_confidential = False,
     oc_backchannel_logout_uri = None, oc_frontchannel_logout_uri = None, oc_created_at = 0 \<rparr>"

definition demo_op_db :: op_db where
  "demo_op_db =
     \<lparr> ad_sessions = [to_row (demo_user_session ''s1'' ''u1''), to_row (demo_user_session ''s2'' ''u2'')], ad_users = [], ad_tenants = [],
       ad_members = [demo_member 11 1 7 ''OWNER''], ad_invitations = [], ad_usages = [], ad_m2m = [], ad_idps = [], ad_passkeys = [],
       op_clients = [demo_oauth_client], op_codes = [], op_refresh = [],
       op_consents = [\<lparr> cs_user_id = 1, cs_client_id = ''app'', cs_scope = ''openid email'' \<rparr>], op_devices = [], op_identities = [],
       op_keys = [\<lparr> sk_kid = ''k1'', sk_public_key = ''PUB'', sk_private_key = ''PRV'', sk_status = ''active'', sk_created_at = 0, sk_rotated_at = None \<rparr>] \<rparr>"

definition demo_query :: authorize_query where
  "demo_query = \<lparr> aq_response_type = Some ''code'', aq_client_id = Some ''app'', aq_redirect_uri = Some ''https://app/cb'', aq_scope = Some ''openid'',
     aq_state = Some ''s t'', aq_nonce = None, aq_code_challenge = Some ''bv'', aq_code_challenge_method = Some ''S256'', aq_prompt = None \<rparr>"

definition demo_token_req :: "string \<Rightarrow> string option \<Rightarrow> string option \<Rightarrow> token_req" where
  "demo_token_req grant code refresh = \<lparr> tr_grant_type = grant, tr_client_id = ''app'', tr_client_secret = None, tr_device_code = code, tr_code = code,
     tr_redirect_uri = Some ''https://app/cb'', tr_code_verifier = Some ''v'', tr_refresh_token = refresh, tr_subject_token = None,
     tr_subject_token_type = None, tr_scope = None, tr_audience = None \<rparr>"

definition coded_db :: op_db where
  "coded_db = snd (authorize demo_op 0 ''c1'' (Some ''s1'') demo_query None demo_op_db)"

definition code_req :: token_req where
  "code_req = demo_token_req ''authorization_code'' (Some ''c1'') None"

definition tokened_db :: op_db where
  "tokened_db = snd (oauth_token demo_op 1000000 ''r1'' 50 [] code_req coded_db)"

lemma demo_redirect:
  "fst (authorize demo_op 0 ''c1'' (Some ''s1'') demo_query None demo_op_db) = RedirectTo ''https://app/cb?code=c1&state=s%20t''"
  by code_simp

lemma demo_tokens:
  "fst (oauth_token demo_op 1000000 ''r1'' 50 [] code_req coded_db) =
   Tokens \<lparr> tb_access_token = ''at:u1:openid'', tb_token_type = ''Bearer'', tb_scope = Some ''openid'', tb_id_token = Some ''it'', tb_refresh_token = Some ''r1'' \<rparr>"
  by code_simp

lemma demo_tokens_pair:
  "oauth_token demo_op 1000000 ''r1'' 50 [] code_req coded_db =
   (Tokens \<lparr> tb_access_token = ''at:u1:openid'', tb_token_type = ''Bearer'', tb_scope = Some ''openid'', tb_id_token = Some ''it'',
      tb_refresh_token = Some ''r1'' \<rparr>, tokened_db)"
  using demo_tokens by (simp add: tokened_db_def prod_eq_iff)

lemma code_req_simps: "tr_grant_type code_req = ''authorization_code''" "tr_code code_req = Some ''c1''" "tr_client_id code_req = ''app''"
  "tr_client_secret code_req = None" "tr_redirect_uri code_req = Some ''https://app/cb''" "tr_code_verifier code_req = Some ''v''"
  by (simp_all add: code_req_def demo_token_req_def)

theorem code_exchange_sound_witness:
  "\<exists>rec \<in> set (op_codes coded_db). ac_code_hash rec = ''hc1'' \<and> ac_code_challenge rec = Some ''bv'' \<and> 1000000 < ac_expires_at rec"
  using code_exchange_sound [OF code_req_simps(1) demo_tokens_pair] by (auto simp: code_req_simps demo_op_def)

theorem code_single_use_witness:
  "(\<forall>t0. fst (oauth_token demo_op 2000000 ''r2'' 51 [] code_req tokened_db) \<noteq> Tokens t0) \<and> codes_wf coded_db"
proof -
  have w: "codes_wf coded_db" unfolding codes_wf_def by code_simp
  show ?thesis using code_single_use [OF w code_req_simps(1) demo_tokens_pair rtranclp.rtrancl_refl code_req_simps(1) refl] w by blast
qed

theorem authorization_code_roundtrip_witness:
  "\<exists>params db1 t. authorize demo_op 0 ''c1'' (Some ''s1'') demo_query None demo_op_db = (redirect_with ''https://app/cb'' ((''code'', ''c1'') # params), db1)
    \<and> fst (oauth_token demo_op 1000000 ''r1'' 50 [] code_req db1) = Tokens t \<and> tb_access_token t = ''at:u1:openid''"
proof -
  have s: "require_session 0 (Some ''s1'') demo_op_db = Inr (demo_user_session ''s1'' ''u1'')" by code_simp
  have c: "has_consent 1 ''app'' ''openid'' (op_consents demo_op_db)" by code_simp
  have t: "token_dpop_jkt demo_op 1000000 [] = Inr None" by code_simp
  have g: "\<exists>t. demo_sign c = Inr t" for c by (cases c) auto
  have "\<exists>params db1 t. authorize demo_op 0 ''c1'' (Some ''s1'') demo_query None demo_op_db = (redirect_with ''https://app/cb'' ((''code'', ''c1'') # params), db1)
    \<and> fst (oauth_token demo_op 1000000 ''r1'' 50 [] code_req db1) = Tokens t \<and> tb_scope t = Some ''openid''
    \<and> demo_sign (AccessToken \<lparr> at_iss = oe_base_url demo_op, at_sub = oe_show_uuid demo_op 1, at_scope = ''openid'', at_client_id = ''app'',
         at_iat = now_unix 1000000, at_exp = now_unix 1000000 + AT_TTL_SECS, at_cnf_jkt = None, at_act = None, at_aud = None \<rparr>)
        = Inr (tb_access_token t)"
    by (rule authorization_code_roundtrip [where client = demo_oauth_client and sec = None and s = "demo_user_session ''s1'' ''u1''" and w = "''v''"
          and st = "Some ''s t''" and nonce = None])
       (use s c t g in \<open>simp_all add: demo_op_db_def demo_oauth_client_def find_client_def authenticate_client_def demo_user_session_def
          demo_op_def demo_query_def code_req_simps secs_def CODE_TTL_SECS_def\<close>)
  then show ?thesis by (auto simp: demo_op_def)
qed


section \<open>Refresh tokens\<close>

definition refresh_req :: "string \<Rightarrow> token_req" where
  "refresh_req r = demo_token_req ''refresh_token'' None (Some r)"

definition rotated_db :: op_db where
  "rotated_db = snd (oauth_token demo_op 2000000 ''r2'' 51 [] (refresh_req ''r1'') tokened_db)"

definition replayed_db :: op_db where
  "replayed_db = snd (token_refresh demo_op 3000000 ''r3'' 52 ''app'' None ''r1'' None rotated_db)"

lemma demo_steps: "op_step demo_op demo_op_db coded_db" "op_step demo_op coded_db tokened_db" "op_step demo_op tokened_db rotated_db"
proof -
  show "op_step demo_op demo_op_db coded_db" unfolding coded_db_def by (rule op_step.authorize)
  have "50 \<notin> rf_family_id ` set (op_refresh coded_db)" by code_simp
  then show "op_step demo_op coded_db tokened_db" unfolding tokened_db_def by (rule op_step.token)
  have "51 \<notin> rf_family_id ` set (op_refresh tokened_db)" by code_simp
  then show "op_step demo_op tokened_db rotated_db" unfolding rotated_db_def by (rule op_step.token)
qed

lemma demo_run_steps: "(op_step demo_op)\<^sup>*\<^sup>* demo_op_db rotated_db"
  using demo_steps by (meson r_into_rtranclp rtranclp.rtrancl_into_rtrancl)

theorem op_state_well_formed_witness: "op_wf rotated_db \<and> length (op_codes rotated_db) = 1"
proof -
  have "op_wf demo_op_db" by (simp add: op_wf_def demo_op_db_def codes_wf_def refresh_wf_def devices_wf_def)
  moreover have "length (op_codes rotated_db) = 1" by code_simp
  ultimately show ?thesis using op_state_well_formed [OF _ demo_run_steps] by blast
qed

theorem refresh_family_linear_witness:
  "length (filter (\<lambda>t. rf_family_id t = 50 \<and> rf_revoked_at t = None) (op_refresh rotated_db)) \<le> 1 \<and> length (op_refresh rotated_db) = 2"
proof -
  have "op_refresh demo_op_db = []" by (simp add: demo_op_db_def)
  moreover have "length (op_refresh rotated_db) = 2" by code_simp
  ultimately show ?thesis using refresh_family_linear [OF demo_run_steps, of 50] by simp
qed


section \<open>Device grants\<close>

definition device_db :: op_db where
  "device_db = snd (device_authorization demo_op 0 None 90 ''dc'' ''ABCD'' ''tv'' (Some ''openid'') demo_op_db)"

definition approved_db :: op_db where
  "approved_db = snd (decide_device demo_op 1000000 (Some ''s1'') '' abcd'' True device_db)"

definition denied_db :: op_db where
  "denied_db = snd (decide_device demo_op 1000000 (Some ''s1'') ''abcd'' False device_db)"

lemma device_steps: "(op_step demo_op)\<^sup>*\<^sup>* demo_op_db approved_db"
proof -
  have "op_step demo_op demo_op_db device_db" unfolding device_db_def by (rule op_step.device_authorization)
  moreover have "op_step demo_op device_db approved_db" unfolding approved_db_def by (rule op_step.decide)
  ultimately show ?thesis by (meson r_into_rtranclp rtranclp.rtrancl_into_rtrancl)
qed

theorem device_token_needs_approval_witness:
  "\<exists>dbm now0 cookie s uid tid. (op_step demo_op)\<^sup>*\<^sup>* dbm approved_db \<and> require_session now0 cookie dbm = Inr s
    \<and> oe_parse_uuid demo_op (sr_user_id s) = Some uid \<and> jwt_issue (oe_session_issuer demo_op) 2 (device_claims demo_op uid tid approved_db) = Inr ''jwt:u1:OWNER''"
proof -
  have "fst (device_token_grant demo_op 2000000 ''dc'' approved_db) = Tokens \<lparr> tb_access_token = ''jwt:u1:OWNER'', tb_token_type = ''Bearer'',
    tb_scope = Some ''openid'', tb_id_token = None, tb_refresh_token = None \<rparr>" by code_simp
  from device_token_needs_approval [OF device_steps _ this] show ?thesis by (fastforce simp: demo_op_db_def unix_secs_def)
qed

theorem device_denial_final_witness:
  "device_denied ''hdc'' (op_devices denied_db) \<and> (\<forall>t. fst (device_token_grant demo_op 2000000 ''dc'' denied_db) \<noteq> Tokens t)"
proof -
  have d: "device_denied (oe_sha256_hex demo_op ''dc'') (op_devices denied_db)" unfolding device_denied_def devices_wf_def by code_simp
  then show ?thesis using device_denial_final [OF d rtranclp.rtrancl_refl] by (auto simp: demo_op_def)
qed

theorem token_exchange_narrows_witness:
  "\<exists>t. token_exchange demo_op 0 ''app'' None ''tok'' None (Some ''email'') None demo_op_db = Tokens t \<and> tb_access_token t = ''at:u1:email''
    \<and> set (split_ws (the (tb_scope t))) \<subseteq> set (split_ws (exchange_base_scope demo_op ''tok''))"
proof -
  let ?t = "\<lparr> tb_access_token = ''at:u1:email'', tb_token_type = ''Bearer'', tb_scope = Some ''email'', tb_id_token = None, tb_refresh_token = None \<rparr>"
  have t: "token_exchange demo_op 0 ''app'' None ''tok'' None (Some ''email'') None demo_op_db = Tokens ?t" by code_simp
  from token_exchange_narrows [OF t] have "set (split_ws ''email'') \<subseteq> set (split_ws (exchange_base_scope demo_op ''tok''))" by auto
  then show ?thesis using t by (intro exI [of _ ?t]) simp
qed

section \<open>Gaps\<close>

text \<open>The redirect after logout is tested by prefix, so a host that merely begins with the provider's name passes.\<close>

theorem logout_redirect_leaves_origin:
  "logout_target demo_op (Some ''https://auth.example.evil.net/'') None = ''https://auth.example.evil.net/''"
  by code_simp

text \<open>Two polls that both run before either consumes the grant both give a token for one device code.\<close>

theorem device_code_races:
  "\<exists>b db1. device_token_poll demo_op 2000000 ''dc'' approved_db = (Inr b, db1) \<and> device_token_poll demo_op 2000000 ''dc'' db1 = (Inr b, db1)"
proof -
  have "op_devices (snd (device_token_poll demo_op 2000000 ''dc'' approved_db)) = op_devices approved_db \<and>
    (case fst (device_token_poll demo_op 2000000 ''dc'' approved_db) of Inr _ \<Rightarrow> True | Inl _ \<Rightarrow> False)" by code_simp
  then obtain b where b: "device_token_poll demo_op 2000000 ''dc'' approved_db = (Inr b, snd (device_token_poll demo_op 2000000 ''dc'' approved_db))"
    and d: "snd (device_token_poll demo_op 2000000 ''dc'' approved_db) = approved_db"
    by (auto simp: device_token_poll_def Let_def prod_eq_iff split: sum.splits prod.splits device_poll_outcome.splits)
  then show ?thesis by metis
qed

text \<open>After a rotation a token signed with the previous key no longer verifies: only the newest active key is consulted.\<close>

theorem rotation_orphans_tokens:
  "op_verifier demo_op demo_op_db = Some ''PUB'' \<and>
   op_verifier demo_op (snd (rotate_key demo_op 1000000 ''k2'' (''PUB2'', ''PRV2'') (Some ''s1'') (demo_op_db \<lparr> ad_sessions :=
     [to_row ((demo_user_session ''s1'' ''u1'') \<lparr> sr_roles := [''ADMIN''] \<rparr>)] \<rparr>))) = Some ''PUB2''"
  by code_simp

text \<open>A token bound to a DPoP key is exchanged, without any proof, for a bearer token that is bound to nothing.\<close>

theorem exchange_drops_binding:
  "Option.bind (oe_payload demo_op ''tok'') tp_cnf_jkt = Some ''jkt'' \<and>
   is_tokens (token_exchange demo_op 0 ''app'' None ''tok'' None None None demo_op_db)"
  by code_simp

text \<open>A registered client gets scopes it never registered.\<close>

theorem client_scopes_not_enforced:
  "oc_scopes demo_oauth_client = [''openid''] \<and>
   (case fst (authorize_consent demo_op 0 ''c2'' (Some ''s1'') \<lparr> cf_client_id = ''app'', cf_redirect_uri = ''https://app/cb'', cf_scope = ''openid admin'',
      cf_state = None, cf_nonce = None, cf_code_challenge = ''bv'', cf_code_challenge_method = ''S256'', cf_decision = ''allow'' \<rparr> demo_op_db) of
      RedirectTo u \<Rightarrow> u = ''https://app/cb?code=c2'' | _ \<Rightarrow> False)"
  by code_simp

text \<open>The scopes of a machine client become the roles of its token, and any signed-in user may register one for any tenant.\<close>

theorem machine_client_chooses_roles:
  "fst (oauth_token demo_op 0 [] 0 [] ((demo_token_req ''client_credentials'' None None) \<lparr> tr_client_id := ''m2m_abc'', tr_client_secret := Some ''sec'' \<rparr>)
     (snd (create_m2m_client \<lparr> te_parse_uuid = oe_parse_uuid demo_op, te_sha256_hex = oe_sha256_hex demo_op \<rparr> 0 (Some ''s2'') 60 ''abc'' ''sec'' 7
       (Some ''OWNER'') demo_op_db)))
   = Tokens \<lparr> tb_access_token = ''jwt:m2m_abc:OWNER'', tb_token_type = ''Bearer'', tb_scope = None, tb_id_token = None, tb_refresh_token = None \<rparr>"
  by code_simp

end
