(* ===== verification/Auth_State.thy ===== *)
theory Auth_State
  imports OAuth_Provider Auth_Client
begin

text \<open>
  What the handlers of the auth server share: the application state (\<open>auth-server/src/state.rs\<close>) and the
  tables it reaches, responses and errors (\<open>error.rs\<close>), cookies and content negotiation
  (\<open>helpers.rs\<close>), the local-network bypass (\<open>local_bypass.rs\<close>) and the audit trail (\<open>auth_events.rs\<close>).
  Parsing of cookies, header values, addresses and percent encoding belong to packages and are
  parameters; a header value the \<open>http\<close> crate refuses makes an \<open>unwrap\<close> panic, so a handler that parses
  values this way returns \<open>None\<close> for the panic.
\<close>

section \<open>Responses\<close>

datatype reply_body =
    NoBody
  | ErrorBody string
  | OkBody
  | TokenBody string
  | TenantBody string
  | RedirectBody string
  | ExpiresIn u64
  | RevokedCount nat
  | AccountCards "(string \<times> bool) list"
  | SignInPage string string
  | AccountPage string
  | LinkBody "string option"
  | SessionCards "(string \<times> bool) list"
  | ChallengeBody uuid string
  | PasskeyCards "(uuid \<times> string option) list"

record reply =
  rs_status :: nat
  rs_headers :: header_map
  rs_body :: reply_body

definition status_reply :: "nat \<Rightarrow> reply" where
  "status_reply code = \<lparr> rs_status = code, rs_headers = [], rs_body = NoBody \<rparr>"

definition json_reply :: "reply_body \<Rightarrow> reply" where
  "json_reply b = \<lparr> rs_status = 200, rs_headers = [(''content-type'', HText ''application/json'')], rs_body = b \<rparr>"

definition html_reply :: "reply_body \<Rightarrow> reply" where
  "html_reply b = \<lparr> rs_status = 200, rs_headers = [(''content-type'', HText ''text/html; charset=utf-8'')], rs_body = b \<rparr>"

definition with_header :: "string \<Rightarrow> hvalue \<Rightarrow> reply \<Rightarrow> reply" where
  "with_header n v r = r \<lparr> rs_headers := h_insert (rs_headers r) n v \<rparr>"

definition no_cache_headers :: "reply \<Rightarrow> reply" where
  "no_cache_headers r =
     with_header ''pragma'' (HText ''no-cache'')
       (with_header ''cache-control'' (HText ''no-store, no-cache, must-revalidate, private'') r)"

fun api_status :: "api_error \<Rightarrow> nat" where
  "api_status (api_error.BadRequest code) = 400"
| "api_status (Unauthorized code) = 401"
| "api_status (Forbidden code) = 403"
| "api_status InternalError = 500"

fun api_code :: "api_error \<Rightarrow> string" where
  "api_code (api_error.BadRequest code) = code"
| "api_code (Unauthorized code) = code"
| "api_code (Forbidden code) = code"
| "api_code InternalError = ''INTERNAL_ERROR''"

definition api_reply :: "api_error \<Rightarrow> reply" where
  "api_reply e = no_cache_headers ((json_reply (ErrorBody (api_code e))) \<lparr> rs_status := api_status e \<rparr>)"

section \<open>Tables\<close>

record temporary_grant =
  tg_id :: uuid
  tg_tenant_id :: uuid
  tg_token_hash :: string
  tg_subject :: string
  tg_role :: string
  tg_domains :: "string list"
  tg_blocked_domains :: "string list"
  tg_starts_at :: time
  tg_expires_at :: time
  tg_created_by :: uuid
  tg_created_at :: time
  tg_revoked_at :: "time option"

record oidc_flow =
  of_id :: uuid
  of_state :: string
  of_nonce :: string
  of_code_verifier_encrypted :: string
  of_return_to :: "string option"
  of_invite_code :: "string option"
  of_tenant_id :: "uuid option"
  of_created_at :: time
  of_expires_at :: time

record magic_link =
  ml_id :: uuid
  ml_email :: string
  ml_token :: string
  ml_expires_at :: time
  ml_used_at :: "time option"
  ml_created_at :: time

record passkey_challenge =
  pc_id :: uuid
  pc_user_id :: "uuid option"
  pc_state :: string
  pc_kind :: string
  pc_created_at :: time
  pc_expires_at :: time

text \<open>The detail of an event is recorded for blocked logins only: level, new device, changed address.\<close>

record auth_event =
  ev_event_type :: string
  ev_user_id :: "string option"
  ev_tenant_id :: "string option"
  ev_session_id :: "string option"
  ev_timestamp :: u64
  ev_detail :: "(nat \<times> bool \<times> bool) option"
  ev_origin :: "string option"

record audit_row =
  al_event_type :: string
  al_actor_id :: "uuid option"
  al_actor_ip :: "string option"
  al_tenant_id :: "uuid option"
  al_target_type :: "string option"
  al_target_id :: "string option"
  al_detail :: "(nat \<times> bool \<times> bool) option"
  al_timestamp :: time
  al_request_id :: uuid

record login_db = op_db +
  ld_mfa :: "mfa_record list"
  ld_recovery :: "recovery_code_record list"
  ld_stepup :: "string list"
  ld_temporary :: "temporary_grant list"
  ld_flows :: "oidc_flow list"
  ld_links :: "magic_link list"
  ld_devices :: "(uuid \<times> string) list"
  ld_challenges :: "passkey_challenge list"
  ld_audit :: "audit_row list"
  ld_events :: "auth_event list"

section \<open>Application state\<close>

record local_network_bypass =
  lb_cidrs :: "ip_net list"
  lb_trusted_proxies :: "ip_net list"

text \<open>The parsers of network lists and addresses; a single address stands for the network of just it.\<close>

record net_parsers =
  np_net :: "string \<Rightarrow> ip_net option"
  np_ip :: "string \<Rightarrow> ip_addr option"
  np_show_ip :: "ip_addr \<Rightarrow> string"

record app_state = op_env +
  st_jwt_key :: string
  st_jwt_alg :: algorithm
  st_cookie_domain :: string
  st_force_secure_cookie :: bool
  st_local_bypass :: local_network_bypass
  st_net :: net_parsers
  st_value :: "string \<Rightarrow> hvalue option"
  st_redirect :: "string \<Rightarrow> reply"
  st_urlencode :: "string \<Rightarrow> string"
  st_cookie :: "header_map \<Rightarrow> string \<Rightarrow> string option"
  st_origin :: string

text \<open>\<open>JwtVerifier::verify\<close> of the state.\<close>

definition jwt_verify :: "app_state \<Rightarrow> string \<Rightarrow> (jwt_error, volta_claims) result" where
  "jwt_verify st token =
     (case jwt_decode (oe_jwt st) token (st_jwt_key st) \<lparr> jc_alg = st_jwt_alg st, jc_issuer = None, jc_audience = None \<rparr> of
        Inl msg \<Rightarrow>
          Inl (if contains_sub msg ''ExpiredSignature'' then JwtExpired
               else if contains_sub msg ''InvalidSignature'' then InvalidSignature else InvalidToken msg)
      | Inr c \<Rightarrow> (if cl_sub c = [] then Inl (MissingClaims ''sub'') else Inr c))"

section \<open>Header values and cookies\<close>

text \<open>\<open>h.insert(name, value.parse().unwrap())\<close> for each pair in turn; \<open>None\<close> is the panic.\<close>

fun insert_parsed :: "app_state \<Rightarrow> (string \<times> string) list \<Rightarrow> reply \<Rightarrow> reply option" where
  "insert_parsed st [] r = Some r"
| "insert_parsed st ((n, s) # hs) r =
     (case st_value st s of None \<Rightarrow> None | Some v \<Rightarrow> insert_parsed st hs (with_header n v r))"

text \<open>The same with \<open>if let Ok(v) = value.parse()\<close>: a pair that does not parse is left out.\<close>

fun insert_valid :: "app_state \<Rightarrow> (string \<times> string) list \<Rightarrow> reply \<Rightarrow> reply" where
  "insert_valid st [] r = r"
| "insert_valid st ((n, s) # hs) r =
     insert_valid st hs
       (case st_value st s of None \<Rightarrow> r | Some v \<Rightarrow> with_header n v r)"

definition COOKIE_NAME :: string where "COOKIE_NAME = ''__volta_session''"
definition ACCOUNTS_COOKIE :: string where "ACCOUNTS_COOKIE = ''__volta_accounts''"
definition MAX_ACCOUNTS :: nat where "MAX_ACCOUNTS = 10"
definition DEVICE_COOKIE :: string where "DEVICE_COOKIE = ''__volta_kd''"
definition DEVICE_COOKIE_MAX_AGE :: u64 where "DEVICE_COOKIE_MAX_AGE = 400 * 24 * 3600"

definition extract_session_id :: "app_state \<Rightarrow> header_map \<Rightarrow> string option" where
  "extract_session_id st h = st_cookie st h COOKIE_NAME"

text \<open>The attributes every cookie of the server ends with.\<close>

definition cookie_tail :: "app_state \<Rightarrow> string" where
  "cookie_tail st =
     (if st_cookie_domain st = [] then [] else ''; Domain='' @ st_cookie_domain st) @
     (if st_force_secure_cookie st then ''; Secure'' else [])"

definition cookie_text :: "app_state \<Rightarrow> string \<Rightarrow> string \<Rightarrow> u64 \<Rightarrow> string" where
  "cookie_text st name v age =
     name @ ''='' @ v @ ''; Path=/; Max-Age='' @ show_nat (unat age) @ ''; HttpOnly; SameSite=Lax'' @ cookie_tail st"

definition set_cookie :: "app_state \<Rightarrow> string \<Rightarrow> reply \<Rightarrow> reply option" where
  "set_cookie st cookie r =
     map_option (\<lambda>v. r \<lparr> rs_headers := h_append (rs_headers r) ''set-cookie'' v \<rparr>) (st_value st cookie)"

definition set_session_cookie :: "app_state \<Rightarrow> string \<Rightarrow> reply \<Rightarrow> reply option" where
  "set_session_cookie st sid = set_cookie st (cookie_text st COOKIE_NAME sid (oe_session_ttl_secs st))"

definition clear_session_cookie :: "app_state \<Rightarrow> reply \<Rightarrow> reply option" where
  "clear_session_cookie st = set_cookie st (cookie_text st COOKIE_NAME [] 0)"

definition set_device_cookie :: "app_state \<Rightarrow> string \<Rightarrow> reply \<Rightarrow> reply option" where
  "set_device_cookie st device_id = set_cookie st (cookie_text st DEVICE_COOKIE device_id DEVICE_COOKIE_MAX_AGE)"

definition read_device_marker :: "app_state \<Rightarrow> header_map \<Rightarrow> string option" where
  "read_device_marker st h = opt_filter (\<lambda>v. v \<noteq> []) (st_cookie st h DEVICE_COOKIE)"

definition read_accounts :: "app_state \<Rightarrow> header_map \<Rightarrow> string list" where
  "read_accounts st h =
     (case st_cookie st h ACCOUNTS_COOKIE of None \<Rightarrow> [] | Some v \<Rightarrow> filter (\<lambda>s. s \<noteq> []) (split_on CHR '','' v))"

text \<open>The filter over the set of ids seen so far, first occurrence first.\<close>

fun unseen :: "string list \<Rightarrow> string list \<Rightarrow> string list" where
  "unseen seen [] = []"
| "unseen seen (i # ids) = (if i \<in> set seen then unseen seen ids else i # unseen (i # seen) ids)"

definition dedup_cap_accounts :: "string list \<Rightarrow> string list" where
  "dedup_cap_accounts ids = take MAX_ACCOUNTS (unseen [] (filter (\<lambda>i. i \<noteq> []) ids))"

definition set_accounts_cookie :: "app_state \<Rightarrow> string list \<Rightarrow> reply \<Rightarrow> reply option" where
  "set_accounts_cookie st ids =
     (let deduped = dedup_cap_accounts ids
      in set_cookie st
           (if deduped = [] then cookie_text st ACCOUNTS_COOKIE [] 0
            else cookie_text st ACCOUNTS_COOKIE (join '','' deduped) (oe_session_ttl_secs st)))"

definition is_json_accept :: "header_map \<Rightarrow> bool" where
  "is_json_accept h = (case h_str h ''accept'' of None \<Rightarrow> False | Some v \<Rightarrow> contains_sub v ''application/json'')"

section \<open>Local-network bypass\<close>

definition parse_net :: "net_parsers \<Rightarrow> string \<Rightarrow> ip_net option" where
  "parse_net p s =
     (case np_net p s of
        Some net \<Rightarrow> Some net
      | None \<Rightarrow>
          (case np_ip p s of
             None \<Rightarrow> None
           | Some ip \<Rightarrow> np_net p (np_show_ip p ip @ (case ip of V4 _ \<Rightarrow> ''/32'' | V6 _ \<Rightarrow> ''/128''))))"

definition bypass_new :: "net_parsers \<Rightarrow> string \<Rightarrow> local_network_bypass" where
  "bypass_new p csv =
     \<lparr> lb_cidrs = List.map_filter (parse_net p) (filter (\<lambda>s. s \<noteq> []) (map trim (split_on CHR '','' csv))),
       lb_trusted_proxies = [] \<rparr>"

definition with_trusted_proxies :: "net_parsers \<Rightarrow> local_network_bypass \<Rightarrow> string \<Rightarrow> local_network_bypass" where
  "with_trusted_proxies p b csv = b \<lparr> lb_trusted_proxies := lb_cidrs (bypass_new p csv) \<rparr>"

definition bypass_matches :: "local_network_bypass \<Rightarrow> ip_addr \<Rightarrow> bool" where
  "bypass_matches b ip = list_ex (\<lambda>net. net ip) (lb_cidrs b)"

definition forwarded_ip :: "net_parsers \<Rightarrow> header_map \<Rightarrow> string \<Rightarrow> ip_addr option" where
  "forwarded_ip p h name =
     Option.bind (h_str h name) (\<lambda>val. np_ip p (trim (hd (split_on CHR '','' val))))"

definition bypass_client_ip :: "net_parsers \<Rightarrow> header_map \<Rightarrow> ip_addr option \<Rightarrow> ip_net list \<Rightarrow> ip_addr option" where
  "bypass_client_ip p h peer trusted =
     (case peer of
        None \<Rightarrow> None
      | Some ip \<Rightarrow>
          (if list_ex (\<lambda>net. net ip) trusted
           then or_else (or_else (forwarded_ip p h ''x-real-ip'') (forwarded_ip p h ''x-forwarded-for'')) (Some ip)
           else Some ip))"

definition matches_request :: "net_parsers \<Rightarrow> local_network_bypass \<Rightarrow> header_map \<Rightarrow> ip_addr option \<Rightarrow> bool" where
  "matches_request p b h peer \<longleftrightarrow>
     lb_cidrs b \<noteq> [] \<and>
     (case bypass_client_ip p h peer (lb_trusted_proxies b) of None \<Rightarrow> False | Some ip \<Rightarrow> bypass_matches b ip)"

section \<open>Events and the audit trail\<close>

definition session_id_fingerprint :: "app_state \<Rightarrow> string \<Rightarrow> string" where
  "session_id_fingerprint st sid = take 12 (oe_sha256_hex st sid)"

definition event_now :: "time \<Rightarrow> string \<Rightarrow> auth_event" where
  "event_now now t =
     \<lparr> ev_event_type = t, ev_user_id = None, ev_tenant_id = None, ev_session_id = None,
       ev_timestamp = of_int (now div 1000), ev_detail = None, ev_origin = None \<rparr>"

definition with_session :: "app_state \<Rightarrow> string \<Rightarrow> auth_event \<Rightarrow> auth_event" where
  "with_session st sid ev = ev \<lparr> ev_session_id := Some (session_id_fingerprint st sid) \<rparr>"

definition publish :: "app_state \<Rightarrow> auth_event \<Rightarrow> 'a login_db_scheme \<Rightarrow> 'a login_db_scheme" where
  "publish st ev db =
     db \<lparr> ld_events := ld_events db @ [ev \<lparr> ev_origin := Some (unwrap_or (st_origin st) (ev_origin ev)) \<rparr>] \<rparr>"

definition publish_and_audit ::
    "app_state \<Rightarrow> time \<Rightarrow> uuid \<Rightarrow> auth_event \<Rightarrow> string option \<Rightarrow> string option \<Rightarrow> string option \<Rightarrow>
     'a login_db_scheme \<Rightarrow> 'a login_db_scheme" where
  "publish_and_audit st now request_id ev actor_ip target_type target_id db =
     publish st ev
       (db \<lparr> ld_audit := ld_audit db @
          [\<lparr> al_event_type = ev_event_type ev, al_actor_id = Option.bind (ev_user_id ev) (oe_parse_uuid st),
             al_actor_ip = actor_ip, al_tenant_id = Option.bind (ev_tenant_id ev) (oe_parse_uuid st),
             al_target_type = target_type, al_target_id = target_id, al_detail = ev_detail ev,
             al_timestamp = now, al_request_id = request_id \<rparr>] \<rparr>)"

section \<open>Lemmas\<close>

lemma rs_with_header [simp]:
  "rs_status (with_header n v r) = rs_status r" "rs_body (with_header n v r) = rs_body r"
  "rs_headers (with_header n v r) = h_insert (rs_headers r) n v"
  by (simp_all add: with_header_def)

lemma rs_no_cache [simp]: "rs_status (no_cache_headers r) = rs_status r" "rs_body (no_cache_headers r) = rs_body r"
  by (simp_all add: no_cache_headers_def)

lemma rs_reply [simp]:
  "rs_status (status_reply c) = c" "rs_headers (status_reply c) = []" "rs_status (json_reply b) = 200" "rs_body (json_reply b) = b"
  "rs_status (api_reply e) = api_status e" "rs_body (api_reply e) = ErrorBody (api_code e)"
  by (simp_all add: status_reply_def json_reply_def api_reply_def)

lemma api_status_not_200: "api_status e \<in> {400, 401, 403, 500}"
  by (cases e) simp_all

lemma insert_parsed_status: "insert_parsed st hs r = Some r' \<Longrightarrow> rs_status r' = rs_status r"
  by (induction st hs r rule: insert_parsed.induct) (auto split: option.splits)

lemma insert_valid_status [simp]: "rs_status (insert_valid st hs r) = rs_status r"
  by (induction st hs r rule: insert_valid.induct) (auto split: option.splits)

lemma set_cookie_status: "set_cookie st c r = Some r' \<Longrightarrow> rs_status r' = rs_status r \<and> rs_body r' = rs_body r"
  by (auto simp: set_cookie_def)

lemma set_unseen: "set (unseen seen ids) = set ids - set seen"
  by (induction seen ids rule: unseen.induct) auto

lemma distinct_unseen: "distinct (unseen seen ids)"
  by (induction seen ids rule: unseen.induct) (auto simp: set_unseen)

lemma published_tables [simp]:
  "ad_sessions (publish_and_audit st now q ev ip ty tgt db) = ad_sessions db"
  "ad_users (publish_and_audit st now q ev ip ty tgt db) = ad_users db"
  "ad_members (publish_and_audit st now q ev ip ty tgt db) = ad_members db"
  "ad_tenants (publish_and_audit st now q ev ip ty tgt db) = ad_tenants db"
  "op_identities (publish_and_audit st now q ev ip ty tgt db) = op_identities db"
  "ld_flows (publish_and_audit st now q ev ip ty tgt db) = ld_flows db"
  "ld_stepup (publish_and_audit st now q ev ip ty tgt db) = ld_stepup db"
  by (simp_all add: publish_and_audit_def publish_def)

text \<open>The remembered accounts: at most ten, without repetition, in the order of the first occurrences.\<close>

lemma dedup_cap_accounts_ok:
  "distinct (dedup_cap_accounts ids)" "length (dedup_cap_accounts ids) \<le> MAX_ACCOUNTS"
  "set (dedup_cap_accounts ids) \<subseteq> set ids - {[]}"
  using set_take_subset [of MAX_ACCOUNTS "unseen [] (filter (\<lambda>i. i \<noteq> []) ids)"]
  by (auto simp: dedup_cap_accounts_def distinct_unseen set_unseen)

end
