(* ===== verification/Forward_Auth.thy ===== *)
theory Forward_Auth
  imports Auth_State
begin

text \<open>
  The endpoint the gateway asks (\<open>verify\<close> of \<open>auth-server/src/handlers/auth.rs\<close>), logout, token refresh and
  tenant switching, with temporary access grants (\<open>auth-core/src/record/temporary_access.rs\<close>). Every
  store lookup of \<open>verify\<close> may fail: \<open>down\<close> says which do, and each failure takes the branch the code has
  for it.
\<close>

section \<open>Temporary access\<close>

definition domain_matches :: "string \<Rightarrow> string \<Rightarrow> bool" where
  "domain_matches pat host =
     (if pat = ''*'' then True
      else (case strip_prefix pat ''*.'' of
              Some suffix \<Rightarrow> ends_with host (''.'' @ suffix)
            | None \<Rightarrow> pat = host))"

definition is_active_for :: "temporary_grant \<Rightarrow> string \<Rightarrow> time \<Rightarrow> bool" where
  "is_active_for g host now \<longleftrightarrow>
     tg_revoked_at g = None \<and> tg_starts_at g \<le> now \<and> now < tg_expires_at g \<and>
     list_ex (\<lambda>d. domain_matches d host) (tg_domains g) \<and>
     \<not> list_ex (\<lambda>d. domain_matches d host) (tg_blocked_domains g)"

definition create_temporary_access_grant ::
    "temporary_grant \<Rightarrow> temporary_grant list \<Rightarrow> (auth_error, unit) result \<times> temporary_grant list" where
  "create_temporary_access_grant g gs =
     (if tg_id g \<in> set (map tg_id gs) \<or> tg_token_hash g \<in> set (map tg_token_hash gs)
      then (Inl (Conflict ''duplicate key''), gs) else (Inr (), gs @ [g]))"

definition find_temporary_access_by_hash :: "string \<Rightarrow> temporary_grant list \<Rightarrow> temporary_grant option" where
  "find_temporary_access_by_hash hash gs = find (\<lambda>g. tg_token_hash g = hash) gs"

definition revoke_temporary_access_grant :: "time \<Rightarrow> uuid \<Rightarrow> temporary_grant list \<Rightarrow> temporary_grant list" where
  "revoke_temporary_access_grant now i gs =
     map (\<lambda>g. if tg_id g = i \<and> tg_revoked_at g = None then g \<lparr> tg_revoked_at := Some now \<rparr> else g) gs"

definition list_temporary_access_grants :: "uuid \<Rightarrow> temporary_grant list \<Rightarrow> temporary_grant list" where
  "list_temporary_access_grants tid gs =
     sort_key (\<lambda>g. - tg_created_at g) (filter (\<lambda>g. tg_tenant_id g = tid) gs)"

section \<open>Step-up marks\<close>

definition stepup_mark :: "string \<Rightarrow> string list \<Rightarrow> string list" where
  "stepup_mark sid marks = (if sid \<in> set marks then marks else marks @ [sid])"

definition stepup_is_required :: "string \<Rightarrow> string list \<Rightarrow> bool" where
  "stepup_is_required sid marks \<longleftrightarrow> sid \<in> set marks"

section \<open>The credential\<close>

datatype store_call = FindGrant | FindSession | FindTenant | HasActiveMfa | StepUpRequired | ListPasskeys

definition credential :: "app_state \<Rightarrow> header_map \<Rightarrow> string option" where
  "credential st h =
     or_else
       (opt_filter (\<lambda>t. t \<noteq> [])
          (Option.bind (h_str h ''authorization'') (\<lambda>v.
             case split_once CHR '' '' v of
               None \<Rightarrow> None
             | Some (scheme, rest) \<Rightarrow> (if eq_ignore_case scheme ''bearer'' then Some (trim rest) else None))))
       (opt_filter (\<lambda>t. t \<noteq> []) (st_cookie st h ''__volta_temporary_access''))"

definition required_role :: "header_map \<Rightarrow> string option" where
  "required_role h = opt_filter (\<lambda>s. s \<noteq> []) (map_option trim (h_str h ''x-volta-required-role''))"

definition denied :: "string \<Rightarrow> reply" where
  "denied reason = no_cache_headers (with_header ''x-volta-auth-reason'' (HText reason) (status_reply 403))"

definition role_denied :: "app_state \<Rightarrow> string \<Rightarrow> reply" where
  "role_denied st required =
     no_cache_headers
       ((case st_value st required of None \<Rightarrow> (\<lambda>r. r) | Some v \<Rightarrow> with_header ''x-volta-required-role'' v)
          (with_header ''x-volta-auth-reason'' (HText ''insufficient_role'') (status_reply 403)))"

text \<open>The role check both paths make: \<open>None\<close> when it passes.\<close>

definition check_role :: "app_state \<Rightarrow> header_map \<Rightarrow> string list \<Rightarrow> reply option" where
  "check_role st h roles =
     (case required_role h of
        None \<Rightarrow> None
      | Some required \<Rightarrow>
          (case enforce_min_role default_policy roles (to_upper required) of
             Deny reason \<Rightarrow> Some (role_denied st (to_upper required))
           | _ \<Rightarrow> None))"

definition temporary_headers :: "app_state \<Rightarrow> temporary_grant \<Rightarrow> (string \<times> string) list" where
  "temporary_headers st g =
     [(''x-volta-user-id'', ''temporary:'' @ oe_show_uuid st (tg_id g)), (''x-volta-email'', tg_subject g),
      (''x-volta-tenant-id'', oe_show_uuid st (tg_tenant_id g)), (''x-volta-roles'', tg_role g),
      (''x-volta-auth-source'', ''temporary-access''), (''x-volta-token-id'', oe_show_uuid st (tg_id g))]"

definition temporary_path ::
    "app_state \<Rightarrow> (store_call \<Rightarrow> bool) \<Rightarrow> time \<Rightarrow> string \<Rightarrow> string \<Rightarrow> 'a login_db_scheme \<Rightarrow> reply option" where
  "temporary_path st down now host token db =
     (case opt_filter (\<lambda>g. is_active_for g host now)
             (if down FindGrant then None
              else find_temporary_access_by_hash (oe_sha256_hex st token) (ld_temporary db)) of
        None \<Rightarrow> Some (denied ''temporary_access_denied'')
      | Some g \<Rightarrow> map_option no_cache_headers (insert_parsed st (temporary_headers st g) (status_reply 200)))"

definition claim_roles :: "volta_claims \<Rightarrow> string list" where
  "claim_roles c =
     filter (\<lambda>r. r \<noteq> []) (map (\<lambda>r. to_upper (trim r)) (split_on CHR '','' (unwrap_or [] (cl_roles c))))"

definition bearer_ok :: "app_state \<Rightarrow> volta_claims \<Rightarrow> reply" where
  "bearer_ok st c =
     no_cache_headers
       (insert_valid st (opt_header ''x-volta-token-id'' (cl_jti c) @ opt_header ''x-volta-scope'' (cl_scope c))
          (with_header ''x-volta-auth-source'' (HText ''bearer'')
             (insert_valid st (Session_Jwt.to_volta_headers c) (status_reply 200))))"

definition bearer_path :: "app_state \<Rightarrow> header_map \<Rightarrow> string \<Rightarrow> volta_claims \<Rightarrow> reply" where
  "bearer_path st h host c =
     (if \<not> allows_audience c host then denied ''audience_mismatch''
      else (case check_role st h (claim_roles c) of
              Some r \<Rightarrow> r
            | None \<Rightarrow> bearer_ok st c))"

section \<open>The session\<close>

definition tenant_suspended :: "app_state \<Rightarrow> (store_call \<Rightarrow> bool) \<Rightarrow> session_record \<Rightarrow> 'a login_db_scheme \<Rightarrow> bool" where
  "tenant_suspended st down s db =
     (case oe_parse_uuid st (sr_tenant_id s) of
        None \<Rightarrow> False
      | Some tid \<Rightarrow>
          (if down FindTenant then False
           else (case tenant_find_by_id tid (ad_tenants db) of None \<Rightarrow> False | Some t \<Rightarrow> \<not> tn_is_active t)))"

definition is_mfa_path :: "string \<Rightarrow> bool" where
  "is_mfa_path uri \<longleftrightarrow> starts_with uri ''/mfa/'' \<or> starts_with uri ''/auth/mfa/''"

definition needs_challenge :: "app_state \<Rightarrow> (store_call \<Rightarrow> bool) \<Rightarrow> session_record \<Rightarrow> 'a login_db_scheme \<Rightarrow> bool" where
  "needs_challenge st down s db =
     (let uid = oe_parse_uuid st (sr_user_id s);
          has_totp = (case uid of None \<Rightarrow> False | Some u \<Rightarrow> \<not> down HasActiveMfa \<and> mfa_has_active u (ld_mfa db));
          stepup = (\<not> down StepUpRequired \<and> stepup_is_required (sr_session_id s) (ld_stepup db));
          has_passkey = (case uid of None \<Rightarrow> False
                         | Some u \<Rightarrow> stepup \<and> \<not> down ListPasskeys \<and> passkey_list_by_user u (ad_passkeys db) \<noteq> [])
      in has_totp \<or> stepup \<and> has_passkey)"

definition session_claims :: "session_record \<Rightarrow> volta_claims" where
  "session_claims s =
     \<lparr> cl_sub = sr_user_id s, cl_email = sr_email s, cl_tenant_id = Some (sr_tenant_id s),
       cl_tenant_slug = sr_tenant_slug s,
       cl_roles = (if sr_roles s = [] then None else Some (join '','' (sr_roles s))),
       cl_name = sr_display_name s, cl_app_id = None, cl_iat = None, cl_exp = None, cl_jti = None,
       cl_aud = None, cl_scope = None \<rparr>"

definition session_headers :: "session_record \<Rightarrow> (string \<times> string) list" where
  "session_headers s =
     [(''x-volta-user-id'', sr_user_id s)] @ opt_header ''x-volta-email'' (sr_email s)
     @ [(''x-volta-tenant-id'', sr_tenant_id s)] @ opt_header ''x-volta-tenant-slug'' (sr_tenant_slug s)
     @ (if sr_roles s = [] then [] else [(''x-volta-roles'', join '','' (sr_roles s))])
     @ [(''x-volta-display-name'', unwrap_or [] (sr_display_name s))]"

definition session_ok :: "app_state \<Rightarrow> time \<Rightarrow> session_record \<Rightarrow> reply option" where
  "session_ok st now s =
     map_option no_cache_headers
       (insert_parsed st
          (session_headers s @
           (case jwt_issue (oe_session_issuer st) (unix_secs now) (session_claims s) of
              Inl _ \<Rightarrow> [] | Inr jwt \<Rightarrow> [(''x-volta-jwt'', jwt)]))
          (status_reply 200))"

definition challenge :: "app_state \<Rightarrow> reply" where
  "challenge st = no_cache_headers ((st_redirect st (oe_base_url st @ ''/mfa/challenge'')) \<lparr> rs_status := 401 \<rparr>)"

definition redirect_to_login :: "app_state \<Rightarrow> string \<Rightarrow> string \<Rightarrow> string \<Rightarrow> reply" where
  "redirect_to_login st proto host uri =
     no_cache_headers
       ((st_redirect st (oe_base_url st @ ''/login?return_to='' @ st_urlencode st (proto @ ''://'' @ host @ uri)))
          \<lparr> rs_status := 401 \<rparr>)"

definition session_path ::
    "app_state \<Rightarrow> (store_call \<Rightarrow> bool) \<Rightarrow> time \<Rightarrow> header_map \<Rightarrow> string \<Rightarrow> reply \<Rightarrow> string \<Rightarrow> 'a login_db_scheme \<Rightarrow> reply option" where
  "session_path st down now h uri to_login sid db =
     (case (if down FindSession then None else pg_find (unix_secs now) sid (ad_sessions db)) of
        None \<Rightarrow> Some to_login
      | Some s \<Rightarrow>
          (if tenant_suspended st down s db then Some (denied ''tenant_suspended'')
           else (case check_role st h (sr_roles s) of
                   Some r \<Rightarrow> Some r
                 | None \<Rightarrow>
                     (if sr_mfa_verified_at s = None \<and> \<not> is_mfa_path uri \<and> needs_challenge st down s db
                      then Some (challenge st)
                      else session_ok st now s))))"

definition local_ok :: reply where
  "local_ok = no_cache_headers (with_header ''x-volta-auth-source'' (HText ''local-bypass'') (status_reply 200))"

section \<open>The endpoint\<close>

text \<open>The paths below the bearer path: the session cookie, else the network of the caller.\<close>

definition cookie_path ::
    "app_state \<Rightarrow> (store_call \<Rightarrow> bool) \<Rightarrow> time \<Rightarrow> ip_addr option \<Rightarrow> header_map \<Rightarrow> string \<Rightarrow> string \<Rightarrow> 'a login_db_scheme \<Rightarrow> reply option" where
  "cookie_path st down now peer h host uri db =
     (let to_login = redirect_to_login st (unwrap_or ''http'' (h_str h ''x-forwarded-proto'')) host uri
      in case extract_session_id st h of
           Some sid \<Rightarrow> session_path st down now h uri to_login sid db
         | None \<Rightarrow> Some (if matches_request (st_net st) (st_local_bypass st) h peer then local_ok else to_login))"

definition auth_verify ::
    "app_state \<Rightarrow> (store_call \<Rightarrow> bool) \<Rightarrow> time \<Rightarrow> ip_addr option \<Rightarrow> header_map \<Rightarrow> 'a login_db_scheme \<Rightarrow> reply option" where
  "auth_verify st down now peer h db =
     (case (h_str h ''x-forwarded-host'', h_str h ''x-forwarded-uri'') of
        (Some host, Some uri) \<Rightarrow>
          (case credential st h of
             None \<Rightarrow> cookie_path st down now peer h host uri db
           | Some token \<Rightarrow>
               (if starts_with token ''vta_'' then temporary_path st down now host token db
                else (case jwt_verify st token of
                        Inr c \<Rightarrow> Some (bearer_path st h host c)
                      | Inl _ \<Rightarrow> cookie_path st down now peer h host uri db)))
      | _ \<Rightarrow> Some (api_reply (Unauthorized ''AUTHENTICATION_REQUIRED'')))"

section \<open>Logout\<close>

definition publish_logout_event :: "app_state \<Rightarrow> time \<Rightarrow> uuid \<Rightarrow> string \<Rightarrow> 'a login_db_scheme \<Rightarrow> 'a login_db_scheme" where
  "publish_logout_event st now request_id sid db =
     (let ev = with_session st sid (event_now now ''LOGOUT'');
          ev' = (case pg_find (unix_secs now) sid (ad_sessions db) of
                   None \<Rightarrow> ev
                 | Some s \<Rightarrow> ev \<lparr> ev_user_id := Some (sr_user_id s), ev_tenant_id := Some (sr_tenant_id s) \<rparr>)
      in publish_and_audit st now request_id ev' None (Some ''SESSION'') (Some sid) db)"

definition is_safe_return_to :: "string \<Rightarrow> bool" where
  "is_safe_return_to rt =
     (case strip_prefix rt ''https://'' of
        None \<Rightarrow> False
      | Some rest \<Rightarrow>
          (let host = hd (split_on CHR ''/'' rest)
           in host = ''unlaxer.org'' \<or> ends_with host ''.unlaxer.org''))"

definition end_cookie_session :: "app_state \<Rightarrow> time \<Rightarrow> uuid \<Rightarrow> header_map \<Rightarrow> 'a login_db_scheme \<Rightarrow> 'a login_db_scheme" where
  "end_cookie_session st now request_id h db =
     (case extract_session_id st h of
        None \<Rightarrow> db
      | Some sid \<Rightarrow>
          (let db' = publish_logout_event st now request_id sid db
           in db' \<lparr> ad_sessions := pg_revoke (unix_secs now) sid (ad_sessions db') \<rparr>))"

definition logout_get ::
    "app_state \<Rightarrow> time \<Rightarrow> uuid \<Rightarrow> string option \<Rightarrow> header_map \<Rightarrow> 'a login_db_scheme \<Rightarrow> reply option \<times> 'a login_db_scheme" where
  "logout_get st now request_id return_to h db =
     (map_option no_cache_headers
        (clear_session_cookie st
           (st_redirect st
              (case opt_filter is_safe_return_to return_to of
                 Some rt \<Rightarrow> oe_base_url st @ ''/login?return_to='' @ st_urlencode st rt
               | None \<Rightarrow> oe_base_url st @ ''/login''))),
      end_cookie_session st now request_id h db)"

definition logout_post ::
    "app_state \<Rightarrow> time \<Rightarrow> uuid \<Rightarrow> header_map \<Rightarrow> 'a login_db_scheme \<Rightarrow> reply option \<times> 'a login_db_scheme" where
  "logout_post st now request_id h db =
     (map_option no_cache_headers
        (clear_session_cookie st (if is_json_accept h then json_reply OkBody else st_redirect st ''/login'')),
      end_cookie_session st now request_id h db)"

section \<open>Refresh and tenant switching\<close>

definition auth_refresh :: "app_state \<Rightarrow> time \<Rightarrow> header_map \<Rightarrow> 'a login_db_scheme \<Rightarrow> reply" where
  "auth_refresh st now h db =
     (case extract_session_id st h of
        None \<Rightarrow> api_reply (Unauthorized ''SESSION_EXPIRED'')
      | Some sid \<Rightarrow>
          (case pg_find (unix_secs now) sid (ad_sessions db) of
             None \<Rightarrow> api_reply (Unauthorized ''SESSION_EXPIRED'')
           | Some s \<Rightarrow>
               (case jwt_issue (oe_session_issuer st) (unix_secs now) (session_claims s) of
                  Inl _ \<Rightarrow> api_reply InternalError
                | Inr jwt \<Rightarrow> no_cache_headers (json_reply (TokenBody jwt)))))"

definition switched_session :: "app_state \<Rightarrow> time \<Rightarrow> string \<Rightarrow> string \<Rightarrow> string \<Rightarrow> string \<Rightarrow> session_record \<Rightarrow> session_record" where
  "switched_session st now new_sid tenant_text slug role s =
     \<lparr> sr_session_id = new_sid, sr_user_id = sr_user_id s, sr_tenant_id = tenant_text, sr_return_to = None,
       sr_created_at = unix_secs now, sr_last_active_at = unix_secs now,
       sr_expires_at = unix_secs now + oe_session_ttl_secs st, sr_invalidated_at = None,
       sr_mfa_verified_at = None, sr_ip_address = sr_ip_address s, sr_user_agent = sr_user_agent s,
       sr_csrf_token = None, sr_email = sr_email s, sr_tenant_slug = Some slug, sr_roles = [role],
       sr_display_name = sr_display_name s \<rparr>"

text \<open>The session id of the new session is random, hence an argument.\<close>

definition switch_tenant ::
    "app_state \<Rightarrow> time \<Rightarrow> string \<Rightarrow> header_map \<Rightarrow> string \<Rightarrow> 'a login_db_scheme \<Rightarrow> reply option \<times> 'a login_db_scheme" where
  "switch_tenant st now new_sid h tenant_text db =
     (let fail = (\<lambda>e db. (Some (api_reply e), db))
      in case extract_session_id st h of
           None \<Rightarrow> fail (Unauthorized ''SESSION_EXPIRED'') db
         | Some sid \<Rightarrow>
             (case pg_find (unix_secs now) sid (ad_sessions db) of
                None \<Rightarrow> fail (Unauthorized ''SESSION_EXPIRED'') db
              | Some s \<Rightarrow>
                  (case oe_parse_uuid st tenant_text of
                     None \<Rightarrow> fail (api_error.BadRequest ''BAD_REQUEST'') db
                   | Some tid \<Rightarrow>
                       (case oe_parse_uuid st (sr_user_id s) of
                          None \<Rightarrow> fail InternalError db
                        | Some uid \<Rightarrow>
                            (case member_find uid tid (ad_members db) of
                               None \<Rightarrow> fail (Forbidden ''TENANT_ACCESS_DENIED'') db
                             | Some m \<Rightarrow>
                                 (if \<not> mb_is_active m then fail (Forbidden ''TENANT_ACCESS_DENIED'') db
                                  else
                                    (let db1 = db \<lparr> ad_sessions := pg_revoke (unix_secs now) sid (ad_sessions db) \<rparr>
                                     in case tenant_find_by_id tid (ad_tenants db1) of
                                          None \<Rightarrow> fail (api_error.BadRequest ''NOT_FOUND'') db1
                                        | Some t \<Rightarrow>
                                            (case pg_create (switched_session st now new_sid tenant_text (tn_slug t) (mb_role m) s)
                                                    (ad_sessions db1) of
                                               (Inl _, _) \<Rightarrow> fail InternalError db1
                                             | (Inr _, t') \<Rightarrow>
                                                 (map_option no_cache_headers
                                                    (set_session_cookie st new_sid (json_reply (TenantBody tenant_text))),
                                                  db1 \<lparr> ad_sessions := t' \<rparr>)))))))))"

section \<open>Where identity headers come from\<close>

text \<open>The values of a reply's identity headers, each as the text it was parsed from.\<close>

definition emits :: "app_state \<Rightarrow> (string \<times> string) set \<Rightarrow> reply \<Rightarrow> bool" where
  "emits st pairs r \<longleftrightarrow> (\<forall>(n, v) \<in> set (rs_headers r). is_volta n \<longrightarrow> (n, hv_bytes v) \<in> pairs)"

text \<open>Parsing keeps the bytes, as \<open>HeaderValue::from_str\<close> documents.\<close>

definition value_exact :: "app_state \<Rightarrow> bool" where
  "value_exact st \<longleftrightarrow> (\<forall>s v. st_value st s = Some v \<longrightarrow> hv_bytes v = s)"

lemma value_exactD: "value_exact st \<Longrightarrow> st_value st s = Some v \<Longrightarrow> hv_bytes v = s"
  by (auto simp: value_exact_def)

lemma emits_mono: "emits st A r \<Longrightarrow> A \<subseteq> B \<Longrightarrow> emits st B r"
  by (auto simp: emits_def)

lemma emits_status [simp]: "emits st {} (status_reply c)"
  by (simp add: emits_def)

lemma emits_with_header: "emits st A r \<Longrightarrow> emits st (insert (to_lower n, hv_bytes v) A) (with_header n v r)"
  by (auto simp: emits_def set_h_insert)

lemma emits_no_cache [simp]: "emits st A (no_cache_headers r) \<longleftrightarrow> emits st A r"
proof -
  have "set (rs_headers (no_cache_headers r)) =
      {e \<in> set (rs_headers r). fst e \<noteq> ''cache-control'' \<and> fst e \<noteq> ''pragma''} \<union>
      {(''cache-control'', HText ''no-store, no-cache, must-revalidate, private''), (''pragma'', HText ''no-cache'')}"
    by (auto simp: no_cache_headers_def set_h_insert to_lower_def ascii_lower_def)
  moreover have "\<not> is_volta ''cache-control'' \<and> \<not> is_volta ''pragma''"
    by (simp add: is_volta_def starts_with_def)
  ultimately show ?thesis unfolding emits_def by fastforce
qed

abbreviation lowered :: "(string \<times> string) list \<Rightarrow> (string \<times> string) set" where
  "lowered hs \<equiv> (\<lambda>(n, s). (to_lower n, s)) ` set hs"

lemma emits_insert_parsed:
  "value_exact st \<Longrightarrow> insert_parsed st hs r = Some r' \<Longrightarrow> emits st A r \<Longrightarrow> emits st (A \<union> lowered hs) r'"
proof (induction st hs r arbitrary: A rule: insert_parsed.induct)
  case (2 st n s hs r)
  then obtain v where v: "st_value st s = Some v" "insert_parsed st hs (with_header n v r) = Some r'"
    by (auto split: option.splits)
  then have "emits st (insert (to_lower n, s) A \<union> lowered hs) r'"
    using 2 emits_with_header [of st A r n v] value_exactD by force
  then show ?case by (rule emits_mono) auto
qed simp

lemma emits_insert_valid:
  "value_exact st \<Longrightarrow> emits st A r \<Longrightarrow> emits st (A \<union> lowered hs) (insert_valid st hs r)"
proof (induction st hs r arbitrary: A rule: insert_valid.induct)
  case (2 st n s hs r)
  have "emits st (insert (to_lower n, s) A) (case st_value st s of None \<Rightarrow> r | Some v \<Rightarrow> with_header n v r)"
  proof (cases "st_value st s")
    case None
    with 2(3) show ?thesis by (auto intro: emits_mono)
  next
    case (Some v)
    with emits_with_header [OF 2(3), of n v] value_exactD [OF 2(2) Some] show ?thesis by simp
  qed
  from 2(1) [OF 2(2) this] have "emits st (insert (to_lower n, s) A \<union> lowered hs) (insert_valid st ((n, s) # hs) r)"
    by (simp only: insert_valid.simps)
  then show ?case by (rule emits_mono) auto
qed simp

lemma collect_volta_set:
  "(n, u) \<in> set (foldl collect_volta m h) \<Longrightarrow> (n, u) \<in> set m \<or> (is_volta n \<and> (n, HText u) \<in> set h)"
proof (induction h arbitrary: m)
  case (Cons e h)
  from Cons.IH [of "collect_volta m e"] Cons.prems have "(n, u) \<in> set (collect_volta m e) \<or> (is_volta n \<and> (n, HText u) \<in> set h)"
    by simp
  then show ?case
    by (cases e; cases "snd e") (auto simp: collect_volta_def al_insert_def al_remove_def split: if_splits)
qed simp

lemma emits_gateway: "emits st A r \<Longrightarrow> set (volta_headers_of (rs_headers r)) \<subseteq> A"
  using collect_volta_set [of _ _ "[]" "rs_headers r"] by (fastforce simp: volta_headers_of_def emits_def)

end
