(* ===== verification/Idp.thy ===== *)
theory Idp
  imports Session_Jwt Policy
begin

text \<open>
  The clients of upstream identity providers: the OAuth/OIDC client (\<open>auth-core/src/idp.rs\<close>), validation of
  ID tokens (\<open>auth-core/src/oidc.rs\<close>) and the cipher for secrets at rest (\<open>auth-core/src/crypto.rs\<close>). HTTP
  exchanges, the URL builder, signature checks, SHA-256, base64 and AES-GCM are packages: parameters. An
  exchange either gets no answer or a status with the outcome of parsing the body.
\<close>

datatype 'a fetch = NoAnswer string | Status nat "(string, 'a) result"

definition is_success :: "nat \<Rightarrow> bool" where
  "is_success s \<longleftrightarrow> 200 \<le> s \<and> s < 300"

text \<open>How an exchange fails; the texts made of it are not modelled.\<close>

datatype fetch_error = Lost string | Refused nat | Garbled string

definition fetched :: "('a \<Rightarrow> 'b) \<Rightarrow> 'a fetch \<Rightarrow> (fetch_error, 'b) result" where
  "fetched f r =
     (case r of
        NoAnswer e \<Rightarrow> Inl (Lost e)
      | Status s body \<Rightarrow>
          (if \<not> is_success s then Inl (Refused s)
           else (case body of Inl e \<Rightarrow> Inl (Garbled e) | Inr u \<Rightarrow> Inr (f u))))"

section \<open>The OAuth client\<close>

record pkce_pair =
  pp_verifier :: string
  pp_challenge :: string

text \<open>\<open>generate\<close>, with the 32 random bytes as an argument; \<open>b64\<close> is base64url without padding.\<close>

definition pkce_generate :: "(string \<Rightarrow> string) \<Rightarrow> (string \<Rightarrow> string) \<Rightarrow> string \<Rightarrow> pkce_pair" where
  "pkce_generate b64 sha256 bytes =
     (let verifier = b64 bytes in \<lparr> pp_verifier = verifier, pp_challenge = b64 (sha256 verifier) \<rparr>)"

record idp_config =
  ic_provider :: string
  ic_client_id :: string
  ic_client_secret :: string
  ic_issuer_url :: "string option"
  ic_auth_url :: "string option"
  ic_token_url :: "string option"
  ic_userinfo_url :: "string option"
  ic_scopes :: "string list"

record idp_user_info =
  iu_sub :: string
  iu_email :: "string option"
  iu_name :: "string option"
  iu_picture :: "string option"
  iu_email_verified :: "bool option"

record github_user =
  gh_id :: u64
  gh_email :: "string option"
  gh_name :: "string option"
  gh_avatar_url :: "string option"

record token_response =
  tr_access_token :: string
  tr_token_type :: "string option"
  tr_expires_in :: "u64 option"
  tr_refresh_token :: "string option"
  tr_id_token :: "string option"
  tr_scope :: "string option"

text \<open>\<open>ix_url\<close> parses a URL and appends query pairs, \<open>None\<close> when the text is not a URL.\<close>

record idp_ops =
  ix_url :: "string \<Rightarrow> (string \<times> string) list \<Rightarrow> string option"
  ix_post :: "string \<Rightarrow> (string \<times> string) list \<Rightarrow> token_response fetch"
  ix_user :: "string \<Rightarrow> string \<Rightarrow> idp_user_info fetch"
  ix_github :: "string \<Rightarrow> string \<Rightarrow> github_user fetch"

definition default_auth_url :: "string \<Rightarrow> string" where
  "default_auth_url p =
     (if p = ''google'' then ''https://accounts.google.com/o/oauth2/v2/auth''
      else if p = ''github'' then ''https://github.com/login/oauth/authorize''
      else if p = ''microsoft'' then ''https://login.microsoftonline.com/common/oauth2/v2.0/authorize''
      else if p = ''linkedin'' then ''https://www.linkedin.com/oauth/v2/authorization''
      else if p = ''apple'' then ''https://appleid.apple.com/auth/authorize'' else [])"

definition default_token_url :: "string \<Rightarrow> string" where
  "default_token_url p =
     (if p = ''google'' then ''https://oauth2.googleapis.com/token''
      else if p = ''github'' then ''https://github.com/login/oauth/access_token''
      else if p = ''microsoft'' then ''https://login.microsoftonline.com/common/oauth2/v2.0/token''
      else if p = ''linkedin'' then ''https://www.linkedin.com/oauth/v2/accessToken''
      else if p = ''apple'' then ''https://appleid.apple.com/auth/token'' else [])"

definition default_userinfo_url :: "string \<Rightarrow> string" where
  "default_userinfo_url p =
     (if p = ''google'' then ''https://www.googleapis.com/oauth2/v3/userinfo''
      else if p = ''github'' then ''https://api.github.com/user''
      else if p = ''microsoft'' then ''https://graph.microsoft.com/v1.0/me'' else [])"

definition auth_scopes :: "idp_config \<Rightarrow> string" where
  "auth_scopes c =
     (if ic_scopes c = []
      then (if ic_provider c = ''github'' then ''read:user user:email'' else ''openid email profile'')
      else join '' '' (ic_scopes c))"

definition authorization_url ::
    "idp_ops \<Rightarrow> idp_config \<Rightarrow> string \<Rightarrow> string \<Rightarrow> string \<Rightarrow> string option \<Rightarrow> string option \<Rightarrow> string option" where
  "authorization_url x c redirect_uri state nonce code_challenge prompt =
     (let pairs = [(''client_id'', ic_client_id c), (''redirect_uri'', redirect_uri), (''response_type'', ''code''),
                   (''scope'', auth_scopes c), (''state'', state), (''nonce'', nonce)]
                  @ (case code_challenge of None \<Rightarrow> []
                     | Some ch \<Rightarrow> [(''code_challenge'', ch), (''code_challenge_method'', ''S256'')])
                  @ (case prompt of None \<Rightarrow> [] | Some p \<Rightarrow> [(''prompt'', p)])
      in or_else (ix_url x (unwrap_or (default_auth_url (ic_provider c)) (ic_auth_url c)) pairs)
           (ix_url x ''https://example.com'' pairs))"

definition exchange_code_pkce ::
    "idp_ops \<Rightarrow> idp_config \<Rightarrow> string \<Rightarrow> string \<Rightarrow> string option \<Rightarrow> (fetch_error, token_response) result" where
  "exchange_code_pkce x c code redirect_uri code_verifier =
     fetched id
       (ix_post x (unwrap_or (default_token_url (ic_provider c)) (ic_token_url c))
          ([(''grant_type'', ''authorization_code''), (''code'', code), (''redirect_uri'', redirect_uri),
            (''client_id'', ic_client_id c), (''client_secret'', ic_client_secret c)]
           @ (case code_verifier of None \<Rightarrow> [] | Some v \<Rightarrow> [(''code_verifier'', v)])))"

definition of_github :: "github_user \<Rightarrow> idp_user_info" where
  "of_github g =
     \<lparr> iu_sub = show_nat (unat (gh_id g)), iu_email = gh_email g, iu_name = gh_name g, iu_picture = gh_avatar_url g,
       iu_email_verified = Some True \<rparr>"

definition idp_userinfo :: "idp_ops \<Rightarrow> idp_config \<Rightarrow> string \<Rightarrow> (fetch_error, idp_user_info) result" where
  "idp_userinfo x c access_token =
     (let url = unwrap_or (default_userinfo_url (ic_provider c)) (ic_userinfo_url c)
      in if ic_provider c = ''github'' then fetched of_github (ix_github x url access_token)
         else fetched id (ix_user x url access_token))"

section \<open>ID tokens\<close>

definition JWKS_TTL :: nat where "JWKS_TTL = from_secs 300"
definition SKEW_SECS :: u64 where "SKEW_SECS = 60"

record id_token_claims =
  ik_sub :: string
  ik_email :: "string option"
  ik_email_verified :: "bool option"
  ik_name :: "string option"
  ik_iss :: string
  ik_aud :: "string list"
  ik_exp :: u64
  ik_iat :: u64
  ik_nonce :: "string option"
  ik_at_hash :: "string option"

datatype verify_error =
    MissingIdToken
  | BadFormat string
  | SignatureInvalid string
  | IssuerMismatch string string
  | AudienceMismatch string "string list"
  | IdTokenExpired
  | IssuedInFuture
  | NonceMismatch
  | AtHashMismatch
  | JwksFetchFailed fetch_error
  | UnknownKid string

record jwk_entry =
  jk_kid :: string
  jk_kty :: string
  jk_n :: "string option"
  jk_e :: "string option"
  jk_x :: "string option"
  jk_y :: "string option"

text \<open>
  The JWT crate: the algorithm and key id of a header, keys from their components, and decoding that
  checks the signature under the algorithm given and nothing else. \<open>io_hash\<close> is SHA-256, \<open>io_b64\<close> base64url.
\<close>

record 'k id_ops =
  io_header :: "string \<Rightarrow> (string, string \<times> string option) result"
  io_rsa :: "string \<Rightarrow> string \<Rightarrow> (string, 'k) result"
  io_ec :: "string \<Rightarrow> string \<Rightarrow> (string, 'k) result"
  io_decode :: "string \<Rightarrow> 'k \<Rightarrow> string \<Rightarrow> (string, id_token_claims) result"
  io_hash :: "string \<Rightarrow> string"
  io_b64 :: "string \<Rightarrow> string"
  io_jwks :: "string \<Rightarrow> jwk_entry list fetch"

record id_token_verifier =
  iv_issuer :: string
  iv_client_id :: string
  iv_jwks_uri :: string
  iv_cache :: "(instant \<times> jwk_entry list) option"

definition verifier_new :: "string \<Rightarrow> string \<Rightarrow> string \<Rightarrow> id_token_verifier" where
  "verifier_new issuer client_id jwks_uri =
     \<lparr> iv_issuer = issuer, iv_client_id = client_id, iv_jwks_uri = jwks_uri, iv_cache = None \<rparr>"

definition from_issuer :: "string \<Rightarrow> string \<Rightarrow> id_token_verifier" where
  "from_issuer issuer client_id =
     verifier_new issuer client_id (trim_end_matches issuer CHR ''/'' @ ''/.well-known/jwks.json'')"

definition jwk_decoding_key :: "'k id_ops \<Rightarrow> jwk_entry \<Rightarrow> (verify_error, 'k) result" where
  "jwk_decoding_key io k =
     (if jk_kty k = ''RSA'' then
        (case jk_n k of
           None \<Rightarrow> Inl (BadFormat ''RSA JWK missing n'')
         | Some n \<Rightarrow>
             (case jk_e k of
                None \<Rightarrow> Inl (BadFormat ''RSA JWK missing e'')
              | Some e \<Rightarrow> (case io_rsa io n e of Inl m \<Rightarrow> Inl (BadFormat (''RSA key: '' @ m)) | Inr key \<Rightarrow> Inr key)))
      else if jk_kty k = ''EC'' then
        (case jk_x k of
           None \<Rightarrow> Inl (BadFormat ''EC JWK missing x'')
         | Some x \<Rightarrow>
             (case jk_y k of
                None \<Rightarrow> Inl (BadFormat ''EC JWK missing y'')
              | Some y \<Rightarrow> (case io_ec io x y of Inl m \<Rightarrow> Inl (BadFormat (''EC key: '' @ m)) | Inr key \<Rightarrow> Inr key)))
      else Inl (BadFormat (''unsupported kty '' @ jk_kty k)))"

definition jwks_cached ::
    "'k id_ops \<Rightarrow> instant \<Rightarrow> id_token_verifier \<Rightarrow> (verify_error, jwk_entry list) result \<times> id_token_verifier" where
  "jwks_cached io now v =
     (let fetch = (case fetched id (io_jwks io (iv_jwks_uri v)) of
            Inl e \<Rightarrow> (Inl (JwksFetchFailed e), v)
          | Inr ks \<Rightarrow> (Inr ks, v \<lparr> iv_cache := Some (now, ks) \<rparr>))
      in case iv_cache v of
           Some (t, ks) \<Rightarrow> (if elapsed now t < JWKS_TTL then (Inr ks, v) else fetch)
         | None \<Rightarrow> fetch)"

definition at_hash_matches :: "'k id_ops \<Rightarrow> string \<Rightarrow> string \<Rightarrow> bool" where
  "at_hash_matches io access_token expected \<longleftrightarrow>
     (let digest = io_hash io access_token in io_b64 io (take (length digest div 2) digest) = expected)"

definition check_id_claims ::
    "'k id_ops \<Rightarrow> u64 \<Rightarrow> id_token_verifier \<Rightarrow> string \<Rightarrow> string \<Rightarrow> id_token_claims \<Rightarrow> (verify_error, id_token_claims) result" where
  "check_id_claims io now v expected_nonce access_token c =
     (if ik_iss c \<noteq> iv_issuer v then Inl (IssuerMismatch (iv_issuer v) (ik_iss c))
      else if \<not> list_ex (\<lambda>a. a = iv_client_id v) (ik_aud c) then Inl (AudienceMismatch (iv_client_id v) (ik_aud c))
      else if ik_exp c + SKEW_SECS < now then Inl IdTokenExpired
      else if ik_iat c > now + SKEW_SECS then Inl IssuedInFuture
      else if ik_nonce c \<noteq> Some expected_nonce then Inl NonceMismatch
      else (case ik_at_hash c of
              None \<Rightarrow> Inr c
            | Some ah \<Rightarrow> (if \<not> at_hash_matches io access_token ah then Inl AtHashMismatch else Inr c)))"

definition id_token_verify ::
    "'k id_ops \<Rightarrow> instant \<Rightarrow> u64 \<Rightarrow> id_token_verifier \<Rightarrow> string \<Rightarrow> string \<Rightarrow> string \<Rightarrow>
     (verify_error, id_token_claims) result \<times> id_token_verifier" where
  "id_token_verify io tick now v id_token expected_nonce access_token =
     (if id_token = [] then (Inl MissingIdToken, v)
      else (case io_header io id_token of
              Inl e \<Rightarrow> (Inl (BadFormat e), v)
            | Inr (alg, None) \<Rightarrow> (Inl (BadFormat ''missing kid''), v)
            | Inr (alg, Some kid) \<Rightarrow>
                (case jwks_cached io tick v of
                   (Inl e, v') \<Rightarrow> (Inl e, v')
                 | (Inr ks, v') \<Rightarrow>
                     (case find (\<lambda>k. jk_kid k = kid) ks of
                        None \<Rightarrow> (Inl (UnknownKid kid), v')
                      | Some k \<Rightarrow>
                          (case jwk_decoding_key io k of
                             Inl e \<Rightarrow> (Inl e, v')
                           | Inr key \<Rightarrow>
                               (case io_decode io id_token key alg of
                                  Inl e \<Rightarrow> (Inl (SignatureInvalid e), v')
                                | Inr c \<Rightarrow> (check_id_claims io now v expected_nonce access_token c, v')))))))"

section \<open>The cipher for secrets at rest\<close>

datatype cipher_error = MalformedInput | InvalidBase64 | Authentication

text \<open>AES-256-GCM under the derived key, and standard base64.\<close>

record cipher_ops =
  co_seal :: "string \<Rightarrow> string \<Rightarrow> string"
  co_open :: "string \<Rightarrow> string \<Rightarrow> string option"
  co_encode :: "string \<Rightarrow> string"
  co_decode :: "string \<Rightarrow> string option"

definition NONCE_LEN :: nat where "NONCE_LEN = 12"

definition cipher_encrypt :: "cipher_ops \<Rightarrow> string \<Rightarrow> string \<Rightarrow> string" where
  "cipher_encrypt co nonce plaintext = co_encode co (nonce @ co_seal co nonce plaintext)"

definition cipher_decrypt :: "cipher_ops \<Rightarrow> string \<Rightarrow> (cipher_error, string) result" where
  "cipher_decrypt co stored =
     (case co_decode co stored of
        None \<Rightarrow> Inl InvalidBase64
      | Some blob \<Rightarrow>
          (if length blob \<le> NONCE_LEN then Inl MalformedInput
           else (case co_open co (take NONCE_LEN blob) (drop NONCE_LEN blob) of
                   None \<Rightarrow> Inl Authentication
                 | Some p \<Rightarrow> Inr p)))"

definition resolve_master_key :: "string option \<Rightarrow> string option \<Rightarrow> (string \<times> bool) option" where
  "resolve_master_key dedicated_key jwt_secret =
     or_else (map_option (\<lambda>k. (k, False)) dedicated_key) (map_option (\<lambda>k. (k, True)) jwt_secret)"

section \<open>Lemmas\<close>

text \<open>What an accepted ID token has been checked for.\<close>

definition id_token_good :: "'k id_ops \<Rightarrow> u64 \<Rightarrow> string \<Rightarrow> string \<Rightarrow> string \<Rightarrow> string \<Rightarrow> string \<Rightarrow> id_token_claims \<Rightarrow> bool" where
  "id_token_good io now issuer client_id id_token nonce access_token c \<longleftrightarrow>
     (\<exists>alg k key. jwk_decoding_key io k = Inr key \<and> io_header io id_token = Inr (alg, Some (jk_kid k)) \<and>
        io_decode io id_token key alg = Inr c) \<and>
     ik_iss c = issuer \<and> client_id \<in> set (ik_aud c) \<and> \<not> ik_exp c + SKEW_SECS < now \<and> \<not> now + SKEW_SECS < ik_iat c \<and>
     ik_nonce c = Some nonce \<and> (\<forall>ah. ik_at_hash c = Some ah \<longrightarrow> at_hash_matches io access_token ah)"

lemma check_id_claims_Inr:
  "check_id_claims io now v nonce at c = Inr c' \<longleftrightarrow>
     c' = c \<and> ik_iss c = iv_issuer v \<and> iv_client_id v \<in> set (ik_aud c) \<and> \<not> ik_exp c + SKEW_SECS < now \<and>
     \<not> now + SKEW_SECS < ik_iat c \<and> ik_nonce c = Some nonce \<and> (\<forall>ah. ik_at_hash c = Some ah \<longrightarrow> at_hash_matches io at ah)"
  by (auto simp: check_id_claims_def list_ex_iff split: option.splits)

lemma id_token_verify_good:
  assumes "id_token_verify io tick now v t nonce at = (Inr c, v')"
  shows "id_token_good io now (iv_issuer v) (iv_client_id v) t nonce at c"
proof -
  from assms obtain alg kid where h: "io_header io t = Inr (alg, Some kid)"
    by (auto simp: id_token_verify_def split: if_splits sum.splits option.splits)
  with assms obtain ks k key where k: "find (\<lambda>k. jk_kid k = kid) ks = Some k" "jwk_decoding_key io k = Inr key"
    and d: "io_decode io t key alg = Inr c" "check_id_claims io now v nonce at c = Inr c"
    by (auto simp: id_token_verify_def check_id_claims_Inr split: if_splits sum.splits option.splits prod.splits)
  then have "jk_kid k = kid" by (auto simp: find_Some_iff)
  with h k d show ?thesis unfolding id_token_good_def check_id_claims_Inr by blast
qed

lemma cipher_roundtrip:
  assumes "\<And>s. co_decode co (co_encode co s) = Some s" "co_open co n (co_seal co n p) = Some p"
    and "length n = NONCE_LEN" "co_seal co n p \<noteq> []"
  shows "cipher_decrypt co (cipher_encrypt co n p) = Inr p"
  using assms by (simp add: cipher_decrypt_def cipher_encrypt_def)

text \<open>A sender that trims the issuer can never accept tokens whose issuer ends in a slash.\<close>

lemma trim_end_no_slash: "\<not> ends_with (trim_end_matches s c) [c]"
proof -
  have "take 1 (dropWhile (\<lambda>x. x = c) xs) \<noteq> [c]" for xs by (induction xs) auto
  then show ?thesis by (simp add: trim_end_matches_def ends_with_def starts_with_def)
qed

end
