(* ===== verification/Login.thy ===== *)
theory Login
  imports Forward_Auth Idp One_Time
begin

text \<open>
  Signing in: risk scoring (\<open>auth-core/src/risk.rs\<close>), the login through an upstream provider
  (\<open>auth-server/src/handlers/oidc.rs\<close>) over the table of started flows, and magic links
  (\<open>auth-server/src/handlers/magic_link.rs\<close>). Random values are arguments; environment variables, Unicode
  normalisation and lower-casing are parameters; pages are kept by the data they embed.
\<close>

section \<open>Risk\<close>

record risk_signals =
  rg_new_device :: bool
  rg_ip_changed :: bool
  rg_asn_or_geo_changed :: bool
  rg_impossible_travel :: bool
  rg_off_hours :: bool
  rg_ua_changed :: bool

record risk_thresholds =
  rt_action :: u8
  rt_block :: u8

definition default_thresholds :: risk_thresholds where
  "default_thresholds = \<lparr> rt_action = 4, rt_block = 5 \<rparr>"

datatype risk_decision = RiskAllow | StepUp | RiskBlock

definition MAX_LEVEL :: u8 where "MAX_LEVEL = 6"

definition saturating_add :: "u8 \<Rightarrow> u8 \<Rightarrow> u8" where
  "saturating_add a b = (if unat a + unat b < 256 then a + b else 255)"

definition risk_score :: "risk_signals \<Rightarrow> u8 \<Rightarrow> u8" where
  "risk_score s extra =
     (let points = (\<lambda>b (n :: u8). if b then n else 0);
          level = 1 + points (rg_new_device s) 2 + points (rg_impossible_travel s) 3 + points (rg_asn_or_geo_changed s) 1
                  + points (rg_ip_changed s) 1 + points (rg_ua_changed s) 1 + points (rg_off_hours s) 1
      in min (saturating_add level extra) MAX_LEVEL)"

definition risk_decide :: "u8 \<Rightarrow> risk_thresholds \<Rightarrow> risk_decision" where
  "risk_decide level t =
     (if level \<ge> rt_block t then RiskBlock else if level \<ge> rt_action t then StepUp else RiskAllow)"

definition risk_evaluate :: "risk_signals \<Rightarrow> risk_thresholds \<Rightarrow> u8 \<Rightarrow> u8 \<times> risk_decision" where
  "risk_evaluate s t extra = (let level = risk_score s extra in (level, risk_decide level t))"

text \<open>The known devices of a user: whether the pair was there, and the table with it.\<close>

definition device_check_and_record :: "uuid \<Rightarrow> string \<Rightarrow> (uuid \<times> string) list \<Rightarrow> bool \<times> (uuid \<times> string) list" where
  "device_check_and_record uid hash ds =
     (if (uid, hash) \<in> set ds then (True, ds) else (False, ds @ [(uid, hash)]))"

section \<open>Surroundings\<close>

record login_env =
  le_app :: app_state
  le_idp :: idp_config
  le_idp_ops :: idp_ops
  le_id_ops :: "string id_ops"
  le_cipher :: cipher_ops
  le_utf8 :: "string \<Rightarrow> bool"
  le_nfc_lower :: "string \<Rightarrow> string"
  le_lowercase :: "string \<Rightarrow> string"
  le_trusted_domains :: "string option"
  le_expose_dev_token :: bool

record risk_context =
  rx_client_ip :: "string option"
  rx_user_agent :: "string option"
  rx_device_hash :: string

definition oidc_client_ip :: "header_map \<Rightarrow> string option" where
  "oidc_client_ip h =
     or_else
       (opt_filter (\<lambda>s. s \<noteq> []) (map_option (\<lambda>v. trim (hd (split_on CHR '','' v))) (h_str h ''x-forwarded-for'')))
       (h_str h ''x-real-ip'')"

definition build_risk_context :: "login_env \<Rightarrow> string \<Rightarrow> header_map \<Rightarrow> string \<times> risk_context" where
  "build_risk_context e fresh h =
     (let device_id = unwrap_or fresh (read_device_marker (le_app e) h)
      in (device_id, \<lparr> rx_client_ip = oidc_client_ip h, rx_user_agent = h_str h ''user-agent'',
                       rx_device_hash = oe_sha256_hex (le_app e) device_id \<rparr>))"

definition FLOW_TTL_SECS :: int where "FLOW_TTL_SECS = 600"

definition normalize_email :: "login_env \<Rightarrow> string \<Rightarrow> string" where
  "normalize_email e em = le_nfc_lower e (trim em)"

section \<open>Started flows\<close>

definition flow_save :: "oidc_flow \<Rightarrow> oidc_flow list \<Rightarrow> (auth_error, unit) result \<times> oidc_flow list" where
  "flow_save f fs =
     (if of_id f \<in> set (map of_id fs) \<or> of_state f \<in> set (map of_state fs)
      then (Inl (Conflict ''duplicate key''), fs) else (Inr (), fs @ [f]))"

definition flow_live :: "time \<Rightarrow> oidc_flow \<Rightarrow> bool" where
  "flow_live now f \<longleftrightarrow> of_expires_at f > now"

definition flow_consume :: "time \<Rightarrow> string \<Rightarrow> oidc_flow list \<Rightarrow> oidc_flow option \<times> oidc_flow list" where
  "flow_consume = take_live of_state flow_live"

definition flow_delete_expired :: "time \<Rightarrow> oidc_flow list \<Rightarrow> nat \<times> oidc_flow list" where
  "flow_delete_expired now fs =
     (length (filter (\<lambda>f. of_expires_at f \<le> now) fs), filter (\<lambda>f. \<not> of_expires_at f \<le> now) fs)"

text \<open>The random values of a started flow: its id, state, nonce, the bytes of the verifier and the cipher's nonce.\<close>

record flow_random =
  fr_id :: uuid
  fr_state :: string
  fr_nonce :: string
  fr_pkce :: string
  fr_cipher_nonce :: string

definition oidc_flow_of :: "login_env \<Rightarrow> time \<Rightarrow> flow_random \<Rightarrow> string \<Rightarrow> string option \<Rightarrow> oidc_flow" where
  "oidc_flow_of e now r return_to invite =
     \<lparr> of_id = fr_id r, of_state = fr_state r, of_nonce = fr_nonce r,
       of_code_verifier_encrypted = cipher_encrypt (le_cipher e) (fr_cipher_nonce r)
         (pp_verifier (pkce_generate (io_b64 (le_id_ops e)) (io_hash (le_id_ops e)) (fr_pkce r))),
       of_return_to = Some return_to, of_invite_code = invite, of_tenant_id = None, of_created_at = now,
       of_expires_at = now + FLOW_TTL_SECS * 1000000 \<rparr>"

text \<open>The second component of an answer is the URL; it is absent when building it panics.\<close>

definition begin_oidc_flow ::
    "login_env \<Rightarrow> time \<Rightarrow> flow_random \<Rightarrow> string \<Rightarrow> string option \<Rightarrow> string option \<Rightarrow> 'a login_db_scheme \<Rightarrow>
     (api_error, string option) result \<times> 'a login_db_scheme" where
  "begin_oidc_flow e now r return_to invite prompt db =
     (case flow_save (oidc_flow_of e now r return_to invite) (ld_flows db) of
        (Inl _, _) \<Rightarrow> (Inl InternalError, db)
      | (Inr _, fs) \<Rightarrow>
          (Inr (authorization_url (le_idp_ops e) (le_idp e) (oe_base_url (le_app e) @ ''/callback'') (fr_state r) (fr_nonce r)
                 (Some (pp_challenge (pkce_generate (io_b64 (le_id_ops e)) (io_hash (le_id_ops e)) (fr_pkce r)))) prompt),
           db \<lparr> ld_flows := fs \<rparr>))"

record login_query =
  lq_start :: "string option"
  lq_return_to :: "string option"
  lq_invite :: "string option"
  lq_add :: "string option"

definition remembered_accounts :: "login_env \<Rightarrow> header_map \<Rightarrow> string list" where
  "remembered_accounts e h =
     (let accounts = read_accounts (le_app e) h
      in case extract_session_id (le_app e) h of
           None \<Rightarrow> accounts
         | Some active \<Rightarrow> (if active \<in> set accounts then accounts else active # accounts))"

definition login ::
    "login_env \<Rightarrow> time \<Rightarrow> flow_random \<Rightarrow> login_query \<Rightarrow> header_map \<Rightarrow> 'a login_db_scheme \<Rightarrow> reply option \<times> 'a login_db_scheme" where
  "login e now r q h db =
     (let return_to = unwrap_or (oe_base_url (le_app e) @ ''/'') (lq_return_to q);
          adding = (lq_add q = Some ''1'')
      in case begin_oidc_flow e now r return_to (lq_invite q) (if adding then Some ''select_account'' else None) db of
           (Inl er, db') \<Rightarrow> (Some (api_reply er), db')
         | (Inr None, db') \<Rightarrow> (None, db')
         | (Inr (Some auth_url), db') \<Rightarrow>
             (if adding
              then (map_option no_cache_headers
                      (set_accounts_cookie (le_app e) (remembered_accounts e h) (st_redirect (le_app e) auth_url)), db')
              else if lq_start q = Some ''1'' then (Some (no_cache_headers (st_redirect (le_app e) auth_url)), db')
              else (Some (no_cache_headers (html_reply (SignInPage auth_url return_to))), db')))"

definition root_page :: "login_env \<Rightarrow> time \<Rightarrow> header_map \<Rightarrow> 'a login_db_scheme \<Rightarrow> reply" where
  "root_page e now h db =
     (case auth now (extract_session_id (le_app e) h) db of
        Inr s \<Rightarrow> no_cache_headers (html_reply (AccountPage (unwrap_or [] (sr_email s))))
      | Inl _ \<Rightarrow> st_redirect (le_app e) ''/login'')"

section \<open>Completing a login\<close>

record login_random =
  lr_user_id :: uuid
  lr_identity_id :: uuid
  lr_tenant_id :: uuid
  lr_member_id :: uuid
  lr_session_id :: string
  lr_request_id :: uuid
  lr_device :: string

definition link_identity ::
    "login_env \<Rightarrow> time \<Rightarrow> login_random \<Rightarrow> string \<Rightarrow> string \<Rightarrow> bool \<Rightarrow> user_record \<Rightarrow> 'a login_db_scheme \<Rightarrow> 'a login_db_scheme" where
  "link_identity e now r sub em verified u db =
     db \<lparr> op_identities := snd (identity_link
            \<lparr> ui_id = lr_identity_id r, ui_user_id = us_id u, ui_provider = ic_provider (le_idp e), ui_subject = sub,
              ui_email = Some em, ui_email_verified = verified, ui_created_at = now \<rparr> (op_identities db)) \<rparr>"

definition resolve_user ::
    "login_env \<Rightarrow> time \<Rightarrow> login_random \<Rightarrow> string \<Rightarrow> string \<Rightarrow> bool \<Rightarrow> string option \<Rightarrow> 'a login_db_scheme \<Rightarrow>
     (api_error, user_record) result \<times> 'a login_db_scheme" where
  "resolve_user e now r sub em verified name db =
     (case identity_find_by_subject (ic_provider (le_idp e)) sub (op_identities db) of
        Some idn \<Rightarrow>
          (case user_find_by_id (ui_user_id idn) (ad_users db) of
             None \<Rightarrow> (Inl InternalError, db)
           | Some u \<Rightarrow> (Inr u, db))
      | None \<Rightarrow>
          (case (if verified then user_find_by_email em (ad_users db) else None) of
             Some u \<Rightarrow> (Inr u, link_identity e now r sub em verified u db)
           | None \<Rightarrow>
               (case user_upsert \<lparr> us_id = lr_user_id r, us_email = em, us_display_name = name,
                       us_google_sub = (if ic_provider (le_idp e) = ''google'' then Some sub else None),
                       us_created_at = now, us_is_active = True, us_locale = None, us_deleted_at = None \<rparr> (ad_users db) of
                  (Inl _, _) \<Rightarrow> (Inl InternalError, db)
                | (Inr u, us) \<Rightarrow> (Inr u, link_identity e now r sub em verified u (db \<lparr> ad_users := us \<rparr>)))))"

definition initial_role :: "login_env \<Rightarrow> string \<Rightarrow> string" where
  "initial_role e em =
     (case le_trusted_domains e of
        None \<Rightarrow> ''OWNER''
      | Some raw \<Rightarrow>
          (let entries = map trim (split_on CHR '','' raw)
           in if list_ex (\<lambda>s. s \<noteq> []) entries
              then (let domain = le_lowercase e (last (split_on CHR ''@'' em))
                    in if list_ex (\<lambda>d. d \<noteq> [] \<and> d = domain) (map (le_lowercase e) entries) then ''MEMBER'' else ''GUEST'')
              else ''OWNER''))"

text \<open>The first tenant of the user, or a personal one made on the spot under the local part of the address.\<close>

definition first_tenant :: "login_env \<Rightarrow> user_record \<Rightarrow> 'a login_db_scheme \<Rightarrow> (string \<times> string option \<times> string list) option" where
  "first_tenant e u db =
     (case tenant_find_by_user (us_id u) (ad_members db) (ad_tenants db) of
        [] \<Rightarrow> None
      | t # _ \<Rightarrow>
          Some (oe_show_uuid (le_app e) (tn_id t), Some (tn_slug t),
            [case member_find (us_id u) (tn_id t) (ad_members db) of None \<Rightarrow> ''MEMBER'' | Some m \<Rightarrow> mb_role m]))"

definition local_part :: "string \<Rightarrow> string" where
  "local_part em = hd (split_on CHR ''@'' em)"

definition personal_tenant ::
    "login_env \<Rightarrow> time \<Rightarrow> login_random \<Rightarrow> user_record \<Rightarrow> string \<Rightarrow> string \<Rightarrow> string \<Rightarrow> 'a login_db_scheme \<Rightarrow>
     (api_error, string \<times> string option \<times> string list) result \<times> 'a login_db_scheme" where
  "personal_tenant e now r u name slug role db =
     (case tenant_create_personal now (lr_tenant_id r) (lr_member_id r) (us_id u) name slug (ad_tenants db) (ad_members db) of
        (Inl _, _, _) \<Rightarrow> (Inl InternalError, db)
      | (Inr t, ts, ms) \<Rightarrow>
          (Inr (oe_show_uuid (le_app e) (tn_id t), Some (tn_slug t), [role]),
           db \<lparr> ad_tenants := ts,
                ad_members := (if role = ''OWNER'' then ms
                  else (case member_find (us_id u) (tn_id t) ms of
                          None \<Rightarrow> ms | Some m \<Rightarrow> member_update_role (mb_id m) role ms)) \<rparr>))"

definition resolve_tenant ::
    "login_env \<Rightarrow> time \<Rightarrow> login_random \<Rightarrow> user_record \<Rightarrow> string \<Rightarrow> 'a login_db_scheme \<Rightarrow>
     (api_error, string \<times> string option \<times> string list) result \<times> 'a login_db_scheme" where
  "resolve_tenant e now r u em db =
     (case first_tenant e u db of
        Some t \<Rightarrow> (Inr t, db)
      | None \<Rightarrow> personal_tenant e now r u (unwrap_or em (us_display_name u)) (local_part em) (initial_role e em) db)"

text \<open>\<open>max_by_key\<close>: of several greatest elements the last.\<close>

fun max_by_key :: "('a \<Rightarrow> 'b::linorder) \<Rightarrow> 'a list \<Rightarrow> 'a option" where
  "max_by_key f [] = None"
| "max_by_key f (x # xs) =
     (case max_by_key f xs of None \<Rightarrow> Some x | Some y \<Rightarrow> (if f x > f y then Some x else Some y))"

definition ip_changed :: "login_env \<Rightarrow> user_record \<Rightarrow> risk_context \<Rightarrow> 'a login_db_scheme \<Rightarrow> bool" where
  "ip_changed e u ctx db =
     (case rx_client_ip ctx of
        None \<Rightarrow> False
      | Some ip \<Rightarrow>
          (case Option.bind (max_by_key sr_created_at (pg_list_by_user (oe_show_uuid (le_app e) (us_id u)) (ad_sessions db))) sr_ip_address of
             None \<Rightarrow> False | Some prev \<Rightarrow> prev \<noteq> ip))"

definition no_signals :: risk_signals where
  "no_signals = \<lparr> rg_new_device = False, rg_ip_changed = False, rg_asn_or_geo_changed = False,
     rg_impossible_travel = False, rg_off_hours = False, rg_ua_changed = False \<rparr>"

definition assess :: "login_env \<Rightarrow> user_record \<Rightarrow> risk_context \<Rightarrow> 'a login_db_scheme \<Rightarrow> (u8 \<times> risk_decision) \<times> bool \<times> bool \<times> 'a login_db_scheme" where
  "assess e u ctx db =
     (case device_check_and_record (us_id u) (rx_device_hash ctx) (ld_devices db) of
        (known, ds) \<Rightarrow>
          (let db' = db \<lparr> ld_devices := ds \<rparr>; changed = ip_changed e u ctx db'
           in (risk_evaluate (no_signals \<lparr> rg_new_device := \<not> known, rg_ip_changed := changed \<rparr>) default_thresholds 0,
               \<not> known, changed, db')))"

definition login_session ::
    "login_env \<Rightarrow> time \<Rightarrow> string \<Rightarrow> user_record \<Rightarrow> string \<times> string option \<times> string list \<Rightarrow> string option \<Rightarrow>
     string option \<Rightarrow> string option \<Rightarrow> string \<Rightarrow> session_record" where
  "login_session e now sid u t return_to ip ua em =
     \<lparr> sr_session_id = sid, sr_user_id = oe_show_uuid (le_app e) (us_id u), sr_tenant_id = fst t, sr_return_to = return_to,
       sr_created_at = unix_secs now, sr_last_active_at = unix_secs now,
       sr_expires_at = unix_secs now + oe_session_ttl_secs (le_app e), sr_invalidated_at = None, sr_mfa_verified_at = None,
       sr_ip_address = ip, sr_user_agent = ua, sr_csrf_token = None, sr_email = Some em, sr_tenant_slug = fst (snd t),
       sr_roles = snd (snd t), sr_display_name = us_display_name u \<rparr>"

definition blocked_event :: "login_env \<Rightarrow> time \<Rightarrow> user_record \<Rightarrow> u8 \<Rightarrow> bool \<Rightarrow> bool \<Rightarrow> auth_event" where
  "blocked_event e now u level new_device changed =
     (event_now now ''LOGIN_BLOCKED'')
       \<lparr> ev_user_id := Some (oe_show_uuid (le_app e) (us_id u)), ev_detail := Some (unat level, new_device, changed) \<rparr>"

definition open_session ::
    "login_env \<Rightarrow> time \<Rightarrow> login_random \<Rightarrow> user_record \<Rightarrow> string \<times> string option \<times> string list \<Rightarrow> risk_context \<Rightarrow> string \<Rightarrow>
     string \<Rightarrow> 'a login_db_scheme \<Rightarrow> (api_error, string \<times> string) result \<times> 'a login_db_scheme" where
  "open_session e now r u t ctx return_to em db =
     (case assess e u ctx db of
        ((level, decision), new_device, changed, db1) \<Rightarrow>
          (if decision = RiskBlock
           then (Inl (Forbidden ''LOGIN_BLOCKED''),
                 publish_and_audit (le_app e) now (lr_request_id r) (blocked_event e now u level new_device changed)
                   (rx_client_ip ctx) (Some ''USER'') (Some (oe_show_uuid (le_app e) (us_id u))) db1)
           else
             (case pg_create (login_session e now (lr_session_id r) u t (Some return_to) (rx_client_ip ctx) (rx_user_agent ctx) em)
                     (ad_sessions db1) of
                (Inl _, _) \<Rightarrow> (Inl InternalError, db1)
              | (Inr _, ss) \<Rightarrow>
                  (Inr (lr_session_id r, return_to),
                   publish_and_audit (le_app e) now (lr_request_id r)
                     (with_session (le_app e) (lr_session_id r)
                        ((event_now now ''LOGIN_SUCCESS'') \<lparr> ev_user_id := Some (oe_show_uuid (le_app e) (us_id u)), ev_tenant_id := Some (fst t) \<rparr>))
                     None (Some ''SESSION'') (Some (lr_session_id r))
                     (db1 \<lparr> ad_sessions := ss,
                            ld_stepup := (if decision = StepUp then stepup_mark (lr_session_id r) (ld_stepup db1) else ld_stepup db1) \<rparr>)))))"

text \<open>What the provider says about who is signing in: the subject, the address, whether it is verified, the name.\<close>

definition idp_identity ::
    "login_env \<Rightarrow> instant \<Rightarrow> time \<Rightarrow> string \<Rightarrow> oidc_flow \<Rightarrow> (api_error, string \<times> string \<times> bool \<times> string option) result" where
  "idp_identity e tick now code flow =
     (case cipher_decrypt (le_cipher e) (of_code_verifier_encrypted flow) of
        Inl _ \<Rightarrow> Inl InternalError
      | Inr verifier \<Rightarrow>
          (if \<not> le_utf8 e verifier then Inl InternalError
           else (case exchange_code_pkce (le_idp_ops e) (le_idp e) code (oe_base_url (le_app e) @ ''/callback'') (Some verifier) of
                   Inl _ \<Rightarrow> Inl (api_error.BadRequest ''OIDC_FAILED'')
                 | Inr tokens \<Rightarrow>
                     (case (case (tr_id_token tokens, ic_issuer_url (le_idp e)) of
                              (Some id_token, Some issuer) \<Rightarrow>
                                (case fst (id_token_verify (le_id_ops e) tick (unix_secs now)
                                        (from_issuer (trim_end_matches issuer CHR ''/'') (ic_client_id (le_idp e)))
                                        id_token (of_nonce flow) (tr_access_token tokens)) of
                                   Inl _ \<Rightarrow> Inl (Unauthorized ''OIDC_ID_TOKEN_INVALID'')
                                 | Inr c \<Rightarrow> Inr (Some (ik_sub c)))
                            | _ \<Rightarrow> Inr None) of
                        Inl er \<Rightarrow> Inl er
                      | Inr id_sub \<Rightarrow>
                          (case idp_userinfo (le_idp_ops e) (le_idp e) (tr_access_token tokens) of
                             Inl _ \<Rightarrow> Inl (api_error.BadRequest ''OIDC_FAILED'')
                           | Inr ui \<Rightarrow>
                               (case opt_filter (\<lambda>m. m \<noteq> []) (map_option (normalize_email e) (iu_email ui)) of
                                  None \<Rightarrow> Inl (api_error.BadRequest ''OIDC_FAILED'')
                                | Some em \<Rightarrow>
                                    Inr (unwrap_or (iu_sub ui) id_sub, em, unwrap_or False (iu_email_verified ui), iu_name ui)))))))"

definition complete_oidc ::
    "login_env \<Rightarrow> instant \<Rightarrow> time \<Rightarrow> login_random \<Rightarrow> string \<Rightarrow> oidc_flow \<Rightarrow> risk_context \<Rightarrow> 'a login_db_scheme \<Rightarrow>
     (api_error, string \<times> string) result \<times> 'a login_db_scheme" where
  "complete_oidc e tick now r code flow ctx db =
     (case idp_identity e tick now code flow of
        Inl er \<Rightarrow> (Inl er, db)
      | Inr (sub, em, verified, name) \<Rightarrow>
          (case resolve_user e now r sub em verified name db of
             (Inl er, db1) \<Rightarrow> (Inl er, db1)
           | (Inr u, db1) \<Rightarrow>
               (case resolve_tenant e now r u em db1 of
                  (Inl er, db2) \<Rightarrow> (Inl er, db2)
                | (Inr t, db2) \<Rightarrow>
                    open_session e now r u t ctx (unwrap_or (oe_base_url (le_app e) @ ''/'') (of_return_to flow)) em db2)))"

section \<open>The callback\<close>

record callback_query =
  cq_code :: "string option"
  cq_state :: "string option"
  cq_error :: "string option"

definition signed_in :: "login_env \<Rightarrow> string \<Rightarrow> string \<Rightarrow> reply \<Rightarrow> reply option" where
  "signed_in e sid device_id r =
     map_option no_cache_headers
       (Option.bind (set_session_cookie (le_app e) sid r) (set_device_cookie (le_app e) device_id))"

definition finish_callback ::
    "login_env \<Rightarrow> instant \<Rightarrow> time \<Rightarrow> login_random \<Rightarrow> bool \<Rightarrow> header_map \<Rightarrow> string \<Rightarrow> string \<Rightarrow> 'a login_db_scheme \<Rightarrow>
     reply option \<times> 'a login_db_scheme" where
  "finish_callback e tick now r as_json h code state db =
     (case flow_consume now state (ld_flows db) of
        (None, fs) \<Rightarrow> (Some (api_reply (api_error.BadRequest ''INVALID_STATE'')), db \<lparr> ld_flows := fs \<rparr>)
      | (Some flow, fs) \<Rightarrow>
          (case build_risk_context e (lr_device r) h of
             (device_id, ctx) \<Rightarrow>
               (case complete_oidc e tick now r code flow ctx (db \<lparr> ld_flows := fs \<rparr>) of
                  (Inl er, db') \<Rightarrow> (Some (api_reply er), db')
                | (Inr (sid, target), db') \<Rightarrow>
                    (signed_in e sid device_id
                       (if as_json then json_reply (RedirectBody target) else st_redirect (le_app e) target), db'))))"

definition callback ::
    "login_env \<Rightarrow> instant \<Rightarrow> time \<Rightarrow> login_random \<Rightarrow> header_map \<Rightarrow> callback_query \<Rightarrow> 'a login_db_scheme \<Rightarrow> reply option \<times> 'a login_db_scheme" where
  "callback e tick now r h q db =
     (if cq_error q \<noteq> None then (Some (api_reply (api_error.BadRequest ''OIDC_FAILED'')), db)
      else (case opt_filter (\<lambda>c. c \<noteq> []) (cq_code q) of
              None \<Rightarrow> (Some (api_reply (api_error.BadRequest ''BAD_REQUEST'')), db)
            | Some code \<Rightarrow>
                (case opt_filter (\<lambda>s. s \<noteq> []) (cq_state q) of
                   None \<Rightarrow> (Some (api_reply (api_error.BadRequest ''BAD_REQUEST'')), db)
                 | Some state \<Rightarrow> finish_callback e tick now r (is_json_accept h) h code state db)))"

definition callback_complete ::
    "login_env \<Rightarrow> instant \<Rightarrow> time \<Rightarrow> login_random \<Rightarrow> header_map \<Rightarrow> string option \<Rightarrow> string option \<Rightarrow> 'a login_db_scheme \<Rightarrow>
     reply option \<times> 'a login_db_scheme" where
  "callback_complete e tick now r h code state db =
     (case opt_filter (\<lambda>c. c \<noteq> []) code of
        None \<Rightarrow> (Some (api_reply (api_error.BadRequest ''BAD_REQUEST'')), db)
      | Some c \<Rightarrow>
          (case opt_filter (\<lambda>s. s \<noteq> []) state of
             None \<Rightarrow> (Some (api_reply (api_error.BadRequest ''BAD_REQUEST'')), db)
           | Some s \<Rightarrow> finish_callback e tick now r False h c s db))"

section \<open>Magic links\<close>

definition link_create :: "time \<Rightarrow> uuid \<Rightarrow> string \<Rightarrow> string \<Rightarrow> int \<Rightarrow> magic_link list \<Rightarrow> (auth_error, unit) result \<times> magic_link list" where
  "link_create now i em token ttl_minutes ls =
     (if i \<in> set (map ml_id ls) \<or> token \<in> set (map ml_token ls) then (Inl (Conflict ''duplicate key''), ls)
      else (Inr (), ls @ [\<lparr> ml_id = i, ml_email = em, ml_token = token, ml_expires_at = now + ttl_minutes * 60000000,
                            ml_used_at = None, ml_created_at = now \<rparr>]))"

definition link_usable :: "time \<Rightarrow> string \<Rightarrow> magic_link \<Rightarrow> bool" where
  "link_usable now token l \<longleftrightarrow> ml_token l = token \<and> ml_used_at l = None \<and> ml_expires_at l > now"

definition link_consume :: "time \<Rightarrow> string \<Rightarrow> magic_link list \<Rightarrow> magic_link option \<times> magic_link list" where
  "link_consume now token ls =
     (map_option (\<lambda>l. l \<lparr> ml_used_at := Some now \<rparr>) (find (link_usable now token) ls),
      map (\<lambda>l. if link_usable now token l then l \<lparr> ml_used_at := Some now \<rparr> else l) ls)"

definition magic_send ::
    "login_env \<Rightarrow> time \<Rightarrow> uuid \<Rightarrow> string \<Rightarrow> string \<Rightarrow> 'a login_db_scheme \<Rightarrow> reply \<times> 'a login_db_scheme" where
  "magic_send e now i token em db =
     (case link_create now i em token 15 (ld_links db) of
        (Inl _, _) \<Rightarrow> (api_reply InternalError, db)
      | (Inr _, ls) \<Rightarrow>
          (no_cache_headers (json_reply (LinkBody
             (if le_expose_dev_token e then Some (oe_base_url (le_app e) @ ''/auth/magic-link/verify?token='' @ token) else None))),
           db \<lparr> ld_links := ls \<rparr>))"

definition magic_user ::
    "login_env \<Rightarrow> time \<Rightarrow> login_random \<Rightarrow> string \<Rightarrow> 'a login_db_scheme \<Rightarrow> (api_error, user_record) result \<times> 'a login_db_scheme" where
  "magic_user e now r em db =
     (case user_find_by_email em (ad_users db) of
        Some u \<Rightarrow> (Inr u, db)
      | None \<Rightarrow>
          (case user_upsert \<lparr> us_id = lr_user_id r, us_email = em, us_display_name = Some (local_part em),
                  us_google_sub = None, us_created_at = now, us_is_active = True, us_locale = None, us_deleted_at = None \<rparr> (ad_users db) of
             (Inl _, _) \<Rightarrow> (Inl InternalError, db)
           | (Inr u, us) \<Rightarrow> (Inr u, db \<lparr> ad_users := us \<rparr>)))"

definition magic_tenant ::
    "login_env \<Rightarrow> time \<Rightarrow> login_random \<Rightarrow> user_record \<Rightarrow> string \<Rightarrow> 'a login_db_scheme \<Rightarrow>
     (api_error, string \<times> string option \<times> string list) result \<times> 'a login_db_scheme" where
  "magic_tenant e now r u em db =
     (case first_tenant e u db of
        Some t \<Rightarrow> (Inr t, db)
      | None \<Rightarrow> personal_tenant e now r u (unwrap_or (local_part em) (us_display_name u)) (local_part em) ''OWNER'' db)"

definition magic_verify ::
    "login_env \<Rightarrow> time \<Rightarrow> login_random \<Rightarrow> string \<Rightarrow> 'a login_db_scheme \<Rightarrow> reply option \<times> 'a login_db_scheme" where
  "magic_verify e now r token db =
     (case link_consume now token (ld_links db) of
        (None, ls) \<Rightarrow> (Some (api_reply (api_error.BadRequest ''INVALID_TOKEN'')), db \<lparr> ld_links := ls \<rparr>)
      | (Some l, ls) \<Rightarrow>
          (case magic_user e now r (ml_email l) (db \<lparr> ld_links := ls \<rparr>) of
             (Inl er, db1) \<Rightarrow> (Some (api_reply er), db1)
           | (Inr u, db1) \<Rightarrow>
               (case magic_tenant e now r u (ml_email l) db1 of
                  (Inl er, db2) \<Rightarrow> (Some (api_reply er), db2)
                | (Inr t, db2) \<Rightarrow>
                    (case pg_create (login_session e now (lr_session_id r) u t None None None (ml_email l)) (ad_sessions db2) of
                       (Inl _, _) \<Rightarrow> (Some (api_reply InternalError), db2)
                     | (Inr _, ss) \<Rightarrow>
                         (map_option no_cache_headers
                            (set_session_cookie (le_app e) (lr_session_id r) (st_redirect (le_app e) (oe_base_url (le_app e) @ ''/''))),
                          db2 \<lparr> ad_sessions := ss \<rparr>)))))"

end
