(* ===== verification/Passkey.thy ===== *)
theory Passkey
  imports Login
begin

text \<open>
  Passkeys: the table of challenges (\<open>auth-core/src/store/pg.rs\<close>; the credentials are in \<open>Accounts\<close>), the service around the WebAuthn library
  (\<open>auth-core/src/passkey.rs\<close>) and the handlers (\<open>auth-server/src/handlers/passkey_flow.rs\<close>, the passkey part of
  \<open>handlers/manage.rs\<close>; deleting a credential is in \<open>Tenancy\<close>). The library is a parameter: a record of the calls made of it, over its own types of
  passkeys \<open>'pk\<close>, ceremony states \<open>'st\<close>, assertions \<open>'cred\<close> and attestations \<open>'reg\<close>; the randomness of its challenges is an
  argument. Its values are stored as JSON text, which it reads back or refuses.
\<close>

section \<open>The library\<close>

record assertion_result =
  az_cred_id :: string
  az_counter :: "32 word"

record creation_options =
  cr_selection :: "(string option \<times> bool) option"
  cr_rest :: string

record ('pk, 'st, 'cred, 'reg) webauthn =
  wa_start_auth :: "string \<Rightarrow> 'pk list \<Rightarrow> (string \<times> 'st) option"
  wa_finish_auth :: "'cred \<Rightarrow> 'st \<Rightarrow> assertion_result option"
  wa_start_discover :: "string \<Rightarrow> (string \<times> 'st) option"
  wa_identify :: "'cred \<Rightarrow> (uuid \<times> string) option"
  wa_finish_discover :: "'cred \<Rightarrow> 'st \<Rightarrow> 'pk list \<Rightarrow> assertion_result option"
  wa_start_register :: "string \<Rightarrow> uuid \<Rightarrow> string \<Rightarrow> string \<Rightarrow> string list option \<Rightarrow> (creation_options \<times> 'st) option"
  wa_finish_register :: "'reg \<Rightarrow> 'st \<Rightarrow> 'pk option"
  wa_cred_id :: "'pk \<Rightarrow> string"
  wa_creation_text :: "creation_options \<Rightarrow> string"
  wa_write_state :: "'st \<Rightarrow> string option"
  wa_read_auth :: "string \<Rightarrow> 'st option"
  wa_read_discover :: "string \<Rightarrow> 'st option"
  wa_read_register :: "string \<Rightarrow> 'st option"
  wa_write_passkey :: "'pk \<Rightarrow> string option"
  wa_read_passkey :: "string \<Rightarrow> 'pk option"

text \<open>\<open>PasskeyService::start_registration\<close>: the options ask for a resident key, whatever the library chose.\<close>

definition start_passkey_registration ::
    "('pk, 'st, 'cred, 'reg) webauthn \<Rightarrow> string \<Rightarrow> uuid \<Rightarrow> string \<Rightarrow> string \<Rightarrow> string list option \<Rightarrow> (creation_options \<times> 'st) option" where
  "start_passkey_registration w seed uid name display existing =
     map_option (\<lambda>(ccr, s). (ccr \<lparr> cr_selection := map_option (\<lambda>_. (Some ''required'', True)) (cr_selection ccr) \<rparr>, s))
       (wa_start_register w seed uid name display existing)"

section \<open>Ceremonies\<close>

definition ceremony_save :: "passkey_challenge \<Rightarrow> passkey_challenge list \<Rightarrow> (auth_error, unit) result \<times> passkey_challenge list" where
  "ceremony_save c cs =
     (if pc_id c \<in> set (map pc_id cs) then (Inl (Conflict ''duplicate key''), cs)
      else (Inr (), cs @ [c]))"

definition ceremony_live :: "time \<Rightarrow> passkey_challenge \<Rightarrow> bool" where
  "ceremony_live now c \<longleftrightarrow> pc_expires_at c > now"

definition ceremony_consume :: "time \<Rightarrow> uuid \<Rightarrow> passkey_challenge list \<Rightarrow> passkey_challenge option \<times> passkey_challenge list" where
  "ceremony_consume = take_live pc_id ceremony_live"

definition ceremony_delete_expired :: "time \<Rightarrow> passkey_challenge list \<Rightarrow> nat \<times> passkey_challenge list" where
  "ceremony_delete_expired now cs =
     (length (filter (\<lambda>c. pc_expires_at c \<le> now) cs), filter (\<lambda>c. \<not> pc_expires_at c \<le> now) cs)"

section \<open>Helpers of the handlers\<close>

definition CHALLENGE_TTL_SECS :: int where "CHALLENGE_TTL_SECS = 300"

definition passkey_disabled :: reply where
  "passkey_disabled = no_cache_headers ((json_reply (ErrorBody ''PASSKEY_DISABLED'')) \<lparr> rs_status := 503 \<rparr>)"

text \<open>The tenant, its slug, the roles, the address and the name of a new session; without a tenant no roles.\<close>

definition session_identity ::
    "login_env \<Rightarrow> uuid \<Rightarrow> 'a login_db_scheme \<Rightarrow> string \<times> string option \<times> string list \<times> string option \<times> string option" where
  "session_identity e uid db =
     (let user = user_find_by_id uid (ad_users db);
          em = map_option us_email user;
          display = Option.bind user us_display_name
      in case tenant_find_by_user uid (ad_members db) (ad_tenants db) of
           [] \<Rightarrow> ([], None, [], em, display)
         | t # _ \<Rightarrow>
             (oe_show_uuid (le_app e) (tn_id t), Some (tn_slug t),
              [case member_find uid (tn_id t) (ad_members db) of None \<Rightarrow> ''MEMBER'' | Some m \<Rightarrow> mb_role m], em, display))"

definition persist_challenge ::
    "time \<Rightarrow> uuid \<Rightarrow> uuid option \<Rightarrow> string \<Rightarrow> string option \<Rightarrow> 'a login_db_scheme \<Rightarrow> (api_error, uuid) result \<times> 'a login_db_scheme" where
  "persist_challenge now i uid kind bytes db =
     (case bytes of
        None \<Rightarrow> (Inl InternalError, db)
      | Some b \<Rightarrow>
          (case ceremony_save \<lparr> pc_id = i, pc_user_id = uid, pc_state = b, pc_kind = kind, pc_created_at = now,
                  pc_expires_at = now + CHALLENGE_TTL_SECS * 1000000 \<rparr> (ld_challenges db) of
             (Inl _, _) \<Rightarrow> (Inl InternalError, db)
           | (Inr _, cs) \<Rightarrow> (Inr i, db \<lparr> ld_challenges := cs \<rparr>)))"

definition challenge_reply :: "(api_error, uuid) result \<Rightarrow> string \<Rightarrow> reply" where
  "challenge_reply res options =
     (case res of Inl er \<Rightarrow> api_reply er | Inr i \<Rightarrow> no_cache_headers (json_reply (ChallengeBody i options)))"

text \<open>Rows the library cannot read are skipped.\<close>

definition passkeys_from_records :: "('pk, 'st, 'cred, 'reg) webauthn \<Rightarrow> passkey_record list \<Rightarrow> 'pk list" where
  "passkeys_from_records w rs = List.map_filter (\<lambda>r. wa_read_passkey w (pk_public_key r)) rs"

section \<open>Signing in\<close>

definition auth_start ::
    "login_env \<Rightarrow> ('pk, 'st, 'cred, 'reg) webauthn option \<Rightarrow> time \<Rightarrow> string \<Rightarrow> uuid \<Rightarrow> string option \<Rightarrow> 'a login_db_scheme \<Rightarrow>
     reply \<times> 'a login_db_scheme" where
  "auth_start e svc now seed i em db =
     (case svc of
        None \<Rightarrow> (passkey_disabled, db)
      | Some w \<Rightarrow>
          (case opt_filter (\<lambda>m. m \<noteq> []) (map_option (normalize_email e) em) of
             None \<Rightarrow> (api_reply (api_error.BadRequest ''BAD_REQUEST''), db)
           | Some m \<Rightarrow>
               (case user_find_by_email m (ad_users db) of
                  None \<Rightarrow> (api_reply (Unauthorized ''PASSKEY_FAILED''), db)
                | Some u \<Rightarrow>
                    (let credentials = passkeys_from_records w (passkey_list_by_user (us_id u) (ad_passkeys db))
                     in if credentials = [] then (api_reply (Unauthorized ''PASSKEY_FAILED''), db)
                        else (case wa_start_auth w seed credentials of
                                None \<Rightarrow> (api_reply InternalError, db)
                              | Some (opts, s) \<Rightarrow>
                                  (case persist_challenge now i (Some (us_id u)) ''auth'' (wa_write_state w s) db of
                                     (res, db') \<Rightarrow> (challenge_reply res opts, db')))))))"

definition passkey_session ::
    "login_env \<Rightarrow> time \<Rightarrow> string \<Rightarrow> uuid \<Rightarrow> 'a login_db_scheme \<Rightarrow> session_record" where
  "passkey_session e now sid uid db =
     (case session_identity e uid db of
        (tenant_id, tenant_slug, roles, em, display_name) \<Rightarrow>
          \<lparr> sr_session_id = sid, sr_user_id = oe_show_uuid (le_app e) uid, sr_tenant_id = tenant_id, sr_return_to = None,
            sr_created_at = unix_secs now, sr_last_active_at = unix_secs now,
            sr_expires_at = unix_secs now + oe_session_ttl_secs (le_app e), sr_invalidated_at = None,
            sr_mfa_verified_at = Some (unix_secs now), sr_ip_address = None, sr_user_agent = None, sr_csrf_token = None,
            sr_email = em, sr_tenant_slug = tenant_slug, sr_roles = roles, sr_display_name = display_name \<rparr>)"

text \<open>What both ways of signing in do with an accepted assertion: counter, session, event, cookie.\<close>

definition passkey_login ::
    "login_env \<Rightarrow> time \<Rightarrow> string \<Rightarrow> uuid \<Rightarrow> assertion_result \<Rightarrow> 'a login_db_scheme \<Rightarrow> reply option \<times> 'a login_db_scheme" where
  "passkey_login e now sid rid res db =
     (case passkey_find_by_credential_id (az_cred_id res) (ad_passkeys db) of
        None \<Rightarrow> (Some (api_reply (Unauthorized ''PASSKEY_FAILED'')), db)
      | Some row \<Rightarrow>
          (let n = uint (az_counter res)
           in case (if n > 0 then passkey_update_counter now (pk_id row) n (ad_passkeys db) else (True, ad_passkeys db)) of
                (applied, ps) \<Rightarrow>
                  (let db1 = db \<lparr> ad_passkeys := ps \<rparr>
                   in if \<not> applied then (Some (api_reply (Unauthorized ''PASSKEY_FAILED'')), db1)
                      else (case pg_create (passkey_session e now sid (pk_user_id row) db1) (ad_sessions db1) of
                              (Inl _, _) \<Rightarrow> (Some (api_reply InternalError), db1)
                            | (Inr _, ss) \<Rightarrow>
                                (map_option no_cache_headers (set_session_cookie (le_app e) sid (json_reply OkBody)),
                                 publish_and_audit (le_app e) now rid
                                   (with_session (le_app e) sid
                                      ((event_now now ''LOGIN_SUCCESS'') \<lparr> ev_user_id := Some (oe_show_uuid (le_app e) (pk_user_id row)) \<rparr>))
                                   None (Some ''SESSION'') (Some sid) (db1 \<lparr> ad_sessions := ss \<rparr>))))))"

definition auth_finish ::
    "login_env \<Rightarrow> ('pk, 'st, 'cred, 'reg) webauthn option \<Rightarrow> time \<Rightarrow> string \<Rightarrow> uuid \<Rightarrow> uuid \<Rightarrow> 'cred \<Rightarrow> 'a login_db_scheme \<Rightarrow>
     reply option \<times> 'a login_db_scheme" where
  "auth_finish e svc now sid rid c cred db =
     (case svc of
        None \<Rightarrow> (Some passkey_disabled, db)
      | Some w \<Rightarrow>
          (case ceremony_consume now c (ld_challenges db) of
             (None, cs) \<Rightarrow> (Some (api_reply (api_error.BadRequest ''INVALID_CHALLENGE'')), db \<lparr> ld_challenges := cs \<rparr>)
           | (Some rec, cs) \<Rightarrow>
               (let db1 = db \<lparr> ld_challenges := cs \<rparr>
                in if pc_kind rec \<noteq> ''auth'' then (Some (api_reply (api_error.BadRequest ''INVALID_CHALLENGE'')), db1)
                   else (case wa_read_auth w (pc_state rec) of
                           None \<Rightarrow> (Some (api_reply InternalError), db1)
                         | Some s \<Rightarrow>
                             (case wa_finish_auth w cred s of
                                None \<Rightarrow> (Some (api_reply (Unauthorized ''PASSKEY_FAILED'')), db1)
                              | Some res \<Rightarrow> passkey_login e now sid rid res db1)))))"

definition discover_start ::
    "('pk, 'st, 'cred, 'reg) webauthn option \<Rightarrow> time \<Rightarrow> string \<Rightarrow> uuid \<Rightarrow> 'a login_db_scheme \<Rightarrow> reply \<times> 'a login_db_scheme" where
  "discover_start svc now seed i db =
     (case svc of
        None \<Rightarrow> (passkey_disabled, db)
      | Some w \<Rightarrow>
          (case wa_start_discover w seed of
             None \<Rightarrow> (api_reply InternalError, db)
           | Some (opts, s) \<Rightarrow>
               (case persist_challenge now i None ''discover'' (wa_write_state w s) db of
                  (res, db') \<Rightarrow> (challenge_reply res opts, db'))))"

definition discover_finish ::
    "login_env \<Rightarrow> ('pk, 'st, 'cred, 'reg) webauthn option \<Rightarrow> time \<Rightarrow> string \<Rightarrow> uuid \<Rightarrow> uuid \<Rightarrow> 'cred \<Rightarrow> 'a login_db_scheme \<Rightarrow>
     reply option \<times> 'a login_db_scheme" where
  "discover_finish e svc now sid rid c cred db =
     (case svc of
        None \<Rightarrow> (Some passkey_disabled, db)
      | Some w \<Rightarrow>
          (case ceremony_consume now c (ld_challenges db) of
             (None, cs) \<Rightarrow> (Some (api_reply (api_error.BadRequest ''INVALID_CHALLENGE'')), db \<lparr> ld_challenges := cs \<rparr>)
           | (Some rec, cs) \<Rightarrow>
               (let db1 = db \<lparr> ld_challenges := cs \<rparr>
                in if pc_kind rec \<noteq> ''discover'' then (Some (api_reply (api_error.BadRequest ''INVALID_CHALLENGE'')), db1)
                   else (case wa_read_discover w (pc_state rec) of
                           None \<Rightarrow> (Some (api_reply InternalError), db1)
                         | Some s \<Rightarrow>
                             (case wa_identify w cred of
                                None \<Rightarrow> (Some (api_reply (Unauthorized ''PASSKEY_FAILED'')), db1)
                              | Some (uid, _) \<Rightarrow>
                                  (case user_find_by_id uid (ad_users db1) of
                                     None \<Rightarrow> (Some (api_reply (Unauthorized ''PASSKEY_FAILED'')), db1)
                                   | Some u \<Rightarrow>
                                       (let passkeys = passkeys_from_records w (passkey_list_by_user (us_id u) (ad_passkeys db1))
                                        in if passkeys = [] then (Some (api_reply (Unauthorized ''PASSKEY_FAILED'')), db1)
                                           else (case wa_finish_discover w cred s passkeys of
                                                   None \<Rightarrow> (Some (api_reply (Unauthorized ''PASSKEY_FAILED'')), db1)
                                                 | Some res \<Rightarrow> passkey_login e now sid rid res db1))))))))"

section \<open>Registration and management\<close>

text \<open>The session of the caller, which must be the user named in the path.\<close>

definition own_session :: "login_env \<Rightarrow> time \<Rightarrow> header_map \<Rightarrow> uuid \<Rightarrow> 'a login_db_scheme \<Rightarrow> (api_error, session_record) result" where
  "own_session e now h uid db =
     (case auth now (extract_session_id (le_app e) h) db of
        Inl er \<Rightarrow> Inl er
      | Inr s \<Rightarrow> (if sr_user_id s \<noteq> oe_show_uuid (le_app e) uid then Inl (Forbidden ''FORBIDDEN'') else Inr s))"

definition register_start ::
    "login_env \<Rightarrow> ('pk, 'st, 'cred, 'reg) webauthn option \<Rightarrow> time \<Rightarrow> string \<Rightarrow> uuid \<Rightarrow> header_map \<Rightarrow> uuid \<Rightarrow> 'a login_db_scheme \<Rightarrow>
     reply \<times> 'a login_db_scheme" where
  "register_start e svc now seed i h uid db =
     (case svc of
        None \<Rightarrow> (passkey_disabled, db)
      | Some w \<Rightarrow>
          (case own_session e now h uid db of
             Inl er \<Rightarrow> (api_reply er, db)
           | Inr _ \<Rightarrow>
               (case user_find_by_id uid (ad_users db) of
                  None \<Rightarrow> (api_reply (api_error.BadRequest ''NOT_FOUND''), db)
                | Some u \<Rightarrow>
                    (let existing = map pk_credential_id (passkey_list_by_user uid (ad_passkeys db))
                     in case start_passkey_registration w seed uid (us_email u) (unwrap_or (us_email u) (us_display_name u))
                               (if existing = [] then None else Some existing) of
                          None \<Rightarrow> (api_reply InternalError, db)
                        | Some (options, s) \<Rightarrow>
                            (case persist_challenge now i (Some uid) ''register'' (wa_write_state w s) db of
                               (res, db') \<Rightarrow> (challenge_reply res (wa_creation_text w options), db'))))))"

definition register_finish ::
    "login_env \<Rightarrow> ('pk, 'st, 'cred, 'reg) webauthn option \<Rightarrow> time \<Rightarrow> uuid \<Rightarrow> header_map \<Rightarrow> uuid \<Rightarrow> uuid \<Rightarrow> string option \<Rightarrow> 'reg \<Rightarrow>
     'a login_db_scheme \<Rightarrow> reply \<times> 'a login_db_scheme" where
  "register_finish e svc now i h uid c name cred db =
     (case svc of
        None \<Rightarrow> (passkey_disabled, db)
      | Some w \<Rightarrow>
          (case own_session e now h uid db of
             Inl er \<Rightarrow> (api_reply er, db)
           | Inr _ \<Rightarrow>
               (case ceremony_consume now c (ld_challenges db) of
                  (None, cs) \<Rightarrow> (api_reply (api_error.BadRequest ''INVALID_CHALLENGE''), db \<lparr> ld_challenges := cs \<rparr>)
                | (Some rec, cs) \<Rightarrow>
                    (let db1 = db \<lparr> ld_challenges := cs \<rparr>
                     in if pc_kind rec \<noteq> ''register'' \<or> pc_user_id rec \<noteq> Some uid
                        then (api_reply (api_error.BadRequest ''INVALID_CHALLENGE''), db1)
                        else (case wa_read_register w (pc_state rec) of
                                None \<Rightarrow> (api_reply InternalError, db1)
                              | Some s \<Rightarrow>
                                  (case wa_finish_register w cred s of
                                     None \<Rightarrow> (api_reply (api_error.BadRequest ''PASSKEY_FAILED''), db1)
                                   | Some pk \<Rightarrow>
                                       (case wa_write_passkey w pk of
                                          None \<Rightarrow> (api_reply InternalError, db1)
                                        | Some bytes \<Rightarrow>
                                            (case passkey_create
                                                    \<lparr> pk_id = i, pk_user_id = uid, pk_credential_id = wa_cred_id w pk, pk_public_key = bytes,
                                                      pk_sign_count = 0, pk_transports = None, pk_name = or_else name (Some ''My Passkey''),
                                                      pk_aaguid = None, pk_backup_eligible = False, pk_backup_state = False,
                                                      pk_created_at = now, pk_last_used_at = None \<rparr> (ad_passkeys db1) of
                                               (Inl _, _) \<Rightarrow> (api_reply InternalError, db1)
                                             | (Inr _, ps) \<Rightarrow> (json_reply OkBody, db1 \<lparr> ad_passkeys := ps \<rparr>)))))))))"

definition list_passkeys :: "login_env \<Rightarrow> time \<Rightarrow> header_map \<Rightarrow> uuid \<Rightarrow> 'a login_db_scheme \<Rightarrow> reply" where
  "list_passkeys e now h uid db =
     (case auth now (extract_session_id (le_app e) h) db of
        Inl er \<Rightarrow> api_reply er
      | Inr _ \<Rightarrow> json_reply (PasskeyCards (map (\<lambda>p. (pk_id p, pk_name p)) (passkey_list_by_user uid (ad_passkeys db)))))"

end
