(* ===== verification/Passkey_Safety.thy ===== *)
theory Passkey_Safety
  imports Passkey
begin

text \<open>
  What passkeys guarantee: a challenge works once, an assertion signs in the user it was requested for, a
  signature counter that does not advance is refused, and a credential is stored for the user whose session
  registered it.
\<close>

section \<open>What each handler changes\<close>

interpretation ceremony: one_time "\<lambda>cs. distinct (map pc_id cs)" "taken pc_id" ceremony_consume pc_id "\<lambda>c cs. snd (ceremony_save c cs)"
proof
  show "taken pc_id k t \<Longrightarrow> pc_id i \<noteq> k \<Longrightarrow> taken pc_id k (snd (ceremony_save i t))" for k t i
    by (auto simp: taken_def ceremony_save_def)
qed (simp_all add: ceremony_consume_def taken_refused take_live_taken take_live_keeps)

lemma published_more [simp]:
  "ad_passkeys (publish_and_audit st now q ev ip ty tgt db) = ad_passkeys db"
  "ld_challenges (publish_and_audit st now q ev ip ty tgt db) = ld_challenges db"
  by (simp_all add: publish_and_audit_def publish_def)

lemma session_identity_frame [simp]:
  "session_identity e uid (ad_passkeys_update f db) = session_identity e uid db"
  "session_identity e uid (ld_challenges_update g db) = session_identity e uid db"
  by (simp_all add: session_identity_def Let_def split: list.split)

lemma passkey_session_frame [simp]:
  "passkey_session e now sid uid (ad_passkeys_update f db) = passkey_session e now sid uid db"
  "passkey_session e now sid uid (ld_challenges_update g db) = passkey_session e now sid uid db"
  by (simp_all add: passkey_session_def)

lemma passkey_session_fields [simp]:
  "sr_session_id (passkey_session e now sid uid db) = sid"
  "sr_user_id (passkey_session e now sid uid db) = oe_show_uuid (le_app e) uid"
  "sr_mfa_verified_at (passkey_session e now sid uid db) = Some (unix_secs now)"
  by (simp_all add: passkey_session_def split: prod.split)

lemma persist_challenge_ok:
  assumes "persist_challenge now i uid kind bytes db = (Inr j, db')"
  shows "\<exists>b. bytes = Some b \<and> j = i \<and> i \<notin> pc_id ` set (ld_challenges db) \<and>
    db' = db \<lparr> ld_challenges := ld_challenges db @ [\<lparr> pc_id = i, pc_user_id = uid, pc_state = b, pc_kind = kind,
      pc_created_at = now, pc_expires_at = now + 300000000 \<rparr>] \<rparr>"
  using assms by (auto simp: persist_challenge_def ceremony_save_def CHALLENGE_TTL_SECS_def split: option.splits if_splits)

definition only_saves :: "uuid \<Rightarrow> 'a login_db_scheme \<Rightarrow> 'a login_db_scheme \<Rightarrow> bool" where
  "only_saves i db db' \<longleftrightarrow> ad_passkeys db' = ad_passkeys db \<and>
     (ld_challenges db' = ld_challenges db \<or> (\<exists>c. pc_id c = i \<and> ld_challenges db' = snd (ceremony_save c (ld_challenges db))))"

lemma only_saves_refl [simp]: "only_saves i db db"
  by (simp add: only_saves_def)

lemma persist_only_saves: "persist_challenge now i uid kind bytes db = (res, db') \<Longrightarrow> only_saves i db db'"
proof (cases res)
  case (Inr j)
  assume "persist_challenge now i uid kind bytes db = (res, db')"
  with persist_challenge_ok Inr obtain b where "i \<notin> pc_id ` set (ld_challenges db)" and
    "db' = db \<lparr> ld_challenges := ld_challenges db @ [\<lparr> pc_id = i, pc_user_id = uid, pc_state = b, pc_kind = kind,
      pc_created_at = now, pc_expires_at = now + 300000000 \<rparr>] \<rparr>" by blast
  then show ?thesis unfolding only_saves_def
    by (intro conjI disjI2 exI [of _ "\<lparr> pc_id = i, pc_user_id = uid, pc_state = b, pc_kind = kind,
      pc_created_at = now, pc_expires_at = now + 300000000 \<rparr>"]) (simp_all add: ceremony_save_def)
next
  case (Inl er)
  assume "persist_challenge now i uid kind bytes db = (res, db')"
  with Inl have "db' = db" by (auto simp: persist_challenge_def split: option.splits prod.splits sum.splits)
  then show ?thesis by simp
qed

lemma starts_only_save:
  "only_saves i db (snd (auth_start e svc now seed i em db))"
  "only_saves i db (snd (discover_start svc now seed i db))"
  "only_saves i db (snd (register_start e svc now seed i h uid db))"
  by (auto simp: auth_start_def discover_start_def register_start_def Let_def dest: persist_only_saves
      split: option.split prod.split sum.split)

text \<open>What signing in does to the counters.\<close>

definition counts_up :: "passkey_record list \<Rightarrow> passkey_record list \<Rightarrow> bool" where
  "counts_up ps ps' \<longleftrightarrow> ps' = ps \<or> (\<exists>now i n. ps' = snd (passkey_update_counter now i n ps))"

lemma passkey_login_effect:
  "counts_up (ad_passkeys db) (ad_passkeys (snd (passkey_login e now sid rid res db)))"
  "ld_challenges (snd (passkey_login e now sid rid res db)) = ld_challenges db"
proof -
  have "passkey_update_counter now i n ps = (a, ps') \<Longrightarrow> counts_up ps ps'" for i n ps ps' a
    unfolding counts_up_def by (metis snd_conv)
  moreover have "counts_up ps ps" for ps by (simp add: counts_up_def)
  ultimately show "counts_up (ad_passkeys db) (ad_passkeys (snd (passkey_login e now sid rid res db)))"
    by (auto simp: passkey_login_def Let_def split: option.split prod.split sum.split)
  show "ld_challenges (snd (passkey_login e now sid rid res db)) = ld_challenges db"
    by (auto simp: passkey_login_def Let_def split: option.split prod.split sum.split)
qed

definition only_consumes :: "uuid \<Rightarrow> 'a login_db_scheme \<Rightarrow> 'a login_db_scheme \<Rightarrow> bool" where
  "only_consumes c db db' \<longleftrightarrow> counts_up (ad_passkeys db) (ad_passkeys db') \<and>
     (ld_challenges db' = ld_challenges db \<or> (\<exists>now. ld_challenges db' = snd (ceremony_consume now c (ld_challenges db))))"

lemma only_consumes_simps:
  "only_consumes c db db"
  "only_consumes c db (db \<lparr> ld_challenges := snd (ceremony_consume now c (ld_challenges db)) \<rparr>)"
  "only_consumes c db (snd (passkey_login e now' sid rid res (db \<lparr> ld_challenges := snd (ceremony_consume now c (ld_challenges db)) \<rparr>)))"
  using passkey_login_effect(1) [of "db \<lparr> ld_challenges := snd (ceremony_consume now c (ld_challenges db)) \<rparr>"]
  by (auto simp: only_consumes_def counts_up_def passkey_login_effect(2))

lemma finishes_only_consume:
  "only_consumes c db (snd (auth_finish e svc now sid rid c cred db))"
  "only_consumes c db (snd (discover_finish e svc now sid rid c cred db))"
proof -
  obtain r cs where c: "ceremony_consume now c (ld_challenges db) = (r, cs)" by fastforce
  note s = only_consumes_simps [of c db] only_consumes_simps(2,3) [where now = now and c = c and db = db, unfolded c snd_conv]
  show "only_consumes c db (snd (auth_finish e svc now sid rid c cred db))"
    using s by (simp add: auth_finish_def c Let_def split: option.split)
  show "only_consumes c db (snd (discover_finish e svc now sid rid c cred db))"
    using s by (simp add: discover_finish_def c Let_def split: option.split prod.split)
qed

section \<open>Sequences of requests\<close>

text \<open>
  Requests of any kind, except that none makes a challenge with an id of \<open>C\<close> and none registers a credential with
  an id of \<open>K\<close>; requests to other endpoints leave the two tables alone.
\<close>

inductive passkey_step ::
    "login_env \<Rightarrow> ('pk, 'st, 'cred, 'reg) webauthn \<Rightarrow> uuid set \<Rightarrow> string set \<Rightarrow> login_db \<Rightarrow> login_db \<Rightarrow> bool" for e w C K where
  start: "i \<notin> C \<Longrightarrow> passkey_step e w C K db (snd (auth_start e (Some w) now seed i em db))"
| finish: "passkey_step e w C K db (snd (auth_finish e (Some w) now sid rid c cred db))"
| discover: "i \<notin> C \<Longrightarrow> passkey_step e w C K db (snd (discover_start (Some w) now seed i db))"
| discovered: "passkey_step e w C K db (snd (discover_finish e (Some w) now sid rid c cred db))"
| register: "i \<notin> C \<Longrightarrow> passkey_step e w C K db (snd (register_start e (Some w) now seed i h uid db))"
| registered: "\<forall>s pk. wa_finish_register w cred s = Some pk \<longrightarrow> wa_cred_id w pk \<notin> K \<Longrightarrow>
    passkey_step e w C K db (snd (register_finish e (Some w) now i h uid c name cred db))"
| deleted: "passkey_step e w C K db (snd (delete_passkey now cookie uid i db))"
| swept: "passkey_step e w C K db (db \<lparr> ld_challenges := snd (ceremony_delete_expired now (ld_challenges db)) \<rparr>)"
| elsewhere: "ad_passkeys db' = ad_passkeys db \<Longrightarrow> ld_challenges db' = ld_challenges db \<Longrightarrow> passkey_step e w C K db db'"

lemma register_finish_effect:
  assumes "register_finish e (Some w) now i h uid c name cred db = (rep, db')"
  shows "(ld_challenges db' = ld_challenges db \<or> ld_challenges db' = snd (ceremony_consume now c (ld_challenges db))) \<and>
    (ad_passkeys db' = ad_passkeys db \<or>
     (\<exists>s pk p. wa_finish_register w cred s = Some pk \<and> pk_credential_id p = wa_cred_id w pk \<and> pk_user_id p = uid \<and>
        pk_aaguid p = None \<and> wa_write_passkey w pk = Some (pk_public_key p) \<and>
        pk_credential_id p \<notin> pk_credential_id ` set (ad_passkeys db) \<and> pk_id p \<notin> pk_id ` set (ad_passkeys db) \<and>
        ad_passkeys db' = ad_passkeys db @ [p] \<and>
        (\<exists>ses. auth now (extract_session_id (le_app e) h) db = Inr ses \<and> sr_user_id ses = oe_show_uuid (le_app e) uid)))"
proof -
  obtain r cs where c: "ceremony_consume now c (ld_challenges db) = (r, cs)" by fastforce
  from assms show ?thesis
    by (auto simp: register_finish_def own_session_def passkey_create_def c Let_def split: option.splits sum.splits if_splits)
qed

definition rows_kept :: "string set \<Rightarrow> passkey_record list \<Rightarrow> passkey_record list \<Rightarrow> bool" where
  "rows_kept K ps ps' \<longleftrightarrow> (\<forall>p' \<in> set ps'. pk_credential_id p' \<in> K \<longrightarrow> p' \<in> set ps \<or>
     (\<exists>p \<in> set ps. \<exists>n t. pk_sign_count p < n \<and> p' = p \<lparr> pk_sign_count := n, pk_last_used_at := t \<rparr>)) \<and>
     (distinct (map pk_id ps) \<longrightarrow> distinct (map pk_id ps'))"

definition challenges_kept :: "uuid set \<Rightarrow> passkey_challenge list \<Rightarrow> passkey_challenge list \<Rightarrow> bool" where
  "challenges_kept C cs cs' \<longleftrightarrow> (\<forall>c \<in> set cs'. pc_id c \<in> C \<longrightarrow> c \<in> set cs)"

lemma kept_simps [simp]:
  "rows_kept K ps ps" "rows_kept K ps (filter P ps)" "set cs' \<subseteq> set cs \<Longrightarrow> challenges_kept C cs cs'"
  by (auto simp: rows_kept_def challenges_kept_def distinct_map_filter)

lemma update_counter_kept: "rows_kept K ps (snd (passkey_update_counter now i n ps))"
proof -
  have "map pk_id (snd (passkey_update_counter now i n ps)) = map pk_id ps"
    by (simp add: passkey_update_counter_def Let_def)
  then have "distinct (map pk_id ps) \<longrightarrow> distinct (map pk_id (snd (passkey_update_counter now i n ps)))" by metis
  then show ?thesis unfolding rows_kept_def by (intro conjI) (auto simp: passkey_update_counter_def Let_def)
qed

lemma counts_up_kept: "counts_up ps ps' \<Longrightarrow> rows_kept K ps ps'"
  using update_counter_kept by (auto simp: counts_up_def)

lemma consume_subset: "set (snd (ceremony_consume now c cs)) \<subseteq> set cs"
  by (auto simp: ceremony_consume_def take_live_def take_row_def)

lemma only_saves_kept:
  assumes "only_saves i db db'" "i \<notin> C"
  shows "rows_kept K (ad_passkeys db) (ad_passkeys db') \<and> challenges_kept C (ld_challenges db) (ld_challenges db')"
  using assms by (auto simp: only_saves_def ceremony_save_def challenges_kept_def split: if_splits)

lemma only_consumes_kept:
  assumes "only_consumes c db db'"
  shows "rows_kept K (ad_passkeys db) (ad_passkeys db') \<and> challenges_kept C (ld_challenges db) (ld_challenges db')"
proof -
  from assms consume_subset have "set (ld_challenges db') \<subseteq> set (ld_challenges db)" by (force simp: only_consumes_def)
  with assms show ?thesis by (simp add: only_consumes_def counts_up_kept)
qed

lemma passkey_step_kept:
  assumes "passkey_step e w C K db db'"
  shows "rows_kept K (ad_passkeys db) (ad_passkeys db') \<and> challenges_kept C (ld_challenges db) (ld_challenges db')"
  using assms
proof (cases rule: passkey_step.cases)
  case (registered cred now i h uid c name)
  then obtain rep where "register_finish e (Some w) now i h uid c name cred db = (rep, db')" by (metis prod.collapse)
  from register_finish_effect [OF this] registered(2) have "rows_kept K (ad_passkeys db) (ad_passkeys db')"
    by (auto simp: rows_kept_def)
  moreover have "set (ld_challenges db') \<subseteq> set (ld_challenges db)"
    using register_finish_effect [OF \<open>register_finish e (Some w) now i h uid c name cred db = (rep, db')\<close>]
      consume_subset [of now c "ld_challenges db"] by auto
  ultimately show ?thesis by simp
next
  case (deleted now cookie uid i)
  then show ?thesis by (simp add: delete_passkey_def passkey_delete_def split: sum.split)
next
  case (swept now)
  then show ?thesis by (simp add: ceremony_delete_expired_def)
next
  case elsewhere
  then show ?thesis by simp
next
  case (start i now seed em)
  then show ?thesis using only_saves_kept [OF starts_only_save(1)] by simp
next
  case (finish now sid rid c cred)
  then show ?thesis using only_consumes_kept [OF finishes_only_consume(1)] by simp
next
  case (discover i now seed)
  then show ?thesis using only_saves_kept [OF starts_only_save(2)] by simp
next
  case (discovered now sid rid c cred)
  then show ?thesis using only_consumes_kept [OF finishes_only_consume(2)] by simp
next
  case (register i now seed h uid)
  then show ?thesis using only_saves_kept [OF starts_only_save(3)] by simp
qed

text \<open>What holds of the credentials of \<open>K\<close> and survives a larger counter holds after any sequence of requests.\<close>

lemma passkey_steps_rows:
  assumes "(passkey_step e w C K)\<^sup>*\<^sup>* db db'" "\<forall>p \<in> set (ad_passkeys db). pk_credential_id p \<in> K \<longrightarrow> Q p"
    and up: "\<And>p n t. Q p \<Longrightarrow> pk_sign_count p < n \<Longrightarrow> Q (p \<lparr> pk_sign_count := n, pk_last_used_at := t \<rparr>)"
  shows "\<forall>p \<in> set (ad_passkeys db'). pk_credential_id p \<in> K \<longrightarrow> Q p"
  using assms(1,2)
proof (induction rule: rtranclp_induct)
  case (step db1 db2)
  from passkey_step_kept [OF step(2)] have "rows_kept K (ad_passkeys db1) (ad_passkeys db2)" by simp
  with step(3) [OF step(4)] up show ?case unfolding rows_kept_def by fastforce
qed

lemma passkey_steps_ids:
  assumes "(passkey_step e w C K)\<^sup>*\<^sup>* db db'" "distinct (map pk_id (ad_passkeys db))"
  shows "distinct (map pk_id (ad_passkeys db'))"
  using assms by (induction rule: rtranclp_induct) (auto dest: passkey_step_kept simp: rows_kept_def)

lemma passkey_steps_challenges:
  assumes "(passkey_step e w C K)\<^sup>*\<^sup>* db db'"
  shows "challenges_kept C (ld_challenges db) (ld_challenges db')"
  using assms
proof (induction rule: rtranclp_induct)
  case (step db1 db2)
  then show ?case using passkey_step_kept [OF step(2)] by (auto simp: challenges_kept_def)
qed (simp add: challenges_kept_def)

section \<open>Signing in\<close>

lemma set_session_cookie_status: "set_session_cookie st sid r = Some r' \<Longrightarrow> rs_status r' = rs_status r"
  by (auto simp: set_session_cookie_def dest: set_cookie_status)

lemma passkey_login_ok:
  assumes "passkey_login e now sid rid res db = (Some rep, db')" "rs_status rep = 200"
  obtains row where "passkey_find_by_credential_id (az_cred_id res) (ad_passkeys db) = Some row"
    "az_counter res = 0 \<and> ad_passkeys db' = ad_passkeys db \<or>
     (\<exists>p \<in> set (ad_passkeys db). pk_id p = pk_id row \<and> pk_sign_count p < uint (az_counter res)) \<and>
     ad_passkeys db' = snd (passkey_update_counter now (pk_id row) (uint (az_counter res)) (ad_passkeys db))"
    "ad_sessions db' = ad_sessions db @ [to_row (passkey_session e now sid (pk_user_id row) db)]"
    "sid \<notin> set (map row_id (ad_sessions db))"
proof -
  have bad: "rs_status (api_reply er) \<noteq> 200" for er using api_status_not_200 [of er] by auto
  from assms bad obtain row where row: "passkey_find_by_credential_id (az_cred_id res) (ad_passkeys db) = Some row"
    by (auto simp: passkey_login_def split: option.splits)
  obtain a ps where u: "(if uint (az_counter res) > 0 then passkey_update_counter now (pk_id row) (uint (az_counter res)) (ad_passkeys db)
      else (True, ad_passkeys db)) = (a, ps)" by fastforce
  note d = assms(1) [unfolded passkey_login_def row option.case Let_def u prod.case]
  have pos: "0 < uint (az_counter res) \<longleftrightarrow> az_counter res \<noteq> 0"
    using uint_ge_0 [of "az_counter res"] by (auto simp: less_le uint_0_iff)
  have a: a using d assms(2) bad by (auto split: if_splits)
  obtain r ss where c: "pg_create (passkey_session e now sid (pk_user_id row) db) (ad_sessions db) = (r, ss)" by fastforce
  from d a c assms(2) bad have "r = Inr ()" and db': "ad_passkeys db' = ps" "ad_sessions db' = ss"
    by (auto split: sum.splits)
  with c have "ss = ad_sessions db @ [to_row (passkey_session e now sid (pk_user_id row) db)]"
    "sid \<notin> set (map row_id (ad_sessions db))" by (auto simp: pg_create_def split: if_splits)
  moreover have "az_counter res = 0 \<and> ps = ad_passkeys db \<or>
     (\<exists>p \<in> set (ad_passkeys db). pk_id p = pk_id row \<and> pk_sign_count p < uint (az_counter res)) \<and>
     ps = snd (passkey_update_counter now (pk_id row) (uint (az_counter res)) (ad_passkeys db))"
    using u a pos
    by (cases "az_counter res = 0") (auto simp: passkey_update_counter_def Let_def list_ex_iff split: if_splits)
  ultimately show ?thesis using that row db' by auto
qed

lemma auth_finish_ok:
  assumes "auth_finish e (Some w) now sid rid c cred db = (Some rep, db')" "rs_status rep = 200"
  obtains rec s res where "rec \<in> set (ld_challenges db)" "pc_id rec = c" "now < pc_expires_at rec" "pc_kind rec = ''auth''"
    "wa_read_auth w (pc_state rec) = Some s" "wa_finish_auth w cred s = Some res"
    "passkey_login e now sid rid res (db \<lparr> ld_challenges := snd (ceremony_consume now c (ld_challenges db)) \<rparr>) = (Some rep, db')"
proof -
  have bad: "rs_status (api_reply er) \<noteq> 200" for er using api_status_not_200 [of er] by auto
  obtain r cs where c: "ceremony_consume now c (ld_challenges db) = (r, cs)" by fastforce
  from assms c bad obtain rec where "r = Some rec" by (auto simp: auth_finish_def split: option.splits)
  with c have "rec \<in> set (ld_challenges db)" "pc_id rec = c" "now < pc_expires_at rec"
    by (auto simp: ceremony_consume_def take_live_def ceremony_live_def dest!: take_row_Some)
  with assms c bad \<open>r = Some rec\<close> that show ?thesis
    by (auto simp: auth_finish_def Let_def split: option.splits if_splits)
qed

text \<open>
  The library as documented: an assertion is accepted only for one of the passkeys the challenge was made for, and a passkey
  that was written is read back as it was. The table as the registration fills it: under the id of the key it holds.
\<close>

definition webauthn_sound :: "('pk, 'st, 'cred, 'reg) webauthn \<Rightarrow> bool" where
  "webauthn_sound w \<longleftrightarrow>
     (\<forall>seed pks ch s b s' cred res. wa_start_auth w seed pks = Some (ch, s) \<longrightarrow> wa_write_state w s = Some b \<longrightarrow>
        wa_read_auth w b = Some s' \<longrightarrow> wa_finish_auth w cred s' = Some res \<longrightarrow> az_cred_id res \<in> wa_cred_id w ` set pks)"

definition passkeys_keyed :: "('pk, 'st, 'cred, 'reg) webauthn \<Rightarrow> passkey_record list \<Rightarrow> bool" where
  "passkeys_keyed w ps \<longleftrightarrow>
     (\<forall>p \<in> set ps. \<forall>pk. wa_read_passkey w (pk_public_key p) = Some pk \<longrightarrow> wa_cred_id w pk = pk_credential_id p)"

lemma auth_start_ok:
  assumes "auth_start e (Some w) now seed i (Some em) db = (rep, db')" "rs_status rep = 200"
    "user_find_by_email (normalize_email e em) (ad_users db) = Some u"
  obtains opts s b where
    "wa_start_auth w seed (passkeys_from_records w (passkey_list_by_user (us_id u) (ad_passkeys db))) = Some (opts, s)"
    "wa_write_state w s = Some b" "i \<notin> pc_id ` set (ld_challenges db)"
    "db' = db \<lparr> ld_challenges := ld_challenges db @ [\<lparr> pc_id = i, pc_user_id = Some (us_id u), pc_state = b, pc_kind = ''auth'',
       pc_created_at = now, pc_expires_at = now + 300000000 \<rparr>] \<rparr>"
proof -
  have bad: "rs_status (api_reply er) \<noteq> 200" for er using api_status_not_200 [of er] by auto
  let ?ks = "passkeys_from_records w (passkey_list_by_user (us_id u) (ad_passkeys db))"
  from assms bad have em: "opt_filter (\<lambda>m. m \<noteq> []) (map_option (normalize_email e) (Some em)) = Some (normalize_email e em)"
    by (auto simp: auth_start_def opt_filter_def split: if_splits)
  note d = assms(1) [unfolded auth_start_def option.case em assms(3) Let_def]
  from d assms(2) bad obtain opts s where st: "wa_start_auth w seed ?ks = Some (opts, s)"
    by (auto split: if_splits option.splits)
  obtain r db1 where p: "persist_challenge now i (Some (us_id u)) ''auth'' (wa_write_state w s) db = (r, db1)" by fastforce
  from d st p assms(2) bad obtain j where "r = Inr j" "db' = db1"
    by (cases r) (auto simp: challenge_reply_def split: if_splits)
  with persist_challenge_ok p st that show ?thesis by blast
qed

section \<open>Challenges and registrations\<close>

lemma taken_consume: "taken pc_id c cs \<Longrightarrow> ceremony_consume now c cs = (None, cs)"
  by (auto simp: ceremony_consume_def take_live_def take_row_def taken_def find_None_iff intro!: filter_True)

text \<open>
  A challenge works once: after a sign-in took it, and after any requests that do not make one with its id anew, both ways to
  finish a sign-in with it are refused and change nothing.
\<close>

lemma passkey_challenge_single_use:
  assumes "distinct (map pc_id (ld_challenges db))" "fst (ceremony_consume now c (ld_challenges db)) \<noteq> None"
    and "(passkey_step e w {c} K)\<^sup>*\<^sup>* (snd (auth_finish e (Some w) now sid rid c cred db)) db2"
  shows "auth_finish e (Some w) now2 sid2 rid2 c cred2 db2 = (Some (api_reply (api_error.BadRequest ''INVALID_CHALLENGE'')), db2)"
    "discover_finish e (Some w) now2 sid2 rid2 c cred2 db2 = (Some (api_reply (api_error.BadRequest ''INVALID_CHALLENGE'')), db2)"
proof -
  obtain rec cs where c: "ceremony_consume now c (ld_challenges db) = (Some rec, cs)" using assms(2) by (metis prod.collapse option.exhaust)
  then have "ld_challenges (snd (auth_finish e (Some w) now sid rid c cred db)) = cs"
    by (auto simp: auth_finish_def passkey_login_effect(2) Let_def split: option.split)
  with ceremony.consumed_spent [OF assms(1) c] passkey_steps_challenges [OF assms(3)] have "taken pc_id c (ld_challenges db2)"
    by (auto simp: challenges_kept_def taken_def)
  from taken_consume [OF this]
  show "auth_finish e (Some w) now2 sid2 rid2 c cred2 db2 = (Some (api_reply (api_error.BadRequest ''INVALID_CHALLENGE'')), db2)"
    "discover_finish e (Some w) now2 sid2 rid2 c cred2 db2 = (Some (api_reply (api_error.BadRequest ''INVALID_CHALLENGE'')), db2)"
    by (simp_all add: auth_finish_def discover_finish_def)
qed

text \<open>A challenge is spent before its kind is looked at: a sign-in with the challenge of a registration ends that registration.\<close>

lemma wrong_kind_spends_challenge:
  assumes "ceremony_consume now c (ld_challenges db) = (Some rec, cs)" "pc_kind rec = ''register''"
  shows "auth_finish e (Some w) now sid rid c cred db =
    (Some (api_reply (api_error.BadRequest ''INVALID_CHALLENGE'')), db \<lparr> ld_challenges := cs \<rparr>)"
  using assms by (simp add: auth_finish_def Let_def)

text \<open>A credential is stored for the caller's own user only, and its authenticator model is never recorded.\<close>

lemma registered_for_self:
  assumes "register_finish e (Some w) now i h uid c name cred db = (rep, db')" "ad_passkeys db' \<noteq> ad_passkeys db"
  shows "\<exists>p ses. ad_passkeys db' = ad_passkeys db @ [p] \<and> pk_user_id p = uid \<and> pk_aaguid p = None \<and>
    auth now (extract_session_id (le_app e) h) db = Inr ses \<and> sr_user_id ses = oe_show_uuid (le_app e) uid"
  using register_finish_effect [OF assms(1)] assms(2) by blast

text \<open>The rows stay keyed by the id of the key they hold, when the library reads back what it wrote.\<close>

lemma registered_keyed:
  assumes "register_finish e (Some w) now i h uid c name cred db = (rep, db')" "passkeys_keyed w (ad_passkeys db)"
    and "\<And>pk b pk'. wa_write_passkey w pk = Some b \<Longrightarrow> wa_read_passkey w b = Some pk' \<Longrightarrow> pk' = pk"
  shows "passkeys_keyed w (ad_passkeys db')"
proof (cases "ad_passkeys db' = ad_passkeys db")
  case False
  with register_finish_effect [OF assms(1)] obtain pk p where "pk_credential_id p = wa_cred_id w pk"
    "wa_write_passkey w pk = Some (pk_public_key p)" "ad_passkeys db' = ad_passkeys db @ [p]" by blast
  moreover from this(2) have "wa_read_passkey w (pk_public_key p) = Some pk' \<Longrightarrow> pk' = pk" for pk' using assms(3) by blast
  ultimately show ?thesis using assms(2) by (auto simp: passkeys_keyed_def)
qed (use assms(2) in simp)

section \<open>Properties\<close>


text \<open>
  C19: a signature counter that does not advance is refused. After a sign-in whose counter was positive, and after any
  further requests of which none registers that credential anew, an assertion of the same credential whose counter
  is positive and not larger is answered with 401 and changes nothing.
\<close>

theorem passkey_clone_detected:
  assumes "distinct (map pk_credential_id (ad_passkeys db))" "distinct (map pk_id (ad_passkeys db))"
    and "passkey_login e now sid rid res db = (Some rep, db1)" "rs_status rep = 200"
    and "(passkey_step e w C {az_cred_id res})\<^sup>*\<^sup>* db1 db2"
    and "az_cred_id res2 = az_cred_id res" "0 < az_counter res2" "az_counter res2 \<le> az_counter res"
  shows "passkey_login e now2 sid2 rid2 res2 db2 = (Some (api_reply (Unauthorized ''PASSKEY_FAILED'')), db2)"
proof -
  let ?c = "az_cred_id res" and ?n = "uint (az_counter res)"
  from assms(7,8) have n: "0 < uint (az_counter res2)" "uint (az_counter res2) \<le> ?n" "az_counter res \<noteq> 0"
    by (auto simp: word_less_def word_le_def)
  from assms(3,4) obtain row where row: "passkey_find_by_credential_id ?c (ad_passkeys db) = Some row"
    and ps: "ad_passkeys db1 = snd (passkey_update_counter now (pk_id row) ?n (ad_passkeys db))"
    by (rule passkey_login_ok) (use n(3) in blast)
  from row have r: "row \<in> set (ad_passkeys db)" "pk_credential_id row = ?c"
    by (auto simp: passkey_find_by_credential_id_def find_Some_iff)
  have "p = row" if "p \<in> set (ad_passkeys db)" "pk_credential_id p = ?c" for p
    using inj_onD [of pk_credential_id "set (ad_passkeys db)" p row] assms(1) that r by (simp add: distinct_map)
  then have "\<forall>p \<in> set (ad_passkeys db1). pk_credential_id p \<in> {?c} \<longrightarrow> ?n \<le> pk_sign_count p"
    unfolding ps passkey_update_counter_def Let_def by auto
  from passkey_steps_rows [OF assms(5) this]
  have floor: "\<forall>p \<in> set (ad_passkeys db2). pk_credential_id p = ?c \<longrightarrow> ?n \<le> pk_sign_count p" by simp
  show ?thesis
  proof (cases "passkey_find_by_credential_id ?c (ad_passkeys db2)")
    case (Some p)
    then have p: "p \<in> set (ad_passkeys db2)" "pk_credential_id p = ?c"
      by (auto simp: passkey_find_by_credential_id_def find_Some_iff)
    have "passkey_update_counter now2 (pk_id p) (uint (az_counter res2)) (ad_passkeys db2) = (False, ad_passkeys db2)"
    proof -
      have "distinct (map pk_id (ad_passkeys db1))" using assms(2) update_counter_kept unfolding ps rows_kept_def by blast
      from passkey_steps_ids [OF assms(5) this] have "q = p" if "q \<in> set (ad_passkeys db2)" "pk_id q = pk_id p" for q
        using inj_onD [of pk_id "set (ad_passkeys db2)" q p] that p(1) by (simp add: distinct_map)
      then have "\<not> (pk_id q = pk_id p \<and> pk_sign_count q < uint (az_counter res2))" if "q \<in> set (ad_passkeys db2)" for q
        using that floor p n(2) by fastforce
      then show ?thesis by (auto simp: passkey_update_counter_def Let_def list_ex_iff intro!: map_idI)
    qed
    with Some n(1) assms(6) show ?thesis by (simp add: passkey_login_def)
  qed (simp add: passkey_login_def assms(6))
qed

end
