(* ===== verification/Login_Safety.thy ===== *)
theory Login_Safety
  imports Login
begin

text \<open>
  What a login establishes: the state of a flow and a magic link work once, the session opened belongs to the
  user the provider's identity is linked to, an ID token is bound to the flow it answers, the
  verifier sent to the provider fits the challenge, and what the risk score can reach.
\<close>

section \<open>Risk\<close>

definition risk_points :: "risk_signals \<Rightarrow> nat" where
  "risk_points s =
     1 + (if rg_new_device s then 2 else 0) + (if rg_impossible_travel s then 3 else 0) + (if rg_asn_or_geo_changed s then 1 else 0)
       + (if rg_ip_changed s then 1 else 0) + (if rg_ua_changed s then 1 else 0) + (if rg_off_hours s then 1 else 0)"

lemma points_small:
  "unat (1 + (if a then 2 else 0) + (if b then 3 else 0) + (if c then 1 else 0) + (if d then 1 else 0)
     + (if f then 1 else 0) + (if g then 1 else 0) :: u8) =
   1 + (if a then 2 else 0) + (if b then 3 else 0) + (if c then 1 else 0) + (if d then 1 else 0) + (if f then 1 else 0) + (if g then 1 else 0)"
  by (cases a; cases b; cases c; cases d; cases f; cases g) simp_all

lemma risk_points_le: "risk_points s \<le> 10" by (simp add: risk_points_def)

lemma unat_saturating_add: "unat (saturating_add a b) = min (unat a + unat b) 255"
  by (auto simp: saturating_add_def unat_word_ariths min_def)

lemma unat_min: "unat (min a b) = min (unat a) (unat b)" for a b :: u8
  by (simp add: min_def word_le_nat_alt)

lemma risk_score_eq: "unat (risk_score s extra) = min (risk_points s + unat extra) 6"
proof -
  have "unat (MAX_LEVEL) = 6" by (simp add: MAX_LEVEL_def)
  then show ?thesis
    unfolding risk_score_def Let_def unat_min unat_saturating_add points_small risk_points_def [symmetric] by simp
qed

lemma assess_decision:
  assumes "assess e u ctx db = ((level, d), new_device, changed, db')"
  shows "d = (if new_device \<and> changed then StepUp else RiskAllow)" "unat level = 1 + (if new_device then 2 else 0) + (if changed then 1 else 0)"
    "new_device = ((us_id u, rx_device_hash ctx) \<notin> set (ld_devices db))"
proof -
  have ev: "risk_evaluate (no_signals \<lparr> rg_new_device := a, rg_ip_changed := b \<rparr>) default_thresholds 0 =
      (1 + (if a then 2 else 0) + (if b then 1 else 0), if a \<and> b then StepUp else RiskAllow)" for a b
    by (cases a; cases b) (simp_all add: risk_evaluate_def risk_score_def risk_decide_def no_signals_def saturating_add_def
        default_thresholds_def MAX_LEVEL_def word_le_nat_alt)
  from assms show "d = (if new_device \<and> changed then StepUp else RiskAllow)"
    by (auto simp: assess_def ev Let_def split: prod.splits if_splits)
  from assms have "level = 1 + (if new_device then 2 else 0) + (if changed then 1 else 0)"
    by (auto simp: assess_def ev Let_def split: prod.splits)
  then show "unat level = 1 + (if new_device then 2 else 0) + (if changed then 1 else 0)" by simp
  from assms show "new_device = ((us_id u, rx_device_hash ctx) \<notin> set (ld_devices db))"
    by (auto simp: assess_def device_check_and_record_def Let_def split: prod.splits if_splits)
qed

section \<open>What each stage leaves alone\<close>

lemma link_identity_tables [simp]:
  "ld_flows (link_identity e now r sub em v u db) = ld_flows db" "ad_sessions (link_identity e now r sub em v u db) = ad_sessions db"
  "ad_users (link_identity e now r sub em v u db) = ad_users db" "ld_links (link_identity e now r sub em v u db) = ld_links db"
  by (simp_all add: link_identity_def)

lemma resolve_user_tables:
  assumes "resolve_user e now r sub em v name db = (res, db')"
  shows "ld_flows db' = ld_flows db \<and> ad_sessions db' = ad_sessions db \<and> ld_links db' = ld_links db"
  using assms by (auto simp: resolve_user_def split: option.splits prod.splits sum.splits)

lemma personal_tenant_tables:
  assumes "personal_tenant e now r u name slug role db = (res, db')"
  shows "ld_flows db' = ld_flows db \<and> ad_sessions db' = ad_sessions db \<and> op_identities db' = op_identities db \<and>
    ad_users db' = ad_users db \<and> ld_links db' = ld_links db"
  using assms by (auto simp: personal_tenant_def split: prod.splits sum.splits)

lemma resolve_tenant_tables:
  assumes "resolve_tenant e now r u em db = (res, db')"
  shows "ld_flows db' = ld_flows db \<and> ad_sessions db' = ad_sessions db \<and> op_identities db' = op_identities db \<and>
    ad_users db' = ad_users db \<and> ld_links db' = ld_links db"
proof (cases "first_tenant e u db")
  case None
  with assms personal_tenant_tables show ?thesis by (simp add: resolve_tenant_def)
qed (use assms in \<open>simp add: resolve_tenant_def\<close>)

lemma assess_tables:
  assumes "assess e u ctx db = (lv, a, b, db')"
  shows "ld_flows db' = ld_flows db \<and> ad_sessions db' = ad_sessions db \<and> op_identities db' = op_identities db \<and> ld_links db' = ld_links db"
  using assms by (auto simp: assess_def Let_def split: prod.splits)

lemma open_session_flows: "ld_flows (snd (open_session e now r u t ctx rt em db)) = ld_flows db"
proof -
  obtain level d a b db1 where a: "assess e u ctx db = ((level, d), a, b, db1)" by (metis surj_pair)
  from assess_tables [OF a] show ?thesis by (simp add: open_session_def a split: prod.split sum.split)
qed

lemma complete_oidc_flows: "ld_flows (snd (complete_oidc e tick now r code flow ctx db)) = ld_flows db"
proof (cases "idp_identity e tick now code flow")
  case (Inr p)
  obtain sub em v name where p: "p = (sub, em, v, name)" by (cases p) auto
  obtain ru db1 where ru: "resolve_user e now r sub em v name db = (ru, db1)" by fastforce
  show ?thesis
  proof (cases ru)
    case (Inr u)
    obtain rt db2 where rt: "resolve_tenant e now r u em db1 = (rt, db2)" by fastforce
    with resolve_user_tables [OF ru] resolve_tenant_tables [OF rt] Inr \<open>idp_identity e tick now code flow = Inr p\<close> p ru show ?thesis
      by (cases rt) (simp_all add: complete_oidc_def open_session_flows)
  qed (use resolve_user_tables [OF ru] \<open>idp_identity e tick now code flow = Inr p\<close> p ru in \<open>simp add: complete_oidc_def\<close>)
qed (simp add: complete_oidc_def)

section \<open>Single use\<close>

lemma flow_save_set: "snd (flow_save f fs) = fs \<or> snd (flow_save f fs) = fs @ [f]"
  by (simp add: flow_save_def)

interpretation flow: one_time "\<lambda>fs. distinct (map of_state fs)" "taken of_state" flow_consume of_state "\<lambda>f fs. snd (flow_save f fs)"
proof
  show "taken of_state k t \<Longrightarrow> taken of_state k (snd (flow_save i t))" if "of_state i \<noteq> k" for k t i
    using that flow_save_set [of i t] by (auto simp: taken_def)
qed (simp_all add: flow_consume_def taken_refused take_live_taken take_live_keeps)

definition link_spent :: "string \<Rightarrow> magic_link list \<Rightarrow> bool" where
  "link_spent token ls \<longleftrightarrow> (\<forall>l \<in> set ls. ml_token l = token \<longrightarrow> ml_used_at l \<noteq> None)"

lemma link_consume_row: "link_consume now k ls = (Some l, ls') \<Longrightarrow>
  \<exists>l0 \<in> set ls. link_usable now k l0 \<and> l = l0 \<lparr> ml_used_at := Some now \<rparr> \<and>
    ls' = map (\<lambda>l. if link_usable now k l then l \<lparr> ml_used_at := Some now \<rparr> else l) ls"
  by (fastforce simp: link_consume_def find_Some_iff)

interpretation magic: one_time "\<lambda>ls. distinct (map ml_token ls)" link_spent link_consume "\<lambda>(now, i, em, token). token"
  "\<lambda>(now, i, em, token) ls. snd (link_create now i em token 15 ls)"
proof
  show "link_spent k t \<Longrightarrow> fst (link_consume now k t) = None" for k t and now
    by (auto simp: link_spent_def link_consume_def link_usable_def find_None_iff)
  show "link_spent k t'" if "distinct (map ml_token t)" "link_consume now k t = (Some r, t')" for t now k r t'
  proof -
    from link_consume_row [OF that(2)] obtain l0 where l0: "l0 \<in> set t" "link_usable now k l0"
      and t': "t' = map (\<lambda>l. if link_usable now k l then l \<lparr> ml_used_at := Some now \<rparr> else l) t" by blast
    have "x = l0" if "x \<in> set t" "ml_token x = k" for x
      using that l0 \<open>distinct (map ml_token t)\<close> unfolding distinct_map inj_on_def link_usable_def by blast
    then show ?thesis using l0(2) unfolding link_spent_def t' by auto
  qed
  show "link_spent k t \<Longrightarrow> link_spent k (snd (link_consume now j t))" for k t and now and j
    by (auto simp: link_spent_def link_consume_def)
  show "link_spent k t \<Longrightarrow> (case i of (now, i, em, token) \<Rightarrow> token) \<noteq> k \<Longrightarrow>
      link_spent k ((case i of (now, i, em, token) \<Rightarrow> \<lambda>ls. snd (link_create now i em token 15 ls)) t)" for k t i
    by (cases i) (auto simp: link_spent_def link_create_def)
qed

inductive login_step :: "login_env \<Rightarrow> string \<Rightarrow> login_db \<Rightarrow> login_db \<Rightarrow> bool" for e avoid where
  start: "fr_state r \<noteq> avoid \<Longrightarrow> login_step e avoid db (snd (login e now r q h db))"
| return: "login_step e avoid db (snd (callback e tick now lr h cq db))"
| return_post: "login_step e avoid db (snd (callback_complete e tick now lr h code state db))"
| link_sent: "login_step e avoid db (snd (magic_send e now i token em db))"
| link_used: "login_step e avoid db (snd (magic_verify e now lr token db))"
| logged_out: "login_step e avoid db (snd (logout_get (le_app e) now i rt h db))"
| logged_out_api: "login_step e avoid db (snd (logout_post (le_app e) now i h db))"
| switched: "login_step e avoid db (snd (switch_tenant (le_app e) now sid h text db))"
| swept: "login_step e avoid db (db \<lparr> ld_flows := snd (flow_delete_expired now (ld_flows db)) \<rparr>)"

lemma login_flows:
  "ld_flows (snd (login e now r q h db)) = ld_flows db \<or>
   (\<exists>rt inv. ld_flows (snd (login e now r q h db)) = snd (flow_save (oidc_flow_of e now r rt inv) (ld_flows db)))"
proof -
  have "ld_flows (snd (begin_oidc_flow e now r rt inv p db)) = ld_flows db \<or>
      ld_flows (snd (begin_oidc_flow e now r rt inv p db)) = snd (flow_save (oidc_flow_of e now r rt inv) (ld_flows db))" for rt inv p
    by (auto simp: begin_oidc_flow_def split: prod.split sum.split)
  moreover have "\<exists>rt inv p. snd (login e now r q h db) = snd (begin_oidc_flow e now r rt inv p db)"
    by (auto simp: login_def Let_def split: prod.split sum.split option.split) (metis snd_conv)+
  ultimately show ?thesis by metis
qed

lemma finish_callback_flows:
  "ld_flows (snd (finish_callback e tick now r j h code s db)) = snd (flow_consume now s (ld_flows db))"
proof -
  have "ld_flows db' = fs" if "complete_oidc e tick now r code f ctx (db \<lparr> ld_flows := fs \<rparr>) = (x, db')" for f ctx fs x db'
    using complete_oidc_flows [of e tick now r code f ctx "db \<lparr> ld_flows := fs \<rparr>"] that by simp
  then show ?thesis by (auto simp: finish_callback_def split: prod.split sum.split option.split)
qed

lemma callback_flows:
  "ld_flows (snd (callback e tick now r h q db)) = ld_flows db \<or>
   (\<exists>s. ld_flows (snd (callback e tick now r h q db)) = snd (flow_consume now s (ld_flows db)))"
  "ld_flows (snd (callback_complete e tick now r h c s db)) = ld_flows db \<or>
   (\<exists>s'. ld_flows (snd (callback_complete e tick now r h c s db)) = snd (flow_consume now s' (ld_flows db)))"
  using finish_callback_flows
  by (fastforce simp: callback_def callback_complete_def split: option.split)+

lemma magic_flows:
  "ld_flows (snd (magic_send e now i token em db)) = ld_flows db"
  "ld_flows (snd (magic_verify e now r token db)) = ld_flows db"
proof -
  show "ld_flows (snd (magic_send e now i token em db)) = ld_flows db"
    by (auto simp: magic_send_def split: prod.split sum.split)
  have u: "ld_flows db' = ld_flows db" if "magic_user e now r em db = (x, db')" for em x db' and db :: "'b login_db_scheme"
    using that by (auto simp: magic_user_def split: option.splits prod.splits sum.splits)
  have t: "ld_flows db' = ld_flows db" if "magic_tenant e now r us em db = (x, db')" for us em x db' and db :: "'b login_db_scheme"
    using that by (cases "first_tenant e us db") (auto simp: magic_tenant_def dest: personal_tenant_tables)
  show "ld_flows (snd (magic_verify e now r token db)) = ld_flows db"
    by (auto simp: magic_verify_def split: prod.split sum.split option.split dest!: u t)
qed

lemma other_flows:
  "ld_flows (snd (logout_get st now i rt h db)) = ld_flows db" "ld_flows (snd (logout_post st now i h db)) = ld_flows db"
  "ld_flows (snd (switch_tenant st now sid h text db)) = ld_flows db"
  by (simp_all add: logout_get_def logout_post_def end_cookie_session_def publish_logout_event_def switch_tenant_def Let_def
      split: option.split prod.split sum.split)

lemma login_step_taken: "login_step e s db db' \<Longrightarrow> taken of_state s (ld_flows db) \<Longrightarrow> taken of_state s (ld_flows db')"
proof (induction rule: login_step.induct)
  case (start r db now q h)
  have "of_state (oidc_flow_of e now r rt inv) \<noteq> s" for rt inv using start(1) by (simp add: oidc_flow_of_def)
  with login_flows [of e now r q h db] start(2) flow.insert_keeps show ?case by metis
next
  case (return db tick now lr h cq)
  with callback_flows(1) flow.consume_keeps show ?case by metis
next
  case (return_post db tick now lr h code state)
  with callback_flows(2) flow.consume_keeps show ?case by metis
next
  case (swept db now)
  then show ?case by (auto simp: taken_def flow_delete_expired_def)
qed (simp_all add: magic_flows other_flows)

lemma login_steps_taken: "(login_step e s)\<^sup>*\<^sup>* db db' \<Longrightarrow> taken of_state s (ld_flows db) \<Longrightarrow> taken of_state s (ld_flows db')"
  by (induction rule: rtranclp_induct) (auto dest: login_step_taken)

lemma finish_callback_taken:
  assumes "taken of_state s (ld_flows db)"
  shows "finish_callback e tick now r j h code s db = (Some (api_reply (api_error.BadRequest ''INVALID_STATE'')), db)"
proof -
  have "flow_consume now s (ld_flows db) = (None, ld_flows db)"
    using flow.spent_refused [OF assms] assms
    by (auto simp: flow_consume_def take_live_def take_row_def taken_def prod_eq_iff intro!: filter_True)
  then show ?thesis by (simp add: finish_callback_def)
qed

section \<open>Who is signed in\<close>

lemma resolve_user_linked:
  assumes "resolve_user e now r sub em v name db = (Inr u, db')" "lr_identity_id r \<notin> set (map ui_id (op_identities db))"
  shows "\<exists>idn. identity_find_by_subject (ic_provider (le_idp e)) sub (op_identities db') = Some idn \<and> ui_user_id idn = us_id u"
proof (cases "identity_find_by_subject (ic_provider (le_idp e)) sub (op_identities db)")
  case None
  have "op_identities (link_identity e now r sub em v w d) = op_identities d @
      [\<lparr> ui_id = lr_identity_id r, ui_user_id = us_id w, ui_provider = ic_provider (le_idp e), ui_subject = sub,
         ui_email = Some em, ui_email_verified = v, ui_created_at = now \<rparr>]"
    if "op_identities d = op_identities db" for w and d :: "'a login_db_scheme"
    using None assms(2) that by (auto simp: link_identity_def identity_link_def identity_find_by_subject_def find_None_iff list_ex_iff)
  with assms(1) None show ?thesis
    by (auto simp: resolve_user_def identity_find_by_subject_def find_append split: option.splits prod.splits sum.splits if_splits)
next
  case (Some idn)
  with assms(1) show ?thesis
    by (auto simp: resolve_user_def user_find_by_id_def find_Some_iff split: option.splits)
qed

lemma open_session_ok:
  assumes "open_session e now r u t ctx rt em db = (Inr (sid, target), db')"
  shows "sid = lr_session_id r \<and> target = rt \<and> sid \<notin> set (map row_id (ad_sessions db)) \<and> op_identities db' = op_identities db \<and>
    ad_sessions db' = ad_sessions db @
      [to_row (login_session e now sid u t (Some rt) (rx_client_ip ctx) (rx_user_agent ctx) em)]"
proof -
  obtain level d a b db1 where a: "assess e u ctx db = ((level, d), a, b, db1)" by (metis surj_pair)
  from assms assess_tables [OF a] show ?thesis
    by (auto simp: open_session_def a pg_create_def login_session_def split: if_splits prod.splits sum.splits)
qed

lemma complete_oidc_ok:
  assumes "complete_oidc e tick now r code flow ctx db = (Inr (sid, target), db')"
  obtains sub em v name u t db1 db2 where
    "idp_identity e tick now code flow = Inr (sub, em, v, name)" "resolve_user e now r sub em v name db = (Inr u, db1)"
    "resolve_tenant e now r u em db1 = (Inr t, db2)"
    "open_session e now r u t ctx (unwrap_or (oe_base_url (le_app e) @ ''/'') (of_return_to flow)) em db2 = (Inr (sid, target), db')"
  using assms by (auto simp: complete_oidc_def split: sum.splits prod.splits)

lemma idp_identity_token:
  assumes "idp_identity e tick now code flow = Inr (sub, em, v, name)"
  shows "\<exists>verifier tokens. cipher_decrypt (le_cipher e) (of_code_verifier_encrypted flow) = Inr verifier \<and>
    exchange_code_pkce (le_idp_ops e) (le_idp e) code (oe_base_url (le_app e) @ ''/callback'') (Some verifier) = Inr tokens \<and>
    (\<forall>t issuer. tr_id_token tokens = Some t \<longrightarrow> ic_issuer_url (le_idp e) = Some issuer \<longrightarrow>
      (\<exists>c. id_token_good (le_id_ops e) (unix_secs now) (trim_end_matches issuer CHR ''/'') (ic_client_id (le_idp e)) t
             (of_nonce flow) (tr_access_token tokens) c \<and> sub = ik_sub c))"
proof -
  from assms obtain verifier where v: "cipher_decrypt (le_cipher e) (of_code_verifier_encrypted flow) = Inr verifier"
    by (auto simp: idp_identity_def split: sum.splits)
  from assms v obtain tokens where
    t: "exchange_code_pkce (le_idp_ops e) (le_idp e) code (oe_base_url (le_app e) @ ''/callback'') (Some verifier) = Inr tokens"
    by (auto simp: idp_identity_def split: if_splits sum.splits)
  have "\<exists>c. id_token_good (le_id_ops e) (unix_secs now) (trim_end_matches issuer CHR ''/'') (ic_client_id (le_idp e)) it
      (of_nonce flow) (tr_access_token tokens) c \<and> sub = ik_sub c"
    if i: "tr_id_token tokens = Some it" "ic_issuer_url (le_idp e) = Some issuer" for it issuer
  proof -
    let ?v = "from_issuer (trim_end_matches issuer CHR ''/'') (ic_client_id (le_idp e))"
    obtain res v' where ver: "id_token_verify (le_id_ops e) tick (unix_secs now) ?v it (of_nonce flow) (tr_access_token tokens) = (res, v')"
      by fastforce
    with assms v t i obtain c where "res = Inr c" "sub = ik_sub c"
      by (cases res) (auto simp: idp_identity_def unwrap_or_def split: if_splits sum.splits option.splits)
    with id_token_verify_good ver show ?thesis by (fastforce simp: from_issuer_def verifier_new_def)
  qed
  with v t show ?thesis by blast
qed

section \<open>Properties\<close>

text \<open>
  C16: a login state works once. When a callback consumed the flow of a state, then after any number of further requests
  to the login, callback, magic-link, logout and tenant endpoints, of which none starts a flow under that state anew,
  every callback with it is refused as invalid and changes nothing.
\<close>

theorem login_state_single_use:
  assumes "distinct (map of_state (ld_flows db))" "fst (flow_consume now s (ld_flows db)) \<noteq> None"
    and "cq_error q = None" "opt_filter (\<lambda>c. c \<noteq> []) (cq_code q) \<noteq> None" "cq_state q = Some s" "s \<noteq> []"
    and "(login_step e s)\<^sup>*\<^sup>* (snd (callback e tick now r h q db)) db2"
    and "cq_error q2 = None" "opt_filter (\<lambda>c. c \<noteq> []) (cq_code q2) \<noteq> None" "cq_state q2 = Some s"
  shows "callback e tick2 now2 r2 h2 q2 db2 = (Some (api_reply (api_error.BadRequest ''INVALID_STATE'')), db2)"
proof -
  have cb: "\<exists>code. callback e t n r' h' q' d = finish_callback e t n r' (is_json_accept h') h' code s d"
    if "cq_error q' = None" "opt_filter (\<lambda>c. c \<noteq> []) (cq_code q') \<noteq> None" "cq_state q' = Some s" for q' t n r' h' d
    using that assms(6) by (auto simp: callback_def opt_filter_def split: option.splits if_splits)
  obtain f fs where "flow_consume now s (ld_flows db) = (Some f, fs)" using assms(2) by (metis prod.collapse option.exhaust)
  from flow.consumed_spent [OF assms(1) this] finish_callback_flows cb [OF assms(3-5)] this
  have "taken of_state s (ld_flows (snd (callback e tick now r h q db)))" by (metis snd_conv)
  from finish_callback_taken [OF login_steps_taken [OF assms(7) this]] cb [OF assms(8-10)] show ?thesis by metis
qed


text \<open>
  C17: starting and finishing a login fit together. When \<open>/login\<close> answers, the flow it stored is the one a callback with
  its state takes out again within ten minutes, leaving the table as it was; the verifier then decrypted is the one
  whose challenge went into the authorization URL; and the target the browser is sent to after the login is the one
  that \<open>/login\<close> was given.
\<close>

theorem login_callback_roundtrip:
  assumes "begin_oidc_flow e now r return_to invite prompt db = (Inr (Some url), db1)"
    and "\<And>s. co_decode (le_cipher e) (co_encode (le_cipher e) s) = Some s"
    and "\<And>n p. co_open (le_cipher e) n (co_seal (le_cipher e) n p) = Some p" "\<And>n p. co_seal (le_cipher e) n p \<noteq> []"
    and "length (fr_cipher_nonce r) = NONCE_LEN" "now2 < now + 600000000"
  shows "\<exists>flow verifier. flow_consume now2 (fr_state r) (ld_flows db1) = (Some flow, ld_flows db) \<and>
    of_nonce flow = fr_nonce r \<and> cipher_decrypt (le_cipher e) (of_code_verifier_encrypted flow) = Inr verifier \<and>
    authorization_url (le_idp_ops e) (le_idp e) (oe_base_url (le_app e) @ ''/callback'') (fr_state r) (fr_nonce r)
      (Some (io_b64 (le_id_ops e) (io_hash (le_id_ops e) verifier))) prompt = Some url \<and>
    (\<forall>tick lr code ctx sid target d d'. complete_oidc e tick now2 lr code flow ctx d = (Inr (sid, target), d') \<longrightarrow> target = return_to)"
proof -
  let ?f = "oidc_flow_of e now r return_to invite"
  let ?p = "pkce_generate (io_b64 (le_id_ops e)) (io_hash (le_id_ops e)) (fr_pkce r)"
  from assms(1) have new: "of_state ?f \<notin> of_state ` set (ld_flows db)" and db1: "ld_flows db1 = ld_flows db @ [?f]"
    and url: "authorization_url (le_idp_ops e) (le_idp e) (oe_base_url (le_app e) @ ''/callback'') (fr_state r) (fr_nonce r)
      (Some (pp_challenge ?p)) prompt = Some url"
    by (auto simp: begin_oidc_flow_def flow_save_def split: prod.splits sum.splits if_splits)
  have st: "of_state ?f = fr_state r" and live: "flow_live now2 ?f"
    using assms(6) by (simp_all add: oidc_flow_of_def flow_live_def FLOW_TTL_SECS_def)
  have ne: "of_state x \<noteq> fr_state r" if "x \<in> set (ld_flows db)" for x using new st that by (metis imageI)
  then have "find (\<lambda>x. of_state x = fr_state r \<and> flow_live now2 x) (ld_flows db) = None"
    by (auto simp: find_None_iff)
  moreover have "filter (\<lambda>x. \<not> (of_state x = fr_state r \<and> flow_live now2 x)) (ld_flows db) = ld_flows db"
    using ne by (intro filter_True) auto
  ultimately have "flow_consume now2 (fr_state r) (ld_flows db1) = (Some ?f, ld_flows db)"
    using st live by (simp add: flow_consume_def take_live_def take_row_def db1 find_append)
  moreover have "cipher_decrypt (le_cipher e) (of_code_verifier_encrypted ?f) = Inr (pp_verifier ?p)"
    using cipher_roundtrip [OF assms(2,3) assms(5,4)] by (simp add: oidc_flow_of_def)
  moreover have "target = return_to" if "complete_oidc e tick now2 lr code ?f ctx d = (Inr (sid, target), d')" for tick lr code ctx sid target d d'
    using that
  proof (cases rule: complete_oidc_ok)
    case 1
    from open_session_ok [OF 1(4)] show ?thesis by (simp add: oidc_flow_of_def unwrap_or_def)
  qed
  ultimately show ?thesis using url by (auto simp: pkce_generate_def Let_def oidc_flow_of_def)
qed

text \<open>
  What the risk score can do. A level lies between 1 and 6 and grows with the signals; in a login, where only an unknown
  device and a changed address are observed, it is at most 4: the session is marked for a step-up exactly when
  both hold, and no login is ever refused as blocked.
\<close>

theorem risk_bounds:
  "1 \<le> unat (risk_score s extra) \<and> unat (risk_score s extra) \<le> 6 \<and>
   (case assess e u ctx db of ((level, decision), new_device, changed, db') \<Rightarrow>
      unat level \<le> 4 \<and> (decision = StepUp \<longleftrightarrow> new_device \<and> changed)) \<and>
   fst (complete_oidc e tick now r code flow ctx db) \<noteq> Inl (Forbidden ''LOGIN_BLOCKED'')"
proof -
  have "fst (open_session e now r u t ctx rt em db) \<noteq> Inl (Forbidden ''LOGIN_BLOCKED'')" for u t rt em and db :: "'a login_db_scheme"
  proof -
    obtain level d a b db1 where a: "assess e u ctx db = ((level, d), a, b, db1)" by (metis surj_pair)
    from assess_decision(1) [OF a] show ?thesis by (auto simp: open_session_def a split: prod.splits sum.splits)
  qed
  moreover have "idp_identity e tick now code flow \<noteq> Inl (Forbidden ''LOGIN_BLOCKED'')"
    by (auto simp: idp_identity_def split: sum.splits option.splits if_splits)
  moreover have "resolve_user e now r sub em v name db \<noteq> (Inl (Forbidden x), d)" for sub em v name x d
    by (auto simp: resolve_user_def split: option.splits prod.splits sum.splits)
  moreover have "resolve_tenant e now r u em d0 \<noteq> (Inl (Forbidden x), d)" for u em x and d0 d :: "'a login_db_scheme"
    by (auto simp: resolve_tenant_def personal_tenant_def split: option.splits prod.splits sum.splits)
  ultimately have "fst (complete_oidc e tick now r code flow ctx db) \<noteq> Inl (Forbidden ''LOGIN_BLOCKED'')"
    unfolding complete_oidc_def by (auto split: sum.splits prod.splits)
  moreover have "1 \<le> unat (risk_score s extra) \<and> unat (risk_score s extra) \<le> 6"
    by (simp add: risk_score_eq risk_points_def)
  moreover obtain level d a b db1 where a: "assess e u ctx db = ((level, d), a, b, db1)" by (metis surj_pair)
  ultimately show ?thesis using assess_decision(1,2) [OF a] by (simp add: a)
qed

section \<open>Ways around the checks\<close>

text \<open>
  Kept as facts about the code: an address the provider has not verified still signs in as the user who has it, and makes
  that user active again; a user marked as deleted signs in; two users with the same local part of their addresses cannot both
  get a personal tenant, so the second cannot sign in at all; an issuer that ends in a slash refuses every
  ID token whose issuer does too; the verifier of ID tokens is new in every login, so its key cache is never
  used; and the audit trail stores session ids as they are.
\<close>

lemma unverified_email_takes_account:
  assumes "identity_find_by_subject (ic_provider (le_idp e)) sub (op_identities db) = None"
    and "user_find_by_email em (ad_users db) = Some victim" "ic_provider (le_idp e) \<noteq> ''google''"
  shows "\<exists>u db'. resolve_user e now r sub em False name db = (Inr u, db') \<and> us_id u = us_id victim \<and> us_is_active u"
  using assms by (simp add: resolve_user_def user_upsert_def)

lemma deleted_user_signs_in:
  assumes "user_find_by_email em (ad_users db) = Some u" "us_deleted_at u = Some t"
  shows "magic_user e now r em db = (Inr u, db)"
  using assms by (simp add: magic_user_def)

lemma shared_local_part_refused:
  assumes "local_part em \<in> set (map tn_slug (ad_tenants db))" "first_tenant e u db = None"
  shows "resolve_tenant e now r u em db = (Inl InternalError, db)" "magic_tenant e now r u em db = (Inl InternalError, db)"
  using assms by (simp_all add: resolve_tenant_def magic_tenant_def personal_tenant_def tenant_create_personal_def tenant_create_def)

lemma slash_issuer_refused:
  assumes "ends_with (ik_iss c) ''/''"
  shows "check_id_claims io now (from_issuer (trim_end_matches issuer CHR ''/'') cid) nonce tok c \<noteq> Inr c'"
  using assms trim_end_no_slash [of issuer "CHR ''/''"] by (auto simp: check_id_claims_def from_issuer_def verifier_new_def)

lemma fresh_verifier_fetches:
  "fst (jwks_cached io now (from_issuer i cid)) =
     (case fetched id (io_jwks io (iv_jwks_uri (from_issuer i cid))) of Inl x \<Rightarrow> Inl (JwksFetchFailed x) | Inr ks \<Rightarrow> Inr ks)"
  by (simp add: jwks_cached_def from_issuer_def verifier_new_def split: sum.split)

lemma audit_holds_session_id:
  assumes "open_session e now r u t ctx rt em db = (Inr (sid, target), db')"
  shows "\<exists>row. ld_audit db' = ld_audit db @ [row] \<and> al_target_id row = Some sid"
proof -
  obtain level d a b db1 where a: "assess e u ctx db = ((level, d), a, b, db1)" by (metis surj_pair)
  then have "ld_audit db1 = ld_audit db" by (auto simp: assess_def Let_def split: prod.splits)
  with assms show ?thesis
    by (auto simp: open_session_def a publish_and_audit_def publish_def split: if_splits prod.splits sum.splits)
qed

end
