(* ===== verification/Forward_Safety.thy ===== *)
theory Forward_Safety
  imports Forward_Auth
begin

text \<open>
  What an answer of 200 from \<open>/auth/verify\<close> rests on, and what follows for the gateway when the auth server
  is the one that answers it: \<open>ground\<close> lists the four ways to be let in, each with the identity headers it
  gives.
\<close>

definition role_met :: "string option \<Rightarrow> string list \<Rightarrow> bool" where
  "role_met required roles \<longleftrightarrow>
     (case required of
        None \<Rightarrow> True
      | Some r \<Rightarrow> is_known_role default_policy (to_upper r) \<and>
                 (\<exists>x \<in> set roles. is_at_least default_policy x (to_upper r)))"

definition bearer_headers :: "volta_claims \<Rightarrow> (string \<times> string) list" where
  "bearer_headers c =
     Session_Jwt.to_volta_headers c @ [(''x-volta-auth-source'', ''bearer'')]
     @ opt_header ''x-volta-token-id'' (cl_jti c) @ opt_header ''x-volta-scope'' (cl_scope c)"

definition session_token :: "app_state \<Rightarrow> time \<Rightarrow> session_record \<Rightarrow> (string \<times> string) list" where
  "session_token st now s =
     (case jwt_issue (oe_session_issuer st) (unix_secs now) (session_claims s) of
        Inl _ \<Rightarrow> [] | Inr jwt \<Rightarrow> [(''x-volta-jwt'', jwt)])"

inductive ground ::
    "app_state \<Rightarrow> (store_call \<Rightarrow> bool) \<Rightarrow> time \<Rightarrow> ip_addr option \<Rightarrow> header_map \<Rightarrow> 'a login_db_scheme \<Rightarrow>
     string \<Rightarrow> string \<Rightarrow> (string \<times> string) set \<Rightarrow> bool"
  for st down now peer h db host uri where
  by_grant:
    "credential st h = Some token \<Longrightarrow> g \<in> set (ld_temporary db) \<Longrightarrow> tg_token_hash g = oe_sha256_hex st token \<Longrightarrow>
     is_active_for g host now \<Longrightarrow> ground st down now peer h db host uri (set (temporary_headers st g))"
| by_token:
    "credential st h = Some token \<Longrightarrow> jwt_verify st token = Inr c \<Longrightarrow> allows_audience c host \<Longrightarrow>
     role_met (required_role h) (claim_roles c) \<Longrightarrow> ground st down now peer h db host uri (set (bearer_headers c))"
| by_session:
    "extract_session_id st h = Some sid \<Longrightarrow> pg_find (unix_secs now) sid (ad_sessions db) = Some s \<Longrightarrow>
     \<not> tenant_suspended st down s db \<Longrightarrow> role_met (required_role h) (sr_roles s) \<Longrightarrow>
     sr_mfa_verified_at s \<noteq> None \<or> is_mfa_path uri \<or> \<not> needs_challenge st down s db \<Longrightarrow>
     ground st down now peer h db host uri (set (session_headers s @ session_token st now s))"
| by_network:
    "extract_session_id st h = None \<Longrightarrow> matches_request (st_net st) (st_local_bypass st) h peer \<Longrightarrow>
     ground st down now peer h db host uri {(''x-volta-auth-source'', ''local-bypass'')}"

section \<open>Single paths\<close>

lemma check_role_None: "check_role st h roles = None \<longleftrightarrow> role_met (required_role h) roles"
  by (auto simp: check_role_def role_met_def enforce_min_role_def list_ex_iff
      split: option.splits policy_result.splits if_splits)

lemma check_role_status: "check_role st h roles = Some r \<Longrightarrow> rs_status r = 403"
  by (auto simp: check_role_def role_denied_def split: option.splits policy_result.splits)

lemma denied_status [simp]: "rs_status (denied x) = 403"
  by (simp add: denied_def)

lemma lowered_id: "list_all (\<lambda>(n, s). to_lower n = n) hs \<Longrightarrow> lowered hs = set hs"
  by (force simp: list_all_iff)

lemma lower_names:
  "lowered (temporary_headers st g) = set (temporary_headers st g)"
  "lowered (session_headers s @ session_token st now s) = set (session_headers s @ session_token st now s)"
  "lowered (Session_Jwt.to_volta_headers c) = set (Session_Jwt.to_volta_headers c)"
  "lowered (opt_header ''x-volta-token-id'' j @ opt_header ''x-volta-scope'' sc) =
     set (opt_header ''x-volta-token-id'' j @ opt_header ''x-volta-scope'' sc)"
  by (rule lowered_id; simp add: temporary_headers_def session_headers_def session_token_def opt_header_def
      Session_Jwt.to_volta_headers_def to_lower_def ascii_lower_def split: option.splits sum.splits)+

lemma temporary_path_200:
  assumes "temporary_path st down now host token db = Some r" "rs_status r = 200" "value_exact st"
  obtains g where "g \<in> set (ld_temporary db)" "tg_token_hash g = oe_sha256_hex st token" "is_active_for g host now"
    "emits st (set (temporary_headers st g)) r"
proof -
  from assms(1,2) obtain g r' where g: "find_temporary_access_by_hash (oe_sha256_hex st token) (ld_temporary db) = Some g"
    "is_active_for g host now" and r: "insert_parsed st (temporary_headers st g) (status_reply 200) = Some r'" "r = no_cache_headers r'"
    by (auto simp: temporary_path_def opt_filter_def split: option.splits if_splits)
  from emits_insert_parsed [OF assms(3) r(1) emits_status] have "emits st (set (temporary_headers st g)) r"
    by (simp add: lower_names r(2))
  moreover from g(1) have "g \<in> set (ld_temporary db)" "tg_token_hash g = oe_sha256_hex st token"
    by (auto simp: find_temporary_access_by_hash_def find_Some_iff)
  ultimately show ?thesis using g(2) that by blast
qed

lemma bearer_ok_emits: "value_exact st \<Longrightarrow> emits st (set (bearer_headers c)) (bearer_ok st c)"
proof -
  assume e: "value_exact st"
  have "emits st (set (Session_Jwt.to_volta_headers c)) (insert_valid st (Session_Jwt.to_volta_headers c) (status_reply 200))"
    using emits_insert_valid [OF e emits_status, of "Session_Jwt.to_volta_headers c" 200] by (simp add: lower_names)
  from emits_insert_valid [OF e emits_with_header [OF this, of "''x-volta-auth-source''" "HText ''bearer''"],
      of "opt_header ''x-volta-token-id'' (cl_jti c) @ opt_header ''x-volta-scope'' (cl_scope c)"]
  show ?thesis unfolding bearer_ok_def emits_no_cache lower_names
    by (rule emits_mono) (auto simp: bearer_headers_def to_lower_def ascii_lower_def)
qed

lemma session_ok_emits:
  assumes "session_ok st now s = Some r" "value_exact st"
  shows "emits st (set (session_headers s @ session_token st now s)) r \<and> rs_status r = 200"
proof -
  from assms(1) obtain r' where r: "insert_parsed st (session_headers s @ session_token st now s) (status_reply 200) = Some r'"
    "r = no_cache_headers r'" by (auto simp: session_ok_def session_token_def)
  show ?thesis
    using emits_insert_parsed [OF assms(2) r(1) emits_status] insert_parsed_status [OF r(1)]
    by (simp only: lower_names r(2) emits_no_cache rs_no_cache rs_reply Un_empty_left simp_thms)
qed

lemma local_ok_emits: "emits st {(''x-volta-auth-source'', ''local-bypass'')} local_ok"
  using emits_with_header [OF emits_status, of st "''x-volta-auth-source''" "HText ''local-bypass''" 200]
  by (simp add: local_ok_def to_lower_def ascii_lower_def)

lemma session_path_200:
  assumes "session_path st down now h uri to_login sid db = Some r" "rs_status r = 200" "rs_status to_login = 401"
  obtains s where "pg_find (unix_secs now) sid (ad_sessions db) = Some s" "\<not> tenant_suspended st down s db"
    "role_met (required_role h) (sr_roles s)"
    "sr_mfa_verified_at s \<noteq> None \<or> is_mfa_path uri \<or> \<not> needs_challenge st down s db" "session_ok st now s = Some r"
proof -
  from assms obtain s where s: "pg_find (unix_secs now) sid (ad_sessions db) = Some s" "\<not> tenant_suspended st down s db"
    and rest: "(case check_role st h (sr_roles s) of Some r \<Rightarrow> Some r
       | None \<Rightarrow> (if sr_mfa_verified_at s = None \<and> \<not> is_mfa_path uri \<and> needs_challenge st down s db
            then Some (challenge st) else session_ok st now s)) = Some r"
    by (auto simp: session_path_def split: option.splits if_splits)
  then have c: "check_role st h (sr_roles s) = None"
    using check_role_status assms(2) by (fastforce split: option.splits)
  have "rs_status (challenge st) = 401" by (simp add: challenge_def)
  with rest c assms(2) have "\<not> (sr_mfa_verified_at s = None \<and> \<not> is_mfa_path uri \<and> needs_challenge st down s db)"
    "session_ok st now s = Some r" by (auto split: if_splits)
  with s c that show ?thesis by (simp add: check_role_None)
qed

section \<open>The endpoint\<close>

lemma to_login_status [simp]: "rs_status (redirect_to_login st p host uri) = 401"
  by (simp add: redirect_to_login_def)

lemma verify_cases:
  assumes "auth_verify st down now peer h db = Some r" "rs_status r = 200"
  obtains (grant) host uri token where "h_str h ''x-forwarded-host'' = Some host" "h_str h ''x-forwarded-uri'' = Some uri"
      "credential st h = Some token" "temporary_path st down now host token db = Some r"
    | (token) host uri token c where "h_str h ''x-forwarded-host'' = Some host" "h_str h ''x-forwarded-uri'' = Some uri"
      "credential st h = Some token" "jwt_verify st token = Inr c" "bearer_path st h host c = r"
    | (cookie) host uri where "h_str h ''x-forwarded-host'' = Some host" "h_str h ''x-forwarded-uri'' = Some uri"
      "cookie_path st down now peer h host uri db = Some r"
proof -
  have "rs_status (api_reply (Unauthorized ''AUTHENTICATION_REQUIRED'')) = 401" by simp
  with assms obtain host uri where f: "h_str h ''x-forwarded-host'' = Some host" "h_str h ''x-forwarded-uri'' = Some uri"
    by (auto simp: auth_verify_def split: option.splits)
  show ?thesis
  proof (cases "credential st h")
    case None
    with assms(1) f have "cookie_path st down now peer h host uri db = Some r" by (simp add: auth_verify_def)
    with cookie f show ?thesis by blast
  next
    case (Some t)
    with assms(1) f grant [OF f Some] token [OF f Some] cookie [OF f] show ?thesis
      by (cases "starts_with t ''vta_''"; cases "jwt_verify st t") (simp_all add: auth_verify_def)
  qed
qed

lemma cookie_path_grounded:
  assumes "cookie_path st down now peer h host uri db = Some r" "rs_status r = 200" "value_exact st"
  shows "\<exists>pairs. ground st down now peer h db host uri pairs \<and> emits st pairs r"
proof (cases "extract_session_id st h")
  case None
  with assms(1,2) have "matches_request (st_net st) (st_local_bypass st) h peer" "r = local_ok"
    by (auto simp: cookie_path_def Let_def split: if_splits)
  with None local_ok_emits show ?thesis by (metis ground.by_network)
next
  case (Some sid)
  with assms(1) obtain to_login where "session_path st down now h uri to_login sid db = Some r" "rs_status to_login = 401"
    by (simp add: cookie_path_def Let_def)
  from session_path_200 [OF this(1) assms(2) this(2)] Some session_ok_emits assms(3) show ?thesis
    by (metis ground.by_session)
qed

lemma verify_grounded:
  assumes "auth_verify st down now peer h db = Some r" "rs_status r = 200" "value_exact st"
  shows "\<exists>host uri pairs. h_str h ''x-forwarded-host'' = Some host \<and> h_str h ''x-forwarded-uri'' = Some uri \<and>
    ground st down now peer h db host uri pairs \<and> emits st pairs r"
  using assms(1,2)
proof (cases rule: verify_cases)
  case (grant host uri token)
  with temporary_path_200 assms(2,3) show ?thesis by (metis ground.by_grant)
next
  case (token host uri token c)
  with assms(2) have "allows_audience c host" "check_role st h (claim_roles c) = None" "r = bearer_ok st c"
    using check_role_status by (fastforce simp: bearer_path_def split: if_splits option.splits)+
  with token bearer_ok_emits assms(3) show ?thesis by (metis ground.by_token check_role_None)
next
  case (cookie host uri)
  with cookie_path_grounded assms(2,3) show ?thesis by blast
qed

section \<open>Through the gateway\<close>

text \<open>The auth server as the other end of the gateway's verification request; a panic closes the connection.\<close>

definition served ::
    "app_state \<Rightarrow> (store_call \<Rightarrow> bool) \<Rightarrow> time \<Rightarrow> ip_addr option \<Rightarrow> (reply_body \<Rightarrow> string) \<Rightarrow> 'a login_db_scheme \<Rightarrow>
     http_request \<Rightarrow> exchange" where
  "served st down now peer render db q =
     (case auth_verify st down now peer (hq_headers q) db of
        None \<Rightarrow> SendError ''connection closed''
      | Some r \<Rightarrow> Answer \<lparr> hr_status = rs_status r, hr_headers = rs_headers r, hr_body = render (rs_body r) \<rparr>)"

lemma request_names:
  "to_lower ''X-Forwarded-Host'' = ''x-forwarded-host''" "to_lower ''X-Forwarded-Uri'' = ''x-forwarded-uri''"
  "to_lower ''X-Forwarded-Proto'' = ''x-forwarded-proto''" "to_lower ''Cookie'' = ''cookie''"
  "to_lower ''Authorization'' = ''authorization''" "to_lower ''X-Volta-App-Id'' = ''x-volta-app-id''"
  "to_lower ''X-Volta-Required-Role'' = ''x-volta-required-role''" "to_lower ''X-Real-IP'' = ''x-real-ip''"
  "to_lower ''x-forwarded-host'' = ''x-forwarded-host''" "to_lower ''x-forwarded-uri'' = ''x-forwarded-uri''"
  "to_lower ''x-volta-required-role'' = ''x-volta-required-role''"
  by code_simp+

lemma built_headers:
  assumes "build_headers w (verify_headers q) = Some hs"
  shows "h_str hs ''x-forwarded-host'' = Some (aq_host q)" "h_str hs ''x-forwarded-uri'' = Some (aq_uri q)"
    "h_str hs ''x-volta-required-role'' = aq_min_role q"
proof -
  have hs: "hs = map (\<lambda>(n, v). (to_lower n, HText v)) (verify_headers q)"
    using assms by (auto simp: build_headers_def split: if_splits)
  show "h_str hs ''x-forwarded-host'' = Some (aq_host q)" "h_str hs ''x-forwarded-uri'' = Some (aq_uri q)"
    by (simp_all add: hs verify_headers_def h_str_def h_get_def request_names)
  show "h_str hs ''x-volta-required-role'' = aq_min_role q"
    by (cases "aq_cookie q"; cases "aq_bearer q"; cases "aq_app_id q"; cases "aq_min_role q"; cases "aq_client_ip q")
      (simp_all add: hs verify_headers_def h_str_def h_get_def request_names opt_header_def)
qed

lemma gateway_grounded:
  assumes "check_with_degraded_policy (w \<lparr> aw_send := served st down now peer render db \<rparr>) vc q False = (Authenticated vh, vc')"
    and "value_exact st"
  shows "\<exists>hs pairs. build_headers (aw_web w) (verify_headers q) = Some hs \<and>
    ground st down now peer hs db (aq_host q) (aq_uri q) pairs \<and> set vh \<subseteq> pairs \<and>
    required_role hs = opt_filter (\<lambda>s. s \<noteq> []) (map_option trim (aq_min_role q))"
proof -
  from check_authenticated [OF assms(1)] obtain hs resp where hs: "build_headers (aw_web w) (verify_headers q) = Some hs"
    and resp: "served st down now peer render db \<lparr> hq_method = ''GET'',
        hq_uri = parse_uri (aw_web w) (vc_base_url vc @ vc_verify_path vc), hq_headers = hs \<rparr> = Answer resp"
      "hr_status resp = 200" "vh = volta_headers_of (hr_headers resp)"
    by (auto simp: online_ok_def)
  from resp obtain r where r: "auth_verify st down now peer hs db = Some r" "rs_status r = 200"
      "vh = volta_headers_of (rs_headers r)"
    by (auto simp: served_def split: option.splits)
  from verify_grounded [OF r(1,2) assms(2)] built_headers [OF hs] obtain pairs where
    "ground st down now peer hs db (aq_host q) (aq_uri q) pairs" "emits st pairs r" by auto
  with emits_gateway built_headers(3) [OF hs] hs r(3) show ?thesis by (fastforce simp: required_role_def)
qed

section \<open>Sessions through the endpoint\<close>

text \<open>A request that carries nothing but a session cookie.\<close>

definition cookie_request :: "app_state \<Rightarrow> header_map \<Rightarrow> string \<Rightarrow> string \<Rightarrow> string \<Rightarrow> bool" where
  "cookie_request st h sid host uri \<longleftrightarrow>
     extract_session_id st h = Some sid \<and> credential st h = None \<and>
     h_str h ''x-forwarded-host'' = Some host \<and> h_str h ''x-forwarded-uri'' = Some uri"

abbreviation login_for :: "app_state \<Rightarrow> header_map \<Rightarrow> string \<Rightarrow> string \<Rightarrow> reply" where
  "login_for st h host uri \<equiv> redirect_to_login st (unwrap_or ''http'' (h_str h ''x-forwarded-proto'')) host uri"

lemma verify_cookie_request:
  "cookie_request st h sid host uri \<Longrightarrow>
   auth_verify st down now peer h db = session_path st down now h uri (login_for st h host uri) sid db"
  by (simp add: cookie_request_def auth_verify_def cookie_path_def Let_def)

lemma dead_cookie_refused:
  assumes "cookie_request st h sid host uri" "pg_find (unix_secs now) sid (ad_sessions db) = None"
  shows "auth_verify st down now peer h db = Some (login_for st h host uri)"
  by (simp add: verify_cookie_request [OF assms(1)] session_path_def assms(2))

lemma logout_sessions:
  assumes "extract_session_id st h = Some sid"
  shows "ad_sessions (snd (logout_get st now q rt h db)) = pg_revoke (unix_secs now) sid (ad_sessions db)"
    "ad_sessions (snd (logout_post st now q h db)) = pg_revoke (unix_secs now) sid (ad_sessions db)"
  using assms
  by (simp_all add: logout_get_def logout_post_def end_cookie_session_def publish_logout_event_def Let_def)

lemma revoked_cookie_refused:
  assumes "pg_inv (ad_sessions db)" "pg_fits (unix_secs now)" "ad_sessions db1 = pg_revoke (unix_secs now) sid (ad_sessions db)"
    and "list_all (later_op pg_fits pg_storable (unix_secs now) sid) ops"
    and "ad_sessions db2 = fold (apply_op pg_ops) ops (ad_sessions db1)"
    and "unix_secs now \<le> unix_secs now2" "pg_fits (unix_secs now2)" "cookie_request st h sid host uri"
  shows "auth_verify st down now2 peer h db2 = Some (login_for st h host uri)"
proof -
  have r: "so_revoke pg_ops = pg_revoke" "so_find pg_ops = pg_find" by (simp_all add: pg_ops_def)
  have "pg_inv (ad_sessions db1)" using pg.revoke_abs [OF assms(1,2), of sid] assms(3) r by simp
  moreover have "pg.dead (unix_secs now) sid (ad_sessions db1)"
    using pg.revoke_dead [OF assms(1,2), of _ sid] assms(3) r by simp
  ultimately have "pg_find (unix_secs now2) sid (ad_sessions db2) = None"
    using pg.dead_forever [OF _ _ assms(4,6,7)] assms(5) r by simp
  with dead_cookie_refused [OF assms(8)] show ?thesis by blast
qed

section \<open>The second factor\<close>

definition mfa_view :: "'a login_db_scheme \<Rightarrow> mfa_db" where
  "mfa_view db = \<lparr> db_sessions = ad_sessions db, db_mfa = ld_mfa db, db_recovery = ld_recovery db \<rparr>"

definition with_mfa :: "mfa_db \<Rightarrow> 'a login_db_scheme \<Rightarrow> 'a login_db_scheme" where
  "with_mfa m db = db \<lparr> ad_sessions := db_sessions m, ld_mfa := db_mfa m, ld_recovery := db_recovery m \<rparr>"

lemma with_mfa_tables [simp]:
  "ad_tenants (with_mfa m db) = ad_tenants db" "ad_sessions (with_mfa m db) = db_sessions m"
  by (simp_all add: with_mfa_def)

lemma mfa_accepted:
  "mfa_verify_login e now (Some sid) code db = (Inr (), db') \<Longrightarrow> db_sessions db' = pg_mark_mfa_verified now sid (db_sessions db)"
  unfolding mfa_verify_login_def Let_def by (auto split: option.splits if_splits prod.splits)

lemma mark_find:
  assumes "pg_inv t" "pg_fits now" "pg_find now sid t = Some s"
  shows "pg_find now sid (pg_mark_mfa_verified now sid t) = Some (s \<lparr> sr_mfa_verified_at := Some now \<rparr>)"
proof -
  have r: "so_mark_mfa_verified pg_ops = pg_mark_mfa_verified" "so_find pg_ops = pg_find" by (simp_all add: pg_ops_def)
  have "pg_abs t sid = Some s" "is_valid_at s now"
    using assms(3) pg.find_abs [OF assms(1,2), of sid] by (auto simp: r opt_filter_def split: option.splits if_splits)
  then show ?thesis
    using pg.mark_abs [OF assms(1,2), of sid] pg.find_abs [OF _ assms(2), of "pg_mark_mfa_verified now sid t" sid]
    by (simp add: r opt_filter_def is_valid_at_def)
qed

lemma pending_session_stopped:
  assumes "cookie_request st h sid host uri" "pg_find (unix_secs now) sid (ad_sessions db) = Some s"
    and "sr_mfa_verified_at s = None" "\<not> is_mfa_path uri" "needs_challenge st down s db"
  shows "\<exists>r. auth_verify st down now peer h db = Some r \<and> rs_status r \<in> {401, 403}"
proof -
  have "rs_status (challenge st) = 401" by (simp add: challenge_def)
  moreover have "rs_status (login_for st h host uri) = 401" by simp
  ultimately show ?thesis using assms(2-) check_role_status [of st h "sr_roles s"]
    unfolding verify_cookie_request [OF assms(1)] session_path_def by (auto split: option.splits)
qed

lemma verified_session_passes:
  assumes "cookie_request st h sid host uri" "pg_find (unix_secs now) sid (ad_sessions db) = Some s"
    and "sr_mfa_verified_at s \<noteq> None" "\<not> tenant_suspended st down s db" "role_met (required_role h) (sr_roles s)"
    and "\<not> down FindSession"
  shows "auth_verify st down now peer h db = session_ok st now s"
  using assms check_role_None [of st h "sr_roles s"]
  by (auto simp: verify_cookie_request [OF assms(1)] session_path_def)

section \<open>Changing tenant\<close>

lemma find_revoked: "pg_find now sid (pg_revoke now' sid t) = None"
  by (induction t) (simp_all add: pg_find_def pg_revoke_def row_live_def)

lemma switch_tenant_ok:
  assumes "switch_tenant st now new_sid h text db = (Some r, db')" "rs_status r = 200"
  obtains sid s tid uid m t where
    "extract_session_id st h = Some sid" "pg_find (unix_secs now) sid (ad_sessions db) = Some s"
    "oe_parse_uuid st text = Some tid" "oe_parse_uuid st (sr_user_id s) = Some uid"
    "member_find uid tid (ad_members db) = Some m" "mb_is_active m" "tenant_find_by_id tid (ad_tenants db) = Some t"
    "new_sid \<notin> set (map row_id (ad_sessions db))"
    "db' = db \<lparr> ad_sessions := pg_revoke (unix_secs now) sid (ad_sessions db) @
        [to_row (switched_session st now new_sid text (tn_slug t) (mb_role m) s)] \<rparr>"
proof -
  have e: "rs_status (api_reply x) \<noteq> 200" for x using api_status_not_200 [of x] by auto
  obtain sid s tid uid m where 1:
    "extract_session_id st h = Some sid" "pg_find (unix_secs now) sid (ad_sessions db) = Some s"
    "oe_parse_uuid st text = Some tid" "oe_parse_uuid st (sr_user_id s) = Some uid"
    "member_find uid tid (ad_members db) = Some m" "mb_is_active m"
    using assms e unfolding switch_tenant_def Let_def by (auto split: option.splits if_splits)
  moreover obtain t where 2: "tenant_find_by_id tid (ad_tenants db) = Some t"
    using assms e 1 unfolding switch_tenant_def Let_def by (auto split: option.splits)
  moreover have "map row_id (pg_revoke n sid t) = map row_id t" for n t by (simp add: pg_revoke_def comp_def cong: map_cong)
  moreover have "new_sid \<notin> set (map row_id (pg_revoke (unix_secs now) sid (ad_sessions db)))"
    using assms e 1 2 by (auto simp: switch_tenant_def pg_create_def switched_session_def)
  ultimately show ?thesis
    using assms that [OF 1 2] by (auto simp: switch_tenant_def pg_create_def switched_session_def)
qed

section \<open>Properties\<close>


text \<open>
  C14: logging out is final. After either logout endpoint, and any later operations on the session table that do not
  create a session of that id, a request carrying the old cookie and no other credential is sent to the login page,
  whatever lookups fail.
\<close>

theorem logout_ends_access:
  assumes "extract_session_id st h = Some sid" "pg_inv (ad_sessions db)" "pg_fits (unix_secs now)"
    and "db1 = snd (logout_get st now q rt h db) \<or> db1 = snd (logout_post st now q h db)"
    and "list_all (later_op pg_fits pg_storable (unix_secs now) sid) ops"
    and "ad_sessions db2 = fold (apply_op pg_ops) ops (ad_sessions db1)"
    and "unix_secs now \<le> unix_secs now2" "pg_fits (unix_secs now2)" "cookie_request st h2 sid host uri"
  shows "auth_verify st down now2 peer h2 db2 = Some (login_for st h2 host uri)"
proof -
  have "ad_sessions db1 = pg_revoke (unix_secs now) sid (ad_sessions db)"
    using assms(4) logout_sessions [OF assms(1)] by blast
  from revoked_cookie_refused [OF assms(2,3) this assms(5-9)] show ?thesis .
qed


text \<open>
  Switching tenants. A successful switch needs an active membership of the session's user in the tenant named; it
  ends the old session and adds exactly one, for that user and tenant, with the membership's role as its only role and
  the second factor unverified; nothing else changes.
\<close>

theorem switch_tenant_effect:
  assumes "switch_tenant st now new_sid h text db = (Some r, db')" "rs_status r = 200"
  shows "\<exists>sid s tid uid m t. extract_session_id st h = Some sid \<and> pg_find (unix_secs now) sid (ad_sessions db) = Some s \<and>
    oe_parse_uuid st text = Some tid \<and> oe_parse_uuid st (sr_user_id s) = Some uid \<and>
    member_find uid tid (ad_members db) = Some m \<and> mb_is_active m \<and> tenant_find_by_id tid (ad_tenants db) = Some t \<and>
    new_sid \<notin> set (map row_id (ad_sessions db)) \<and> pg_find (unix_secs now) sid (ad_sessions db') = None \<and>
    db' = db \<lparr> ad_sessions := pg_revoke (unix_secs now) sid (ad_sessions db) @
        [to_row (switched_session st now new_sid text (tn_slug t) (mb_role m) s)] \<rparr>"
  using assms
proof (cases rule: switch_tenant_ok)
  case (1 sid s tid uid m t)
  have "sid \<in> set (map row_id (ad_sessions db))" using 1(2) by (auto simp: pg_find_def find_Some_iff)
  then have "new_sid \<noteq> sid" using 1(8) by blast
  then have "pg_find (unix_secs now) sid (ad_sessions db') = None"
    using find_revoked [of "unix_secs now" sid "unix_secs now" "ad_sessions db"]
    by (simp add: 1(9) pg_find_def find_append switched_session_def)
  with 1 show ?thesis by blast
qed

section \<open>Ways around the checks\<close>

text \<open>
  Kept as facts about the code: a temporary grant and a bypassed network are let in whatever role the route requires; a
  token is let in although its tenant is suspended; a failing MFA lookup lets a session without a step-up mark pass; a
  verified token decides even when a session cookie is present; a value that is not a header value makes the
  handler panic; and the check of logout targets looks at the text up to the first slash only.
\<close>

lemma grant_ignores_role:
  assumes "credential st h = Some token" "starts_with token ''vta_''" "h_str h ''x-forwarded-host'' = Some host"
    "h_str h ''x-forwarded-uri'' = Some uri" "\<not> down FindGrant"
    "find_temporary_access_by_hash (oe_sha256_hex st token) (ld_temporary db) = Some g" "is_active_for g host now"
    "\<forall>(n, s) \<in> set (temporary_headers st g). st_value st s \<noteq> None"
  shows "\<exists>r. auth_verify st down now peer h db = Some r \<and> rs_status r = 200"
proof -
  have "\<exists>r'. insert_parsed st hs r = Some r' \<and> rs_status r' = rs_status r"
    if "\<forall>(n, s) \<in> set hs. st_value st s \<noteq> None" for hs r
    using that by (induction st hs r rule: insert_parsed.induct) (auto split: option.splits)
  from this [OF assms(8), of "status_reply 200"] assms(1-7) show ?thesis
    by (auto simp: auth_verify_def temporary_path_def opt_filter_def)
qed

lemma bypass_ignores_role:
  "credential st h = None \<Longrightarrow> extract_session_id st h = None \<Longrightarrow> h_str h ''x-forwarded-host'' = Some host \<Longrightarrow>
   h_str h ''x-forwarded-uri'' = Some uri \<Longrightarrow> matches_request (st_net st) (st_local_bypass st) h peer \<Longrightarrow>
   auth_verify st down now peer h db = Some local_ok"
  by (simp add: auth_verify_def cookie_path_def Let_def)

lemma token_decides:
  "credential st h = Some token \<Longrightarrow> \<not> starts_with token ''vta_'' \<Longrightarrow> jwt_verify st token = Inr c \<Longrightarrow>
   h_str h ''x-forwarded-host'' = Some host \<Longrightarrow> h_str h ''x-forwarded-uri'' = Some uri \<Longrightarrow>
   auth_verify st down now peer h db = Some (bearer_path st h host c)"
  by (simp add: auth_verify_def)

lemma mfa_lookup_fails_open:
  "down HasActiveMfa \<Longrightarrow> \<not> stepup_is_required (sr_session_id s) (ld_stepup db) \<Longrightarrow> \<not> needs_challenge st down s db"
  by (auto simp: needs_challenge_def Let_def split: option.splits)

lemma refused_value_panics:
  assumes "cookie_request st h sid host uri" "pg_find (unix_secs now) sid (ad_sessions db) = Some s"
    and "sr_mfa_verified_at s \<noteq> None" "\<not> tenant_suspended st down s db" "role_met (required_role h) (sr_roles s)"
    and "\<not> down FindSession" "sr_display_name s = Some name" "st_value st name = None"
  shows "auth_verify st down now peer h db = None"
proof -
  have "insert_parsed st hs r = None" if "(n, name) \<in> set hs" for hs n r
    using that by (induction hs arbitrary: r) (auto simp: assms(8) split: option.splits)
  moreover have "(''x-volta-display-name'', name) \<in> set (session_headers s @ hs)" for hs
    by (simp add: session_headers_def assms(7))
  ultimately show ?thesis unfolding verified_session_passes [OF assms(1-6)] session_ok_def by blast
qed

lemma safe_return_to_reads_one_segment: "is_safe_return_to ''https://evil.example?.unlaxer.org''"
  by code_simp

section \<open>A concrete server\<close>

definition demo_app :: app_state where
  "demo_app =
     \<lparr> oe_base_url = ''https://auth.example'', oe_sha256_hex = (\<lambda>s. CHR ''h'' # s), oe_sha256_base64url = (\<lambda>s. CHR ''b'' # s),
       oe_show_uuid = (\<lambda>u. if u = 1 then ''u1'' else if u = 7 then ''t1'' else ''x''),
       oe_parse_uuid = (\<lambda>s. if s = ''u1'' then Some 1 else if s = ''t1'' then Some 7 else if s = ''t2'' then Some 8 else None),
       oe_op_issuer = None, oe_jwt = \<lparr> decode_header = (\<lambda>_. None), jwt_decode = (\<lambda>_ _ _. Inl ''InvalidSignature'') \<rparr>,
       oe_rsa_pem_ok = (\<lambda>_. True), oe_payload = (\<lambda>_. None), oe_dpop = demo_dpop,
       oe_session_issuer = \<lparr> ji_encode = (\<lambda>c. Inr (''jwt:'' @ cl_sub c)), ji_ttl_secs = 3600 \<rparr>, oe_session_ttl_secs = 3600,
       st_jwt_key = ''K'', st_jwt_alg = HS256, st_cookie_domain = [], st_force_secure_cookie = True,
       st_local_bypass = \<lparr> lb_cidrs = [], lb_trusted_proxies = [] \<rparr>,
       st_net = \<lparr> np_net = (\<lambda>_. None), np_ip = (\<lambda>_. None), np_show_ip = (\<lambda>_. []) \<rparr>,
       st_value = (\<lambda>s. Some (HText s)),
       st_redirect = (\<lambda>u. \<lparr> rs_status = 303, rs_headers = [(''location'', HText u)], rs_body = NoBody \<rparr>),
       st_urlencode = pct,
       st_cookie = (\<lambda>h n. if n = COOKIE_NAME then map_option (drop 16) (h_str h ''cookie'') else None),
       st_origin = ''o'' \<rparr>"

definition demo_tenant :: "uuid \<Rightarrow> tenant_record" where
  "demo_tenant i =
     \<lparr> tn_id = i, tn_name = ''T'', tn_slug = ''t'', tn_email_domain = None, tn_auto_join = False, tn_created_by = None,
       tn_created_at = 0, tn_plan = None, tn_max_members = None, tn_is_active = True, tn_mfa_required = False,
       tn_mfa_grace_until = None \<rparr>"

definition demo_login_db :: login_db where
  "demo_login_db =
     \<lparr> ad_sessions = [to_row (demo_user_session ''s1'' ''u1'')], ad_users = [], ad_tenants = [demo_tenant 7, demo_tenant 8],
       ad_members = [demo_member 11 1 7 ''MEMBER'', demo_member 12 1 8 ''ADMIN''], ad_invitations = [], ad_usages = [],
       ad_m2m = [], ad_idps = [], ad_passkeys = [], op_clients = [], op_codes = [], op_refresh = [], op_consents = [],
       op_devices = [], op_identities = [], op_keys = [],
       ld_mfa = [\<lparr> mf_user_id = 1, mf_type = ''totp'', mf_secret = ''K'', mf_is_active = True \<rparr>],
       ld_recovery = [\<lparr> rc_user_id = 1, rc_code_hash = ''#rescue'', rc_used_at = None \<rparr>],
       ld_stepup = [], ld_temporary = [], ld_flows = [], ld_links = [], ld_devices = [], ld_challenges = [],
       ld_audit = [], ld_events = [] \<rparr>"

definition demo_unlocked :: login_db where
  "demo_unlocked = demo_login_db \<lparr> ld_mfa := [] \<rparr>"

definition demo_headers :: header_map where
  "demo_headers =
     [(''x-forwarded-host'', HText ''app.example''), (''x-forwarded-uri'', HText ''/home''),
      (''cookie'', HText ''__volta_session=s1''), (''x-volta-required-role'', HText ''viewer'')]"

abbreviation all_up :: "store_call \<Rightarrow> bool" where "all_up \<equiv> \<lambda>_. False"

lemma demo_app_exact: "value_exact demo_app"
  by (auto simp: value_exact_def demo_app_def)

lemma demo_cookie_request: "cookie_request demo_app demo_headers ''s1'' ''app.example'' ''/home''"
  by code_simp

lemma demo_table_fits: "pg_inv (ad_sessions demo_login_db)" "pg_fits (unix_secs 5000000)" "pg_fits (unix_secs 6000000)"
  by (simp_all add: pg_inv_def demo_login_db_def to_row_def demo_user_session_def pg_fits_def unix_secs_def)

theorem logout_ends_access_witness:
  "auth_verify demo_app all_up 6000000 None demo_headers
     (snd (logout_get demo_app 5000000 1 None demo_headers demo_login_db)) =
   Some (login_for demo_app demo_headers ''app.example'' ''/home'')"
proof -
  have sid: "extract_session_id demo_app demo_headers = Some ''s1''" by code_simp
  have le: "unix_secs 5000000 \<le> unix_secs 6000000" by (simp add: unix_secs_def)
  show ?thesis
    by (rule logout_ends_access [where ops = "[]", OF sid demo_table_fits(1,2) disjI1 [OF refl] _ _ le demo_table_fits(3) demo_cookie_request])
      simp_all
qed

lemma demo_mfa_accepted:
  "mfa_verify_login demo_mfa_env (unix_secs 5000000) (Some ''s1'') ''rescue'' (mfa_view demo_login_db) =
     (Inr (), snd (mfa_verify_login demo_mfa_env (unix_secs 5000000) (Some ''s1'') ''rescue'' (mfa_view demo_login_db)))"
  by code_simp


definition demo_switched :: "reply option \<times> login_db" where
  "demo_switched = switch_tenant demo_app 5000000 ''s9'' demo_headers ''t2'' demo_login_db"

theorem switch_tenant_effect_witness:
  "pg_find (unix_secs 5000000) ''s1'' (ad_sessions (snd demo_switched)) = None"
proof -
  have "extract_session_id demo_app demo_headers = Some ''s1''" by code_simp
  moreover have "map_option rs_status (fst demo_switched) = Some 200" by code_simp
  then obtain r where "demo_switched = (Some r, snd demo_switched)" "rs_status r = 200"
    by (cases "fst demo_switched") (auto simp: prod_eq_iff)
  ultimately show ?thesis using switch_tenant_effect [of demo_app 5000000 "''s9''" demo_headers "''t2''" demo_login_db r "snd demo_switched"]
    unfolding demo_switched_def by auto
qed

definition demo_gateway_query :: auth_query where
  "demo_gateway_query =
     \<lparr> aq_host = ''app.example'', aq_uri = ''/home'', aq_proto = ''https'', aq_cookie = Some ''__volta_session=s1'',
       aq_app_id = None, aq_min_role = Some ''MEMBER'', aq_client_ip = None, aq_bearer = None \<rparr>"

definition demo_check :: "auth_result \<times> auth_client" where
  "demo_check =
     check_with_degraded_policy
       ((demo_world TimedOut) \<lparr> aw_send := served demo_app all_up 5000000 None (\<lambda>_. []) demo_unlocked \<rparr>)
       (demo_client False) demo_gateway_query False"

definition demo_identity :: volta_headers where
  "demo_identity =
     [(''x-volta-jwt'', ''jwt:u1''), (''x-volta-display-name'', []), (''x-volta-roles'', ''MEMBER''),
      (''x-volta-tenant-id'', ''t1''), (''x-volta-user-id'', ''u1'')]"

lemma demo_served:
  "map_option (\<lambda>r. (rs_status r, volta_headers_of (rs_headers r)))
     (auth_verify demo_app all_up 5000000 None (the (build_headers demo_web (verify_headers demo_gateway_query))) demo_unlocked) =
   Some (200, demo_identity)"
  by code_simp

lemma demo_check_result: "fst demo_check = Authenticated demo_identity"
proof -
  obtain hs where hs: "build_headers demo_web (verify_headers demo_gateway_query) = Some hs"
    by (simp add: build_headers_def demo_web_def list_all_iff split_beta)
  with demo_served obtain r where "auth_verify demo_app all_up 5000000 None hs demo_unlocked = Some r" "rs_status r = 200"
    "volta_headers_of (rs_headers r) = demo_identity" by (auto simp: map_option_case split: option.splits)
  with hs show ?thesis
    by (simp add: demo_check_def check_with_degraded_policy_def served_def interpret_answer_def demo_world_def)
qed


end
