(* ===== verification/Login_Examples.thy ===== *)
theory Login_Examples
  imports Login_Safety Forward_Safety
begin

text \<open>A concrete provider, a login through it, and the instances of the properties of logins.\<close>

definition demo_idp :: idp_config where
  "demo_idp =
     \<lparr> ic_provider = ''oidc'', ic_client_id = ''cid'', ic_client_secret = ''cs'', ic_issuer_url = Some ''https://idp.example'',
       ic_auth_url = Some ''https://idp.example/auth'', ic_token_url = Some ''https://idp.example/token'',
       ic_userinfo_url = Some ''https://idp.example/me'', ic_scopes = [] \<rparr>"

definition demo_id_claims :: id_token_claims where
  "demo_id_claims =
     \<lparr> ik_sub = ''sub-1'', ik_email = None, ik_email_verified = None, ik_name = None, ik_iss = ''https://idp.example'',
       ik_aud = [''cid''], ik_exp = 100, ik_iat = 5, ik_nonce = Some ''nonce'', ik_at_hash = None \<rparr>"

definition demo_login :: login_env where
  "demo_login =
     \<lparr> le_app = demo_app, le_idp = demo_idp,
       le_idp_ops =
         \<lparr> ix_url = (\<lambda>u ps. Some (u @ ''?'')),
           ix_post = (\<lambda>u ps. Status 200 (Inr \<lparr> tr_access_token = ''at'', tr_token_type = None, tr_expires_in = None,
             tr_refresh_token = None, tr_id_token = Some ''idt'', tr_scope = None \<rparr>)),
           ix_user = (\<lambda>u t. Status 200 (Inr \<lparr> iu_sub = ''sub-1'', iu_email = Some ''ann@x.example'', iu_name = Some ''Ann'',
             iu_picture = None, iu_email_verified = Some True \<rparr>)),
           ix_github = (\<lambda>u t. NoAnswer ''none'') \<rparr>,
       le_id_ops =
         \<lparr> io_header = (\<lambda>t. Inr (''RS256'', Some ''k1'')), io_rsa = (\<lambda>n x. Inr n), io_ec = (\<lambda>x y. Inr x),
           io_decode = (\<lambda>t k a. Inr demo_id_claims), io_hash = (\<lambda>s. CHR ''#'' # s), io_b64 = (\<lambda>s. CHR ''_'' # s),
           io_jwks = (\<lambda>u. Status 200 (Inr [\<lparr> jk_kid = ''k1'', jk_kty = ''RSA'', jk_n = Some ''n'', jk_e = Some ''e'',
             jk_x = None, jk_y = None \<rparr>])) \<rparr>,
       le_cipher =
         \<lparr> co_seal = (\<lambda>n p. CHR ''+'' # p), co_open = (\<lambda>n c. case c of [] \<Rightarrow> None | _ # p \<Rightarrow> Some p),
           co_encode = (\<lambda>s. s), co_decode = Some \<rparr>,
       le_utf8 = (\<lambda>_. True), le_nfc_lower = to_lower, le_lowercase = to_lower, le_trusted_domains = None,
       le_expose_dev_token = False \<rparr>"

definition demo_flow_random :: flow_random where
  "demo_flow_random =
     \<lparr> fr_id = 21, fr_state = ''state'', fr_nonce = ''nonce'', fr_pkce = ''bytes'', fr_cipher_nonce = ''abcdefghijkl'' \<rparr>"

definition demo_login_random :: login_random where
  "demo_login_random =
     \<lparr> lr_user_id = 1, lr_identity_id = 31, lr_tenant_id = 9, lr_member_id = 41, lr_session_id = ''s9'', lr_request_id = 51,
       lr_device = ''dev'' \<rparr>"

definition login_started :: "(api_error, string option) result \<times> login_db" where
  "login_started = begin_oidc_flow demo_login 5000000 demo_flow_random ''https://app.example/x'' None None demo_login_db"

definition demo_callback_query :: callback_query where
  "demo_callback_query = \<lparr> cq_code = Some ''code'', cq_state = Some ''state'', cq_error = None \<rparr>"

definition demo_risk_context :: risk_context where
  "demo_risk_context = \<lparr> rx_client_ip = None, rx_user_agent = None, rx_device_hash = ''hdev'' \<rparr>"

definition demo_flow :: oidc_flow where
  "demo_flow = oidc_flow_of demo_login 5000000 demo_flow_random ''https://app.example/x'' None"

definition demo_completed :: "(api_error, string \<times> string) result \<times> login_db" where
  "demo_completed = complete_oidc demo_login 0 6000000 demo_login_random ''code'' demo_flow demo_risk_context demo_login_db"

lemma login_started_ok: "login_started = (Inr (Some ''https://idp.example/auth?''), demo_login_db \<lparr> ld_flows := [demo_flow] \<rparr>)"
  by code_simp

lemma demo_completed_ok: "fst demo_completed = Inr (''s9'', ''https://app.example/x'')"
  by code_simp

theorem login_state_single_use_witness:
  "fst (callback demo_login 0 7000000 demo_login_random [] demo_callback_query
     (snd (callback demo_login 0 6000000 demo_login_random [] demo_callback_query (snd login_started)))) =
   Some (api_reply (api_error.BadRequest ''INVALID_STATE''))"
proof -
  have flows: "ld_flows (snd login_started) = [demo_flow]" by (simp add: login_started_ok)
  have c: "fst (flow_consume 6000000 ''state'' (ld_flows (snd login_started))) \<noteq> None" unfolding flows by code_simp
  show ?thesis
    by (subst login_state_single_use [where ?q2.0 = demo_callback_query and q = demo_callback_query and tick = 0 and
          r = demo_login_random and h = "[]", OF _ c])
      (simp_all add: flows demo_callback_query_def opt_filter_def)
qed


theorem login_callback_roundtrip_witness:
  "\<exists>flow. flow_consume 6000000 ''state'' (ld_flows (snd login_started)) = (Some flow, []) \<and> of_nonce flow = ''nonce''"
proof -
  have "\<exists>flow. flow_consume 6000000 (fr_state demo_flow_random) (ld_flows (snd login_started)) = (Some flow, ld_flows demo_login_db) \<and>
      of_nonce flow = fr_nonce demo_flow_random"
    using login_callback_roundtrip [of demo_login 5000000 demo_flow_random "''https://app.example/x''" None None demo_login_db
        "''https://idp.example/auth?''" "snd login_started" 6000000] login_started_ok [unfolded login_started_def]
    by (auto simp: login_started_def demo_login_def demo_flow_random_def NONCE_LEN_def)
  then show ?thesis by (simp add: demo_flow_random_def demo_login_db_def)
qed

end
