(* ===== verification/Passkey_Examples.thy ===== *)
theory Passkey_Examples
  imports Passkey_Safety Login_Examples
begin

text \<open>A concrete authenticator, a sign-in with it, and the instances of the properties of passkeys.\<close>

text \<open>Keys are their credential ids; a user has one, which is the state of a ceremony; an assertion is an id and a counter.\<close>

definition demo_webauthn :: "(string, string, string \<times> 32 word, string) webauthn" where
  "demo_webauthn =
     \<lparr> wa_start_auth = (\<lambda>seed ks. case ks of [k] \<Rightarrow> Some (seed, k) | _ \<Rightarrow> None),
       wa_finish_auth = (\<lambda>(k, n) s. if k = s then Some \<lparr> az_cred_id = k, az_counter = n \<rparr> else None),
       wa_start_discover = (\<lambda>seed. Some (seed, seed)), wa_identify = (\<lambda>(k, n). Some (1, k)),
       wa_finish_discover = (\<lambda>(k, n) s ks. if k \<in> set ks then Some \<lparr> az_cred_id = k, az_counter = n \<rparr> else None),
       wa_start_register = (\<lambda>seed uid name display ks. Some (\<lparr> cr_selection = None, cr_rest = seed \<rparr>, seed)),
       wa_finish_register = (\<lambda>k s. Some k), wa_cred_id = (\<lambda>k. k), wa_creation_text = cr_rest,
       wa_write_state = Some, wa_read_auth = Some,
       wa_read_discover = Some, wa_read_register = Some, wa_write_passkey = Some,
       wa_read_passkey = (\<lambda>t. if t = [] then None else Some t) \<rparr>"

definition demo_passkey :: passkey_record where
  "demo_passkey =
     \<lparr> pk_id = 61, pk_user_id = 1, pk_credential_id = ''cred'', pk_public_key = ''cred'', pk_sign_count = 3, pk_transports = None,
       pk_name = None, pk_aaguid = None, pk_backup_eligible = False, pk_backup_state = False, pk_created_at = 0, pk_last_used_at = None \<rparr>"

definition demo_passkey_user :: user_record where
  "demo_passkey_user =
     \<lparr> us_id = 1, us_email = ''ann@x.example'', us_display_name = Some ''Ann'', us_google_sub = None, us_created_at = 0,
       us_is_active = True, us_locale = None, us_deleted_at = None \<rparr>"

definition demo_passkey_db :: login_db where
  "demo_passkey_db = demo_login_db \<lparr> ad_users := [demo_passkey_user], ad_passkeys := [demo_passkey] \<rparr>"

definition passkey_started :: "reply \<times> login_db" where
  "passkey_started = auth_start demo_login (Some demo_webauthn) 5000000 ''r'' 71 (Some ''Ann@x.example'') demo_passkey_db"

definition passkey_finished :: "reply option \<times> login_db" where
  "passkey_finished = auth_finish demo_login (Some demo_webauthn) 6000000 ''s9'' 81 71 (''cred'', 4) (snd passkey_started)"

lemma demo_webauthn_sound: "webauthn_sound demo_webauthn"
  by (auto simp: webauthn_sound_def demo_webauthn_def split: list.splits if_splits)

lemma passkey_started_ok: "rs_status (fst passkey_started) = 200" by code_simp

lemma passkey_finished_ok: "map_option rs_status (fst passkey_finished) = Some 200" by code_simp

lemma demo_passkeys:
  "passkeys_keyed demo_webauthn (ad_passkeys demo_passkey_db)" "distinct (map pk_credential_id (ad_passkeys demo_passkey_db))"
  "distinct (map pk_id (ad_passkeys demo_passkey_db))"
  "user_find_by_email (normalize_email demo_login ''Ann@x.example'') (ad_users demo_passkey_db) = Some demo_passkey_user"
  by (simp add: passkeys_keyed_def demo_webauthn_def demo_passkey_db_def demo_passkey_def) code_simp+

lemma answered: "map_option f (fst p) = Some y \<Longrightarrow> \<exists>x. p = (Some x, snd p) \<and> f x = y"
  by (cases p) auto


theorem passkey_clone_detected_witness:
  "fst (passkey_login demo_login 8000000 ''s10'' 83 \<lparr> az_cred_id = ''cred'', az_counter = 4 \<rparr>
     (snd (passkey_login demo_login 6000000 ''s9'' 81 \<lparr> az_cred_id = ''cred'', az_counter = 4 \<rparr> demo_passkey_db))) =
   Some (api_reply (Unauthorized ''PASSKEY_FAILED''))"
proof -
  let ?r = "\<lparr> az_cred_id = ''cred'', az_counter = 4 \<rparr> :: assertion_result"
  let ?l = "passkey_login demo_login 6000000 ''s9'' 81 ?r demo_passkey_db"
  have "map_option rs_status (fst ?l) = Some 200" by code_simp
  from answered [OF this] obtain rep where rep: "?l = (Some rep, snd ?l)" "rs_status rep = 200" by (elim exE conjE)
  show ?thesis
    by (subst passkey_clone_detected [OF demo_passkeys(2,3) rep(1,2) rtranclp.rtrancl_refl]) simp_all
qed

end
