(* ===== verification/Browser_Sessions.thy ===== *)
theory Browser_Sessions
  imports Forward_Safety
begin

text \<open>
  The sessions a browser and a user can manage: the account chooser (\<open>auth-server/src/handlers/accounts.rs\<close>) over the cookie of
  remembered accounts, and the session endpoints (\<open>auth-server/src/handlers/session.rs\<close>). Pages and listings are
  kept by the data they show.
\<close>

section \<open>Account chooser\<close>

definition live_session :: "time \<Rightarrow> string \<Rightarrow> 'a login_db_scheme \<Rightarrow> session_record option" where
  "live_session now sid db = opt_filter (\<lambda>r. is_valid_at r (unix_secs now)) (pg_find (unix_secs now) sid (ad_sessions db))"

definition resolve_accounts :: "app_state \<Rightarrow> time \<Rightarrow> header_map \<Rightarrow> 'a login_db_scheme \<Rightarrow> session_record list \<times> string option" where
  "resolve_accounts st now h db =
     (let active = extract_session_id st h;
          ids = read_accounts st h;
          ids = (case active of None \<Rightarrow> ids | Some a \<Rightarrow> if a \<in> set ids then ids else a # ids)
      in (List.map_filter (\<lambda>i. live_session now i db) ids, active))"

definition accounts_page :: "app_state \<Rightarrow> time \<Rightarrow> header_map \<Rightarrow> 'a login_db_scheme \<Rightarrow> reply option" where
  "accounts_page st now h db =
     (case resolve_accounts st now h db of
        (valid, active) \<Rightarrow>
          (if valid = [] then Some (no_cache_headers (st_redirect st (oe_base_url st @ ''/login'')))
           else map_option no_cache_headers
                  (set_accounts_cookie st (map sr_session_id valid)
                     (html_reply (AccountCards (map (\<lambda>r. (sr_session_id r, Some (sr_session_id r) = active)) valid))))))"

text \<open>The remembered ids with the active one at the end, as switching and signing out of all read them.\<close>

definition known_ids :: "app_state \<Rightarrow> header_map \<Rightarrow> string list" where
  "known_ids st h =
     (let ids = read_accounts st h
      in case extract_session_id st h of None \<Rightarrow> ids | Some a \<Rightarrow> if a \<in> set ids then ids else ids @ [a])"

definition use_account :: "app_state \<Rightarrow> time \<Rightarrow> header_map \<Rightarrow> string \<Rightarrow> 'a login_db_scheme \<Rightarrow> reply option" where
  "use_account st now h sid db =
     (if sid \<notin> set (known_ids st h) then Some (api_reply (Forbidden ''UNKNOWN_ACCOUNT''))
      else (case live_session now sid db of
              None \<Rightarrow> Some (api_reply (api_error.BadRequest ''SESSION_INVALID''))
            | Some _ \<Rightarrow> map_option no_cache_headers (set_session_cookie st sid (st_redirect st (oe_base_url st @ ''/'')))))"

definition signout_account ::
    "app_state \<Rightarrow> time \<Rightarrow> header_map \<Rightarrow> string \<Rightarrow> 'a login_db_scheme \<Rightarrow> reply option \<times> 'a login_db_scheme" where
  "signout_account st now h sid db =
     (let active = extract_session_id st h;
          db' = db \<lparr> ad_sessions := pg_revoke (unix_secs now) sid (ad_sessions db) \<rparr>;
          remaining = filter (\<lambda>i. i \<noteq> sid \<and> live_session now i db' \<noteq> None) (read_accounts st h);
          resp = st_redirect st (oe_base_url st @ (if remaining = [] then ''/login'' else ''/accounts''))
      in (map_option no_cache_headers
            (Option.bind (set_accounts_cookie st remaining resp) (\<lambda>r.
               if active = Some sid
               then (case remaining of [] \<Rightarrow> clear_session_cookie st r | next # _ \<Rightarrow> set_session_cookie st next r)
               else Some r)), db'))"

definition signout_all :: "app_state \<Rightarrow> time \<Rightarrow> header_map \<Rightarrow> 'a login_db_scheme \<Rightarrow> reply option \<times> 'a login_db_scheme" where
  "signout_all st now h db =
     (map_option no_cache_headers
        (Option.bind (clear_session_cookie st (st_redirect st (oe_base_url st @ ''/login''))) (set_accounts_cookie st [])),
      db \<lparr> ad_sessions := fold (pg_revoke (unix_secs now)) (known_ids st h) (ad_sessions db) \<rparr>)"

section \<open>Session endpoints\<close>

definition u64_saturating_add :: "u64 \<Rightarrow> u64 \<Rightarrow> u64" where
  "u64_saturating_add a b = (if unat a + unat b < 2 ^ 64 then a + b else - 1)"

definition renew_session ::
    "app_state \<Rightarrow> time \<Rightarrow> header_map \<Rightarrow> 'a login_db_scheme \<Rightarrow> (api_error, string) result \<times> 'a login_db_scheme" where
  "renew_session st now h db =
     (if h_str h ''x-volta-session-keepalive'' \<noteq> Some ''1'' then (Inl (Forbidden ''KEEPALIVE_HEADER_REQUIRED''), db)
      else (case extract_session_id st h of
              None \<Rightarrow> (Inl (Unauthorized ''SESSION_EXPIRED''), db)
            | Some sid \<Rightarrow>
                (case pg_touch (unix_secs now) sid (u64_saturating_add (unix_secs now) (oe_session_ttl_secs st)) (ad_sessions db) of
                   (Inl er, ss) \<Rightarrow>
                     (Inl (if er = SessionNotFound then Unauthorized ''SESSION_EXPIRED'' else InternalError), db \<lparr> ad_sessions := ss \<rparr>)
                 | (Inr _, ss) \<Rightarrow> (Inr sid, db \<lparr> ad_sessions := ss \<rparr>))))"

definition keepalive :: "app_state \<Rightarrow> time \<Rightarrow> header_map \<Rightarrow> 'a login_db_scheme \<Rightarrow> reply option \<times> 'a login_db_scheme" where
  "keepalive st now h db =
     (case renew_session st now h db of
        (Inl er, db') \<Rightarrow> (Some (api_reply er), db')
      | (Inr sid, db') \<Rightarrow>
          (map_option no_cache_headers (set_session_cookie st sid (json_reply (ExpiresIn (oe_session_ttl_secs st)))), db'))"

definition list_sessions :: "app_state \<Rightarrow> time \<Rightarrow> header_map \<Rightarrow> 'a login_db_scheme \<Rightarrow> reply" where
  "list_sessions st now h db =
     (case auth now (extract_session_id st h) db of
        Inl er \<Rightarrow> api_reply er
      | Inr s \<Rightarrow>
          json_reply (SessionCards (map (\<lambda>r. (session_id_fingerprint st (sr_session_id r), Some (sr_session_id r) = extract_session_id st h))
            (pg_list_by_user (sr_user_id s) (ad_sessions db)))))"

definition revoke_session :: "app_state \<Rightarrow> time \<Rightarrow> header_map \<Rightarrow> string \<Rightarrow> 'a login_db_scheme \<Rightarrow> reply \<times> 'a login_db_scheme" where
  "revoke_session st now h target db =
     (case auth now (extract_session_id st h) db of
        Inl er \<Rightarrow> (api_reply er, db)
      | Inr s \<Rightarrow>
          (case find (\<lambda>r. sr_session_id r = target \<or> session_id_fingerprint st (sr_session_id r) = target)
                  (pg_list_by_user (sr_user_id s) (ad_sessions db)) of
             None \<Rightarrow> (api_reply (api_error.BadRequest ''SESSION_NOT_FOUND''), db)
           | Some r \<Rightarrow>
               (no_cache_headers (json_reply OkBody),
                db \<lparr> ad_sessions := pg_revoke (unix_secs now) (sr_session_id r) (ad_sessions db) \<rparr>)))"

definition revoke_all_sessions :: "app_state \<Rightarrow> time \<Rightarrow> header_map \<Rightarrow> 'a login_db_scheme \<Rightarrow> reply \<times> 'a login_db_scheme" where
  "revoke_all_sessions st now h db =
     (case auth now (extract_session_id st h) db of
        Inl er \<Rightarrow> (api_reply er, db)
      | Inr s \<Rightarrow>
          (case pg_revoke_all_for_user (unix_secs now) (sr_user_id s) (ad_sessions db) of
             (n, ss) \<Rightarrow> (no_cache_headers (json_reply (RevokedCount n)), db \<lparr> ad_sessions := ss \<rparr>)))"

section \<open>Whose sessions change\<close>

text \<open>\<open>spares P\<close>: the rows satisfying \<open>P\<close> stay as they are, each at its place.\<close>

definition spares :: "(session_row \<Rightarrow> bool) \<Rightarrow> session_table \<Rightarrow> session_table \<Rightarrow> bool" where
  "spares P t t' \<longleftrightarrow> list_all2 (\<lambda>row row'. row_id row' = row_id row \<and> row_user_id row' = row_user_id row \<and> (P row \<longrightarrow> row' = row)) t t'"

lemma spares_map:
  assumes "\<And>row. row \<in> set t \<Longrightarrow> row_id (f row) = row_id row \<and> row_user_id (f row) = row_user_id row \<and> (P row \<longrightarrow> f row = row)"
  shows "spares P t (map f t)"
  using assms by (auto simp: spares_def list_all2_map2 intro!: list.rel_refl_strong)

lemma spares_refl [simp]: "spares P t t"
  by (auto simp: spares_def intro: list.rel_refl)

lemma spares_revoke: "(\<And>row. row \<in> set t \<Longrightarrow> P row \<Longrightarrow> row_id row \<noteq> sid) \<Longrightarrow> spares P t (pg_revoke now sid t)"
  unfolding pg_revoke_def by (rule spares_map) auto

lemma listed_row: "r \<in> set (pg_list_by_user uid t) \<Longrightarrow> \<exists>row \<in> set t. row_user_id row = uid \<and> sr_session_id r = row_id row"
  by (auto simp: pg_list_by_user_def from_row_def)

definition not_callers :: "app_state \<Rightarrow> time \<Rightarrow> header_map \<Rightarrow> 'a login_db_scheme \<Rightarrow> session_row \<Rightarrow> bool" where
  "not_callers st now h db row \<longleftrightarrow> (\<forall>s. auth now (extract_session_id st h) db = Inr s \<longrightarrow> row_user_id row \<noteq> sr_user_id s)"

lemma revoke_session_spares:
  assumes "distinct (map row_id (ad_sessions db))"
  shows "spares (not_callers st now h db) (ad_sessions db) (ad_sessions (snd (revoke_session st now h target db)))"
proof (cases "auth now (extract_session_id st h) db")
  case (Inr s)
  let ?f = "find (\<lambda>r. sr_session_id r = target \<or> session_id_fingerprint st (sr_session_id r) = target)
    (pg_list_by_user (sr_user_id s) (ad_sessions db))"
  show ?thesis
  proof (cases ?f)
    case (Some r)
    then have "r \<in> set (pg_list_by_user (sr_user_id s) (ad_sessions db))" by (auto simp: find_Some_iff)
    from listed_row [OF this] obtain own where own: "own \<in> set (ad_sessions db)" "row_user_id own = sr_user_id s"
      "sr_session_id r = row_id own" by blast
    have "row_id row \<noteq> row_id own" if "row \<in> set (ad_sessions db)" "not_callers st now h db row" for row
      using that own inj_onD [of row_id "set (ad_sessions db)" row own] assms Inr by (auto simp: distinct_map not_callers_def)
    with Inr Some own(3) show ?thesis by (simp add: revoke_session_def spares_revoke)
  qed (simp add: revoke_session_def Inr)
qed (simp add: revoke_session_def)

lemma revoke_all_spares:
  "spares (not_callers st now h db) (ad_sessions db) (ad_sessions (snd (revoke_all_sessions st now h db)))"
proof (cases "auth now (extract_session_id st h) db")
  case (Inr s)
  then show ?thesis
    by (auto simp: revoke_all_sessions_def pg_revoke_all_for_user_def Let_def not_callers_def intro!: spares_map)
qed (simp add: revoke_all_sessions_def)

lemma keepalive_spares:
  "spares (\<lambda>row. Some (row_id row) \<noteq> extract_session_id st h) (ad_sessions db) (ad_sessions (snd (keepalive st now h db)))"
proof -
  have touch: "pg_touch n sid x t = (r, t') \<Longrightarrow> spares (\<lambda>row. row_id row \<noteq> sid) t t'" for sid t n x r t'
    by (auto simp: pg_touch_def Let_def intro!: spares_map split: if_splits)
  show ?thesis
  proof (cases "extract_session_id st h")
    case (Some sid)
    then show ?thesis
      by (auto simp: keepalive_def renew_session_def dest: touch split: prod.split sum.split)
  qed (simp add: keepalive_def renew_session_def)
qed

text \<open>
  C20: a user manages only their own sessions. Revoking one session, by id or fingerprint, and revoking all of them leaves
  every row of a user other than the one of the presented live session as it was, and without such a session every
  row; extending a session leaves every row but the one of the presented cookie as it was.
\<close>

theorem own_sessions_only:
  assumes "distinct (map row_id (ad_sessions db))"
  shows "spares (not_callers st now h db) (ad_sessions db) (ad_sessions (snd (revoke_session st now h target db))) \<and>
    spares (not_callers st now h db) (ad_sessions db) (ad_sessions (snd (revoke_all_sessions st now h db))) \<and>
    spares (\<lambda>row. Some (row_id row) \<noteq> extract_session_id st h) (ad_sessions db) (ad_sessions (snd (keepalive st now h db)))"
  using assms by (simp add: revoke_session_spares revoke_all_spares keepalive_spares)

section \<open>Signing out\<close>

definition ended :: "string \<Rightarrow> session_table \<Rightarrow> bool" where
  "ended sid t \<longleftrightarrow> (\<forall>row \<in> set t. row_id row = sid \<longrightarrow> row_invalidated_at row \<noteq> None)"

lemma pg_find_ended:
  assumes "ended sid t"
  shows "pg_find now sid t = None"
proof -
  have "find (\<lambda>row. row_id row = sid \<and> row_live (as_i64 now) row) t = None"
    using assms unfolding find_None_iff ended_def row_live_def by blast
  then show ?thesis by (simp add: pg_find_def)
qed

lemma ended_map:
  assumes "\<And>row. row \<in> set t \<Longrightarrow> row_id (f row) = sid \<Longrightarrow> row_invalidated_at (f row) \<noteq> None"
  shows "ended sid (map f t)"
  using assms unfolding ended_def set_map by blast

lemma revoke_ended:
  "ended sid (pg_revoke now sid t)" "ended sid t \<Longrightarrow> ended sid (pg_revoke now i t)"
proof -
  show "ended sid (pg_revoke now sid t)"
    unfolding pg_revoke_def by (rule ended_map) (simp split: if_splits)
  assume e: "ended sid t"
  show "ended sid (pg_revoke now i t)"
    unfolding pg_revoke_def
  proof (rule ended_map)
    fix row
    assume "row \<in> set t" "row_id (if row_id row = i then row \<lparr> row_invalidated_at := Some (as_i64 now) \<rparr> else row) = sid"
    moreover from this(2) have "row_id row = sid" by (simp split: if_splits)
    ultimately show "row_invalidated_at (if row_id row = i then row \<lparr> row_invalidated_at := Some (as_i64 now) \<rparr> else row) \<noteq> None"
      using e unfolding ended_def by simp
  qed
qed

lemma fold_revoke_ended: "sid \<in> set ids \<or> ended sid t \<Longrightarrow> ended sid (fold (pg_revoke now) ids t)"
proof (induction ids arbitrary: t)
  case (Cons i ids)
  have "sid \<in> set ids \<or> ended sid (pg_revoke now i t)"
    using Cons.prems revoke_ended(1) [of sid now t] revoke_ended(2) [of sid t now i] by auto
  from Cons.IH [OF this] show ?case by simp
qed simp

text \<open>Signing out of all accounts ends every session the browser remembers, the active one included.\<close>

lemma signout_all_ends:
  assumes "sid \<in> set (read_accounts st h) \<or> extract_session_id st h = Some sid"
  shows "pg_find now' sid (ad_sessions (snd (signout_all st now h db))) = None"
proof -
  have "sid \<in> set (known_ids st h)" using assms by (auto simp: known_ids_def Let_def split: option.split)
  then show ?thesis by (intro pg_find_ended) (simp add: signout_all_def fold_revoke_ended)
qed

text \<open>Switching accounts only activates a session that this browser remembers and that is live.\<close>

lemma use_account_live:
  assumes "use_account st now h sid db = Some r" "\<And>u. rs_status (st_redirect st u) = 303" "rs_status r = 303"
  shows "sid \<in> set (known_ids st h) \<and> live_session now sid db \<noteq> None"
proof -
  have "rs_status (api_reply er) \<noteq> 303" for er using api_status_not_200 [of er] by auto
  with assms show ?thesis by (auto simp: use_account_def split: if_splits option.splits)
qed

text \<open>Signing out of one account revokes whatever session id is submitted: no cookie is needed and the list is not looked at.\<close>

lemma signout_account_any_session:
  "pg_find now' sid (ad_sessions (snd (signout_account st now [] sid db))) = None"
  by (simp add: signout_account_def Let_def pg_find_ended revoke_ended(1))

text \<open>The listing of the sessions shows revoked ones too.\<close>

lemma revoked_sessions_listed: "length (pg_list_by_user uid (pg_revoke now sid t)) = length (pg_list_by_user uid t)"
  by (simp add: pg_list_by_user_def pg_revoke_def filter_map comp_def if_distrib cong: if_cong)

definition demo_browser_db :: login_db where
  "demo_browser_db =
     \<lparr> ad_sessions = [to_row (demo_user_session ''s1'' ''u1''), to_row (demo_user_session ''s2'' ''u2'')], ad_users = [],
       ad_tenants = [], ad_members = [], ad_invitations = [], ad_usages = [], ad_m2m = [], ad_idps = [], ad_passkeys = [],
       op_clients = [], op_codes = [], op_refresh = [], op_consents = [], op_devices = [], op_identities = [], op_keys = [],
       ld_mfa = [], ld_recovery = [], ld_stepup = [], ld_temporary = [], ld_flows = [], ld_links = [], ld_devices = [],
       ld_challenges = [], ld_audit = [], ld_events = [] \<rparr>"

definition demo_cookie :: header_map where
  "demo_cookie = [(''cookie'', HText ''__volta_session=s1'')]"

theorem own_sessions_only_witness:
  "to_row (demo_user_session ''s2'' ''u2'') \<in> set (ad_sessions (snd (revoke_all_sessions demo_app 5000000 demo_cookie demo_browser_db)))"
proof -
  have d: "distinct (map row_id (ad_sessions demo_browser_db))" by (simp add: demo_browser_db_def demo_user_session_def to_row_def)
  have "map_sum (\<lambda>_. ()) sr_user_id (auth 5000000 (extract_session_id demo_app demo_cookie) demo_browser_db) = Inr ''u1''" by code_simp
  then have "not_callers demo_app 5000000 demo_cookie demo_browser_db (to_row (demo_user_session ''s2'' ''u2''))"
    by (auto simp: not_callers_def to_row_def demo_user_session_def)
  moreover have "spares (not_callers demo_app 5000000 demo_cookie demo_browser_db) (ad_sessions demo_browser_db)
      (ad_sessions (snd (revoke_all_sessions demo_app 5000000 demo_cookie demo_browser_db)))"
    using own_sessions_only [OF d] by blast
  ultimately show ?thesis
    by (auto simp: spares_def demo_browser_db_def list_all2_Cons1)
qed

end
