(* ===== verification/Server_Limits.thy ===== *)
theory Server_Limits
  imports Resilience Auth_State
begin

text \<open>
  The guards around the auth server's endpoints: the limiter per client address (\<open>auth-server/src/rate_limit.rs\<close>), the
  checks of webhook targets, local requests and XML (\<open>security.rs\<close>), and paging of listings
  (\<open>pagination.rs\<close>). The limiter is the third interpretation of
  \<open>fixed_window\<close>. Parsers of addresses and URLs are parameters.
\<close>

section \<open>Rate limiter\<close>

type_synonym bucket = "instant \<times> 32 word"

record request_limiter =
  ql_buckets :: "string \<rightharpoonup> bucket"
  ql_limit :: "32 word"
  ql_window :: nat
  ql_name :: string

definition request_limiter_new :: "string \<Rightarrow> 32 word \<Rightarrow> nat \<Rightarrow> request_limiter" where
  "request_limiter_new name limit window =
     \<lparr> ql_buckets = Map.empty, ql_limit = limit, ql_window = window, ql_name = name \<rparr>"

definition is_disabled :: "request_limiter \<Rightarrow> bool" where
  "is_disabled l \<longleftrightarrow> ql_limit l = 0"

text \<open>The update of one bucket, and the bucket found or made for a key.\<close>

definition bucket_hit :: "32 word \<Rightarrow> nat \<Rightarrow> instant \<Rightarrow> bucket \<Rightarrow> bool \<times> bucket" where
  "bucket_hit limit window now b =
     (let b' = (if elapsed now (fst b) \<ge> window then (now, 0) else b)
      in if snd b' < limit then (True, (fst b', snd b' + 1)) else (False, b'))"

definition limiter_check :: "instant \<Rightarrow> string \<Rightarrow> request_limiter \<Rightarrow> bool \<times> request_limiter" where
  "limiter_check now k l =
     (if ql_limit l = 0 then (True, l)
      else (case bucket_hit (ql_limit l) (ql_window l) now (unwrap_or (now, 0) (ql_buckets l k)) of
              (ok, b) \<Rightarrow> (ok, l \<lparr> ql_buckets := (ql_buckets l)(k \<mapsto> b) \<rparr>)))"

definition limiter_gc :: "instant \<Rightarrow> request_limiter \<Rightarrow> request_limiter" where
  "limiter_gc now l =
     l \<lparr> ql_buckets := (\<lambda>k. opt_filter (\<lambda>b. elapsed now (fst b) < ql_window l * 2) (ql_buckets l k)) \<rparr>"

text \<open>The first address of either header that parses, else the peer.\<close>

definition header_ip_key :: "net_parsers \<Rightarrow> header_map \<Rightarrow> string \<Rightarrow> string option" where
  "header_ip_key p h name =
     Option.bind (h_str h name) (\<lambda>v.
       let first = trim (hd (split_on CHR '','' v))
       in if first = [] then None else map_option (np_show_ip p) (np_ip p first))"

definition client_ip_key :: "net_parsers \<Rightarrow> header_map \<Rightarrow> ip_addr \<Rightarrow> string" where
  "client_ip_key p h peer =
     unwrap_or (np_show_ip p peer) (or_else (header_ip_key p h ''x-real-ip'') (header_ip_key p h ''x-forwarded-for''))"

text \<open>The middleware: the refusal, or \<open>None\<close> when the request goes on.\<close>

definition limit_by_ip :: "net_parsers \<Rightarrow> instant \<Rightarrow> header_map \<Rightarrow> ip_addr \<Rightarrow> request_limiter \<Rightarrow> reply option \<times> request_limiter" where
  "limit_by_ip p now h peer l =
     (case limiter_check now (client_ip_key p h peer) l of
        (ok, l') \<Rightarrow>
          (if ok then None
           else Some \<lparr> rs_status = 429, rs_headers = [(''retry-after'', HText ''60'')], rs_body = ErrorBody ''RATE_LIMITED'' \<rparr>, l'))"

section \<open>Security helpers\<close>

record webhook_url =
  wu_scheme :: string
  wu_host :: "string option"

definition octet :: "nat \<Rightarrow> 32 word \<Rightarrow> nat" where
  "octet i a = unat a div 256 ^ (3 - i) mod 256"

definition segment :: "128 word \<Rightarrow> nat" where
  "segment a = unat a div 2 ^ 112"

definition v4_forbidden :: "32 word \<Rightarrow> bool" where
  "v4_forbidden a \<longleftrightarrow>
     octet 0 a = 127
     \<or> (octet 0 a = 10 \<or> octet 0 a = 172 \<and> octet 1 a div 16 = 1 \<or> octet 0 a = 192 \<and> octet 1 a = 168)
     \<or> (octet 0 a = 169 \<and> octet 1 a = 254)
     \<or> a = - 1
     \<or> octet 0 a div 16 = 14
     \<or> a = 0
     \<or> (octet 0 a = 169 \<and> octet 1 a = 254 \<and> octet 2 a = 169 \<and> octet 3 a = 254)
     \<or> (octet 0 a = 100 \<and> octet 1 a div 64 = 1)"

definition v6_forbidden :: "128 word \<Rightarrow> bool" where
  "v6_forbidden a \<longleftrightarrow> a = 1 \<or> segment a div 256 = 255 \<or> a = 0 \<or> segment a div 512 = 126 \<or> segment a div 64 = 1018"

fun is_forbidden_ip :: "ip_addr \<Rightarrow> bool" where
  "is_forbidden_ip (V4 a) = v4_forbidden a"
| "is_forbidden_ip (V6 a) = v6_forbidden a"

definition strip_brackets :: "string \<Rightarrow> string" where
  "strip_brackets host =
     (if length host \<ge> 2 \<and> hd host = CHR ''['' \<and> last host = CHR '']'' then butlast (tl host) else host)"

definition validate_webhook_url ::
    "net_parsers \<Rightarrow> (string \<Rightarrow> (string, webhook_url) result) \<Rightarrow> string \<Rightarrow> bool \<Rightarrow> (string, unit) result" where
  "validate_webhook_url p parse text allow_http =
     (case parse text of
        Inl msg \<Rightarrow> Inl (''invalid URL: '' @ msg)
      | Inr u \<Rightarrow>
          (if \<not> (wu_scheme u = ''https'' \<or> wu_scheme u = ''http'' \<and> allow_http)
           then Inl (''scheme must be https (got '' @ wu_scheme u @ '')'')
           else (case wu_host u of
                   None \<Rightarrow> Inl ''URL has no host''
                 | Some host \<Rightarrow>
                     (if to_lower host = ''localhost'' then Inl ''localhost is not allowed''
                      else (case np_ip p (strip_brackets host) of
                              None \<Rightarrow> Inr ()
                            | Some ip \<Rightarrow>
                                (if is_forbidden_ip ip then Inl (''IP '' @ np_show_ip p ip @ '' is in a forbidden range'') else Inr ()))))))"

fun is_loopback :: "ip_addr \<Rightarrow> bool" where
  "is_loopback (V4 a) \<longleftrightarrow> octet 0 a = 127"
| "is_loopback (V6 a) \<longleftrightarrow> a = 1"

definition is_localhost_request :: "net_parsers \<Rightarrow> header_map \<Rightarrow> bool" where
  "is_localhost_request p h =
     (case or_else (forwarded_ip p h ''x-real-ip'') (forwarded_ip p h ''x-forwarded-for'') of
        None \<Rightarrow> True | Some ip \<Rightarrow> is_loopback ip)"

definition reject_xml_doctype :: "string \<Rightarrow> (string, unit) result" where
  "reject_xml_doctype xml =
     (let upper = to_upper xml
      in if contains_sub upper ''<!DOCTYPE'' then Inl ''DOCTYPE declarations are not allowed''
         else if contains_sub upper ''<!ENTITY'' then Inl ''ENTITY declarations are not allowed''
         else Inr ())"

section \<open>Paging\<close>

record page_request =
  pr_page :: "32 word"
  pr_size :: "32 word"
  pr_sort :: "string option"
  pr_q :: "string option"
  pr_user_id :: "string option"
  pr_status :: "string option"
  pr_event :: "string option"
  pr_from :: "string option"
  pr_to :: "string option"

definition MAX_SIZE :: "32 word" where "MAX_SIZE = 500"

definition normalized :: "page_request \<Rightarrow> page_request" where
  "normalized r = r \<lparr> pr_page := max (pr_page r) 1, pr_size := max 1 (min (pr_size r) MAX_SIZE) \<rparr>"

definition page_offset :: "page_request \<Rightarrow> 64 word" where
  "page_offset r = (if pr_page r = 0 then 0 else ucast (pr_page r - 1)) * ucast (pr_size r)"

definition page_limit :: "page_request \<Rightarrow> 64 word" where
  "page_limit r = ucast (pr_size r)"

definition order_sql :: "string option \<Rightarrow> string list \<Rightarrow> string \<Rightarrow> string" where
  "order_sql raw allowed fallback =
     (case raw of
        None \<Rightarrow> fallback
      | Some [] \<Rightarrow> fallback
      | Some (ch # s) \<Rightarrow>
          (let (col_raw, dir) = (if ch = CHR ''-'' then (s, ''DESC'') else (ch # s, ''ASC''));
               col = to_lower (trim col_raw)
           in if list_ex (\<lambda>a. to_lower a = to_lower col) allowed then col @ '' '' @ dir else fallback))"

definition page_count :: "int \<Rightarrow> page_request \<Rightarrow> 32 word" where
  "page_count n r =
     (if pr_size r = 0 then 0
      else of_nat ((nat (max n 0) + unat (pr_size r) - 1) div unat (pr_size r)))"

section \<open>Lemmas\<close>

abbreviation bucket_acc :: "32 word \<Rightarrow> bucket \<Rightarrow> nat" where
  "bucket_acc limit b \<equiv> min (unat (snd b)) (unat limit)"

lemma request_window:
  assumes "limit \<noteq> 0" "0 < win"
  shows "fixed_window (bucket_hit limit win) (bucket_acc limit) fst (\<lambda>_. n) (unat limit) win"
proof
  show pos: "0 < unat limit" using assms(1) by (simp add: unat_gt_0)
  fix t ok and s s' :: bucket
  have inc: "unat (c + 1) = unat c + 1" if "c < limit" for c :: "32 word"
  proof -
    have "unat limit < 2 ^ 32" by (rule order_less_le_trans [OF unsigned_less]) simp
    with that have "unat c + 1 < 2 ^ 32" by (simp add: word_less_nat_alt)
    then show ?thesis by (simp add: unat_word_ariths)
  qed
  {
    assume "fst s + win \<le> t" "bucket_hit limit win t s = (ok, s')"
    then show "ok \<and> bucket_acc limit s' = 1 \<and> fst s' = t"
      using pos assms(1) by (auto simp: bucket_hit_def elapsed_def Let_def word_less_nat_alt split: if_splits)
  }
  {
    assume t: "t < fst s + win" and "bucket_acc limit s \<le> unat limit" and h: "bucket_hit limit win t s = (ok, s')"
    have "\<not> win \<le> elapsed t (fst s)" using t assms(2) by (auto simp: elapsed_def)
    with h inc [of "snd s"] show "ok = (bucket_acc limit s < unat limit) \<and>
        bucket_acc limit s' = bucket_acc limit s + of_bool ok \<and> fst s' = fst s"
      by (auto simp: bucket_hit_def Let_def word_less_nat_alt split: if_splits)
  }
qed simp

interpretation default_sign_in_limit: fixed_window "bucket_hit 5 (from_secs 60)" "bucket_acc 5" fst "\<lambda>_. n" "unat (5 :: 32 word)" "from_secs 60"
  for n
  by (rule request_window) (simp_all add: from_secs_def)

fun run_checks :: "(instant \<times> string) list \<Rightarrow> request_limiter \<Rightarrow> bool list \<times> request_limiter" where
  "run_checks [] l = ([], l)"
| "run_checks ((t, k) # rs) l =
     (case limiter_check t k l of (ok, l') \<Rightarrow> (case run_checks rs l' of (oks, l'') \<Rightarrow> (ok # oks, l'')))"

definition admitted :: "(instant \<times> string) list \<Rightarrow> bool list \<Rightarrow> string \<Rightarrow> nat" where
  "admitted rs oks k = length (filter (\<lambda>((t, k'), ok). ok \<and> k' = k) (zip rs oks))"

definition times_of :: "string \<Rightarrow> (instant \<times> string) list \<Rightarrow> instant list" where
  "times_of k rs = map fst (filter (\<lambda>(t, k'). k' = k) rs)"

lemma admitted_hits:
  assumes "run_checks rs l = (oks, l')" "ql_limit l \<noteq> 0"
  shows "admitted rs oks k = fst (run_hits (bucket_hit (ql_limit l) (ql_window l)) (times_of k rs)
    (unwrap_or (hd (times_of k rs), 0) (ql_buckets l k)))"
  using assms
proof (induction rs arbitrary: l oks)
  case (Cons r rs)
  obtain t j where r: "r = (t, j)" by fastforce
  obtain ok b where h: "bucket_hit (ql_limit l) (ql_window l) t (unwrap_or (t, 0) (ql_buckets l j)) = (ok, b)"
    by (metis surj_pair)
  let ?l = "l \<lparr> ql_buckets := (ql_buckets l)(j \<mapsto> b) \<rparr>"
  obtain oks1 where run: "run_checks rs ?l = (oks1, l')" "oks = ok # oks1"
    using Cons.prems r h by (auto simp: limiter_check_def split: prod.splits)
  from Cons.IH [OF run(1)] Cons.prems(2) have
    IH: "admitted rs oks1 k = fst (run_hits (bucket_hit (ql_limit l) (ql_window l)) (times_of k rs)
      (unwrap_or (hd (times_of k rs), 0) (((ql_buckets l)(j \<mapsto> b)) k)))" by simp
  show ?case
  proof (cases "j = k")
    case True
    then have "admitted (r # rs) oks k = of_bool ok + admitted rs oks1 k" by (simp add: admitted_def run(2) r)
    with IH True h show ?thesis by (simp add: times_of_def r unwrap_or_def split: prod.split)
  next
    case False
    then have "admitted (r # rs) oks k = admitted rs oks1 k" by (simp add: admitted_def run(2) r)
    with IH False show ?thesis by (simp add: times_of_def r)
  qed
qed (simp add: times_of_def admitted_def)

lemma times_of_subseq: "subseq (times_of k rs) (map fst rs)"
  unfolding times_of_def by (intro subseq_map subseq_filter_left)

text \<open>
  What the limiter admits. A fresh limiter with a limit above zero lets through, for every key and
  any sequence of requests in order of time, at most the limit per window plus one window's worth, whatever the
  other keys do.
\<close>

theorem request_limiter_bounds:
  assumes "limit \<noteq> 0" "0 < window" "sorted (t0 # map fst rs)"
    and "run_checks rs (request_limiter_new name limit window) = (oks, l')"
  shows "admitted rs oks k * window \<le> unat limit * (last (t0 # map fst rs) - t0 + window)"
proof (cases "times_of k rs = []")
  case True
  with admitted_hits [OF assms(4), of k] assms(1) show ?thesis by (simp add: request_limiter_new_def)
next
  case False
  let ?ts = "times_of k rs"
  note f = subseq_facts [OF times_of_subseq assms(3) False]
  have a: "admitted rs oks k = fst (run_hits (bucket_hit limit window) ?ts (hd ?ts, 0))"
    using admitted_hits [OF assms(4), of k] assms(1) by (simp add: request_limiter_new_def unwrap_or_def)
  have b: "fst (run_hits (bucket_hit limit window) ?ts (hd ?ts, 0)) * window \<le> unat limit * (last (hd ?ts # ?ts) - hd ?ts + window)"
    using fixed_window.accepted_bound [OF request_window [OF assms(1,2), of "length ?ts"], of ?ts "(hd ?ts, 0)"] f(1) by simp
  have c: "unat limit * (last (hd ?ts # ?ts) - hd ?ts + window) \<le> unat limit * (last (t0 # map fst rs) - t0 + window)"
    using f(2) False by (intro mult_le_mono2 add_le_mono1) simp
  show ?thesis unfolding a by (rule order_trans [OF b c])
qed

theorem request_limiter_bounds_witness:
  "admitted [(0, ''a''), (1, ''b''), (2, ''a''), (3, ''a'')] [True, True, True, False] ''a'' * 60 \<le> 2 * (3 - 0 + 60)"
proof -
  let ?rs = "[(0, ''a''), (1, ''b''), (2, ''a''), (3, ''a'')]"
  have r: "fst (run_checks ?rs (request_limiter_new ''mfa'' 2 60)) = [True, True, True, False]" by code_simp
  have "admitted ?rs (fst (run_checks ?rs (request_limiter_new ''mfa'' 2 60))) ''a'' * 60 \<le>
      unat (2 :: 32 word) * (last (0 # map fst ?rs) - 0 + 60)"
    by (rule request_limiter_bounds [where ?t0.0 = 0, OF _ _ _ prod.collapse [symmetric]]) simp_all
  then show ?thesis unfolding r by simp
qed

section \<open>Paging and ordering\<close>

lemma normalized_bounds:
  "1 \<le> unat (pr_page (normalized r))" "1 \<le> unat (pr_size (normalized r))" "unat (pr_size (normalized r)) \<le> 500"
proof -
  have "unat (max x 1) = max (unat x) 1" "unat (max 1 (min x MAX_SIZE)) = max 1 (min (unat x) 500)" for x :: "32 word"
    by (auto simp: max_def min_def MAX_SIZE_def word_le_nat_alt)
  then show "1 \<le> unat (pr_page (normalized r))" "1 \<le> unat (pr_size (normalized r))" "unat (pr_size (normalized r)) \<le> 500"
    by (simp_all add: normalized_def)
qed

lemma unat_ucast64: "unat (ucast x :: 64 word) = unat x" for x :: "32 word"
proof -
  have "unat x < 2 ^ 64" by (rule order_less_le_trans [OF unsigned_less]) simp
  then show ?thesis by (simp add: unsigned_ucast_eq take_bit_nat_eq_self)
qed

text \<open>The offset of a normalized request does not overflow the \<open>i64\<close> it is computed in.\<close>

lemma normalized_offset:
  "unat (page_offset (normalized r)) = (unat (pr_page (normalized r)) - 1) * unat (pr_size (normalized r))"
  "unat (page_offset (normalized r)) < 2 ^ 63"
proof -
  let ?p = "pr_page (normalized r)" and ?s = "pr_size (normalized r)"
  have "unat ?p < 2 ^ 32" by (rule order_less_le_trans [OF unsigned_less]) simp
  then have "(unat ?p - 1) * unat ?s \<le> 2 ^ 32 * 500" using normalized_bounds(3) [of r] by (intro mult_le_mono) auto
  then have lt: "(unat ?p - 1) * unat ?s < 2 ^ 63" by (rule order_le_less_trans) simp
  have "?p \<noteq> 0" using normalized_bounds(1) [of r] by auto
  then have "unat (ucast (?p - 1) :: 64 word) = unat ?p - 1"
    using normalized_bounds(1) [of r] by (simp add: unat_ucast64 unat_minus_one)
  then show o: "unat (page_offset (normalized r)) = (unat ?p - 1) * unat ?s"
    using lt \<open>?p \<noteq> 0\<close> by (simp add: page_offset_def unat_word_ariths unat_ucast64)
  from lt show "unat (page_offset (normalized r)) < 2 ^ 63" unfolding o .
qed

text \<open>The fragment put into the statement is the fallback or an allowed column with a direction, nothing else.\<close>

lemma order_sql_safe:
  "order_sql raw allowed fallback = fallback \<or>
   (\<exists>a \<in> set allowed. \<exists>d \<in> {''ASC'', ''DESC''}. order_sql raw allowed fallback = to_lower a @ '' '' @ d)"
proof (cases "\<exists>c t. raw = Some (c # t)")
  case True
  then obtain c t where raw: "raw = Some (c # t)" by blast
  obtain col dir where cd: "(if c = CHR ''-'' then (t, ''DESC'') else (c # t, ''ASC'')) = (col, dir)" by fastforce
  then have "dir \<in> {''ASC'', ''DESC''}" by (auto split: if_splits)
  moreover have "order_sql raw allowed fallback =
      (if list_ex (\<lambda>a. to_lower a = to_lower (trim col)) allowed then to_lower (trim col) @ '' '' @ dir else fallback)"
    by (simp add: order_sql_def raw cd)
  ultimately show ?thesis unfolding list_ex_iff by metis
next
  case False
  then show ?thesis by (cases raw) (auto simp: order_sql_def split: list.splits)
qed

section \<open>What the guards let through\<close>

text \<open>The loopback address written as an IPv4-mapped IPv6 address is not a forbidden webhook target.\<close>

lemma mapped_loopback_passes: "\<not> is_forbidden_ip (V6 0xFFFF7F000001)" "is_forbidden_ip (V4 0x7F000001)"
  by (simp_all add: v6_forbidden_def v4_forbidden_def segment_def octet_def)

text \<open>The key of the limiter and the test for local requests follow what the client writes into a header.\<close>

lemma split_on_single: "c \<notin> set s \<Longrightarrow> split_on c s = [s]"
  by (induction s) (auto split: list.splits)

lemma real_ip_value: "h_str [(''x-real-ip'', HText s)] ''x-real-ip'' = hv_str (HText s)"
  by (simp add: h_str_def h_get_def to_lower_def ascii_lower_def)

lemma limiter_key_forged:
  assumes "np_ip p s = Some ip" "s \<noteq> []" "trim s = s" "CHR '','' \<notin> set s"
  shows "client_ip_key p [(''x-real-ip'', HText s)] peer = np_show_ip p ip"
  using assms by (simp add: client_ip_key_def header_ip_key_def real_ip_value split_on_single or_else_def unwrap_or_def Let_def)

lemma localhost_forged:
  assumes "np_ip p s = Some (V4 0x7F000001)" "trim s = s" "CHR '','' \<notin> set s"
  shows "is_localhost_request p [(''x-real-ip'', HText s)]"
  using assms by (simp add: is_localhost_request_def forwarded_ip_def real_ip_value split_on_single or_else_def octet_def)

end
