(* ===== verification/Spec2Isabelle.thy ===== *)
theory Spec2Isabelle
  imports Proxy_Examples Gateway_Front Flow_Tables OAuth_Examples Passkey_Examples Browser_Sessions Server_Limits
begin

text \<open>
  A verification of the volta gateway and its auth server.

  \<^bold>\<open>The program.\<close> volta is an authenticating reverse proxy (\<open>src/gateway\<close>) with its own auth server
  (\<open>src/auth-server\<close>) on a shared library (\<open>src/auth-core\<close>). A request reaches \<open>ProxyService::handle\<close>
  of the gateway: rate limit, request flow (routing, traversal and allowlist checks), backend
  selection, authentication (a call to the auth server's \<open>/auth/verify\<close>, or in-process token
  verification when that fails and the configuration allows it), roles, plugins, geography, cache,
  circuit breaker, and then the backend, with one retry and an optional mirror. The auth server keeps
  users, tenants, sessions, second factors, passkeys and invitations in PostgreSQL, answers the gateway's
  verification requests, signs users in (through an upstream provider, a mailed link or a passkey),
  registers users, is an OpenID provider for other applications, and manages tenants. The two sides
  share the policy engine, the token and session code, and the flow definitions of the library.

  \<^bold>\<open>How the code is modelled.\<close> A struct is a record with the fields of the source, an enum a datatype
  with its constructors. A handler is one definition, or one definition per stage in the order of the
  code, that takes the state and returns the answer and the state afterwards; an early return is a
  branch (\<open>Inl\<close>, an error response). A table of the database is the list of its rows and an SQL
  statement the update it performs; statements in one transaction are one definition, statements that
  are not are composed, and where an interleaving matters the parts are definitions of their own. Random
  values, fresh ids and the clock are arguments. Counters that can wrap are words (\<open>u32\<close>, \<open>u64\<close>, \<open>i64\<close>).
  Code outside the repository (the tramli flow engine, \<open>jsonwebtoken\<close>, SHA-256 and HMAC, base64, JSON and
  YAML, UUID text, the network) is a parameter: a record of the calls made of it (\<open>flow_engine\<close>,
  \<open>jwt_ops\<close>, \<open>mac_ops\<close>, \<open>dpop_ops\<close>, \<open>world\<close>, \<open>op_env\<close>, \<open>app_state\<close>, \<open>login_env\<close>, \<open>webauthn\<close>, \<open>front_env\<close>), with what the code relies on as hypotheses that
  a witness discharges on concrete functions.

  \<^bold>\<open>The theories.\<close>

  \<^item> \<open>Rust_Prelude\<close>: strings, parsing of numbers, options, association lists; \<open>Headers\<close>: header maps.

  \<^item> \<open>Policy\<close> (\<open>auth-core/src/policy.rs\<close>): roles and permissions; the locale \<open>role_ranking\<close> is the contract
    of the minimum-role check. \<open>Assertion\<close> (\<open>gateway/src/assertion.rs\<close>): the signed identity assertion, its
    round trip and what verification implies.

  \<^item> \<open>Config_Types\<close>, \<open>Gateway_Config\<close> (\<open>gateway/src/config.rs\<close>): the configuration, its validation and the
    tables derived from it; \<open>Config_Overlay\<close> (\<open>config_overlay.rs\<close>): merge patches through the admin API,
    all or nothing, kept across restarts.

  \<^item> \<open>Routing\<close>, \<open>Resilience\<close> (\<open>gateway/src/proxy.rs\<close>): route lookup, backend selection, health; rate limiter
    and circuit breaker, the latter as a refinement of a two-state machine. \<open>Response_Cache\<close> (\<open>cache.rs\<close>)
    and \<open>Plugins\<close> (\<open>plugin.rs\<close>). The locale \<open>fixed_window\<close> is interpreted on the gateway's limiter, the
    per-user plugin and the auth server's limiter, \<open>ttl_cache\<close> on the response and the billing cache.

  \<^item> \<open>Session_Jwt\<close> (\<open>auth-core/src/jwt.rs\<close>, \<open>jwks.rs\<close>, \<open>session.rs\<close>) and \<open>Auth_Client\<close> (\<open>gateway/src/auth.rs\<close>):
    token verification, the key cache, the verification request and the degraded fallback.

  \<^item> \<open>Proxy_Flow\<close> (\<open>flow.rs\<close>, \<open>state.rs\<close>), \<open>Proxy_Service\<close> (\<open>proxy.rs\<close>), \<open>Websocket\<close> (\<open>websocket.rs\<close>): the request
    flow, the handler stage by stage, upgrades. \<open>Proxy_Safety\<close> traces everything the handler sends back
    to the decisions before it; \<open>Proxy_Answers\<close> shows what a client can see; \<open>Proxy_Examples\<close> has runs.
    \<open>Gateway_Front\<close> (\<open>main.rs\<close>, \<open>lifecycle.rs\<close>, \<open>admin_auth.rs\<close>) is the service around the handler:
    redirect to HTTPS, metrics, health, draining and the admin API, which changes the overlay.

  \<^item> \<open>Flow_Validate\<close>, \<open>Flow_Tables\<close> (\<open>auth-core/src/flow/validate.rs\<close>, \<open>auth-server/src/handlers/viz.rs\<close>, \<open>main.rs\<close>):
    the startup validation of flow definitions against declarative specifications, and the ten tables.

  \<^item> \<open>Session_Store\<close> (\<open>auth-core/src/store/session.rs\<close>, \<open>pg.rs\<close>): two implementations of one trait, a locale
    for the trait and a refinement between them. \<open>Mfa\<close> (\<open>totp.rs\<close>, \<open>handlers/mfa.rs\<close>): the second factor.
    \<open>Registration\<close> (\<open>auth-core/src/runtime.rs\<close>): registration, email verification, login codes.

  \<^item> \<open>Accounts\<close>, \<open>Tenancy\<close> (\<open>pg.rs\<close>, \<open>handlers/manage.rs\<close>): users, tenants, members, invitations.

  \<^item> \<open>Auth_State\<close>, \<open>Forward_Auth\<close> (\<open>auth-server/src/handlers/auth.rs\<close>, \<open>helpers.rs\<close>, \<open>local_bypass.rs\<close>,
    \<open>state.rs\<close>): the state of the auth server and its verification endpoint, logout, token refresh,
    tenant switching, cookies and audit records. A lookup that the database fails is a branch (\<open>down\<close>);
    \<open>None\<close> is the panic of an unwrapped header value. \<open>Forward_Safety\<close> composes the endpoint with the
    gateway's client of it.

  \<^item> \<open>One_Time\<close>: the locale \<open>one_time\<close>, the contract of a table whose entries can be taken once. It is
    interpreted on authorization codes, login flows, mailed links and passkey challenges.

  \<^item> \<open>Idp\<close> (\<open>auth-core/src/oidc.rs\<close>, \<open>idp.rs\<close>, \<open>crypto.rs\<close>): the clients of upstream identity providers.
    \<open>Login\<close> (\<open>handlers/oidc.rs\<close>, \<open>handlers/magic_link.rs\<close>, \<open>risk.rs\<close>): signing in, from the start of the
    flow to the session; \<open>Login_Safety\<close> its properties, \<open>Login_Examples\<close> runs. \<open>Passkey\<close>,
    \<open>Passkey_Safety\<close>, \<open>Passkey_Examples\<close>: the same for passkeys. \<open>Browser_Sessions\<close> (\<open>handlers/accounts.rs\<close>,
    \<open>handlers/session.rs\<close>): the account chooser and the sessions a user sees and ends.
    \<open>Server_Limits\<close> (\<open>rate_limit.rs\<close>, \<open>security.rs\<close>, \<open>pagination.rs\<close>): the guards of the server.

  \<^item> \<open>Dpop\<close> (\<open>auth-core/src/dpop.rs\<close>): proofs of possession. \<open>OAuth_Store\<close>, \<open>OAuth_Provider\<close> (\<open>pg.rs\<close>,
    \<open>handlers/op.rs\<close>, \<open>handlers/device.rs\<close>, \<open>handlers/signing_key.rs\<close>): the OpenID provider. \<open>OAuth_Safety\<close>
    gives the step relation \<open>op_step\<close> over all its endpoints and the properties of codes; \<open>OAuth_Refresh\<close> those of refresh tokens; \<open>OAuth_Devices\<close> consent, devices, exchange and the
    well-formedness invariant; \<open>OAuth_Examples\<close> has runs.

  \<^bold>\<open>What the theorems show.\<close> Of the gateway: nothing reaches a backend without the authentication, the role,
  the validation and the limits its route asks for; identity headers come from the auth server and
  nowhere else; private requests leave the shared cache alone; every request is answered; a change through the admin
  API needs the token the deployment set, and has exactly the effect of its patch. Of both together:
  an identity the gateway passes on is that of a live session, a token or a grant of the auth server, or of its
  local-network bypass, a session that owes a second factor is let through to nothing but its pages, and a logout ends access.
  Of signing in: a session belongs to the account the upstream provider named, a login state is spent
  by its first use, a passkey signs in its owner and a cloned one is refused, and users end or
  extend their own sessions only. Of the rest of the auth server: sessions that are revoked stay dead in both stores; second-factor and recovery codes
  work once; login codes allow five guesses; registration completes; role changes respect the
  caller's rank and a tenant keeps an owner; authorization codes are bound and single-use, refresh
  families linear, device tokens approved. Of the flow definitions: the validator accepts exactly
  the well-formed ones. Lemmas named in the findings of the manifest show where the code does less
  than it says.

  \<^bold>\<open>Bounds and loops.\<close> Loops over finite data are total functions with a measure (the reachability,
  cycle and contract loops of \<open>Flow_Validate\<close>, eviction in \<open>Response_Cache\<close>). No fuel is used: the one
  loop that need not end, percent-decoding of a path, is a partial function to \<open>option\<close> in \<open>Proxy_Flow\<close>,
  where termination is proved for ASCII output and divergence for a concrete input, and the request
  handler carries the \<open>None\<close> through. Concurrency is modelled where the code's atomicity matters:
  WebSocket upgrades as interleaved steps, two demotions, two polls, two guesses as explicit halves.

  \<^bold>\<open>Not modelled.\<close> TLS, ACME, raw TCP proxying, process start-up, the accept loop and file watching
  (\<open>gateway/src/tls.rs\<close>, \<open>dns01.rs\<close>, \<open>l4_proxy.rs\<close>, \<open>config_source.rs\<close>, the rest of \<open>main.rs\<close>): I/O around
  third-party libraries. Parsing and printing of YAML, JSON, XML and HTML pages: the data is modelled,
  the text is not. SAML (\<open>saml*.rs\<close>): XML and RSA of third-party code. Delivery of mail and
  notifications, the administrative listings, reading the limits from the environment
  (\<open>RateLimiter::from_env\<close>) and the command-line tools. Outside forward authentication the database is
  taken to answer; its failures other than conflicts on unique columns are left out.
\<close>

end
